(* ===== verification/Ditto_Prelude.thy ===== *)
theory Ditto_Prelude
  imports Main "HOL-Library.Word"
begin

text \<open>
  Shared ground of the development.  It names the Go integer types as words of their width,
  collects the rewrite rules on single-bit masks that the access-control and window theories
  use (collection \<open>mask_bits\<close>), models the pieces of the Go standard library the
  sources call (\<open>strconv.ParseUint\<close>, \<open>%d\<close> formatting,
  \<open>strings.HasPrefix\<close>, \<open>strings.CutSuffix\<close>) and proves the generic
  list lemmas that several components need.
\<close>

unbundle bit_operations_syntax

section \<open>Machine integers\<close>

type_synonym u8 = "8 word"
type_synonym u16 = "16 word"
type_synonym u32 = "32 word"
type_synonym u64 = "64 word"

named_theorems mask_bits "single-bit masks read as bit tests"

lemma and_pow_eq_0 [mask_bits]:
  fixes w :: "'a::len word"
  shows "w AND 2 ^ k = 0 \<longleftrightarrow> \<not> bit w k"
  by (simp add: and_exp_eq_0_iff_not_bit)

lemma and_numeral_pow_eq_0:
  fixes w :: "'a::len word"
  assumes "numeral m = (2 ^ k :: 'a word)"
  shows "w AND numeral m = 0 \<longleftrightarrow> \<not> bit w k"
  by (simp add: assms and_pow_eq_0)

lemma bit_numeral_pow:
  assumes "numeral m = (2 ^ k :: 'a::len word)" and "k < LENGTH('a)"
  shows "bit (numeral m :: 'a word) n \<longleftrightarrow> n = k"
  using assms(2) by (auto simp: assms(1) bit_exp_iff)

lemma and_literal_eq_0 [mask_bits]:
  fixes w :: "'a::len word"
  shows "w AND 1 = 0 \<longleftrightarrow> \<not> bit w 0"
    and "w AND 0x2 = 0 \<longleftrightarrow> \<not> bit w 1"
    and "w AND 0x4 = 0 \<longleftrightarrow> \<not> bit w 2"
    and "w AND 0x8 = 0 \<longleftrightarrow> \<not> bit w 3"
    and "w AND 0x10 = 0 \<longleftrightarrow> \<not> bit w 4"
    and "w AND 0x20 = 0 \<longleftrightarrow> \<not> bit w 5"
    and "w AND 0x40 = 0 \<longleftrightarrow> \<not> bit w 6"
    and "w AND 0x80 = 0 \<longleftrightarrow> \<not> bit w 7"
    and "w AND 0x100 = 0 \<longleftrightarrow> \<not> bit w 8"
    and "w AND 0x200 = 0 \<longleftrightarrow> \<not> bit w 9"
    and "w AND 0x400 = 0 \<longleftrightarrow> \<not> bit w 10"
    and "w AND 0x800 = 0 \<longleftrightarrow> \<not> bit w 11"
    and "w AND 0x1000 = 0 \<longleftrightarrow> \<not> bit w 12"
    and "w AND 0x2000 = 0 \<longleftrightarrow> \<not> bit w 13"
    and "w AND 0x4000 = 0 \<longleftrightarrow> \<not> bit w 14"
    and "w AND 0x8000 = 0 \<longleftrightarrow> \<not> bit w 15"
    and "w AND 0x10000 = 0 \<longleftrightarrow> \<not> bit w 16"
    and "w AND 0x20000 = 0 \<longleftrightarrow> \<not> bit w 17"
    and "w AND 0x40000 = 0 \<longleftrightarrow> \<not> bit w 18"
    and "w AND 0x80000 = 0 \<longleftrightarrow> \<not> bit w 19"
    and "w AND 0x100000 = 0 \<longleftrightarrow> \<not> bit w 20"
    and "w AND 0x200000 = 0 \<longleftrightarrow> \<not> bit w 21"
    and "w AND 0x400000 = 0 \<longleftrightarrow> \<not> bit w 22"
    and "w AND 0x800000 = 0 \<longleftrightarrow> \<not> bit w 23"
    and "w AND 0x1000000 = 0 \<longleftrightarrow> \<not> bit w 24"
    and "w AND 0x2000000 = 0 \<longleftrightarrow> \<not> bit w 25"
    and "w AND 0x4000000 = 0 \<longleftrightarrow> \<not> bit w 26"
    and "w AND 0x8000000 = 0 \<longleftrightarrow> \<not> bit w 27"
    and "w AND 0x10000000 = 0 \<longleftrightarrow> \<not> bit w 28"
    and "w AND 0x20000000 = 0 \<longleftrightarrow> \<not> bit w 29"
    and "w AND 0x40000000 = 0 \<longleftrightarrow> \<not> bit w 30"
    and "w AND 0x80000000 = 0 \<longleftrightarrow> \<not> bit w 31"
  using and_pow_eq_0 [of w] and_pow_eq_0 [of w 0] by (simp_all add: and_numeral_pow_eq_0)

lemma bit_or_if [mask_bits]:
  fixes x m :: "'a::len word"
  shows "bit (if c then x OR m else x) n \<longleftrightarrow> bit x n \<or> c \<and> bit m n"
  by (simp add: bit_simps)

lemma all_less_8:
  "(\<forall>n < (8::nat). P n) \<longleftrightarrow> P 0 \<and> P 1 \<and> P 2 \<and> P 3 \<and> P 4 \<and> P 5 \<and> P 6 \<and> P 7"
  by (simp add: numeral_eq_Suc All_less_Suc) blast

lemma all_less_32:
  "(\<forall>n < (32::nat). P n) \<longleftrightarrow>
     (\<forall>n < 8. P n) \<and> (\<forall>n < 8. P (n + 8)) \<and> (\<forall>n < 8. P (n + 16)) \<and> (\<forall>n < 8. P (n + 24))"
  (is "?l \<longleftrightarrow> ?r")
proof
  assume r: ?r
  show ?l
  proof (intro allI impI)
    fix n :: nat
    assume "n < 32"
    then consider "n < 8" | "n - 8 < 8 \<and> n = (n - 8) + 8" | "n - 16 < 8 \<and> n = (n - 16) + 16"
      | "n - 24 < 8 \<and> n = (n - 24) + 24" by linarith
    then show "P n" using r by cases metis+
  qed
qed simp

lemma word_eq_iff_bits:
  fixes a b :: "'a::len word"
  shows "a = b \<longleftrightarrow> (\<forall>n < LENGTH('a). bit a n = bit b n)"
  by (auto intro: bit_word_eqI)

lemmas word_cases = word_eq_iff_bits all_less_32 all_less_8 mask_bits bit_simps

lemma mask_subset_iff:
  fixes a b :: "'a::len word"
  shows "a AND NOT b = 0 \<longleftrightarrow> (\<forall>n < LENGTH('a). bit a n \<longrightarrow> bit b n)"
  by (auto simp: word_eq_iff_bits bit_simps)

lemma or_eq_0_iff [simp]:
  fixes a b :: "'a::len word"
  shows "a OR b = 0 \<longleftrightarrow> a = 0 \<and> b = 0"
  by (auto simp: word_eq_iff_bits bit_simps)

lemma and_eq_self_iff:
  fixes a b :: "'a::len word"
  shows "a AND b = a \<longleftrightarrow> a AND NOT b = 0"
  by (auto simp: word_eq_iff_bits bit_simps)

lemma and_not_mask_eq: "k AND NOT (mask n) = k div 2 ^ n * 2 ^ n" for k :: int
proof -
  have "k AND NOT (mask n) = push_bit n (drop_bit n k)"
    by (rule bit_eqI) (auto simp: bit_simps)
  then show ?thesis by (simp add: push_bit_eq_mult drop_bit_eq_div)
qed

lemma unat_less_2p: "unat (w :: 'a::len word) < 2 ^ LENGTH('a)"
  by (rule unsigned_less)

section \<open>Decimal text\<close>

definition digit_char :: "nat \<Rightarrow> char" where
  "digit_char d = char_of (48 + d)"

definition is_digit :: "char \<Rightarrow> bool" where
  "is_digit c \<longleftrightarrow> 48 \<le> (of_char c :: nat) \<and> (of_char c :: nat) \<le> 57"

definition digit_val :: "char \<Rightarrow> nat" where
  "digit_val c = of_char c - 48"

text \<open>The text \<open>fmt.Sprintf("%d", n)\<close> yields for a non-negative number.\<close>

fun show_nat :: "nat \<Rightarrow> string" where
  "show_nat n = (if n < 10 then [digit_char n]
                 else show_nat (n div 10) @ [digit_char (n mod 10)])"

declare show_nat.simps [simp del]

definition digits_val :: "string \<Rightarrow> nat" where
  "digits_val s = foldl (\<lambda>acc c. acc * 10 + digit_val c) 0 s"

text \<open>\<open>strconv.ParseUint(s, 10, bits)\<close>: \<open>None\<close> is the syntax or range error.\<close>

definition parse_uint :: "nat \<Rightarrow> string \<Rightarrow> nat option" where
  "parse_uint bits s =
     (if s \<noteq> [] \<and> list_all is_digit s \<and> digits_val s < 2 ^ bits
      then Some (digits_val s) else None)"

lemma of_char_digit_char:
  assumes "d < 10"
  shows "(of_char (digit_char d) :: nat) = 48 + d"
  using assms by (simp add: digit_char_def)

lemma is_digit_digit_char: "d < 10 \<Longrightarrow> is_digit (digit_char d)"
  by (simp add: is_digit_def of_char_digit_char)

lemma digit_val_digit_char: "d < 10 \<Longrightarrow> digit_val (digit_char d) = d"
  by (simp add: digit_val_def of_char_digit_char)

lemma show_nat_nonempty [simp]: "show_nat n \<noteq> []"
  by (subst show_nat.simps) simp

lemma show_nat_digits: "list_all is_digit (show_nat n)"
proof (induction n rule: show_nat.induct)
  case (1 n)
  then show ?case
    by (subst show_nat.simps) (simp add: is_digit_digit_char)
qed

lemma digits_val_show_nat [simp]: "digits_val (show_nat n) = n"
proof (induction n rule: show_nat.induct)
  case (1 n)
  then show ?case
    by (subst show_nat.simps) (auto simp: digits_val_def digit_val_digit_char)
qed

lemma parse_show_nat: "n < 2 ^ bits \<Longrightarrow> parse_uint bits (show_nat n) = Some n"
  by (simp add: parse_uint_def show_nat_digits)

lemma show_nat_inject: "show_nat m = show_nat n \<longleftrightarrow> m = n"
  by (metis digits_val_show_nat)

lemma parse_uint_bound: "parse_uint bits s = Some n \<Longrightarrow> n < 2 ^ bits"
  by (auto simp: parse_uint_def split: if_splits)

section \<open>Prefixes and suffixes of strings\<close>

definition has_prefix :: "string \<Rightarrow> string \<Rightarrow> bool" where
  "has_prefix s p \<longleftrightarrow> take (length p) s = p"

definition trim_prefix :: "string \<Rightarrow> string \<Rightarrow> string" where
  "trim_prefix s p = (if has_prefix s p then drop (length p) s else s)"

definition has_suffix :: "string \<Rightarrow> string \<Rightarrow> bool" where
  "has_suffix s p \<longleftrightarrow> length p \<le> length s \<and> drop (length s - length p) s = p"

text \<open>\<open>strings.CutSuffix\<close>: the text before the suffix and whether it was there.\<close>

definition cut_suffix :: "string \<Rightarrow> string \<Rightarrow> string option" where
  "cut_suffix s p = (if has_suffix s p then Some (take (length s - length p) s) else None)"

lemma has_prefix_append [simp]: "has_prefix (p @ s) p"
  by (simp add: has_prefix_def)

lemma has_prefix_iff: "has_prefix s p \<longleftrightarrow> (\<exists>r. s = p @ r)"
  by (metis append_eq_conv_conj append_take_drop_id has_prefix_def)

lemma trim_prefix_append [simp]: "trim_prefix (p @ s) p = s"
  by (simp add: trim_prefix_def)

lemma cut_suffix_append [simp]: "cut_suffix (s @ p) p = Some s"
  by (simp add: cut_suffix_def has_suffix_def)

lemma cut_suffix_Some: "cut_suffix s p = Some r \<longleftrightarrow> s = r @ p"
  by (auto simp: cut_suffix_def has_suffix_def split: if_splits)
    (metis append_take_drop_id)

text \<open>\<open>strings.Split\<close> on a one-character separator.\<close>

fun split_on :: "char \<Rightarrow> string \<Rightarrow> string list" where
  "split_on c [] = [[]]"
| "split_on c (x # xs) =
     (if x = c then [] # split_on c xs
      else case split_on c xs of [] \<Rightarrow> [[x]] | w # ws \<Rightarrow> (x # w) # ws)"

fun join_on :: "char \<Rightarrow> string list \<Rightarrow> string" where
  "join_on c [] = []"
| "join_on c [w] = w"
| "join_on c (w # ws) = w @ c # join_on c ws"

lemma split_on_nonempty [simp]: "split_on c s \<noteq> []"
  by (cases s) (auto split: list.split)

lemma join_split_on [simp]: "join_on c (split_on c s) = s"
proof (induction s)
  case (Cons x xs)
  note IH = Cons.IH
  show ?case
  proof (cases "split_on c xs")
    case (Cons w ws)
    with IH show ?thesis by (cases ws) auto
  qed simp
qed simp

lemma split_on_word: "c \<notin> set w \<Longrightarrow> split_on c (w @ c # s) = w # split_on c s"
  by (induction w) auto

lemma split_on_single: "c \<notin> set w \<Longrightarrow> split_on c w = [w]"
  by (induction w) auto

section \<open>Lists\<close>

text \<open>\<open>find_index\<close> of the first element with a property, as the \<open>for i := range\<close>
  loops with an early \<open>break\<close> compute it.\<close>

fun find_index :: "('a \<Rightarrow> bool) \<Rightarrow> 'a list \<Rightarrow> nat option" where
  "find_index P [] = None"
| "find_index P (x # xs) = (if P x then Some 0 else map_option Suc (find_index P xs))"

lemma find_index_None [simp]: "find_index P xs = None \<longleftrightarrow> (\<forall>x \<in> set xs. \<not> P x)"
  by (induction xs) auto

lemma find_index_Some:
  "find_index P xs = Some i \<Longrightarrow> i < length xs \<and> P (xs ! i) \<and> (\<forall>j < i. \<not> P (xs ! j))"
proof (induction xs arbitrary: i)
  case (Cons x xs)
  then show ?case
    by (cases i) (auto split: if_splits simp: less_Suc_eq_0_disj)
qed simp

lemma in_set_map_filter: "x \<in> set (List.map_filter f xs) \<longleftrightarrow> (\<exists>y \<in> set xs. f y = Some x)"
  by (auto simp: List.map_filter_def image_iff)

lemma bex_map_filter:
  "(\<exists>x \<in> set (List.map_filter f xs). P x) \<longleftrightarrow> (\<exists>y \<in> set xs. \<exists>x. f y = Some x \<and> P x)"
  unfolding Bex_def in_set_map_filter by blast

lemma ball_map_filter:
  "(\<forall>x \<in> set (List.map_filter f xs). P x) \<longleftrightarrow> (\<forall>y \<in> set xs. \<forall>x. f y = Some x \<longrightarrow> P x)"
  unfolding Ball_def in_set_map_filter by blast

lemma find_Some_in_set: "find P xs = Some x \<Longrightarrow> x \<in> set xs \<and> P x"
  by (induction xs) (auto split: if_splits)

lemma take_append_take [simp]: "take n (take n xs @ ys) = take n (xs @ ys)"
  by (simp add: min_def)

definition remove_at :: "nat \<Rightarrow> 'a list \<Rightarrow> 'a list" where
  "remove_at i xs = take i xs @ drop (Suc i) xs"

lemma set_remove_at_subset: "set (remove_at i xs) \<subseteq> set xs"
  by (auto simp: remove_at_def dest: in_set_takeD in_set_dropD)

lemma length_remove_at: "i < length xs \<Longrightarrow> length (remove_at i xs) = length xs - 1"
  by (simp add: remove_at_def)

end
