(* ===== verification/ACL_Types.thy ===== *)
theory ACL_Types
  imports Ditto_Prelude
begin

text \<open>
  The data of \<open>pkg/metadata/acl\<close>: NFSv4 access-control entries and lists
  (\<open>types.go\<close>), the translation of entry flags between the NFSv4 and the Windows
  layout (\<open>flags.go\<close>), the expansion of generic Windows rights
  (\<open>generic.go\<close>) and the validation of client-supplied lists
  (\<open>validate.go\<close>).  A nil pointer is \<open>None\<close>; a nil and an empty slice of
  entries are told apart only for the system list, where the code does so.
\<close>

section \<open>Constants (types.go)\<close>

abbreviation (input) ACE4_ACCESS_ALLOWED_ACE_TYPE :: u32 where "ACE4_ACCESS_ALLOWED_ACE_TYPE \<equiv> 0"
abbreviation (input) ACE4_ACCESS_DENIED_ACE_TYPE :: u32 where "ACE4_ACCESS_DENIED_ACE_TYPE \<equiv> 1"
abbreviation (input) ACE4_SYSTEM_AUDIT_ACE_TYPE :: u32 where "ACE4_SYSTEM_AUDIT_ACE_TYPE \<equiv> 2"
abbreviation (input) ACE4_SYSTEM_ALARM_ACE_TYPE :: u32 where "ACE4_SYSTEM_ALARM_ACE_TYPE \<equiv> 3"

abbreviation (input) ACE4_FILE_INHERIT_ACE :: u32 where "ACE4_FILE_INHERIT_ACE \<equiv> 0x01"
abbreviation (input) ACE4_DIRECTORY_INHERIT_ACE :: u32 where "ACE4_DIRECTORY_INHERIT_ACE \<equiv> 0x02"
abbreviation (input) ACE4_NO_PROPAGATE_INHERIT_ACE :: u32 where "ACE4_NO_PROPAGATE_INHERIT_ACE \<equiv> 0x04"
abbreviation (input) ACE4_INHERIT_ONLY_ACE :: u32 where "ACE4_INHERIT_ONLY_ACE \<equiv> 0x08"
abbreviation (input) ACE4_SUCCESSFUL_ACCESS_ACE_FLAG :: u32 where "ACE4_SUCCESSFUL_ACCESS_ACE_FLAG \<equiv> 0x10"
abbreviation (input) ACE4_FAILED_ACCESS_ACE_FLAG :: u32 where "ACE4_FAILED_ACCESS_ACE_FLAG \<equiv> 0x20"
abbreviation (input) ACE4_INHERITED_ACE :: u32 where "ACE4_INHERITED_ACE \<equiv> 0x80"

abbreviation (input) ACE4_READ_DATA :: u32 where "ACE4_READ_DATA \<equiv> 0x00000001"
abbreviation (input) ACE4_WRITE_DATA :: u32 where "ACE4_WRITE_DATA \<equiv> 0x00000002"
abbreviation (input) ACE4_APPEND_DATA :: u32 where "ACE4_APPEND_DATA \<equiv> 0x00000004"
abbreviation (input) ACE4_READ_NAMED_ATTRS :: u32 where "ACE4_READ_NAMED_ATTRS \<equiv> 0x00000008"
abbreviation (input) ACE4_WRITE_NAMED_ATTRS :: u32 where "ACE4_WRITE_NAMED_ATTRS \<equiv> 0x00000010"
abbreviation (input) ACE4_EXECUTE :: u32 where "ACE4_EXECUTE \<equiv> 0x00000020"
abbreviation (input) ACE4_DELETE_CHILD :: u32 where "ACE4_DELETE_CHILD \<equiv> 0x00000040"
abbreviation (input) ACE4_READ_ATTRIBUTES :: u32 where "ACE4_READ_ATTRIBUTES \<equiv> 0x00000080"
abbreviation (input) ACE4_WRITE_ATTRIBUTES :: u32 where "ACE4_WRITE_ATTRIBUTES \<equiv> 0x00000100"
abbreviation (input) ACE4_DELETE :: u32 where "ACE4_DELETE \<equiv> 0x00010000"
abbreviation (input) ACE4_READ_ACL :: u32 where "ACE4_READ_ACL \<equiv> 0x00020000"
abbreviation (input) ACE4_WRITE_ACL :: u32 where "ACE4_WRITE_ACL \<equiv> 0x00040000"
abbreviation (input) ACE4_WRITE_OWNER :: u32 where "ACE4_WRITE_OWNER \<equiv> 0x00080000"
abbreviation (input) ACE4_SYNCHRONIZE :: u32 where "ACE4_SYNCHRONIZE \<equiv> 0x00100000"

abbreviation (input) SpecialOwner :: string where "SpecialOwner \<equiv> ''OWNER@''"
abbreviation (input) SpecialGroup :: string where "SpecialGroup \<equiv> ''GROUP@''"
abbreviation (input) SpecialEveryone :: string where "SpecialEveryone \<equiv> ''EVERYONE@''"
abbreviation (input) SpecialCreatorOwner :: string where "SpecialCreatorOwner \<equiv> ''CreatorOwner@''"
abbreviation (input) SpecialCreatorGroup :: string where "SpecialCreatorGroup \<equiv> ''CreatorGroup@''"
abbreviation (input) SpecialSystem :: string where "SpecialSystem \<equiv> ''SYSTEM@''"
abbreviation (input) SpecialAdministrators :: string where "SpecialAdministrators \<equiv> ''ADMINISTRATORS@''"
abbreviation (input) SpecialOwnerRights :: string where "SpecialOwnerRights \<equiv> ''OwnerRights@''"

abbreviation (input) MaxACECount :: nat where "MaxACECount \<equiv> 128"
abbreviation (input) MaxDACLSize :: int where "MaxDACLSize \<equiv> 65536"

section \<open>Entries and lists (types.go)\<close>

record ACE =
  aceType :: u32
  aceFlag :: u32
  aceMask :: u32
  aceWho :: string
  aceTwin :: bool

datatype ACLSource = ACLSourceUnknown | ACLSourcePOSIXDerived | ACLSourceSMBExplicit
  | ACLSourceNFSExplicit | ACLSourceWindowsDefault | ACLSourceShareGrant

record ACL =
  aclACEs :: "ACE list"
  aclSource :: ACLSource
  aclProtected :: bool
  aclAutoInherited :: bool
  aclNullDACL :: bool
  aclSACL :: "ACE list option"

definition isSpecialWho :: "string \<Rightarrow> bool" where
  "isSpecialWho who \<longleftrightarrow> who = SpecialOwner \<or> who = SpecialGroup \<or> who = SpecialEveryone
     \<or> who = SpecialOwnerRights"

definition IsInheritOnly :: "ACE \<Rightarrow> bool" where
  "IsInheritOnly a \<longleftrightarrow> aceFlag a AND ACE4_INHERIT_ONLY_ACE \<noteq> 0"

definition IsInherited :: "ACE \<Rightarrow> bool" where
  "IsInherited a \<longleftrightarrow> aceFlag a AND ACE4_INHERITED_ACE \<noteq> 0"

definition typeString :: "ACE \<Rightarrow> string" where
  "typeString a =
     (if aceType a = ACE4_ACCESS_ALLOWED_ACE_TYPE then ''ALLOW''
      else if aceType a = ACE4_ACCESS_DENIED_ACE_TYPE then ''DENY''
      else if aceType a = ACE4_SYSTEM_AUDIT_ACE_TYPE then ''AUDIT''
      else if aceType a = ACE4_SYSTEM_ALARM_ACE_TYPE then ''ALARM''
      else ''UNKNOWN('' @ show_nat (unat (aceType a)) @ '')'')"

section \<open>Flag translation (flags.go)\<close>

definition NFSv4FlagsToWindowsFlags :: "u32 \<Rightarrow> u8" where
  "NFSv4FlagsToWindowsFlags nfsFlags =
     (let winFlags = (0 :: u8);
          winFlags = (if nfsFlags AND ACE4_FILE_INHERIT_ACE \<noteq> 0 then winFlags OR 0x01 else winFlags);
          winFlags = (if nfsFlags AND ACE4_DIRECTORY_INHERIT_ACE \<noteq> 0 then winFlags OR 0x02 else winFlags);
          winFlags = (if nfsFlags AND ACE4_NO_PROPAGATE_INHERIT_ACE \<noteq> 0 then winFlags OR 0x04 else winFlags);
          winFlags = (if nfsFlags AND ACE4_INHERIT_ONLY_ACE \<noteq> 0 then winFlags OR 0x08 else winFlags);
          winFlags = (if nfsFlags AND ACE4_SUCCESSFUL_ACCESS_ACE_FLAG \<noteq> 0 then winFlags OR 0x40 else winFlags);
          winFlags = (if nfsFlags AND ACE4_FAILED_ACCESS_ACE_FLAG \<noteq> 0 then winFlags OR 0x80 else winFlags);
          winFlags = (if nfsFlags AND ACE4_INHERITED_ACE \<noteq> 0 then winFlags OR 0x10 else winFlags)
      in winFlags)"

definition WindowsFlagsToNFSv4Flags :: "u8 \<Rightarrow> u32" where
  "WindowsFlagsToNFSv4Flags winFlags =
     (let nfsFlags = (0 :: u32);
          nfsFlags = (if winFlags AND 0x01 \<noteq> 0 then nfsFlags OR ACE4_FILE_INHERIT_ACE else nfsFlags);
          nfsFlags = (if winFlags AND 0x02 \<noteq> 0 then nfsFlags OR ACE4_DIRECTORY_INHERIT_ACE else nfsFlags);
          nfsFlags = (if winFlags AND 0x04 \<noteq> 0 then nfsFlags OR ACE4_NO_PROPAGATE_INHERIT_ACE else nfsFlags);
          nfsFlags = (if winFlags AND 0x08 \<noteq> 0 then nfsFlags OR ACE4_INHERIT_ONLY_ACE else nfsFlags);
          nfsFlags = (if winFlags AND 0x40 \<noteq> 0 then nfsFlags OR ACE4_SUCCESSFUL_ACCESS_ACE_FLAG else nfsFlags);
          nfsFlags = (if winFlags AND 0x80 \<noteq> 0 then nfsFlags OR ACE4_FAILED_ACCESS_ACE_FLAG else nfsFlags);
          nfsFlags = (if winFlags AND 0x10 \<noteq> 0 then nfsFlags OR ACE4_INHERITED_ACE else nfsFlags)
      in nfsFlags)"

section \<open>Generic rights (generic.go)\<close>

abbreviation (input) genericRead :: u32 where "genericRead \<equiv> 0x80000000"
abbreviation (input) genericWrite :: u32 where "genericWrite \<equiv> 0x40000000"
abbreviation (input) genericExecute :: u32 where "genericExecute \<equiv> 0x20000000"
abbreviation (input) genericAll :: u32 where "genericAll \<equiv> 0x10000000"

definition genericReadFile :: u32 where
  "genericReadFile = ACE4_READ_DATA OR ACE4_READ_NAMED_ATTRS OR ACE4_READ_ATTRIBUTES
     OR ACE4_READ_ACL OR ACE4_SYNCHRONIZE"

definition genericWriteFile :: u32 where
  "genericWriteFile = ACE4_WRITE_DATA OR ACE4_APPEND_DATA OR ACE4_WRITE_NAMED_ATTRS
     OR ACE4_WRITE_ATTRIBUTES OR ACE4_READ_ACL OR ACE4_SYNCHRONIZE"

definition genericExecuteFile :: u32 where
  "genericExecuteFile = ACE4_READ_ATTRIBUTES OR ACE4_EXECUTE OR ACE4_READ_ACL
     OR ACE4_SYNCHRONIZE"

definition genericAllFile :: u32 where
  "genericAllFile = ACE4_DELETE OR ACE4_READ_ACL OR ACE4_WRITE_ACL OR ACE4_WRITE_OWNER
     OR ACE4_SYNCHRONIZE OR ACE4_READ_DATA OR ACE4_WRITE_DATA OR ACE4_APPEND_DATA
     OR ACE4_READ_NAMED_ATTRS OR ACE4_WRITE_NAMED_ATTRS OR ACE4_EXECUTE OR ACE4_DELETE_CHILD
     OR ACE4_READ_ATTRIBUTES OR ACE4_WRITE_ATTRIBUTES"

definition ExpandGenericMask :: "u32 \<Rightarrow> u32" where
  "ExpandGenericMask m =
     (let expanded = m;
          expanded = (if expanded AND genericRead \<noteq> 0 then expanded OR genericReadFile else expanded);
          expanded = (if expanded AND genericWrite \<noteq> 0 then expanded OR genericWriteFile else expanded);
          expanded = (if expanded AND genericExecute \<noteq> 0 then expanded OR genericExecuteFile else expanded);
          expanded = (if expanded AND genericAll \<noteq> 0 then expanded OR genericAllFile else expanded)
      in expanded AND NOT (genericRead OR genericWrite OR genericExecute OR genericAll))"

definition GenericDerivedBits :: "u32 \<Rightarrow> u32" where
  "GenericDerivedBits m =
     (let bestEffortGeneric = m AND (genericRead OR genericExecute)
      in if bestEffortGeneric = 0 then 0
         else let named = m AND NOT (genericRead OR genericWrite OR genericExecute OR genericAll)
              in ExpandGenericMask bestEffortGeneric AND NOT named)"

section \<open>Validation (validate.go)\<close>

datatype acl_error = ErrACETooMany nat | ErrACEInvalidType u32 | ErrACEEmptyWho | ErrACLTooLarge
  | AtACE nat acl_error | AtSACLACE nat acl_error

abbreviation (input) aceWireOverhead :: int where "aceWireOverhead \<equiv> 16"

definition xdrPad :: "int \<Rightarrow> int" where
  "xdrPad n = (n + 3) AND NOT 3"

definition ValidateACE :: "ACE \<Rightarrow> acl_error option" where
  "ValidateACE ace =
     (if aceType ace > ACE4_SYSTEM_ALARM_ACE_TYPE then Some (ErrACEInvalidType (aceType ace))
      else if aceWho ace = [] then Some ErrACEEmptyWho
      else None)"

fun size_loop :: "int \<Rightarrow> ACE list \<Rightarrow> acl_error option" where
  "size_loop sz [] = None"
| "size_loop sz (a # as) =
     (let sz = sz + (aceWireOverhead + xdrPad (int (length (aceWho a))))
      in if sz > MaxDACLSize then Some ErrACLTooLarge else size_loop sz as)"

fun validate_loop :: "(nat \<Rightarrow> acl_error \<Rightarrow> acl_error) \<Rightarrow> nat \<Rightarrow> ACE list \<Rightarrow> acl_error option" where
  "validate_loop wrap i [] = None"
| "validate_loop wrap i (a # as) =
     (case ValidateACE a of Some err \<Rightarrow> Some (wrap i err) | None \<Rightarrow> validate_loop wrap (Suc i) as)"

definition validate_list :: "(nat \<Rightarrow> acl_error \<Rightarrow> acl_error) \<Rightarrow> ACE list \<Rightarrow> acl_error option" where
  "validate_list wrap aces =
     (if length aces > MaxACECount then Some (ErrACETooMany (length aces))
      else case size_loop 4 aces of Some err \<Rightarrow> Some err
           | None \<Rightarrow> validate_loop wrap 0 aces)"

definition ValidateACL :: "ACL option \<Rightarrow> acl_error option" where
  "ValidateACL acl =
     (case acl of None \<Rightarrow> None
      | Some a \<Rightarrow>
          (case validate_list AtACE (aclACEs a) of Some err \<Rightarrow> Some err
           | None \<Rightarrow> validate_list AtSACLACE (case aclSACL a of None \<Rightarrow> [] | Some s \<Rightarrow> s)))"

section \<open>Flags and generic rights\<close>

lemmas flag_defs = WindowsFlagsToNFSv4Flags_def NFSv4FlagsToWindowsFlags_def Let_def

lemma nfs_win_nfs_flags: "WindowsFlagsToNFSv4Flags (NFSv4FlagsToWindowsFlags f) = f AND 0xBF"
  by (simp add: flag_defs word_cases)

lemma win_nfs_win_flags: "NFSv4FlagsToWindowsFlags (WindowsFlagsToNFSv4Flags w) = w AND 0xDF"
  by (simp add: flag_defs word_cases)

abbreviation (input) genericBits :: u32 where
  "genericBits \<equiv> genericRead OR genericWrite OR genericExecute OR genericAll"

lemmas generic_defs = ExpandGenericMask_def genericReadFile_def genericWriteFile_def
  genericExecuteFile_def genericAllFile_def Let_def

lemma expand_no_generic [simp]: "ExpandGenericMask m AND genericBits = 0"
  by (simp add: generic_defs word_cases)

lemma expand_specific: "m AND genericBits = 0 \<Longrightarrow> ExpandGenericMask m = m"
  by (simp add: generic_defs word_cases)

lemma expand_idem [simp]: "ExpandGenericMask (ExpandGenericMask m) = ExpandGenericMask m"
  by (rule expand_specific) (rule expand_no_generic)

lemma expand_bit:
  assumes "n < 32"
  shows "bit (ExpandGenericMask m) n \<longleftrightarrow>
     n < 28 \<and> (bit m n \<or> bit m 31 \<and> bit genericReadFile n \<or> bit m 30 \<and> bit genericWriteFile n
       \<or> bit m 29 \<and> bit genericExecuteFile n \<or> bit m 28 \<and> bit genericAllFile n)"
proof -
  have "\<forall>n < 32. bit (ExpandGenericMask m) n \<longleftrightarrow>
     n < 28 \<and> (bit m n \<or> bit m 31 \<and> bit genericReadFile n \<or> bit m 30 \<and> bit genericWriteFile n
       \<or> bit m 29 \<and> bit genericExecuteFile n \<or> bit m 28 \<and> bit genericAllFile n)"
    by (simp add: generic_defs word_cases)
  then show ?thesis using assms by blast
qed

lemma derived_generic_spec:
  assumes "n < 32"
  shows "bit (GenericDerivedBits m) n \<longleftrightarrow>
     \<not> bit m n \<and> (bit m 31 \<and> bit genericReadFile n \<or> bit m 29 \<and> bit genericExecuteFile n)"
proof -
  have "\<forall>n < 32. bit (GenericDerivedBits m) n \<longleftrightarrow>
     \<not> bit m n \<and> (bit m 31 \<and> bit genericReadFile n \<or> bit m 29 \<and> bit genericExecuteFile n)"
    by (simp add: GenericDerivedBits_def generic_defs word_cases) blast
  then show ?thesis using assms by blast
qed

section \<open>Validation\<close>

lemma xdrPad_eq: "xdrPad n = (n + 3) div 4 * 4"
  using and_not_mask_eq [of "n + 3" 2] by (simp add: xdrPad_def mask_eq_exp_minus_1)

lemma xdrPad_bounds:
  shows "n \<le> xdrPad n" and "xdrPad n < n + 4" and "xdrPad n mod 4 = 0"
  unfolding xdrPad_eq by presburger+

lemma ace_size_nonneg: "0 \<le> aceWireOverhead + xdrPad (int (length w))"
  using xdrPad_bounds(1) [of "int (length w)"] by simp

definition wire_size :: "ACE list \<Rightarrow> int" where
  "wire_size aces = 4 + (\<Sum>a\<leftarrow>aces. aceWireOverhead + xdrPad (int (length (aceWho a))))"

lemma size_loop_None:
  assumes "sz \<le> MaxDACLSize"
  shows "size_loop sz as = None \<longleftrightarrow>
     sz + (\<Sum>a\<leftarrow>as. aceWireOverhead + xdrPad (int (length (aceWho a)))) \<le> MaxDACLSize"
  using assms
proof (induction as arbitrary: sz)
  case (Cons a as)
  have "0 \<le> (\<Sum>a\<leftarrow>as. aceWireOverhead + xdrPad (int (length (aceWho a))))"
    by (rule sum_list_nonneg) (auto simp: ace_size_nonneg)
  with ace_size_nonneg [of "aceWho a"] show ?case using Cons by (auto simp: Let_def algebra_simps)
qed simp

lemma validate_loop_None:
  "validate_loop wrap i as = None \<longleftrightarrow> (\<forall>a \<in> set as. ValidateACE a = None)"
  by (induction as arbitrary: i) (auto split: option.split)

definition ace_list_ok :: "ACE list \<Rightarrow> bool" where
  "ace_list_ok aces \<longleftrightarrow> length aces \<le> MaxACECount \<and> wire_size aces \<le> MaxDACLSize
     \<and> (\<forall>a \<in> set aces. aceType a \<le> 3 \<and> aceWho a \<noteq> [])"

lemma validate_list_None: "validate_list wrap aces = None \<longleftrightarrow> ace_list_ok aces"
proof -
  have "size_loop 4 aces = None \<longleftrightarrow> wire_size aces \<le> MaxDACLSize"
    by (simp add: size_loop_None wire_size_def)
  moreover have "ValidateACE a = None \<longleftrightarrow> aceType a \<le> 3 \<and> aceWho a \<noteq> []" for a
    by (auto simp: ValidateACE_def)
  ultimately show ?thesis
    by (auto simp: validate_list_def ace_list_ok_def validate_loop_None split: option.split if_splits)
qed

section \<open>Properties\<close>

text \<open>Translating entry flags to the Windows layout and back keeps every flag NFSv4 defines
  and drops all other bits; translating Windows flags to NFSv4 and back keeps every flag with an
  NFSv4 counterpart.  The INHERITED and audit flags, whose positions differ, survive both ways.\<close>

lemma flag_translation_roundtrip:
  "WindowsFlagsToNFSv4Flags (NFSv4FlagsToWindowsFlags f) =
     f AND (ACE4_FILE_INHERIT_ACE OR ACE4_DIRECTORY_INHERIT_ACE OR ACE4_NO_PROPAGATE_INHERIT_ACE
            OR ACE4_INHERIT_ONLY_ACE OR ACE4_SUCCESSFUL_ACCESS_ACE_FLAG
            OR ACE4_FAILED_ACCESS_ACE_FLAG OR ACE4_INHERITED_ACE)
   \<and> NFSv4FlagsToWindowsFlags (WindowsFlagsToNFSv4Flags w) = w AND NOT 0x20"
proof -
  have "w AND NOT 0x20 = w AND 0xDF" by (simp add: word_cases)
  then show ?thesis using nfs_win_nfs_flags [of f] win_nfs_win_flags [of w] by simp
qed

text \<open>Expanding generic rights leaves no generic bit, keeps every specific right of the mask,
  and adds exactly the specific rights the four generic rights stand for; expanding twice is
  expanding once.\<close>

lemma ExpandGenericMask_exact:
  assumes "n < 32"
  shows "(bit (ExpandGenericMask m) n \<longleftrightarrow>
      n < 28 \<and> (bit m n \<or> bit m 31 \<and> bit (0x120089 :: u32) n \<or> bit m 30 \<and> bit (0x120116 :: u32) n
        \<or> bit m 29 \<and> bit (0x1200A0 :: u32) n \<or> bit m 28 \<and> bit (0x1F01FF :: u32) n))
     \<and> ExpandGenericMask (ExpandGenericMask m) = ExpandGenericMask m"
proof -
  have "genericReadFile = 0x120089" "genericWriteFile = 0x120116" "genericExecuteFile = 0x1200A0"
    "genericAllFile = 0x1F01FF" by (simp_all add: generic_defs)
  then show ?thesis using expand_bit [OF assms, of m] by simp
qed

text \<open>C34: \<open>ValidateACL\<close> accepts a list exactly when the access list and the system list
  each hold at most 128 entries, fit in 64 KiB of NFSv4 wire encoding, and contain only entries of
  a defined type with a non-empty principal.\<close>

theorem ValidateACL_accepts_iff:
  "ValidateACL (Some a) = None \<longleftrightarrow>
     ace_list_ok (aclACEs a) \<and> ace_list_ok (case aclSACL a of None \<Rightarrow> [] | Some s \<Rightarrow> s)"
proof -
  note ok = validate_list_None [of AtACE "aclACEs a"]
    validate_list_None [of AtSACLACE "case aclSACL a of None \<Rightarrow> [] | Some s \<Rightarrow> s"]
  show ?thesis
    unfolding ValidateACL_def using ok by (simp split: option.splits) auto
qed

end
