(* ===== verification/ACL_Inherit.thy ===== *)
theory ACL_Inherit
  imports ACL_Types
begin

text \<open>
  Inheritance of access-control lists at creation time and their recomputation below a changed
  parent (\<open>pkg/metadata/acl/inherit.go\<close>).  \<open>inherit_loop\<close> is the loop of
  \<open>ComputeInheritedACL\<close> with its cap on the number of entries;
  \<open>inherited_aces\<close> is the declarative reading of the three documented cases, and the loop
  is shown to emit the first 128 of the entries it describes.
\<close>

section \<open>The code\<close>

abbreviation (input) inheritanceMask :: u32 where
  "inheritanceMask \<equiv> ACE4_FILE_INHERIT_ACE OR ACE4_DIRECTORY_INHERIT_ACE
     OR ACE4_NO_PROPAGATE_INHERIT_ACE OR ACE4_INHERIT_ONLY_ACE"

record Creator =
  crUID :: u32
  crGID :: u32
  crSID :: string

definition substituteCreator :: "string \<Rightarrow> Creator \<Rightarrow> string" where
  "substituteCreator who creator =
     (if who = SpecialCreatorOwner then
        (if crSID creator \<noteq> [] then ''sid:'' @ crSID creator
         else show_nat (unat (crUID creator)) @ ''@localdomain'')
      else if who = SpecialCreatorGroup then
        (if crSID creator \<noteq> [] then ''sid:'' @ crSID creator
         else show_nat (unat (crGID creator)) @ ''@localdomain'')
      else who)"

text \<open>The flag words of the three kinds of emitted entries, statement by statement.\<close>

definition preserved_creator_flag :: "u32 \<Rightarrow> bool \<Rightarrow> bool \<Rightarrow> u32 \<Rightarrow> u32" where
  "preserved_creator_flag flag0 hasOI hasCI inheritedBit =
     (let flag = flag0 AND NOT inheritanceMask;
          flag = (if hasOI then flag OR ACE4_FILE_INHERIT_ACE else flag);
          flag = (if hasCI then flag OR ACE4_DIRECTORY_INHERIT_ACE else flag);
          flag = flag OR ACE4_INHERIT_ONLY_ACE;
          flag = flag AND NOT ACE4_INHERITED_ACE
      in flag OR inheritedBit)"

definition applied_flag :: "u32 \<Rightarrow> bool \<Rightarrow> bool \<Rightarrow> u32 \<Rightarrow> u32" where
  "applied_flag flag0 hasNP isDirectory inheritedBit =
     (let flag = (if hasNP then flag0 AND NOT inheritanceMask
                  else if \<not> isDirectory then flag0 AND NOT inheritanceMask
                  else flag0 AND NOT ACE4_INHERIT_ONLY_ACE);
          flag = flag AND NOT ACE4_INHERITED_ACE
      in flag OR inheritedBit)"

definition preserved_flag :: "u32 \<Rightarrow> u32 \<Rightarrow> u32" where
  "preserved_flag flag0 inheritedBit =
     (let flag = flag0 AND NOT inheritanceMask;
          flag = flag OR (ACE4_FILE_INHERIT_ACE OR ACE4_INHERIT_ONLY_ACE)
      in flag OR inheritedBit)"

fun inherit_loop :: "bool \<Rightarrow> Creator \<Rightarrow> bool \<Rightarrow> ACE list \<Rightarrow> ACE list \<Rightarrow> ACE list" where
  "inherit_loop isDirectory creator auto [] inherited = inherited"
| "inherit_loop isDirectory creator auto (ace # aces) inherited =
    (let hasOI = (aceFlag ace AND ACE4_FILE_INHERIT_ACE \<noteq> 0);
         hasCI = (aceFlag ace AND ACE4_DIRECTORY_INHERIT_ACE \<noteq> 0);
         hasNP = (aceFlag ace AND ACE4_NO_PROPAGATE_INHERIT_ACE \<noteq> 0)
     in
     if \<not> isDirectory \<and> \<not> hasOI then inherit_loop isDirectory creator auto aces inherited
     else if isDirectory \<and> \<not> hasOI \<and> \<not> hasCI then inherit_loop isDirectory creator auto aces inherited
     else if length inherited \<ge> MaxACECount then inherited
     else
     let inheritedBit = (if auto then ACE4_INHERITED_ACE else 0);
         applies = (isDirectory \<and> hasCI \<or> \<not> isDirectory \<and> hasOI);
         expandACE = (aceWho ace = SpecialCreatorOwner \<or> aceWho ace = SpecialCreatorGroup)
     in
     if applies \<and> expandACE then
       (let resolved = ace\<lparr>aceWho := substituteCreator (aceWho ace) creator, aceFlag := inheritedBit\<rparr>;
            inherited = inherited @ [resolved]
        in
        if \<not> isDirectory then inherit_loop isDirectory creator auto aces inherited
        else if hasNP then inherit_loop isDirectory creator auto aces inherited
        else if length inherited \<ge> MaxACECount then inherit_loop isDirectory creator auto aces inherited
        else
        let preserved = ace\<lparr>aceFlag := preserved_creator_flag (aceFlag ace) hasOI hasCI inheritedBit\<rparr>
        in inherit_loop isDirectory creator auto aces (inherited @ [preserved]))
     else if applies \<and> \<not> expandACE then
       (let newACE = ace\<lparr>aceFlag := applied_flag (aceFlag ace) hasNP isDirectory inheritedBit\<rparr>
        in inherit_loop isDirectory creator auto aces (inherited @ [newACE]))
     else if hasNP then inherit_loop isDirectory creator auto aces inherited
     else
       (let preserved = ace\<lparr>aceFlag := preserved_flag (aceFlag ace) inheritedBit\<rparr>
        in inherit_loop isDirectory creator auto aces (inherited @ [preserved])))"

definition desc_expand_generic :: "ACE \<Rightarrow> ACE" where
  "desc_expand_generic ace =
     (if aceFlag ace AND ACE4_INHERIT_ONLY_ACE \<noteq> 0 then ace
      else ace\<lparr>aceMask := ExpandGenericMask (aceMask ace)\<rparr>)"

definition ComputeInheritedACL :: "ACL option \<Rightarrow> bool \<Rightarrow> Creator \<Rightarrow> ACL option" where
  "ComputeInheritedACL parentACL isDirectory creator =
     (case parentACL of None \<Rightarrow> None
      | Some p \<Rightarrow>
          (let inherited = inherit_loop isDirectory creator (aclAutoInherited p) (aclACEs p) []
           in if inherited = [] then None
              else Some \<lparr>aclACEs = map desc_expand_generic inherited, aclSource = ACLSourceUnknown,
                     aclProtected = False, aclAutoInherited = aclAutoInherited p,
                     aclNullDACL = False, aclSACL = None\<rparr>))"

definition PropagateACL :: "ACL option \<Rightarrow> ACL option \<Rightarrow> bool \<Rightarrow> Creator \<Rightarrow> ACL option" where
  "PropagateACL parentACL existingACL isDirectory creator =
     (let newInherited = ComputeInheritedACL parentACL isDirectory creator in
      case existingACL of None \<Rightarrow> newInherited
      | Some ex \<Rightarrow>
          (let explicit = filter (\<lambda>a. \<not> IsInherited a) (aclACEs ex) in
           if explicit = [] \<and> newInherited = None then None
           else
             let inheritedACEs = (case newInherited of None \<Rightarrow> [] | Some ni \<Rightarrow> aclACEs ni)
             in Some \<lparr>aclACEs = explicit @ inheritedACEs, aclSource = aclSource ex,
                  aclProtected = aclProtected ex,
                  aclAutoInherited = (case parentACL of None \<Rightarrow> False | Some p \<Rightarrow> aclAutoInherited p),
                  aclNullDACL = aclNullDACL ex, aclSACL = None\<rparr>))"

section \<open>The declarative reading\<close>

abbreviation (input) oi :: "ACE \<Rightarrow> bool" where "oi ace \<equiv> bit (aceFlag ace) 0"
abbreviation (input) ci :: "ACE \<Rightarrow> bool" where "ci ace \<equiv> bit (aceFlag ace) 1"
abbreviation (input) np :: "ACE \<Rightarrow> bool" where "np ace \<equiv> bit (aceFlag ace) 2"

definition is_creator :: "ACE \<Rightarrow> bool" where
  "is_creator ace \<longleftrightarrow> aceWho ace = SpecialCreatorOwner \<or> aceWho ace = SpecialCreatorGroup"

text \<open>Keep the audit flags and set the given inheritance and INHERITED flags.\<close>

definition with_flags :: "ACE \<Rightarrow> u32 \<Rightarrow> bool \<Rightarrow> ACE" where
  "with_flags ace fl auto =
     ace\<lparr>aceFlag := (aceFlag ace AND NOT 0x8F) OR fl OR (if auto then ACE4_INHERITED_ACE else 0)\<rparr>"

definition inherited_aces :: "bool \<Rightarrow> Creator \<Rightarrow> bool \<Rightarrow> ACE \<Rightarrow> ACE list" where
  "inherited_aces dir cr auto ace =
     (if dir then
        (if ci ace then
           (if is_creator ace then
              ace\<lparr>aceWho := substituteCreator (aceWho ace) cr,
                  aceFlag := if auto then ACE4_INHERITED_ACE else 0\<rparr>
              # (if np ace then []
                 else [with_flags ace (aceFlag ace AND 3 OR ACE4_INHERIT_ONLY_ACE) auto])
            else [with_flags ace (if np ace then 0 else aceFlag ace AND 3) auto])
         else if oi ace \<and> \<not> np ace
         then [with_flags ace (ACE4_FILE_INHERIT_ACE OR ACE4_INHERIT_ONLY_ACE) (auto \<or> IsInherited ace)]
         else [])
      else if oi ace then
        (if is_creator ace then
           [ace\<lparr>aceWho := substituteCreator (aceWho ace) cr,
                aceFlag := if auto then ACE4_INHERITED_ACE else 0\<rparr>]
         else [with_flags ace 0 auto])
      else [])"

lemma preserved_creator_flag_eq:
  "bit (aceFlag ace) 1 \<Longrightarrow> \<not> bit (aceFlag ace) 2 \<Longrightarrow>
   ace\<lparr>aceFlag := preserved_creator_flag (aceFlag ace) (bit (aceFlag ace) 0) True
        (if auto then ACE4_INHERITED_ACE else 0)\<rparr>
     = with_flags ace (aceFlag ace AND 3 OR ACE4_INHERIT_ONLY_ACE) auto"
  unfolding with_flags_def preserved_creator_flag_def Let_def
  by (rule ACE.fold_congs(2)) (simp_all add: word_cases)

lemma applied_flag_eq:
  "ace\<lparr>aceFlag := applied_flag (aceFlag ace) (bit (aceFlag ace) 2) dir
        (if auto then ACE4_INHERITED_ACE else 0)\<rparr>
     = with_flags ace (if bit (aceFlag ace) 2 \<or> \<not> dir then 0 else aceFlag ace AND 3) auto"
  unfolding with_flags_def applied_flag_def Let_def
  by (rule ACE.fold_congs(2)) (simp_all add: word_cases)

lemma preserved_flag_eq:
  "ace\<lparr>aceFlag := preserved_flag (aceFlag ace) (if auto then ACE4_INHERITED_ACE else 0)\<rparr>
     = with_flags ace (ACE4_FILE_INHERIT_ACE OR ACE4_INHERIT_ONLY_ACE) (auto \<or> IsInherited ace)"
  unfolding with_flags_def preserved_flag_def Let_def IsInherited_def
  by (rule ACE.fold_congs(2)) (simp_all add: word_cases)

lemma inherit_loop_step:
  assumes "length inherited < MaxACECount"
  shows "inherit_loop dir cr auto (ace # aces) inherited
     = inherit_loop dir cr auto aces (take MaxACECount (inherited @ inherited_aces dir cr auto ace))"
proof -
  have take2: "take (MaxACECount - length inherited) [x, y]
      = (if MaxACECount \<le> Suc (length inherited) then [x] else [x, y])" for x y :: ACE
    using assms by (cases "length inherited = 127") (auto simp: take_Cons' )
  consider "\<not> dir" "is_creator ace" | "\<not> dir" "\<not> is_creator ace"
    | "dir" "ci ace" "is_creator ace" | "dir" "ci ace" "\<not> is_creator ace" | "dir" "\<not> ci ace"
    by blast
  then show ?thesis
    using assms preserved_creator_flag_eq [of ace auto] applied_flag_eq [of ace dir auto]
      preserved_flag_eq [of ace auto]
    by cases (auto simp: is_creator_def inherited_aces_def Let_def mask_bits take2)
qed

lemma inherit_loop_full:
  "length inherited = MaxACECount \<Longrightarrow> inherit_loop dir cr auto aces inherited = inherited"
  by (induction aces) (auto simp: Let_def)

lemma inherit_loop_spec:
  assumes "length inherited \<le> MaxACECount"
  shows "inherit_loop dir cr auto aces inherited
     = take MaxACECount (inherited @ concat (map (inherited_aces dir cr auto) aces))"
  using assms
proof (induction aces arbitrary: inherited)
  case (Cons ace aces)
  show ?case
  proof (cases "length inherited = MaxACECount")
    case False
    with Cons.prems have "inherit_loop dir cr auto (ace # aces) inherited
        = inherit_loop dir cr auto aces (take MaxACECount (inherited @ inherited_aces dir cr auto ace))"
      by (intro inherit_loop_step) simp
    also have "\<dots> = take MaxACECount (take MaxACECount (inherited @ inherited_aces dir cr auto ace)
        @ concat (map (inherited_aces dir cr auto) aces))"
      by (rule Cons.IH) simp
    finally show ?thesis by (simp only: take_append_take) simp
  qed (simp add: inherit_loop_full del: inherit_loop.simps)
qed simp

lemma ComputeInheritedACL_eq:
  "ComputeInheritedACL (Some p) dir cr =
     (let out = take MaxACECount (concat (map (inherited_aces dir cr (aclAutoInherited p)) (aclACEs p)))
      in if out = [] then None
         else Some \<lparr>aclACEs = map desc_expand_generic out, aclSource = ACLSourceUnknown,
                aclProtected = False, aclAutoInherited = aclAutoInherited p,
                aclNullDACL = False, aclSACL = None\<rparr>)"
  using inherit_loop_spec [of "[]"] by (simp add: ComputeInheritedACL_def Let_def)

section \<open>What an emitted entry looks like\<close>

definition child_ace_ok :: "bool \<Rightarrow> bool \<Rightarrow> ACE \<Rightarrow> bool" where
  "child_ace_ok dir auto ace \<longleftrightarrow>
     (IsInheritOnly ace \<longrightarrow> dir)
     \<and> (\<not> IsInheritOnly ace \<longrightarrow> aceMask ace AND genericBits = 0 \<and> \<not> is_creator ace)
     \<and> (\<not> dir \<longrightarrow> aceFlag ace AND inheritanceMask = 0)
     \<and> (auto \<longrightarrow> IsInherited ace)"

lemma substituteCreator_resolved:
  "substituteCreator who cr \<noteq> SpecialCreatorOwner \<and> substituteCreator who cr \<noteq> SpecialCreatorGroup"
proof -
  have "show_nat n @ ''@localdomain'' \<noteq> SpecialCreatorOwner"
    and "show_nat n @ ''@localdomain'' \<noteq> SpecialCreatorGroup" for n
    by (auto dest: arg_cong [where f = last])
  then show ?thesis by (auto simp: substituteCreator_def)
qed

lemma with_flags_bits:
  assumes "n < 32"
  shows "bit (aceFlag (with_flags ace fl auto)) n \<longleftrightarrow>
     bit (aceFlag ace) n \<and> n \<notin> {0, 1, 2, 3, 7} \<or> bit fl n \<or> auto \<and> n = 7"
proof -
  have "\<forall>n < 32. bit (aceFlag (with_flags ace fl auto)) n \<longleftrightarrow>
     bit (aceFlag ace) n \<and> n \<notin> {0, 1, 2, 3, 7} \<or> bit fl n \<or> auto \<and> n = 7"
    by (simp add: with_flags_def word_cases)
  then show ?thesis using assms by blast
qed

lemma with_flags_sel [simp]:
  "aceMask (with_flags ace fl auto) = aceMask ace" "aceWho (with_flags ace fl auto) = aceWho ace"
  "aceType (with_flags ace fl auto) = aceType ace"
  by (simp_all add: with_flags_def)

lemma desc_expand_generic_sel [simp]:
  "aceFlag (desc_expand_generic ace) = aceFlag ace" "aceWho (desc_expand_generic ace) = aceWho ace"
  "aceMask (desc_expand_generic ace) =
     (if IsInheritOnly ace then aceMask ace else ExpandGenericMask (aceMask ace))"
  by (simp_all add: desc_expand_generic_def IsInheritOnly_def)

lemma inherited_aces_ok:
  assumes "ace' \<in> set (inherited_aces dir cr auto ace)"
  shows "child_ace_ok dir auto (desc_expand_generic ace')"
proof -
  have *: "aceFlag a AND 15 = 0 \<longleftrightarrow>
      \<not> bit (aceFlag a) 0 \<and> \<not> bit (aceFlag a) 1 \<and> \<not> bit (aceFlag a) 2 \<and> \<not> bit (aceFlag a) 3" for a
    by (simp add: word_cases)
  show ?thesis
    using assms substituteCreator_resolved [of "aceWho ace" cr] expand_no_generic
    by (auto simp: child_ace_ok_def IsInheritOnly_def IsInherited_def inherited_aces_def * mask_bits
        with_flags_bits bit_or_iff is_creator_def split: if_splits)
qed

lemma child_aces_ok:
  assumes "ComputeInheritedACL (Some p) dir cr = Some c" and "ace \<in> set (aclACEs c)"
  shows "child_ace_ok dir (aclAutoInherited p) ace"
  using assms by (auto simp: ComputeInheritedACL_eq Let_def inherited_aces_ok
      split: if_splits dest!: in_set_takeD)

section \<open>Properties\<close>

definition example_parent :: "bool \<Rightarrow> ACL" where
  "example_parent auto = \<lparr>aclACEs =
      [\<lparr>aceType = 0, aceFlag = 3, aceMask = 0x10000000, aceWho = SpecialCreatorOwner, aceTwin = False\<rparr>,
       \<lparr>aceType = 0, aceFlag = 0x81, aceMask = 1, aceWho = SpecialEveryone, aceTwin = False\<rparr>],
     aclSource = ACLSourceSMBExplicit, aclProtected = False, aclAutoInherited = auto,
     aclNullDACL = False, aclSACL = None\<rparr>"

abbreviation (input) example_creator :: Creator where
  "example_creator \<equiv> \<lparr>crUID = 7, crGID = 8, crSID = ''S-1-5-21-1-2-3-7''\<rparr>"

lemmas inherit_defs = ComputeInheritedACL_def PropagateACL_def desc_expand_generic_def substituteCreator_def
  preserved_creator_flag_def applied_flag_def preserved_flag_def Let_def


text \<open>C26: An inherited list holds between 1 and 128 entries, is never protected, and every entry
  in it is well formed: effective entries carry no generic rights and no creator placeholder,
  entries of a file carry no inheritance flags and none is inherit-only, and when the parent is
  auto-inherited every entry carries the INHERITED flag.\<close>

theorem ComputeInheritedACL_wellformed:
  assumes "ComputeInheritedACL (Some p) dir cr = Some c"
  shows "0 < length (aclACEs c) \<and> length (aclACEs c) \<le> MaxACECount \<and> \<not> aclProtected c
     \<and> aclAutoInherited c = aclAutoInherited p
     \<and> (\<forall>ace \<in> set (aclACEs c). child_ace_ok dir (aclAutoInherited p) ace)"
  using child_aces_ok [OF assms] assms
  by (auto simp: ComputeInheritedACL_eq Let_def split: if_splits)

theorem ComputeInheritedACL_wellformed_witness:
  "\<exists>c. ComputeInheritedACL (Some (example_parent True)) False example_creator = Some c
     \<and> map aceMask (aclACEs c) = [0x1F01FF, 1]
     \<and> map aceWho (aclACEs c) = [''sid:S-1-5-21-1-2-3-7'', SpecialEveryone]
     \<and> (\<forall>ace \<in> set (aclACEs c). child_ace_ok False True ace)"
proof -
  obtain c where c: "ComputeInheritedACL (Some (example_parent True)) False example_creator = Some c"
    and "map aceMask (aclACEs c) = [0x1F01FF, 1]"
    and "map aceWho (aclACEs c) = [''sid:S-1-5-21-1-2-3-7'', SpecialEveryone]"
    by (simp add: example_parent_def inherit_defs generic_defs)
  with ComputeInheritedACL_wellformed [OF c] show ?thesis
    by (auto simp: example_parent_def)
qed

lemma filter_inherited_child:
  assumes "ComputeInheritedACL (Some p) dir cr = Some c" and "aclAutoInherited p"
  shows "filter (\<lambda>a. \<not> IsInherited a) (aclACEs c) = []" and "filter IsInherited (aclACEs c) = aclACEs c"
  using child_aces_ok [OF assms(1)] assms(2)
  by (auto simp: child_ace_ok_def filter_empty_conv filter_id_conv)

text \<open>C27: Below an auto-inherited parent, recomputing a descendant's list keeps its explicit
  entries first and in their order, replaces every inherited entry by the ones computed from the
  parent, keeps the descendant's protection, null and source marks, and is idempotent: a second
  pass changes nothing.\<close>

theorem PropagateACL_idempotent:
  assumes auto: "aclAutoInherited p"
  shows "PropagateACL (Some p) (PropagateACL (Some p) ex dir cr) dir cr = PropagateACL (Some p) ex dir cr
     \<and> (\<forall>e r. ex = Some e \<longrightarrow> PropagateACL (Some p) ex dir cr = Some r \<longrightarrow>
          filter (\<lambda>a. \<not> IsInherited a) (aclACEs r) = filter (\<lambda>a. \<not> IsInherited a) (aclACEs e)
          \<and> filter IsInherited (aclACEs r)
              = (case ComputeInheritedACL (Some p) dir cr of None \<Rightarrow> [] | Some c \<Rightarrow> aclACEs c)
          \<and> aclProtected r = aclProtected e \<and> aclNullDACL r = aclNullDACL e \<and> aclSource r = aclSource e)"
proof (cases "ComputeInheritedACL (Some p) dir cr")
  case None
  then show ?thesis by (cases ex) (auto simp: PropagateACL_def Let_def)
next
  case (Some c)
  from Some have "aclSource c = ACLSourceUnknown" "aclProtected c = False"
    "aclAutoInherited c = aclAutoInherited p" "aclNullDACL c = False" "aclSACL c = None"
    by (auto simp: ComputeInheritedACL_eq Let_def split: if_splits)
  with Some filter_inherited_child [OF Some auto] show ?thesis
    by (cases ex; cases c) (auto simp: PropagateACL_def Let_def)
qed

theorem PropagateACL_idempotent_witness:
  "aclAutoInherited (example_parent True)
   \<and> PropagateACL (Some (example_parent True))
       (PropagateACL (Some (example_parent True)) (Some (example_parent False)) True example_creator)
       True example_creator
     = PropagateACL (Some (example_parent True)) (Some (example_parent False)) True example_creator"
proof -
  have "aclAutoInherited (example_parent True)" by (simp add: example_parent_def)
  with PropagateACL_idempotent [of "example_parent True"] show ?thesis by blast
qed

section \<open>Deviations from the documented behaviour\<close>

text \<open>Below a parent that is not auto-inherited the INHERITED flag of a parent entry with only
  FILE_INHERIT set survives on a directory child, although the documentation of
  \<open>ComputeInheritedACL\<close> rules this out.\<close>

theorem inherited_flag_leaks:
  "\<exists>c. ComputeInheritedACL (Some (example_parent False)) True example_creator = Some c
     \<and> \<not> aclAutoInherited (example_parent False) \<and> list_ex IsInherited (aclACEs c)"
  by (simp add: example_parent_def inherit_defs IsInherited_def)

text \<open>Below such a parent the recomputation is not idempotent: the entries it added are not
  marked as inherited, so the next pass keeps them as explicit ones and adds them again.\<close>

definition open_parent :: ACL where
  "open_parent = \<lparr>aclACEs =
      [\<lparr>aceType = 0, aceFlag = 3, aceMask = 1, aceWho = SpecialEveryone, aceTwin = False\<rparr>],
     aclSource = ACLSourceSMBExplicit, aclProtected = False, aclAutoInherited = False,
     aclNullDACL = False, aclSACL = None\<rparr>"

theorem PropagateACL_grows:
  "\<exists>r1 r2. PropagateACL (Some open_parent) None True example_creator = Some r1
     \<and> PropagateACL (Some open_parent) (Some r1) True example_creator = Some r2
     \<and> length (aclACEs r1) = 1 \<and> length (aclACEs r2) = 2"
  by (simp add: open_parent_def inherit_defs IsInherited_def generic_defs)

text \<open>The recomputation drops the descendant's system list.\<close>

theorem PropagateACL_drops_SACL:
  "PropagateACL parent (Some ex) dir cr = Some r \<Longrightarrow> aclSACL r = None"
  by (auto simp: PropagateACL_def Let_def split: if_splits)

end
