(* ===== verification/ACL_Evaluate.thy ===== *)
theory ACL_Evaluate
  imports ACL_Types
begin

text \<open>
  Access evaluation (\<open>pkg/metadata/acl/evaluate.go\<close>).  The evaluator walks the
  entries in stored order and records, per permission bit, the first matching allow or deny;
  the file owner additionally holds implicit rights unless an OWNER_RIGHTS entry is present.
  \<open>granted\<close> is the abstract specification, one bit at a time, and the lemmas show that
  the mask-accumulating loop with its early exit implements it.
\<close>

section \<open>Identities\<close>

abbreviation (input) builtinAdministratorsSID :: string where
  "builtinAdministratorsSID \<equiv> ''S-1-5-32-544''"

text \<open>The pattern \<open>^S-1-5-21-\d+-\d+-\d+-500$\<close>.\<close>

definition domainAdminSIDPattern :: "string \<Rightarrow> bool" where
  "domainAdminSIDPattern sid \<longleftrightarrow>
     has_prefix sid ''S-1-5-21-'' \<and>
     (case split_on CHR ''-'' (trim_prefix sid ''S-1-5-21-'') of
        [a, b, c, d] \<Rightarrow> list_all (\<lambda>w. w \<noteq> [] \<and> list_all is_digit w) [a, b, c] \<and> d = ''500''
      | _ \<Rightarrow> False)"

definition isAdminSID :: "string \<Rightarrow> bool" where
  "isAdminSID sid =
     (if sid = [] then False
      else if sid = builtinAdministratorsSID then True
      else domainAdminSIDPattern sid)"

definition HasTakeOwnershipPrivilege :: "string \<Rightarrow> string list \<Rightarrow> bool" where
  "HasTakeOwnershipPrivilege requesterSID groupSIDs \<longleftrightarrow>
     isAdminSID requesterSID \<or> list_ex isAdminSID groupSIDs"

abbreviation (input) localDomainSuffix :: string where "localDomainSuffix \<equiv> ''@localdomain''"

definition AnonymousFileOwnerUID :: u32 where "AnonymousFileOwnerUID = NOT 0"

record EvaluateContext =
  ctxWho :: string
  ctxUID :: u32
  ctxGID :: u32
  ctxGIDs :: "u32 list"
  ctxFileOwnerUID :: u32
  ctxFileOwnerGID :: u32
  ctxSID :: string
  ctxGroupSIDs :: "string list"
  ctxTakeOwnership :: bool

definition parseLocalDomainID :: "string \<Rightarrow> u32 option" where
  "parseLocalDomainID who =
     (case cut_suffix who localDomainSuffix of
        None \<Rightarrow> None
      | Some prefix \<Rightarrow>
          (case parse_uint 32 prefix of None \<Rightarrow> None | Some v \<Rightarrow> Some (of_nat v)))"

definition aceMatchesWhoWithOwnerRights :: "ACE \<Rightarrow> EvaluateContext \<Rightarrow> bool \<Rightarrow> bool" where
  "aceMatchesWhoWithOwnerRights ace ctx ownerRightsPresent =
     (let requesterIsOwner = (ctxUID ctx = ctxFileOwnerUID ctx) in
      if aceWho ace = SpecialOwner then
        (if ownerRightsPresent \<and> requesterIsOwner then False else requesterIsOwner)
      else if aceWho ace = SpecialGroup then
        (if ctxGID ctx = ctxFileOwnerGID ctx then True
         else list_ex (\<lambda>gid. gid = ctxFileOwnerGID ctx) (ctxGIDs ctx))
      else if aceWho ace = SpecialEveryone then True
      else if aceWho ace = SpecialOwnerRights then requesterIsOwner
      else if has_prefix (aceWho ace) ''sid:'' then
        (let target = drop 4 (aceWho ace) in
         if ctxSID ctx \<noteq> [] \<and> ctxSID ctx = target then True
         else List.member (ctxGroupSIDs ctx) target)
      else case parseLocalDomainID (aceWho ace) of
        Some uid \<Rightarrow>
          (if uid = ctxUID ctx then True
           else if uid = ctxGID ctx then True
           else List.member (ctxGIDs ctx) uid)
      | None \<Rightarrow> aceWho ace = ctxWho ctx)"

section \<open>The evaluation loops\<close>

definition HasExplicitDeny :: "ACL option \<Rightarrow> bool" where
  "HasExplicitDeny acl =
     (case acl of None \<Rightarrow> False
      | Some a \<Rightarrow> list_ex (\<lambda>ace. aceType ace = ACE4_ACCESS_DENIED_ACE_TYPE) (aclACEs a))"

definition ownerImplicitRights :: u32 where
  "ownerImplicitRights = ACE4_READ_ACL OR ACE4_WRITE_ACL"

definition takeOwnershipImplicitRight :: u32 where
  "takeOwnershipImplicitRight = ACE4_WRITE_OWNER"

fun ownerRightsScan :: "ACE list \<Rightarrow> bool" where
  "ownerRightsScan [] = False"
| "ownerRightsScan (ace # aces) =
     (if IsInheritOnly ace then ownerRightsScan aces
      else if aceWho ace \<noteq> SpecialOwnerRights then ownerRightsScan aces
      else if aceType ace \<noteq> ACE4_ACCESS_ALLOWED_ACE_TYPE \<and> aceType ace \<noteq> ACE4_ACCESS_DENIED_ACE_TYPE
      then ownerRightsScan aces
      else True)"

fun eval_loop :: "EvaluateContext \<Rightarrow> bool \<Rightarrow> u32 \<Rightarrow> ACE list \<Rightarrow> u32 \<Rightarrow> u32 \<Rightarrow> u32 \<times> u32" where
  "eval_loop ctx orp requested [] allowedBits deniedBits = (allowedBits, deniedBits)"
| "eval_loop ctx orp requested (ace # aces) allowedBits deniedBits =
     (if IsInheritOnly ace then eval_loop ctx orp requested aces allowedBits deniedBits
      else if \<not> aceMatchesWhoWithOwnerRights ace ctx orp
      then eval_loop ctx orp requested aces allowedBits deniedBits
      else if aceType ace = ACE4_SYSTEM_AUDIT_ACE_TYPE \<or> aceType ace = ACE4_SYSTEM_ALARM_ACE_TYPE
      then eval_loop ctx orp requested aces allowedBits deniedBits
      else
        let newBits = aceMask ace AND NOT (allowedBits OR deniedBits);
            allowedBits' = (if aceType ace = ACE4_ACCESS_ALLOWED_ACE_TYPE
                            then allowedBits OR newBits else allowedBits);
            deniedBits' = (if aceType ace = ACE4_ACCESS_DENIED_ACE_TYPE
                           then deniedBits OR newBits else deniedBits)
        in if (allowedBits' OR deniedBits') AND requested = requested
           then (allowedBits', deniedBits')
           else eval_loop ctx orp requested aces allowedBits' deniedBits')"

definition owner_implicit_pass :: "EvaluateContext \<Rightarrow> bool \<Rightarrow> u32 \<Rightarrow> u32 \<Rightarrow> u32" where
  "owner_implicit_pass ctx orp allowedBits deniedBits =
     (if ctxUID ctx = ctxFileOwnerUID ctx \<and> \<not> orp then
        (let allowedBits = allowedBits OR (ownerImplicitRights AND NOT deniedBits)
         in if ctxTakeOwnership ctx
            then allowedBits OR (takeOwnershipImplicitRight AND NOT deniedBits)
            else allowedBits)
      else allowedBits)"

definition Evaluate :: "ACL option \<Rightarrow> EvaluateContext \<Rightarrow> u32 \<Rightarrow> bool" where
  "Evaluate acl ctx requestedMask =
     (if requestedMask = 0 then True
      else case acl of None \<Rightarrow> False
      | Some a \<Rightarrow>
         if aclNullDACL a then True
         else
           let requesterIsOwner = (ctxUID ctx = ctxFileOwnerUID ctx);
               ownerRightsPresent = (if requesterIsOwner then ownerRightsScan (aclACEs a) else False);
               (allowedBits, deniedBits) = eval_loop ctx ownerRightsPresent requestedMask (aclACEs a) 0 0;
               allowedBits = owner_implicit_pass ctx ownerRightsPresent allowedBits deniedBits
           in allowedBits AND requestedMask = requestedMask)"

definition EvaluateGranted :: "ACL option \<Rightarrow> EvaluateContext \<Rightarrow> u32 \<Rightarrow> u32" where
  "EvaluateGranted acl ctx probeMask =
     (case acl of None \<Rightarrow> 0
      | Some a \<Rightarrow>
         if probeMask = 0 then 0
         else if aclNullDACL a then probeMask
         else
           let requesterIsOwner = (ctxUID ctx = ctxFileOwnerUID ctx);
               ownerRightsPresent = (if requesterIsOwner then ownerRightsScan (aclACEs a) else False);
               (allowedBits, deniedBits) = eval_loop ctx ownerRightsPresent probeMask (aclACEs a) 0 0;
               allowedBits = owner_implicit_pass ctx ownerRightsPresent allowedBits deniedBits
           in allowedBits AND probeMask)"

section \<open>The abstract specification: first match wins, bit by bit\<close>

text \<open>An entry decides bit \<open>n\<close> when it is effective, matches the requester, is an allow
  or a deny, and carries the bit.\<close>

definition decides :: "EvaluateContext \<Rightarrow> bool \<Rightarrow> nat \<Rightarrow> ACE \<Rightarrow> bool" where
  "decides ctx orp n ace \<longleftrightarrow> \<not> IsInheritOnly ace \<and> aceMatchesWhoWithOwnerRights ace ctx orp
     \<and> (aceType ace = ACE4_ACCESS_ALLOWED_ACE_TYPE \<or> aceType ace = ACE4_ACCESS_DENIED_ACE_TYPE)
     \<and> bit (aceMask ace) n"

definition owner_rights_present :: "ACL \<Rightarrow> EvaluateContext \<Rightarrow> bool" where
  "owner_rights_present a ctx \<longleftrightarrow> ctxUID ctx = ctxFileOwnerUID ctx \<and>
     (\<exists>ace \<in> set (aclACEs a). \<not> IsInheritOnly ace \<and> aceWho ace = SpecialOwnerRights
        \<and> (aceType ace = ACE4_ACCESS_ALLOWED_ACE_TYPE \<or> aceType ace = ACE4_ACCESS_DENIED_ACE_TYPE))"

definition implicit_right :: "ACL \<Rightarrow> EvaluateContext \<Rightarrow> nat \<Rightarrow> bool" where
  "implicit_right a ctx n \<longleftrightarrow> ctxUID ctx = ctxFileOwnerUID ctx \<and> \<not> owner_rights_present a ctx
     \<and> (bit ownerImplicitRights n \<or> ctxTakeOwnership ctx \<and> bit takeOwnershipImplicitRight n)"

definition granted :: "ACL \<Rightarrow> EvaluateContext \<Rightarrow> nat \<Rightarrow> bool" where
  "granted a ctx n \<longleftrightarrow> aclNullDACL a \<or>
     (case find (decides ctx (owner_rights_present a ctx) n) (aclACEs a) of
        Some ace \<Rightarrow> aceType ace = ACE4_ACCESS_ALLOWED_ACE_TYPE
      | None \<Rightarrow> implicit_right a ctx n)"

section \<open>The loop implements the specification\<close>

lemma ownerRightsScan_iff:
  "ownerRightsScan aces \<longleftrightarrow> (\<exists>ace \<in> set aces. \<not> IsInheritOnly ace \<and> aceWho ace = SpecialOwnerRights
      \<and> (aceType ace = ACE4_ACCESS_ALLOWED_ACE_TYPE \<or> aceType ace = ACE4_ACCESS_DENIED_ACE_TYPE))"
  by (induction aces) auto

lemma owner_rights_present_scan:
  "owner_rights_present a ctx = (if ctxUID ctx = ctxFileOwnerUID ctx then ownerRightsScan (aclACEs a) else False)"
  by (simp add: owner_rights_present_def ownerRightsScan_iff)

lemma all_requested_bits:
  fixes a r :: u32
  shows "a AND r = r \<longleftrightarrow> (\<forall>n < 32. bit r n \<longrightarrow> bit a n)"
  by (auto simp: word_eq_iff_bits bit_simps)

text \<open>What the two accumulators say of a bit.\<close>

definition decision :: "u32 \<Rightarrow> u32 \<Rightarrow> nat \<Rightarrow> bool option" where
  "decision al dn n = (if bit al n then Some True else if bit dn n then Some False else None)"

text \<open>The loop invariant, per requested bit: a bit already decided stays as it is, an undecided
  one is settled by the first entry that decides it.\<close>

lemma eval_loop_decision:
  assumes "n < 32" and "bit requested n"
    and "eval_loop ctx orp requested aces al dn = (al', dn')"
  shows "decision al' dn' n =
     (case decision al dn n of Some b \<Rightarrow> Some b
      | None \<Rightarrow> map_option (\<lambda>ace. aceType ace = ACE4_ACCESS_ALLOWED_ACE_TYPE)
                  (find (decides ctx orp n) aces))"
  using assms(3)
proof (induction aces arbitrary: al dn)
  case (Cons ace aces)
  show ?case
  proof (cases "\<not> IsInheritOnly ace \<and> aceMatchesWhoWithOwnerRights ace ctx orp
      \<and> aceType ace \<noteq> ACE4_SYSTEM_AUDIT_ACE_TYPE \<and> aceType ace \<noteq> ACE4_SYSTEM_ALARM_ACE_TYPE")
    case False
    then have "\<not> decides ctx orp n ace" by (auto simp: decides_def)
    moreover have "eval_loop ctx orp requested aces al dn = (al', dn')"
      using False Cons.prems by (auto split: if_splits)
    ultimately show ?thesis using Cons.IH by (simp split: option.split)
  next
    case True
    define nb al1 dn1 where "nb = aceMask ace AND NOT (al OR dn)"
      and "al1 = (if aceType ace = ACE4_ACCESS_ALLOWED_ACE_TYPE then al OR nb else al)"
      and "dn1 = (if aceType ace = ACE4_ACCESS_DENIED_ACE_TYPE then dn OR nb else dn)"
    have step: "decision al1 dn1 n = (case decision al dn n of Some b \<Rightarrow> Some b
        | None \<Rightarrow> if decides ctx orp n ace
                   then Some (aceType ace = ACE4_ACCESS_ALLOWED_ACE_TYPE) else None)"
      using True assms(1)
      by (auto simp: decision_def al1_def dn1_def nb_def decides_def bit_simps)
    have unfold: "eval_loop ctx orp requested (ace # aces) al dn =
        (if (al1 OR dn1) AND requested = requested then (al1, dn1)
         else eval_loop ctx orp requested aces al1 dn1)"
      unfolding al1_def dn1_def nb_def using True by (simp add: Let_def)
    show ?thesis
    proof (cases "(al1 OR dn1) AND requested = requested")
      case True
      then have "bit (al1 OR dn1) n"
        using assms(1,2) by (simp add: all_requested_bits)
      then have "decision al1 dn1 n \<noteq> None" by (auto simp: decision_def bit_simps)
      moreover have "al' = al1" "dn' = dn1"
        using True Cons.prems unfold by simp_all
      ultimately show ?thesis using step by (auto split: option.splits if_splits)
    next
      case False
      then have "eval_loop ctx orp requested aces al1 dn1 = (al', dn')"
        using Cons.prems unfold by simp
      from Cons.IH [OF this] step show ?thesis by (auto split: option.splits if_splits)
    qed
  qed
qed (simp split: option.split)

definition final_bits :: "ACL \<Rightarrow> EvaluateContext \<Rightarrow> u32 \<Rightarrow> u32" where
  "final_bits a ctx m =
     (case eval_loop ctx (owner_rights_present a ctx) m (aclACEs a) 0 0 of
        (al, dn) \<Rightarrow> owner_implicit_pass ctx (owner_rights_present a ctx) al dn)"

lemma final_bits_granted:
  assumes "n < 32" and "bit m n" and "\<not> aclNullDACL a"
  shows "bit (final_bits a ctx m) n \<longleftrightarrow> granted a ctx n"
proof -
  obtain al dn where loop: "eval_loop ctx (owner_rights_present a ctx) m (aclACEs a) 0 0 = (al, dn)"
    by fastforce
  have "bit (final_bits a ctx m) n \<longleftrightarrow> bit al n \<or> implicit_right a ctx n \<and> \<not> bit dn n"
    using assms(1) by (auto simp: final_bits_def loop owner_implicit_pass_def implicit_right_def bit_simps Let_def)
  moreover have "decision al dn n = map_option (\<lambda>ace. aceType ace = ACE4_ACCESS_ALLOWED_ACE_TYPE)
      (find (decides ctx (owner_rights_present a ctx) n) (aclACEs a))"
    using eval_loop_decision [OF assms(1,2) loop] by (simp add: decision_def)
  ultimately show ?thesis
    using assms(3) by (auto simp: granted_def decision_def split: option.splits if_splits)
qed

lemma Evaluate_eq:
  "Evaluate (Some a) ctx m \<longleftrightarrow> m = 0 \<or> aclNullDACL a \<or> final_bits a ctx m AND m = m"
  by (simp add: Evaluate_def final_bits_def owner_rights_present_scan Let_def split: prod.split)

lemma EvaluateGranted_eq:
  "EvaluateGranted (Some a) ctx m = (if aclNullDACL a then m else final_bits a ctx m AND m)"
  by (simp add: EvaluateGranted_def final_bits_def owner_rights_present_scan Let_def split: prod.split)

lemma Evaluate_iff_granted:
  "Evaluate (Some a) ctx m \<longleftrightarrow> (\<forall>n < 32. bit m n \<longrightarrow> granted a ctx n)"
proof (cases "aclNullDACL a")
  case False
  then show ?thesis
    by (auto simp: Evaluate_eq all_requested_bits final_bits_granted)
qed (simp add: Evaluate_eq granted_def)

lemma EvaluateGranted_bit:
  assumes "n < 32"
  shows "bit (EvaluateGranted (Some a) ctx m) n \<longleftrightarrow> bit m n \<and> granted a ctx n"
  using assms
  by (cases "aclNullDACL a") (auto simp: EvaluateGranted_eq bit_simps final_bits_granted granted_def)

section \<open>Identity lemmas\<close>

lemma digits_no_dash: "list_all is_digit w \<Longrightarrow> CHR ''-'' \<notin> set w"
  by (auto simp: list_all_iff is_digit_def)

lemma domainAdminSIDPattern_iff:
  "domainAdminSIDPattern sid \<longleftrightarrow>
     (\<exists>a b c. list_all (\<lambda>w. w \<noteq> [] \<and> list_all is_digit w) [a, b, c]
        \<and> sid = ''S-1-5-21-'' @ a @ ''-'' @ b @ ''-'' @ c @ ''-500'')"
  (is "?l \<longleftrightarrow> ?r")
proof
  assume ?l
  then obtain r where sid: "sid = ''S-1-5-21-'' @ r"
    by (auto simp: domainAdminSIDPattern_def has_prefix_iff)
  with \<open>?l\<close> obtain a b c where w: "split_on CHR ''-'' r = [a, b, c, ''500'']"
    and d: "list_all (\<lambda>w. w \<noteq> [] \<and> list_all is_digit w) [a, b, c]"
    unfolding domainAdminSIDPattern_def by (auto simp only: trim_prefix_append split: list.splits)
  have "r = join_on CHR ''-'' [a, b, c, ''500'']" by (metis w join_split_on)
  with sid d show ?r by auto
next
  assume ?r
  then obtain a b c where d: "list_all (\<lambda>w. w \<noteq> [] \<and> list_all is_digit w) [a, b, c]"
    and sid: "sid = ''S-1-5-21-'' @ (a @ ''-'' @ b @ ''-'' @ c @ ''-500'')" by auto
  from d have "split_on CHR ''-'' (a @ ''-'' @ b @ ''-'' @ c @ ''-500'') = [a, b, c, ''500'']"
    by (simp add: split_on_word digits_no_dash)
  with d show ?l
    unfolding domainAdminSIDPattern_def sid by (simp only: trim_prefix_append has_prefix_append) simp
qed

lemmas evaluate_defs = Evaluate_def owner_implicit_pass_def IsInheritOnly_def
  aceMatchesWhoWithOwnerRights_def parseLocalDomainID_def cut_suffix_def has_suffix_def
  has_prefix_def Let_def

section \<open>Properties\<close>

text \<open>C12: \<open>Evaluate\<close> implements first-match-wins access control: a request is granted
  exactly when it is empty, or a list exists and for every requested bit the first effective
  allow or deny entry that matches the requester and carries the bit is an allow, and where no
  entry decides the bit it is one of the owner's implicit rights (read and write of the list,
  and ownership for holders of the take-ownership privilege) not superseded by an
  OWNER_RIGHTS entry.\<close>

theorem Evaluate_first_match_wins:
  "Evaluate acl ctx m \<longleftrightarrow>
     m = 0 \<or> (\<exists>a. acl = Some a \<and> (\<forall>n < 32. bit m n \<longrightarrow> granted a ctx n))"
proof (cases acl)
  case None
  then show ?thesis by (simp add: Evaluate_def)
qed (auto simp: Evaluate_iff_granted)

definition deny_then_allow :: ACL where
  "deny_then_allow = \<lparr>aclACEs =
      [\<lparr>aceType = 1, aceFlag = 0, aceMask = 2, aceWho = ''alice'', aceTwin = False\<rparr>,
       \<lparr>aceType = 0, aceFlag = 0, aceMask = 3, aceWho = SpecialEveryone, aceTwin = False\<rparr>],
     aclSource = ACLSourceNFSExplicit, aclProtected = False, aclAutoInherited = False,
     aclNullDACL = False, aclSACL = None\<rparr>"

definition alice :: EvaluateContext where
  "alice = \<lparr>ctxWho = ''alice'', ctxUID = 7, ctxGID = 7, ctxGIDs = [], ctxFileOwnerUID = 1,
     ctxFileOwnerGID = 1, ctxSID = [], ctxGroupSIDs = [], ctxTakeOwnership = False\<rparr>"

theorem Evaluate_first_match_wins_witness:
  "Evaluate (Some deny_then_allow) alice 1 \<and> \<not> Evaluate (Some deny_then_allow) alice 3
   \<and> granted deny_then_allow alice 0"
proof -
  have e: "Evaluate (Some deny_then_allow) alice 1" and "\<not> Evaluate (Some deny_then_allow) alice 3"
    by (simp_all add: deny_then_allow_def alice_def evaluate_defs)
  moreover from e have "granted deny_then_allow alice 0"
    using Evaluate_first_match_wins [of "Some deny_then_allow" alice 1] by auto
  ultimately show ?thesis by simp
qed

definition probe_each :: "ACL option \<Rightarrow> EvaluateContext \<Rightarrow> u32 \<Rightarrow> u32" where
  "probe_each acl ctx probeMask =
     foldr (\<lambda>n acc. if bit probeMask n \<and> Evaluate acl ctx (2 ^ n) then 2 ^ n OR acc else acc)
       [0..<32] 0"

lemma bit_foldr_or:
  fixes P :: "nat \<Rightarrow> bool"
  assumes "k < 32"
  shows "bit (foldr (\<lambda>n acc. if P n then (2 ^ n :: u32) OR acc else acc) ns 0) k
     \<longleftrightarrow> k \<in> set ns \<and> P k"
  using assms by (induction ns) (auto simp: bit_simps)

text \<open>C21: The single-pass \<open>EvaluateGranted\<close> is equivalent to probing every bit of the
  mask through \<open>Evaluate\<close> and collecting the granted ones, for every list (a missing one
  and a null one included), requester and mask.\<close>

theorem EvaluateGranted_is_bitwise_Evaluate:
  "EvaluateGranted acl ctx probeMask = probe_each acl ctx probeMask"
proof -
  have "bit (EvaluateGranted acl ctx probeMask) k \<longleftrightarrow> bit (probe_each acl ctx probeMask) k"
    if k: "k < 32" for k
  proof (cases acl)
    case (Some a)
    have "Evaluate (Some a) ctx (2 ^ k) \<longleftrightarrow> granted a ctx k"
      using k by (auto simp: Evaluate_iff_granted bit_simps)
    with k Some show ?thesis
      by (simp add: EvaluateGranted_bit probe_each_def bit_foldr_or)
  next
    case None
    have "(2 :: u32) ^ k \<noteq> 0"
      using k by (auto simp: word_eq_iff_bits bit_simps)
    with k None show ?thesis
      by (simp add: EvaluateGranted_def probe_each_def bit_foldr_or Evaluate_def)
  qed
  then show ?thesis by (simp add: word_eq_iff_bits)
qed

end
