(* ===== verification/ACL_Mode.thy ===== *)
theory ACL_Mode
  imports ACL_Evaluate "HOL-Library.Char_ord" "HOL-Library.List_Lexorder"
    "HOL-Library.Product_Lexorder"
begin

text \<open>
  Access-control lists and POSIX modes: deriving a mode from a list and adjusting a list to a
  new mode (\<open>pkg/metadata/acl/mode.go\<close>), synthesising a list from a mode
  (\<open>synthesize.go\<close>), the list of a share's root directory built from the share grants
  (\<open>share_grant.go\<close>) and the probed rights (\<open>probe.go\<close>).
\<close>

section \<open>Modes (mode.go)\<close>

abbreviation (input) modeRead :: u32 where "modeRead \<equiv> 0x4"
abbreviation (input) modeWrite :: u32 where "modeWrite \<equiv> 0x2"
abbreviation (input) modeExecute :: u32 where "modeExecute \<equiv> 0x1"

abbreviation (input) rwxMaskBits :: u32 where
  "rwxMaskBits \<equiv> ACE4_READ_DATA OR ACE4_WRITE_DATA OR ACE4_APPEND_DATA OR ACE4_EXECUTE"

definition maskToRWX :: "u32 \<Rightarrow> u32" where
  "maskToRWX m =
     (let rwx = 0;
          rwx = (if m AND ACE4_READ_DATA \<noteq> 0 then rwx OR modeRead else rwx);
          rwx = (if m AND (ACE4_WRITE_DATA OR ACE4_APPEND_DATA) \<noteq> 0 then rwx OR modeWrite else rwx);
          rwx = (if m AND ACE4_EXECUTE \<noteq> 0 then rwx OR modeExecute else rwx)
      in rwx)"

definition rwxToMask :: "u32 \<Rightarrow> u32" where
  "rwxToMask rwx =
     (let m = 0;
          m = (if rwx AND modeRead \<noteq> 0 then m OR ACE4_READ_DATA else m);
          m = (if rwx AND modeWrite \<noteq> 0 then m OR (ACE4_WRITE_DATA OR ACE4_APPEND_DATA) else m);
          m = (if rwx AND modeExecute \<noteq> 0 then m OR ACE4_EXECUTE else m)
      in m)"

fun derive_loop :: "ACE list \<Rightarrow> u32 \<Rightarrow> u32 \<Rightarrow> u32 \<Rightarrow> u32 \<times> u32 \<times> u32" where
  "derive_loop [] ownerBits groupBits otherBits = (ownerBits, groupBits, otherBits)"
| "derive_loop (ace # aces) ownerBits groupBits otherBits =
     (if aceType ace \<noteq> ACE4_ACCESS_ALLOWED_ACE_TYPE \<or> IsInheritOnly ace
      then derive_loop aces ownerBits groupBits otherBits
      else let rwx = maskToRWX (aceMask ace) in
        if aceWho ace = SpecialOwner then derive_loop aces (ownerBits OR rwx) groupBits otherBits
        else if aceWho ace = SpecialGroup then derive_loop aces ownerBits (groupBits OR rwx) otherBits
        else if aceWho ace = SpecialEveryone then derive_loop aces ownerBits groupBits (otherBits OR rwx)
        else derive_loop aces ownerBits groupBits otherBits)"

definition deriveMode :: "ACL option \<Rightarrow> u32" where
  "deriveMode acl =
     (case acl of None \<Rightarrow> 0
      | Some a \<Rightarrow>
          (case derive_loop (aclACEs a) 0 0 0 of
             (ownerBits, groupBits, otherBits) \<Rightarrow>
               push_bit 6 ownerBits OR push_bit 3 groupBits OR otherBits))"

definition adjust_ace :: "u32 \<Rightarrow> u32 \<Rightarrow> u32 \<Rightarrow> ACE \<Rightarrow> ACE" where
  "adjust_ace ownerRWX groupRWX otherRWX ace =
     (let adjust = (\<lambda>triplet.
        if aceType ace = ACE4_ACCESS_ALLOWED_ACE_TYPE then
          ace\<lparr>aceMask := (aceMask ace AND NOT rwxMaskBits) OR rwxToMask triplet\<rparr>
        else if aceType ace = ACE4_ACCESS_DENIED_ACE_TYPE then
          ace\<lparr>aceMask := (aceMask ace AND NOT rwxMaskBits) OR rwxToMask (0x7 AND NOT triplet)\<rparr>
        else ace)
      in if aceWho ace = SpecialOwner then adjust ownerRWX
         else if aceWho ace = SpecialGroup then adjust groupRWX
         else if aceWho ace = SpecialEveryone then adjust otherRWX
         else ace)"

definition AdjustACLForMode :: "ACL option \<Rightarrow> u32 \<Rightarrow> ACL option" where
  "AdjustACLForMode acl newMode =
     (case acl of None \<Rightarrow> None
      | Some a \<Rightarrow>
          (let ownerRWX = drop_bit 6 newMode AND 0x7;
               groupRWX = drop_bit 3 newMode AND 0x7;
               otherRWX = newMode AND 0x7
           in Some \<lparr>aclACEs = map (adjust_ace ownerRWX groupRWX otherRWX) (aclACEs a),
                aclSource = aclSource a, aclProtected = aclProtected a,
                aclAutoInherited = aclAutoInherited a, aclNullDACL = aclNullDACL a,
                aclSACL = aclSACL a\<rparr>))"

section \<open>Synthesis (synthesize.go)\<close>

definition FullAccessMask :: u32 where
  "FullAccessMask = ACE4_READ_DATA OR ACE4_WRITE_DATA OR ACE4_APPEND_DATA
     OR ACE4_READ_NAMED_ATTRS OR ACE4_WRITE_NAMED_ATTRS OR ACE4_EXECUTE
     OR ACE4_DELETE_CHILD OR ACE4_READ_ATTRIBUTES OR ACE4_WRITE_ATTRIBUTES
     OR ACE4_DELETE OR ACE4_READ_ACL OR ACE4_WRITE_ACL OR ACE4_WRITE_OWNER
     OR ACE4_SYNCHRONIZE"

definition alwaysGrantedMask :: u32 where
  "alwaysGrantedMask = ACE4_READ_ACL OR ACE4_WRITE_ACL OR ACE4_WRITE_OWNER OR ACE4_DELETE
     OR ACE4_SYNCHRONIZE"

definition rwxToFullMask :: "u32 \<Rightarrow> bool \<Rightarrow> u32" where
  "rwxToFullMask rwx isDirectory =
     (let m = 0;
          m = (if rwx AND modeRead \<noteq> 0
               then m OR (ACE4_READ_DATA OR ACE4_READ_ATTRIBUTES OR ACE4_READ_NAMED_ATTRS
                          OR ACE4_READ_ACL OR ACE4_SYNCHRONIZE) else m);
          m = (if rwx AND modeWrite \<noteq> 0
               then (let m = m OR (ACE4_WRITE_DATA OR ACE4_APPEND_DATA
                                   OR ACE4_WRITE_ATTRIBUTES OR ACE4_WRITE_NAMED_ATTRS)
                     in if isDirectory then m OR ACE4_DELETE_CHILD else m) else m);
          m = (if rwx AND modeExecute \<noteq> 0
               then m OR (ACE4_EXECUTE OR ACE4_READ_ATTRIBUTES OR ACE4_SYNCHRONIZE) else m)
      in m)"

definition SynthesizeFromMode :: "u32 \<Rightarrow> u32 \<Rightarrow> u32 \<Rightarrow> bool \<Rightarrow> ACL" where
  "SynthesizeFromMode mode ownerUID ownerGID isDirectory =
     (let ownerRWX = drop_bit 6 mode AND 7;
          groupRWX = drop_bit 3 mode AND 7;
          otherRWX = mode AND 7;
          inheritFlags = (if isDirectory then ACE4_FILE_INHERIT_ACE OR ACE4_DIRECTORY_INHERIT_ACE else 0);
          allow = (\<lambda>m who. \<lparr>aceType = ACE4_ACCESS_ALLOWED_ACE_TYPE, aceFlag = inheritFlags,
                             aceMask = m, aceWho = who, aceTwin = False\<rparr>)
      in \<lparr>aclACEs =
            [allow (rwxToFullMask ownerRWX isDirectory OR alwaysGrantedMask) SpecialOwner]
            @ (if groupRWX \<noteq> 0 then [allow (rwxToFullMask groupRWX isDirectory) SpecialGroup] else [])
            @ (if otherRWX \<noteq> 0 then [allow (rwxToFullMask otherRWX isDirectory) SpecialEveryone] else [])
            @ [allow FullAccessMask SpecialSystem, allow FullAccessMask SpecialAdministrators],
          aclSource = ACLSourcePOSIXDerived, aclProtected = False, aclAutoInherited = False,
          aclNullDACL = False, aclSACL = None\<rparr>)"

definition SynthesizeWindowsDefault :: ACL where
  "SynthesizeWindowsDefault =
     \<lparr>aclACEs =
        [\<lparr>aceType = ACE4_ACCESS_ALLOWED_ACE_TYPE, aceFlag = 0, aceMask = FullAccessMask,
          aceWho = SpecialOwner, aceTwin = False\<rparr>,
         \<lparr>aceType = ACE4_ACCESS_ALLOWED_ACE_TYPE, aceFlag = 0, aceMask = FullAccessMask,
          aceWho = SpecialSystem, aceTwin = False\<rparr>],
      aclSource = ACLSourceWindowsDefault, aclProtected = True, aclAutoInherited = False,
      aclNullDACL = False, aclSACL = None\<rparr>"

section \<open>Share grants (share\_grant.go)\<close>

datatype GrantLevel = GrantNone | GrantRead | GrantReadWrite | GrantAdmin

fun grant_rank :: "GrantLevel \<Rightarrow> nat" where
  "grant_rank GrantNone = 0"
| "grant_rank GrantRead = 1"
| "grant_rank GrantReadWrite = 2"
| "grant_rank GrantAdmin = 3"

instantiation GrantLevel :: linorder
begin

definition less_eq_GrantLevel :: "GrantLevel \<Rightarrow> GrantLevel \<Rightarrow> bool" where
  "a \<le> b \<longleftrightarrow> grant_rank a \<le> grant_rank b"

definition less_GrantLevel :: "GrantLevel \<Rightarrow> GrantLevel \<Rightarrow> bool" where
  "a < b \<longleftrightarrow> grant_rank a < grant_rank b"

instance
proof
  fix a b :: GrantLevel
  show "a \<le> b \<Longrightarrow> b \<le> a \<Longrightarrow> a = b"
    by (cases a; cases b) (simp_all add: less_eq_GrantLevel_def)
qed (auto simp: less_eq_GrantLevel_def less_GrantLevel_def)

end

record RootGrant =
  gID :: u32
  gIsGroup :: bool
  gLevel :: GrantLevel
  gSID :: string

definition LocalDomainPrincipal :: "u32 \<Rightarrow> string" where
  "LocalDomainPrincipal uid = show_nat (unat uid) @ localDomainSuffix"

definition maskForLevel :: "GrantLevel \<Rightarrow> u32" where
  "maskForLevel level =
     (case level of
        GrantRead \<Rightarrow> rwxToFullMask (modeRead OR modeExecute) True
      | GrantReadWrite \<Rightarrow> rwxToFullMask (modeRead OR modeWrite OR modeExecute) True
      | GrantAdmin \<Rightarrow> FullAccessMask
      | GrantNone \<Rightarrow> 0)"

definition merge_sid :: "(string \<rightharpoonup> GrantLevel) \<Rightarrow> RootGrant \<Rightarrow> (string \<rightharpoonup> GrantLevel)" where
  "merge_sid sidMerged g =
     (if gSID g = [] then sidMerged
      else case sidMerged (gSID g) of
        None \<Rightarrow> sidMerged(gSID g \<mapsto> gLevel g)
      | Some lvl \<Rightarrow> if gLevel g > lvl then sidMerged(gSID g \<mapsto> gLevel g) else sidMerged)"

definition merge_id :: "(u32 \<rightharpoonup> RootGrant) \<Rightarrow> RootGrant \<Rightarrow> (u32 \<rightharpoonup> RootGrant)" where
  "merge_id merged g =
     (if gSID g \<noteq> [] \<and> gID g = 0 then merged
      else case merged (gID g) of
        None \<Rightarrow> merged(gID g \<mapsto> g)
      | Some cur \<Rightarrow>
          (let cur = (if gLevel g > gLevel cur then cur\<lparr>gLevel := gLevel g\<rparr> else cur);
               cur = (if \<not> gIsGroup g then cur\<lparr>gIsGroup := False\<rparr> else cur)
           in merged(gID g \<mapsto> cur)))"

text \<open>The keys of a merged map, in the order the code sorts them into: the range over the Go map
  visits each key once in some order, and the sort that follows fixes the order.\<close>

definition sid_keys :: "RootGrant list \<Rightarrow> string list" where
  "sid_keys grants = sort (remdups (filter (\<lambda>s. s \<noteq> []) (map gSID grants)))"

definition merged_grants :: "(u32 \<rightharpoonup> RootGrant) \<Rightarrow> RootGrant list \<Rightarrow> RootGrant list" where
  "merged_grants merged grants =
     sort_key (\<lambda>g. (gIsGroup g, gID g))
       (List.map_filter merged
         (remdups (map gID (filter (\<lambda>g. \<not> (gSID g \<noteq> [] \<and> gID g = 0)) grants))))"

definition allow_ace :: "string \<Rightarrow> u32 \<Rightarrow> bool \<Rightarrow> ACE" where
  "allow_ace who m twin = \<lparr>aceType = ACE4_ACCESS_ALLOWED_ACE_TYPE, aceFlag = 0, aceMask = m,
     aceWho = who, aceTwin = twin\<rparr>"

definition BuildShareRootACL :: "GrantLevel \<Rightarrow> RootGrant list \<Rightarrow> ACL" where
  "BuildShareRootACL defaultLevel grants =
     (let aces0 = [allow_ace SpecialOwner FullAccessMask False,
                   allow_ace SpecialSystem FullAccessMask False,
                   allow_ace SpecialAdministrators FullAccessMask False];
          sidMerged = foldl merge_sid Map.empty grants;
          sidACEs = List.map_filter (\<lambda>s. case sidMerged s of None \<Rightarrow> None
                      | Some lvl \<Rightarrow> if maskForLevel lvl \<noteq> 0
                                   then Some (allow_ace (''sid:'' @ s) (maskForLevel lvl) False) else None)
                    (sid_keys grants);
          sidCompanionIDs = map gID (filter (\<lambda>g. gSID g \<noteq> [] \<and> gID g \<noteq> 0) grants);
          merged = foldl merge_id Map.empty grants;
          idACEs = List.map_filter (\<lambda>g. if maskForLevel (gLevel g) \<noteq> 0
                      then Some (allow_ace (LocalDomainPrincipal (gID g)) (maskForLevel (gLevel g))
                                   (List.member sidCompanionIDs (gID g))) else None)
                    (merged_grants merged grants);
          defACEs = (if maskForLevel defaultLevel \<noteq> 0
                     then [allow_ace SpecialEveryone (maskForLevel defaultLevel) False] else [])
      in \<lparr>aclACEs = aces0 @ sidACEs @ idACEs @ defACEs, aclSource = ACLSourceShareGrant,
          aclProtected = False, aclAutoInherited = False, aclNullDACL = False, aclSACL = None\<rparr>)"

section \<open>Probed rights (probe.go)\<close>

definition ProbeBitsAll :: "u32 list" where
  "ProbeBitsAll = [ACE4_READ_DATA, ACE4_WRITE_DATA, ACE4_APPEND_DATA, ACE4_READ_NAMED_ATTRS,
     ACE4_WRITE_NAMED_ATTRS, ACE4_EXECUTE, ACE4_DELETE_CHILD, ACE4_READ_ATTRIBUTES,
     ACE4_WRITE_ATTRIBUTES, ACE4_DELETE, ACE4_READ_ACL, ACE4_WRITE_ACL, ACE4_WRITE_OWNER,
     ACE4_SYNCHRONIZE]"

definition ProbeMaskAll :: u32 where
  "ProbeMaskAll = foldl (OR) 0 ProbeBitsAll"

lemma ProbeMaskAll_full: "ProbeMaskAll = FullAccessMask"
  by (simp add: ProbeMaskAll_def ProbeBitsAll_def FullAccessMask_def)

section \<open>Mode lemmas\<close>

lemmas rwx_defs = maskToRWX_def rwxToMask_def rwxToFullMask_def Let_def

lemma maskToRWX_rwxToMask: "maskToRWX (m AND NOT rwxMaskBits OR rwxToMask t) = t AND 7"
  by (simp add: rwx_defs word_cases)

lemma maskToRWX_rwxToFullMask: "maskToRWX (rwxToFullMask t dir) = t AND 7"
  by (simp add: rwx_defs word_cases)

lemma maskToRWX_always: "maskToRWX (m OR alwaysGrantedMask) = maskToRWX m"
  by (simp add: rwx_defs alwaysGrantedMask_def word_cases)

lemma triplets_compose:
  "push_bit 6 (drop_bit 6 m AND 7) OR push_bit 3 (drop_bit 3 m AND 7) OR (m AND 7) = m AND 0x1FF"
  for m :: u32
  by (simp add: word_cases)

lemma triplet_shift:
  "push_bit 6 (drop_bit 6 m AND 7) = m AND 0x1C0" "push_bit 3 (drop_bit 3 m AND 7) = m AND 0x38"
  "push_bit 6 (drop_bit 6 m) AND 0x1C0 = m AND 0x1C0" "push_bit 3 (drop_bit 3 m) AND 0x38 = m AND 0x38"
  for m :: u32
  by (simp_all add: word_cases)

text \<open>The rwx bits the effective allow entries of one class contribute.\<close>

definition class_entry :: "string \<Rightarrow> ACE \<Rightarrow> bool" where
  "class_entry who ace \<longleftrightarrow>
     aceType ace = ACE4_ACCESS_ALLOWED_ACE_TYPE \<and> \<not> IsInheritOnly ace \<and> aceWho ace = who"

definition class_bits :: "string \<Rightarrow> ACE list \<Rightarrow> u32" where
  "class_bits who aces = foldr (\<lambda>ace acc. maskToRWX (aceMask ace) OR acc) (filter (class_entry who) aces) 0"

lemma derive_loop_eq:
  "derive_loop aces ob gb tb = (ob OR class_bits SpecialOwner aces, gb OR class_bits SpecialGroup aces,
      tb OR class_bits SpecialEveryone aces)"
  by (induction aces arbitrary: ob gb tb)
    (simp_all add: class_bits_def class_entry_def Let_def or.assoc)

lemma deriveMode_eq:
  "deriveMode (Some a) = push_bit 6 (class_bits SpecialOwner (aclACEs a))
     OR push_bit 3 (class_bits SpecialGroup (aclACEs a)) OR class_bits SpecialEveryone (aclACEs a)"
  by (simp add: deriveMode_def derive_loop_eq)

lemma class_entry_adjust [simp]: "class_entry who (adjust_ace ow gr ot ace) = class_entry who ace"
  by (simp add: class_entry_def adjust_ace_def IsInheritOnly_def Let_def)

lemma class_bits_const:
  assumes "\<forall>ace \<in> set aces. class_entry who ace \<longrightarrow> maskToRWX (aceMask ace) = t"
  shows "class_bits who aces = (if \<exists>ace \<in> set aces. class_entry who ace then t else 0)"
  using assms by (induction aces) (auto simp: class_bits_def)

lemma class_bits_adjust:
  assumes "who = SpecialOwner \<and> t = ow \<or> who = SpecialGroup \<and> t = gr \<or> who = SpecialEveryone \<and> t = ot"
  shows "class_bits who (map (adjust_ace ow gr ot) aces)
     = (if \<exists>ace \<in> set aces. class_entry who ace then t AND 7 else 0)"
proof -
  have "maskToRWX (aceMask (adjust_ace ow gr ot ace)) = t AND 7" if "class_entry who ace" for ace
    using that assms maskToRWX_rwxToMask
    by (auto simp: class_entry_def adjust_ace_def Let_def)
  then show ?thesis by (subst class_bits_const [where t = "t AND 7"]) auto
qed

section \<open>Share-grant lemmas\<close>

lemma maskForLevel_mono:
  assumes "bit (maskForLevel l) n" and "l \<le> l'"
  shows "bit (maskForLevel l') n"
proof -
  have "l \<le> l' \<Longrightarrow> maskForLevel l AND NOT (maskForLevel l') = 0"
    by (cases l; cases l')
      (simp_all add: less_eq_GrantLevel_def maskForLevel_def rwx_defs FullAccessMask_def)
  with assms show ?thesis
    using bit_imp_le_length [of "maskForLevel l" n] by (auto simp: mask_subset_iff)
qed

lemma parseLocalDomainID_principal [simp]: "parseLocalDomainID (LocalDomainPrincipal uid) = Some uid"
proof -
  have "unat uid < 2 ^ 32" using unat_less_2p [of uid] by simp
  then show ?thesis by (simp add: parseLocalDomainID_def LocalDomainPrincipal_def parse_show_nat)
qed

lemma principal_not_special:
  "LocalDomainPrincipal uid \<noteq> SpecialOwner" "LocalDomainPrincipal uid \<noteq> SpecialGroup"
  "LocalDomainPrincipal uid \<noteq> SpecialEveryone" "LocalDomainPrincipal uid \<noteq> SpecialOwnerRights"
  by (auto simp: LocalDomainPrincipal_def dest: arg_cong [where f = last])

lemma principal_not_sid: "\<not> has_prefix (LocalDomainPrincipal uid) ''sid:''"
proof -
  obtain c cs where s: "show_nat (unat uid) = c # cs" by (cases "show_nat (unat uid)") auto
  have "is_digit c" using show_nat_digits [of "unat uid"] s by simp
  then have "c \<noteq> CHR ''s''" by (auto simp: is_digit_def)
  then show ?thesis by (simp add: has_prefix_def LocalDomainPrincipal_def s)
qed

lemma merge_sid_bit:
  assumes up: "\<And>l l'. B l \<Longrightarrow> l \<le> l' \<Longrightarrow> B l'" and "s \<noteq> []"
  shows "(\<exists>l. foldl merge_sid m gs s = Some l \<and> B l) \<longleftrightarrow>
     (\<exists>l. m s = Some l \<and> B l) \<or> (\<exists>g \<in> set gs. gSID g = s \<and> B (gLevel g))"
proof (induction gs arbitrary: m)
  case (Cons g gs)
  have "(\<exists>l. merge_sid m g s = Some l \<and> B l) \<longleftrightarrow> (\<exists>l. m s = Some l \<and> B l) \<or> gSID g = s \<and> B (gLevel g)"
    using assms(2) by (auto simp: merge_sid_def split: option.splits intro: up)
  then show ?case by (auto simp: Cons.IH)
qed simp

lemma merge_id_bit:
  assumes up: "\<And>l l'. B l \<Longrightarrow> l \<le> l' \<Longrightarrow> B l'"
  shows "(\<exists>g. foldl merge_id m gs k = Some g \<and> B (gLevel g)) \<longleftrightarrow>
     (\<exists>g. m k = Some g \<and> B (gLevel g))
     \<or> (\<exists>g \<in> set gs. \<not> (gSID g \<noteq> [] \<and> gID g = 0) \<and> gID g = k \<and> B (gLevel g))"
proof (induction gs arbitrary: m)
  case (Cons g gs)
  have "(\<exists>h. merge_id m g k = Some h \<and> B (gLevel h)) \<longleftrightarrow>
      (\<exists>h. m k = Some h \<and> B (gLevel h)) \<or> \<not> (gSID g \<noteq> [] \<and> gID g = 0) \<and> gID g = k \<and> B (gLevel g)"
    by (auto simp: merge_id_def Let_def split: option.splits if_splits intro: up)
  then show ?case by (auto simp: Cons.IH)
qed simp

lemma merge_id_key:
  assumes "\<forall>k g. m k = Some g \<longrightarrow> gID g = k"
  shows "foldl merge_id m gs k = Some g \<Longrightarrow> gID g = k"
  using assms
proof (induction gs arbitrary: m)
  case (Cons h gs)
  have "\<forall>k g. merge_id m h k = Some g \<longrightarrow> gID g = k"
    using Cons.prems(2) by (auto simp: merge_id_def Let_def split: option.splits if_splits)
  with Cons.IH Cons.prems(1) show ?case by simp
qed auto

lemma merge_id_dom:
  "dom (foldl merge_id m gs) = dom m \<union> gID ` {g \<in> set gs. \<not> (gSID g \<noteq> [] \<and> gID g = 0)}"
proof (induction gs arbitrary: m)
  case (Cons g gs)
  have "dom (merge_id m g) = dom m \<union> (if gSID g \<noteq> [] \<and> gID g = 0 then {} else {gID g})"
    by (auto simp: merge_id_def Let_def split: option.splits)
  then show ?case by (auto simp: Cons.IH)
qed simp

lemma merged_grants_set:
  "set (merged_grants (foldl merge_id Map.empty gs) gs) = ran (foldl merge_id Map.empty gs)"
proof -
  let ?m = "foldl merge_id Map.empty gs"
  have "set (merged_grants ?m gs) = {g. \<exists>k \<in> dom ?m. ?m k = Some g}"
    by (auto simp: merged_grants_def in_set_map_filter merge_id_dom)
  then show ?thesis by (auto simp: ran_def)
qed

lemma granted_allow_only:
  assumes "\<forall>ace \<in> set (aclACEs a). aceType ace = ACE4_ACCESS_ALLOWED_ACE_TYPE"
  shows "granted a ctx n \<longleftrightarrow> aclNullDACL a
     \<or> (\<exists>ace \<in> set (aclACEs a). decides ctx (owner_rights_present a ctx) n ace) \<or> implicit_right a ctx n"
proof (cases "find (decides ctx (owner_rights_present a ctx) n) (aclACEs a)")
  case None
  then have "\<not> (\<exists>ace \<in> set (aclACEs a). decides ctx (owner_rights_present a ctx) n ace)"
    by (simp add: find_None_iff)
  with None show ?thesis by (simp add: granted_def)
next
  case (Some ace)
  with find_Some_in_set [OF Some] assms show ?thesis by (auto simp: granted_def)
qed

text \<open>When a share grant covers a requester: by Windows identity, or by numeric Unix identity
  unless the grant is for a Windows identity without one.\<close>

definition grant_applies :: "EvaluateContext \<Rightarrow> RootGrant \<Rightarrow> bool" where
  "grant_applies ctx g \<longleftrightarrow>
     gSID g \<noteq> [] \<and> (gSID g = ctxSID ctx \<or> gSID g \<in> set (ctxGroupSIDs ctx))
     \<or> (gSID g = [] \<or> gID g \<noteq> 0) \<and> gID g \<in> {ctxUID ctx, ctxGID ctx} \<union> set (ctxGIDs ctx)"

lemma sid_ace_matches:
  "aceMatchesWhoWithOwnerRights (allow_ace (''sid:'' @ s) m t) ctx orp \<longleftrightarrow>
     s \<noteq> [] \<and> s = ctxSID ctx \<or> s \<in> set (ctxGroupSIDs ctx)"
  by (auto simp: aceMatchesWhoWithOwnerRights_def allow_ace_def has_prefix_def Let_def)

lemmas sid_ace_matches_cons = sid_ace_matches [simplified append.simps]

lemma id_ace_matches:
  "aceMatchesWhoWithOwnerRights (allow_ace (LocalDomainPrincipal k) m t) ctx orp \<longleftrightarrow>
     k \<in> {ctxUID ctx, ctxGID ctx} \<union> set (ctxGIDs ctx)"
  by (auto simp: aceMatchesWhoWithOwnerRights_def allow_ace_def principal_not_special
      principal_not_sid Let_def)

lemma fixed_ace_matches:
  "aceMatchesWhoWithOwnerRights (allow_ace SpecialEveryone m t) ctx orp"
  "ctxUID ctx \<noteq> ctxFileOwnerUID ctx \<Longrightarrow> \<not> aceMatchesWhoWithOwnerRights (allow_ace SpecialOwner m t) ctx orp"
  "aceMatchesWhoWithOwnerRights (allow_ace SpecialSystem m t) ctx orp \<longleftrightarrow> ctxWho ctx = SpecialSystem"
  "aceMatchesWhoWithOwnerRights (allow_ace SpecialAdministrators m t) ctx orp
     \<longleftrightarrow> ctxWho ctx = SpecialAdministrators"
  by (auto simp: evaluate_defs allow_ace_def)

lemma decides_allow:
  "decides ctx orp n (allow_ace who m t) \<longleftrightarrow>
     aceMatchesWhoWithOwnerRights (allow_ace who m t) ctx orp \<and> bit m n"
  by (auto simp: decides_def IsInheritOnly_def allow_ace_def)

definition sid_aces :: "RootGrant list \<Rightarrow> ACE list" where
  "sid_aces gs = List.map_filter (\<lambda>s. case foldl merge_sid Map.empty gs s of None \<Rightarrow> None
      | Some lvl \<Rightarrow> if maskForLevel lvl \<noteq> 0
                   then Some (allow_ace (''sid:'' @ s) (maskForLevel lvl) False) else None) (sid_keys gs)"

definition id_aces :: "RootGrant list \<Rightarrow> ACE list" where
  "id_aces gs = List.map_filter (\<lambda>g. if maskForLevel (gLevel g) \<noteq> 0
      then Some (allow_ace (LocalDomainPrincipal (gID g)) (maskForLevel (gLevel g))
             (List.member (map gID (filter (\<lambda>g. gSID g \<noteq> [] \<and> gID g \<noteq> 0) gs)) (gID g))) else None)
      (merged_grants (foldl merge_id Map.empty gs) gs)"

lemma bit_not_0: "bit w n \<Longrightarrow> w \<noteq> 0" for w :: "'a::len word"
  by auto

lemma sid_aces_decide:
  "(\<exists>ace \<in> set (sid_aces gs). decides ctx orp n ace) \<longleftrightarrow>
     (\<exists>g \<in> set gs. gSID g \<noteq> [] \<and> (gSID g = ctxSID ctx \<or> gSID g \<in> set (ctxGroupSIDs ctx))
        \<and> bit (maskForLevel (gLevel g)) n)"
  (is "?l \<longleftrightarrow> ?r")
proof -
  let ?B = "\<lambda>l. bit (maskForLevel l) n"
  have pt: "(\<exists>ace. (case m of None \<Rightarrow> None | Some lvl \<Rightarrow> if maskForLevel lvl \<noteq> 0
        then Some (allow_ace (''sid:'' @ s) (maskForLevel lvl) False) else None) = Some ace
      \<and> decides ctx orp n ace) \<longleftrightarrow>
      (s \<noteq> [] \<and> s = ctxSID ctx \<or> s \<in> set (ctxGroupSIDs ctx)) \<and> (\<exists>l. m = Some l \<and> ?B l)" for m s
    by (cases m) (auto simp: decides_allow sid_ace_matches_cons dest: bit_not_0)
  have "?l \<longleftrightarrow> (\<exists>s \<in> set (sid_keys gs). (s \<noteq> [] \<and> s = ctxSID ctx \<or> s \<in> set (ctxGroupSIDs ctx))
      \<and> (\<exists>l. foldl merge_sid Map.empty gs s = Some l \<and> ?B l))"
    by (simp only: sid_aces_def bex_map_filter pt)
  also have "\<dots> \<longleftrightarrow> ?r"
    by (auto simp: sid_keys_def merge_sid_bit [OF maskForLevel_mono]) metis+
  finally show ?thesis .
qed

lemma id_aces_decide:
  "(\<exists>ace \<in> set (id_aces gs). decides ctx orp n ace) \<longleftrightarrow>
     (\<exists>g \<in> set gs. (gSID g = [] \<or> gID g \<noteq> 0) \<and> gID g \<in> {ctxUID ctx, ctxGID ctx} \<union> set (ctxGIDs ctx)
        \<and> bit (maskForLevel (gLevel g)) n)"
  (is "?l \<longleftrightarrow> ?r")
proof -
  let ?B = "\<lambda>l. bit (maskForLevel l) n" and ?m = "foldl merge_id Map.empty gs"
  have mb: "(\<exists>g. ?m k = Some g \<and> ?B (gLevel g)) \<longleftrightarrow>
      (\<exists>g \<in> set gs. (gSID g = [] \<or> gID g \<noteq> 0) \<and> gID g = k \<and> ?B (gLevel g))" for k
    using merge_id_bit [where B = ?B and m = Map.empty and gs = gs and k = k] maskForLevel_mono
    by fastforce
  have key: "?m k = Some g \<Longrightarrow> gID g = k" for k g by (rule merge_id_key) auto
  have pt: "(\<exists>ace. (if maskForLevel (gLevel g) \<noteq> 0
        then Some (allow_ace (LocalDomainPrincipal (gID g)) (maskForLevel (gLevel g)) t) else None) = Some ace
      \<and> decides ctx orp n ace) \<longleftrightarrow>
      gID g \<in> {ctxUID ctx, ctxGID ctx} \<union> set (ctxGIDs ctx) \<and> ?B (gLevel g)" for g t
    by (auto simp: decides_allow id_ace_matches dest: bit_not_0)
  have "?l \<longleftrightarrow> (\<exists>g \<in> ran ?m. gID g \<in> {ctxUID ctx, ctxGID ctx} \<union> set (ctxGIDs ctx) \<and> ?B (gLevel g))"
    by (simp only: id_aces_def bex_map_filter merged_grants_set pt)
  also have "\<dots> \<longleftrightarrow> (\<exists>k \<in> {ctxUID ctx, ctxGID ctx} \<union> set (ctxGIDs ctx). \<exists>g. ?m k = Some g \<and> ?B (gLevel g))"
    using key unfolding ran_def by blast
  also have "\<dots> \<longleftrightarrow> ?r"
    unfolding mb by blast
  finally show ?thesis .
qed

lemma BuildShareRootACL_aces:
  "aclACEs (BuildShareRootACL d gs) =
     [allow_ace SpecialOwner FullAccessMask False, allow_ace SpecialSystem FullAccessMask False,
      allow_ace SpecialAdministrators FullAccessMask False] @ sid_aces gs @ id_aces gs
     @ (if maskForLevel d \<noteq> 0 then [allow_ace SpecialEveryone (maskForLevel d) False] else [])"
  by (simp add: BuildShareRootACL_def sid_aces_def id_aces_def Let_def)

lemma share_aces_allow: "\<forall>ace \<in> set (aclACEs (BuildShareRootACL d gs)). aceType ace = ACE4_ACCESS_ALLOWED_ACE_TYPE"
  by (auto simp: BuildShareRootACL_aces sid_aces_def id_aces_def ball_map_filter ball_Un allow_ace_def
      split: option.splits if_splits)

lemma share_granted:
  assumes "ctxUID ctx \<noteq> ctxFileOwnerUID ctx"
    and "ctxWho ctx \<noteq> SpecialSystem" and "ctxWho ctx \<noteq> SpecialAdministrators"
  shows "granted (BuildShareRootACL d gs) ctx n \<longleftrightarrow>
     bit (maskForLevel d) n \<or> (\<exists>g \<in> set gs. grant_applies ctx g \<and> bit (maskForLevel (gLevel g)) n)"
proof -
  let ?a = "BuildShareRootACL d gs"
  have "\<not> aclNullDACL ?a" and "\<not> implicit_right ?a ctx n"
    using assms(1) by (simp_all add: BuildShareRootACL_def implicit_right_def Let_def)
  then have "granted ?a ctx n \<longleftrightarrow> (\<exists>ace \<in> set (aclACEs ?a). decides ctx (owner_rights_present ?a ctx) n ace)"
    by (simp add: granted_allow_only share_aces_allow)
  also have "\<dots> \<longleftrightarrow> bit (maskForLevel d) n
      \<or> (\<exists>ace \<in> set (sid_aces gs). decides ctx (owner_rights_present ?a ctx) n ace)
      \<or> (\<exists>ace \<in> set (id_aces gs). decides ctx (owner_rights_present ?a ctx) n ace)"
    using assms
    by (auto simp: BuildShareRootACL_aces decides_allow fixed_ace_matches bex_Un dest: bit_not_0)
  finally show ?thesis
    unfolding sid_aces_decide id_aces_decide grant_applies_def by blast
qed

section \<open>Properties\<close>

text \<open>C28: A list synthesised from a POSIX mode represents that mode exactly: deriving the mode
  back yields the nine permission bits, for files and for directories.\<close>

theorem deriveMode_SynthesizeFromMode:
  "deriveMode (Some (SynthesizeFromMode mode uid gid isDirectory)) = mode AND 0x1FF"
proof -
  define a where "a = SynthesizeFromMode mode uid gid isDirectory"
  have "class_bits SpecialOwner (aclACEs a) = drop_bit 6 mode AND 7"
    and "class_bits SpecialGroup (aclACEs a) = drop_bit 3 mode AND 7"
    and "class_bits SpecialEveryone (aclACEs a) = mode AND 7"
    unfolding a_def SynthesizeFromMode_def Let_def class_bits_def class_entry_def
    by (simp_all add: IsInheritOnly_def maskToRWX_always maskToRWX_rwxToFullMask and.assoc)
  then show ?thesis
    by (simp only: deriveMode_eq triplets_compose flip: a_def)
qed

text \<open>C29: After a chmod, the mode derived from the adjusted list agrees with the new mode on every
  class (owner, group, others) the list has an effective allow entry for, and is empty on the
  others; entries for other principals are untouched, special entries keep their type, flags,
  principal and every right outside read, write, append and execute, and the descriptor's marks
  and system list survive.\<close>

theorem AdjustACLForMode_sets_mode:
  "deriveMode (AdjustACLForMode (Some a) newMode) =
     (if \<exists>ace \<in> set (aclACEs a). class_entry SpecialOwner ace then newMode AND 0x1C0 else 0)
     OR (if \<exists>ace \<in> set (aclACEs a). class_entry SpecialGroup ace then newMode AND 0x38 else 0)
     OR (if \<exists>ace \<in> set (aclACEs a). class_entry SpecialEveryone ace then newMode AND 0x7 else 0)
   \<and> (\<forall>r. AdjustACLForMode (Some a) newMode = Some r \<longrightarrow>
        list_all2 (\<lambda>x y. aceType y = aceType x \<and> aceFlag y = aceFlag x \<and> aceWho y = aceWho x
            \<and> aceMask y AND NOT rwxMaskBits = aceMask x AND NOT rwxMaskBits
            \<and> (aceWho x \<notin> {SpecialOwner, SpecialGroup, SpecialEveryone} \<longrightarrow> y = x))
          (aclACEs a) (aclACEs r)
        \<and> r\<lparr>aclACEs := aclACEs a\<rparr> = a)"
proof -
  have rwx: "(m AND NOT rwxMaskBits OR rwxToMask t) AND NOT rwxMaskBits = m AND NOT rwxMaskBits" for m t
    by (simp add: rwx_defs word_cases)
  show ?thesis
    using rwx
    by (auto simp: AdjustACLForMode_def Let_def deriveMode_eq class_bits_adjust triplet_shift and.assoc
        list_all2_map2 list.rel_refl_strong adjust_ace_def intro!: list.rel_refl_strong)
qed

definition alice_list :: ACL where
  "alice_list = SynthesizeFromMode 0x1A4 7 8 False"

theorem AdjustACLForMode_sets_mode_witness:
  "deriveMode (AdjustACLForMode (Some alice_list) 0x1C0) = 0x1C0
   \<and> (\<exists>r. AdjustACLForMode (Some alice_list) 0x1C0 = Some r \<and> r\<lparr>aclACEs := aclACEs alice_list\<rparr> = alice_list)"
proof -
  obtain r where r: "AdjustACLForMode (Some alice_list) 0x1C0 = Some r"
    by (simp add: AdjustACLForMode_def Let_def)
  have "\<exists>ace \<in> set (aclACEs alice_list). class_entry SpecialOwner ace"
    by (simp add: alice_list_def SynthesizeFromMode_def class_entry_def IsInheritOnly_def Let_def)
  with AdjustACLForMode_sets_mode [of alice_list "0x1C0"] r show ?thesis by simp
qed

text \<open>C30: The list projected onto a share's root directory grants a requester who does not own it
  exactly what the share grants say: a right is granted if and only if the share's default level
  has it or some grant that covers the requester (by Windows identity, or by user or group id)
  has it.  With no default and no covering grant, nothing is granted.\<close>

theorem BuildShareRootACL_grants_exactly:
  assumes "ctxUID ctx \<noteq> ctxFileOwnerUID ctx"
    and "ctxWho ctx \<noteq> SpecialSystem" and "ctxWho ctx \<noteq> SpecialAdministrators"
  shows "bit (EvaluateGranted (Some (BuildShareRootACL d gs)) ctx probeMask) n \<longleftrightarrow>
     bit probeMask n \<and> (bit (maskForLevel d) n
       \<or> (\<exists>g \<in> set gs. grant_applies ctx g \<and> bit (maskForLevel (gLevel g)) n))"
proof (cases "n < 32")
  case True
  then show ?thesis by (simp add: EvaluateGranted_bit share_granted [OF assms])
next
  case False
  then have "\<not> bit w n" for w :: u32 using bit_imp_le_length [of w n] by auto
  then show ?thesis by simp
qed

definition reader_grant :: RootGrant where
  "reader_grant = \<lparr>gID = 7, gIsGroup = False, gLevel = GrantRead, gSID = []\<rparr>"

theorem BuildShareRootACL_grants_exactly_witness:
  "bit (EvaluateGranted (Some (BuildShareRootACL GrantNone [reader_grant])) alice ProbeMaskAll) 0
   \<and> \<not> bit (EvaluateGranted (Some (BuildShareRootACL GrantNone [reader_grant])) alice ProbeMaskAll) 1"
proof -
  have "ctxUID alice \<noteq> ctxFileOwnerUID alice" "ctxWho alice \<noteq> SpecialSystem"
    "ctxWho alice \<noteq> SpecialAdministrators" by (simp_all add: alice_def)
  note grants = BuildShareRootACL_grants_exactly [OF this, of GrantNone "[reader_grant]" ProbeMaskAll]
  show ?thesis unfolding grants
    by (simp add: ProbeMaskAll_full FullAccessMask_def maskForLevel_def reader_grant_def
        grant_applies_def alice_def rwx_defs bit_simps)
qed

end
