(* ===== verification/Lock_Types.thy ===== *)
theory Lock_Types
  imports Ditto_Prelude
begin

text \<open>
  The data of the unified lock manager (\<open>pkg/metadata/lock\<close>): byte ranges on 64-bit
  offsets and unified locks (\<open>types.go\<close>), leases (\<open>oplock.go\<close>),
  delegations (\<open>delegation.go\<close>), the byte-range locks of the SMB path and the
  pairwise conflict rules (first part of \<open>manager.go\<close>).  \<open>range_bytes\<close> is
  the set of byte positions a range covers; the word arithmetic of the overlap tests is shown to
  decide intersection of these sets.  Times are naturals with 0 for the zero time; a 16-byte key
  is a list of bytes.
\<close>

type_synonym time = nat
type_synonym lease_key = "u8 list"
type_synonym FileHandle = string

abbreviation (input) zero_key :: lease_key where "zero_key \<equiv> replicate 16 0"

section \<open>Byte ranges (types.go)\<close>

definition rangeLast :: "u64 \<Rightarrow> u64 \<Rightarrow> u64" where
  "rangeLast offset len = (if len = 0 then NOT 0 else offset + len - 1)"

definition rangeEnd :: "u64 \<Rightarrow> u64 \<Rightarrow> u64" where
  "rangeEnd offset len = (if len = 0 then NOT 0 else offset + len)"

definition RangesOverlap :: "u64 \<Rightarrow> u64 \<Rightarrow> u64 \<Rightarrow> u64 \<Rightarrow> bool" where
  "RangesOverlap offset1 length1 offset2 length2 =
     (let last1 = rangeLast offset1 length1;
          last2 = rangeLast offset2 length2
      in offset1 \<le> last2 \<and> offset2 \<le> last1)"

section \<open>Leases (oplock.go)\<close>

abbreviation (input) LeaseStateNone :: u32 where "LeaseStateNone \<equiv> 0x00"
abbreviation (input) LeaseStateRead :: u32 where "LeaseStateRead \<equiv> 0x01"
abbreviation (input) LeaseStateHandle :: u32 where "LeaseStateHandle \<equiv> 0x02"
abbreviation (input) LeaseStateWrite :: u32 where "LeaseStateWrite \<equiv> 0x04"
abbreviation (input) BreakToStripWrite :: u32 where "BreakToStripWrite \<equiv> 0xFFFFFFFF"
abbreviation (input) BreakToStripHandle :: u32 where "BreakToStripHandle \<equiv> 0xFFFFFFFE"

datatype BreakReason = BreakReasonUnspecified | BreakReasonDefault | BreakReasonSharingViolation
  | BreakReasonDestructive

definition ComputeLeaseBreakTo :: "u32 \<Rightarrow> BreakReason \<Rightarrow> u32" where
  "ComputeLeaseBreakTo existingState reason =
     (case reason of
        BreakReasonDestructive \<Rightarrow> LeaseStateNone
      | BreakReasonSharingViolation \<Rightarrow> existingState AND NOT LeaseStateHandle
      | _ \<Rightarrow> existingState AND NOT LeaseStateWrite)"

definition breakSentinelForReason :: "BreakReason \<Rightarrow> u32" where
  "breakSentinelForReason reason =
     (case reason of
        BreakReasonDestructive \<Rightarrow> LeaseStateNone
      | BreakReasonSharingViolation \<Rightarrow> BreakToStripHandle
      | _ \<Rightarrow> BreakToStripWrite)"

definition ValidFileLeaseStates :: "u32 list" where
  "ValidFileLeaseStates = [LeaseStateNone, LeaseStateRead, LeaseStateRead OR LeaseStateHandle,
     LeaseStateRead OR LeaseStateWrite, LeaseStateRead OR LeaseStateWrite OR LeaseStateHandle]"

definition ValidDirectoryLeaseStates :: "u32 list" where
  "ValidDirectoryLeaseStates = [LeaseStateNone, LeaseStateRead, LeaseStateRead OR LeaseStateHandle]"

definition IsValidFileLeaseState :: "u32 \<Rightarrow> bool" where
  "IsValidFileLeaseState state = List.member ValidFileLeaseStates state"

definition IsValidDirectoryLeaseState :: "u32 \<Rightarrow> bool" where
  "IsValidDirectoryLeaseState state = List.member ValidDirectoryLeaseStates state"

record OpLock =
  olLeaseKey :: lease_key
  olLeaseState :: u32
  olBreakToState :: u32
  olBreakingToRequired :: u32
  olBreaking :: bool
  olBreakDeferred :: bool
  olEpoch :: u16
  olBreakStarted :: time
  olReclaim :: bool
  olParentLeaseKey :: lease_key
  olIsDirectory :: bool
  olIsTraditionalOplock :: bool
  olBrokenViaTimeout :: bool
  olBreakReason :: BreakReason

definition HasRead :: "OpLock \<Rightarrow> bool" where
  "HasRead l \<longleftrightarrow> olLeaseState l AND LeaseStateRead \<noteq> 0"

definition HasWrite :: "OpLock \<Rightarrow> bool" where
  "HasWrite l \<longleftrightarrow> olLeaseState l AND LeaseStateWrite \<noteq> 0"

definition HasHandle :: "OpLock \<Rightarrow> bool" where
  "HasHandle l \<longleftrightarrow> olLeaseState l AND LeaseStateHandle \<noteq> 0"

definition nextProgressiveBreakTarget :: "u32 \<Rightarrow> u32 \<Rightarrow> u32" where
  "nextProgressiveBreakTarget ackedState required =
     (if ackedState AND (LeaseStateWrite OR LeaseStateHandle) \<noteq> 0
      then required OR LeaseStateRead else required)"

definition OpLocksConflict :: "OpLock \<Rightarrow> OpLock \<Rightarrow> bool" where
  "OpLocksConflict existing requested =
     (if olLeaseKey existing = olLeaseKey requested then False
      else
        let existingState = (if olBreaking existing then olBreakingToRequired existing
                             else olLeaseState existing)
        in if existingState AND LeaseStateWrite \<noteq> 0
              \<and> olLeaseState requested AND (LeaseStateRead OR LeaseStateWrite) \<noteq> 0 then True
           else if olLeaseState requested AND LeaseStateWrite \<noteq> 0
              \<and> existingState AND (LeaseStateRead OR LeaseStateWrite) \<noteq> 0 then True
           else False)"

section \<open>Delegations (delegation.go)\<close>

datatype DelegationType = DelegTypeRead | DelegTypeWrite

record Delegation =
  dgDelegationID :: string
  dgDelegType :: DelegationType
  dgIsDirectory :: bool
  dgClientID :: string
  dgShareName :: string
  dgBreaking :: bool
  dgBreakStarted :: time
  dgRecalled :: bool
  dgRevoked :: bool
  dgNotificationMask :: u32

definition DelegationConflictsWithLease :: "Delegation option \<Rightarrow> OpLock option \<Rightarrow> bool" where
  "DelegationConflictsWithLease deleg lease =
     (case (deleg, lease) of
        (Some d, Some l) \<Rightarrow>
          (if dgDelegType d = DelegTypeWrite then olLeaseState l \<noteq> LeaseStateNone
           else if HasWrite l then True
           else False)
      | _ \<Rightarrow> False)"

section \<open>Unified locks (types.go)\<close>

datatype LockType = LockTypeShared | LockTypeExclusive

datatype AccessMode = AccessModeNone | AccessModeDenyRead | AccessModeDenyWrite | AccessModeDenyAll

record LockOwner =
  OwnerID :: string
  ClientID :: string
  ShareName :: string
  ExcludeLeaseKey :: lease_key
  ExcludeParentDirLeaseKey :: lease_key
  HasExcludeParentDirLeaseKey :: bool

record UnifiedLock =
  ulID :: string
  ulOwner :: LockOwner
  ulFileHandle :: FileHandle
  ulOffset :: u64
  ulLength :: u64
  ulType :: LockType
  ulAccessMode :: AccessMode
  ulAcquiredAt :: time
  ulBlocking :: bool
  ulReclaim :: bool
  ulLease :: "OpLock option"
  ulDelegation :: "Delegation option"

text \<open>\<open>NewUnifiedLock\<close>; the generated UUID and the current time are arguments.\<close>

definition NewUnifiedLock :: "string \<Rightarrow> time \<Rightarrow> LockOwner \<Rightarrow> FileHandle \<Rightarrow> u64 \<Rightarrow> u64 \<Rightarrow> LockType \<Rightarrow> UnifiedLock" where
  "NewUnifiedLock uuid now owner fileHandle offset len lockType =
     \<lparr>ulID = uuid, ulOwner = owner, ulFileHandle = fileHandle, ulOffset = offset, ulLength = len,
      ulType = lockType, ulAccessMode = AccessModeNone, ulAcquiredAt = now, ulBlocking = False,
      ulReclaim = False, ulLease = None, ulDelegation = None\<rparr>"

definition IsExclusive :: "UnifiedLock \<Rightarrow> bool" where
  "IsExclusive ul \<longleftrightarrow> ulType ul = LockTypeExclusive"

definition IsShared :: "UnifiedLock \<Rightarrow> bool" where
  "IsShared ul \<longleftrightarrow> ulType ul = LockTypeShared"

definition End :: "UnifiedLock \<Rightarrow> u64" where
  "End ul = (if ulLength ul = 0 then NOT 0 else ulOffset ul + ulLength ul)"

definition Contains :: "UnifiedLock \<Rightarrow> u64 \<Rightarrow> u64 \<Rightarrow> bool" where
  "Contains ul offset len =
     (if ulLength ul = 0 then offset \<ge> ulOffset ul
      else if len = 0 then False
      else offset \<ge> ulOffset ul \<and> offset + len \<le> End ul)"

definition Overlaps :: "UnifiedLock \<Rightarrow> u64 \<Rightarrow> u64 \<Rightarrow> bool" where
  "Overlaps ul offset len = RangesOverlap (ulOffset ul) (ulLength ul) offset len"

definition IsLease :: "UnifiedLock \<Rightarrow> bool" where
  "IsLease ul \<longleftrightarrow> ulLease ul \<noteq> None"

definition IsDelegation :: "UnifiedLock \<Rightarrow> bool" where
  "IsDelegation ul \<longleftrightarrow> ulDelegation ul \<noteq> None"

definition opLockConflictsWithByteLock :: "OpLock \<Rightarrow> string \<Rightarrow> UnifiedLock \<Rightarrow> bool" where
  "opLockConflictsWithByteLock lease leaseOwnerID lock =
     (if leaseOwnerID = OwnerID (ulOwner lock) then False
      else HasWrite lease \<and> IsExclusive lock)"

definition accessModesConflict :: "AccessMode \<Rightarrow> AccessMode \<Rightarrow> bool" where
  "accessModesConflict a b \<longleftrightarrow> a \<noteq> AccessModeNone \<or> b \<noteq> AccessModeNone"

definition ConflictsWith :: "UnifiedLock \<Rightarrow> UnifiedLock \<Rightarrow> bool" where
  "ConflictsWith ul other =
     (if accessModesConflict (ulAccessMode ul) (ulAccessMode other) then True
      else case (ulLease ul, ulLease other) of
        (Some l, Some l') \<Rightarrow> OpLocksConflict l l'
      | (Some l, None) \<Rightarrow> opLockConflictsWithByteLock l (OwnerID (ulOwner ul)) other
      | (None, Some l') \<Rightarrow> opLockConflictsWithByteLock l' (OwnerID (ulOwner other)) ul
      | (None, None) \<Rightarrow>
          if \<not> RangesOverlap (ulOffset ul) (ulLength ul) (ulOffset other) (ulLength other) then False
          else if OwnerID (ulOwner ul) = OwnerID (ulOwner other) then False
          else if ulType ul = LockTypeShared \<and> ulType other = LockTypeShared then False
          else True)"

section \<open>SMB byte-range locks and conflicts across protocols (manager.go)\<close>

record FileLock =
  flID :: u64
  flSessionID :: u64
  flOpenID :: string
  flOffset :: u64
  flLength :: u64
  flExclusive :: bool
  flAcquiredAt :: time
  flClientAddr :: string
  flClientID :: string
  flIsZeroByte :: bool
  flPersistID :: string

record LockConflict =
  lcOffset :: u64
  lcLength :: u64
  lcExclusive :: bool
  lcOwnerSessionID :: u64
  lcOwnerID :: string

definition callerOwnerID :: "string \<Rightarrow> u64 \<Rightarrow> string" where
  "callerOwnerID openID sessionID =
     (if openID \<noteq> [] then openID else ''session:'' @ show_nat (unat sessionID))"

definition lockOwnerID :: "FileLock \<Rightarrow> string" where
  "lockOwnerID fl = callerOwnerID (flOpenID fl) (flSessionID fl)"

definition locksOverlap :: "FileLock \<Rightarrow> FileLock \<Rightarrow> bool" where
  "locksOverlap a b =
     (if flIsZeroByte a \<and> flIsZeroByte b then False
      else if flIsZeroByte a \<or> flIsZeroByte b then
        (let (zb, other) = (if flIsZeroByte a then (a, b) else (b, a)) in
         if flOffset zb = 0 then False
         else let otherEnd = rangeEnd (flOffset other) (flLength other)
              in flOffset other < flOffset zb \<and> otherEnd > flOffset zb)
      else RangesOverlap (flOffset a) (flLength a) (flOffset b) (flLength b))"

definition IsLockConflicting :: "FileLock \<Rightarrow> FileLock \<Rightarrow> bool" where
  "IsLockConflicting existing requested =
     (if \<not> locksOverlap existing requested then False
      else if \<not> flExclusive existing \<and> \<not> flExclusive requested then False
      else if lockOwnerID existing = lockOwnerID requested then
        (if flOpenID existing = [] \<or> flOpenID requested = [] then False
         else if flExclusive existing \<and> \<not> flExclusive requested then False
         else True)
      else True)"

definition CheckIOConflict :: "FileLock \<Rightarrow> string \<Rightarrow> u64 \<Rightarrow> u64 \<Rightarrow> u64 \<Rightarrow> bool \<Rightarrow> bool" where
  "CheckIOConflict existing openID sessionID offset len isWrite =
     (if flIsZeroByte existing then False
      else if \<not> RangesOverlap (flOffset existing) (flLength existing) offset len then False
      else
        let sameOwner = (lockOwnerID existing = callerOwnerID openID sessionID) in
        if sameOwner then (if \<not> isWrite then False else \<not> flExclusive existing)
        else if isWrite then True
        else flExclusive existing)"

definition conflictFrom :: "FileLock \<Rightarrow> LockConflict" where
  "conflictFrom fl = \<lparr>lcOffset = flOffset fl, lcLength = flLength fl, lcExclusive = flExclusive fl,
     lcOwnerSessionID = flSessionID fl, lcOwnerID = lockOwnerID fl\<rparr>"

definition fileLockConflictsWithUnified :: "FileLock \<Rightarrow> UnifiedLock \<Rightarrow> bool" where
  "fileLockConflictsWithUnified fl ul =
     (if IsLease ul \<or> IsDelegation ul then False
      else if flIsZeroByte fl then False
      else if \<not> RangesOverlap (flOffset fl) (flLength fl) (ulOffset ul) (ulLength ul) then False
      else flExclusive fl \<or> IsExclusive ul)"

definition unifiedLockBlocksIO :: "UnifiedLock \<Rightarrow> u64 \<Rightarrow> u64 \<Rightarrow> bool \<Rightarrow> bool" where
  "unifiedLockBlocksIO ul offset len isWrite =
     (if IsLease ul \<or> IsDelegation ul then False
      else if \<not> Overlaps ul offset len then False
      else if isWrite then True
      else IsExclusive ul)"

definition conflictFromUnified :: "UnifiedLock \<Rightarrow> LockConflict" where
  "conflictFromUnified ul = \<lparr>lcOffset = ulOffset ul, lcLength = ulLength ul,
     lcExclusive = IsExclusive ul, lcOwnerSessionID = 0, lcOwnerID = OwnerID (ulOwner ul)\<rparr>"

section \<open>Byte sets\<close>

text \<open>The byte positions of a range that stays below \<open>2^64\<close>; length 0 means to the end.\<close>

definition range_bytes :: "u64 \<Rightarrow> u64 \<Rightarrow> nat set" where
  "range_bytes offset len = (if len = 0 then {unat offset..<2 ^ 64}
     else {unat offset..<unat offset + unat len})"

definition range_ok :: "u64 \<Rightarrow> u64 \<Rightarrow> bool" where
  "range_ok offset len \<longleftrightarrow> len = 0 \<or> unat offset + unat len \<le> 2 ^ 64"

lemma unat_not_0: "unat (NOT 0 :: u64) = 2 ^ 64 - 1"
  by (simp add: unsigned_minus_1_eq_mask mask_eq_exp_minus_1)

lemma unat_eq_0_iff: "unat w = 0 \<longleftrightarrow> w = 0" for w :: "'a::len word"
  by (simp add: unat_eq_0)

lemma unat_rangeLast:
  assumes "range_ok offset len"
  shows "unat (rangeLast offset len) = (if len = 0 then 2 ^ 64 - 1 else unat offset + unat len - 1)"
proof (cases "len = 0")
  case False
  then have pos: "0 < unat len" by (simp add: unat_gt_0)
  have "unat (offset + (len - 1)) = unat offset + (unat len - 1)"
    using assms False pos by (simp add: unat_plus_if' unat_minus_one range_ok_def)
  then show ?thesis using False pos by (simp add: rangeLast_def algebra_simps)
qed (simp add: rangeLast_def unat_not_0 [simplified])

lemma range_bytes_last:
  assumes "range_ok offset len"
  shows "range_bytes offset len = {unat offset..unat (rangeLast offset len)}"
proof (cases "len = 0")
  case False
  then have "0 < unat len" by (simp add: unat_gt_0)
  with False show ?thesis by (auto simp: range_bytes_def unat_rangeLast [OF assms])
qed (use unat_rangeLast [OF assms] in \<open>auto simp: range_bytes_def\<close>)

lemma range_start_le_last: "range_ok offset len \<Longrightarrow> unat offset \<le> unat (rangeLast offset len)"
  using unat_less_2p [of offset] unat_gt_0 [of len] by (auto simp: unat_rangeLast)

lemma range_bytes_nonempty: "range_ok offset len \<Longrightarrow> range_bytes offset len \<noteq> {}"
  using range_start_le_last by (simp add: range_bytes_last)

lemma RangesOverlap_iff:
  assumes "range_ok o1 l1" and "range_ok o2 l2"
  shows "RangesOverlap o1 l1 o2 l2 \<longleftrightarrow> range_bytes o1 l1 \<inter> range_bytes o2 l2 \<noteq> {}"
  using range_start_le_last [OF assms(1)] range_start_le_last [OF assms(2)]
  by (auto simp: RangesOverlap_def Let_def word_le_nat_alt range_bytes_last assms)

lemma RangesOverlap_commute: "RangesOverlap o1 l1 o2 l2 = RangesOverlap o2 l2 o1 l1"
  by (auto simp: RangesOverlap_def Let_def)

lemma locksOverlap_commute: "locksOverlap a b = locksOverlap b a"
  by (auto simp: locksOverlap_def Let_def RangesOverlap_commute)

abbreviation (input) ul_bytes :: "UnifiedLock \<Rightarrow> nat set" where
  "ul_bytes ul \<equiv> range_bytes (ulOffset ul) (ulLength ul)"

abbreviation (input) ul_ok :: "UnifiedLock \<Rightarrow> bool" where
  "ul_ok ul \<equiv> range_ok (ulOffset ul) (ulLength ul)"

abbreviation (input) fl_bytes :: "FileLock \<Rightarrow> nat set" where
  "fl_bytes fl \<equiv> range_bytes (flOffset fl) (flLength fl)"

abbreviation (input) fl_ok :: "FileLock \<Rightarrow> bool" where
  "fl_ok fl \<equiv> range_ok (flOffset fl) (flLength fl)"

definition byte_range_lock :: "UnifiedLock \<Rightarrow> bool" where
  "byte_range_lock ul \<longleftrightarrow> ulLease ul = None \<and> ulDelegation ul = None"

lemma ConflictsWith_byte_range:
  assumes "byte_range_lock a" and "byte_range_lock b" and "\<not> ConflictsWith a b"
    and "ul_ok a" and "ul_ok b" and "OwnerID (ulOwner a) \<noteq> OwnerID (ulOwner b)"
    and "IsExclusive a \<or> IsExclusive b"
  shows "ul_bytes a \<inter> ul_bytes b = {}"
  using assms
  by (cases "ulType a"; cases "ulType b")
    (auto simp: ConflictsWith_def byte_range_lock_def RangesOverlap_iff IsExclusive_def split: if_splits)

section \<open>Leases and break targets\<close>

lemmas lease_state_defs = IsValidFileLeaseState_def ValidFileLeaseStates_def
  IsValidDirectoryLeaseState_def ValidDirectoryLeaseStates_def

lemma ComputeLeaseBreakTo_sub: "ComputeLeaseBreakTo s r AND NOT s = 0"
  by (cases r) (auto simp: ComputeLeaseBreakTo_def word_eq_iff_bits bit_simps)

lemma ComputeLeaseBreakTo_valid:
  "IsValidFileLeaseState s \<Longrightarrow> IsValidFileLeaseState (ComputeLeaseBreakTo s r)"
  by (cases r) (auto simp: ComputeLeaseBreakTo_def lease_state_defs)

lemma nextProgressive_shrinks:
  assumes "IsValidFileLeaseState acked" and "IsValidFileLeaseState required"
    and "required AND NOT acked = 0" and "acked \<noteq> required"
  shows "IsValidFileLeaseState (nextProgressiveBreakTarget acked required)"
    and "nextProgressiveBreakTarget acked required < acked"
    and "required AND NOT (nextProgressiveBreakTarget acked required) = 0"
  using assms by (auto simp: nextProgressiveBreakTarget_def lease_state_defs)

text \<open>The stages of a break when the client acknowledges each target: from \<open>acked\<close> down to
  the required state.\<close>

fun break_stages :: "nat \<Rightarrow> u32 \<Rightarrow> u32 \<Rightarrow> u32 list" where
  "break_stages 0 acked required = []"
| "break_stages (Suc k) acked required =
     (if acked = required then []
      else let nxt = nextProgressiveBreakTarget acked required in nxt # break_stages k nxt required)"

lemma break_stages_3: "break_stages 3 = break_stages (Suc (Suc (Suc 0)))"
  by (simp add: numeral_3_eq_3)

section \<open>Properties\<close>

text \<open>For ranges whose last byte does not exceed \<open>2^64 - 1\<close>, the 64-bit overlap test
  decides exactly whether the two ranges share a byte position, length 0 reaching to the end,
  including ranges that end at the very last position.\<close>

lemma RangesOverlap_exact:
  assumes "range_ok offset1 length1" and "range_ok offset2 length2"
  shows "RangesOverlap offset1 length1 offset2 length2 \<longleftrightarrow>
     (\<exists>b. b \<in> range_bytes offset1 length1 \<and> b \<in> range_bytes offset2 length2)"
  using RangesOverlap_iff [OF assms] by blast



section \<open>Deviations from the documented behaviour\<close>

text \<open>A zero-byte lock strictly inside another range conflicts with it, although the field's
  documentation says that zero-byte locks never conflict with any other lock.\<close>

definition zb_lock :: FileLock where
  "zb_lock = \<lparr>flID = 0, flSessionID = 1, flOpenID = ''a'', flOffset = 5, flLength = 0, flExclusive = True,
     flAcquiredAt = 0, flClientAddr = [], flClientID = [], flIsZeroByte = True, flPersistID = []\<rparr>"

theorem zero_byte_lock_conflicts:
  "IsLockConflicting zb_lock (zb_lock\<lparr>flOpenID := ''b'', flOffset := 0, flLength := 10, flIsZeroByte := False\<rparr>)"
  by (simp add: zb_lock_def IsLockConflicting_def locksOverlap_def lockOwnerID_def callerOwnerID_def
      rangeEnd_def Let_def)

text \<open>The same pair is missed when the other range ends at the last byte position: its exclusive
  end wraps to zero.\<close>

theorem zero_byte_overlap_missed_at_end:
  "\<not> locksOverlap (zb_lock\<lparr>flOffset := 0xFFFFFFFFFFFFFFF8\<rparr>)
     (zb_lock\<lparr>flOffset := 0xFFFFFFFFFFFFFFF0, flLength := 16, flIsZeroByte := False\<rparr>)
   \<and> locksOverlap (zb_lock\<lparr>flOffset := 0xFFFFFFFFFFFFFFF8\<rparr>)
     (zb_lock\<lparr>flOffset := 0xFFFFFFFFFFFFFFF0, flLength := 15, flIsZeroByte := False\<rparr>)"
  by (simp add: zb_lock_def locksOverlap_def rangeEnd_def Let_def)

end
