(* ===== verification/Lock_Store.thy ===== *)
theory Lock_Store
  imports Lock_Types
begin

text \<open>
  Persistence of locks: the persisted record, queries over records and the conversions to and
  from unified locks (\<open>pkg/metadata/lock/store.go\<close>), and the in-memory lock store
  (\<open>pkg/metadata/store/memory/locks.go\<close>) with its lazily initialised wrapper on the
  metadata store.  The context argument of the Go methods is the boolean \<open>ctxErr\<close>,
  true when the context is cancelled.  The locale \<open>lock_store\<close> is the contract the
  manager relies on; both memory stores are instances of it.
\<close>

datatype store_error = ErrLockNotFound | ErrLocked string | ErrLockConflict string string
  | ErrContext

section \<open>Persisted locks (store.go)\<close>

record PersistedLock =
  plID :: string
  plShareName :: string
  plFileID :: string
  plOwnerID :: string
  plClientID :: string
  plLockType :: LockType
  plOffset :: u64
  plLength :: u64
  plIsZeroByte :: bool
  plIsLegacyByteRange :: bool
  plAccessMode :: AccessMode
  plAcquiredAt :: time
  plServerEpoch :: u64
  plLeaseKey :: "u8 list"
  plLeaseState :: u32
  plLeaseEpoch :: u16
  plBreakToState :: u32
  plBreakingToRequired :: u32
  plBreaking :: bool
  plBreakStarted :: time
  plParentLeaseKey :: "u8 list"
  plIsDirectory :: bool
  plIsTraditionalOplock :: bool
  plDelegationID :: string
  plDelegType :: DelegationType
  plDelegBreaking :: bool
  plDelegRecalled :: bool
  plDelegRevoked :: bool
  plDelegNotificationMask :: u32

definition PersistedLock_IsLease :: "PersistedLock \<Rightarrow> bool" where
  "PersistedLock_IsLease pl \<longleftrightarrow> length (plLeaseKey pl) = 16"

record LockQuery =
  lqFileID :: string
  lqOwnerID :: string
  lqClientID :: string
  lqShareName :: string
  lqIsLease :: "bool option"

definition IsEmpty :: "LockQuery \<Rightarrow> bool" where
  "IsEmpty q \<longleftrightarrow> lqFileID q = [] \<and> lqOwnerID q = [] \<and> lqClientID q = [] \<and> lqShareName q = []
     \<and> lqIsLease q = None"

definition MatchesLock :: "LockQuery \<Rightarrow> PersistedLock \<Rightarrow> bool" where
  "MatchesLock q lk =
     (if lqFileID q \<noteq> [] \<and> plFileID lk \<noteq> lqFileID q then False
      else if lqOwnerID q \<noteq> [] \<and> plOwnerID lk \<noteq> lqOwnerID q then False
      else if lqClientID q \<noteq> [] \<and> plClientID lk \<noteq> lqClientID q then False
      else if lqShareName q \<noteq> [] \<and> plShareName lk \<noteq> lqShareName q then False
      else case lqIsLease q of
        Some want \<Rightarrow> want = PersistedLock_IsLease lk
      | None \<Rightarrow> True)"

text \<open>The record with every optional part absent.\<close>

definition base_record :: PersistedLock where
  "base_record = \<lparr>plID = [], plShareName = [], plFileID = [], plOwnerID = [], plClientID = [],
     plLockType = LockTypeShared, plOffset = 0, plLength = 0, plIsZeroByte = False,
     plIsLegacyByteRange = False, plAccessMode = AccessModeNone, plAcquiredAt = 0, plServerEpoch = 0,
     plLeaseKey = [], plLeaseState = 0, plLeaseEpoch = 0, plBreakToState = 0,
     plBreakingToRequired = 0, plBreaking = False, plBreakStarted = 0, plParentLeaseKey = [],
     plIsDirectory = False, plIsTraditionalOplock = False, plDelegationID = [],
     plDelegType = DelegTypeRead, plDelegBreaking = False, plDelegRecalled = False,
     plDelegRevoked = False, plDelegNotificationMask = 0\<rparr>"

definition ToPersistedLock :: "UnifiedLock \<Rightarrow> u64 \<Rightarrow> PersistedLock" where
  "ToPersistedLock lock epoch =
     (let pl = base_record\<lparr>
            plID := ulID lock, plShareName := ShareName (ulOwner lock), plFileID := ulFileHandle lock,
            plOwnerID := OwnerID (ulOwner lock), plClientID := ClientID (ulOwner lock),
            plLockType := ulType lock, plOffset := ulOffset lock, plLength := ulLength lock,
            plAccessMode := ulAccessMode lock, plAcquiredAt := ulAcquiredAt lock,
            plServerEpoch := epoch\<rparr>;
          pl = (case ulLease lock of None \<Rightarrow> pl
                | Some l \<Rightarrow> pl\<lparr>
                    plLeaseKey := olLeaseKey l, plLeaseState := olLeaseState l,
                    plLeaseEpoch := olEpoch l, plBreakToState := olBreakToState l,
                    plBreakingToRequired := olBreakingToRequired l, plBreaking := olBreaking l,
                    plBreakStarted := (if olBreaking l then olBreakStarted l else 0),
                    plIsDirectory := olIsDirectory l,
                    plIsTraditionalOplock := olIsTraditionalOplock l,
                    plParentLeaseKey := (if olParentLeaseKey l \<noteq> zero_key
                                         then olParentLeaseKey l else [])\<rparr>)
      in case (ulDelegation lock, ulLease lock) of
           (Some d, None) \<Rightarrow> pl\<lparr>
             plDelegationID := dgDelegationID d, plDelegType := dgDelegType d,
             plIsDirectory := dgIsDirectory d, plDelegBreaking := dgBreaking d,
             plDelegRecalled := dgRecalled d, plDelegRevoked := dgRevoked d,
             plDelegNotificationMask := dgNotificationMask d\<rparr>
         | _ \<Rightarrow> pl)"

text \<open>The lease part of \<open>FromPersistedLock\<close>.\<close>

definition lease_from_persisted :: "PersistedLock \<Rightarrow> OpLock" where
  "lease_from_persisted pl =
     (let l = \<lparr>olLeaseKey = plLeaseKey pl, olLeaseState = plLeaseState pl,
               olBreakToState = plBreakToState pl, olBreakingToRequired = plBreakingToRequired pl,
               olBreaking = plBreaking pl, olBreakDeferred = False, olEpoch = plLeaseEpoch pl,
               olBreakStarted = plBreakStarted pl, olReclaim = False,
               olParentLeaseKey = (if length (plParentLeaseKey pl) = 16 then plParentLeaseKey pl
                                   else zero_key),
               olIsDirectory = plIsDirectory pl, olIsTraditionalOplock = plIsTraditionalOplock pl,
               olBrokenViaTimeout = False, olBreakReason = BreakReasonUnspecified\<rparr>;
          l = (if olBreakingToRequired l = 0
               then (if olBreaking l then l\<lparr>olBreakingToRequired := olBreakToState l\<rparr>
                     else l\<lparr>olBreakingToRequired := olLeaseState l\<rparr>)
               else l)
      in if olIsDirectory l
         then l\<lparr>olLeaseState := olLeaseState l AND NOT LeaseStateWrite,
                 olBreakToState := olBreakToState l AND NOT LeaseStateWrite,
                 olBreakingToRequired := olBreakingToRequired l AND NOT LeaseStateWrite\<rparr>
         else l)"

definition FromPersistedLock :: "PersistedLock \<Rightarrow> UnifiedLock" where
  "FromPersistedLock pl =
     \<lparr>ulID = plID pl,
      ulOwner = \<lparr>OwnerID = plOwnerID pl, ClientID = plClientID pl, ShareName = plShareName pl,
                 ExcludeLeaseKey = zero_key, ExcludeParentDirLeaseKey = zero_key,
                 HasExcludeParentDirLeaseKey = False\<rparr>,
      ulFileHandle = plFileID pl, ulOffset = plOffset pl, ulLength = plLength pl,
      ulType = plLockType pl, ulAccessMode = plAccessMode pl, ulAcquiredAt = plAcquiredAt pl,
      ulBlocking = False, ulReclaim = False,
      ulLease = (if length (plLeaseKey pl) = 16 then Some (lease_from_persisted pl) else None),
      ulDelegation =
        (if plDelegationID pl \<noteq> []
         then Some \<lparr>dgDelegationID = plDelegationID pl, dgDelegType = plDelegType pl,
                dgIsDirectory = plIsDirectory pl, dgClientID = plClientID pl,
                dgShareName = plShareName pl, dgBreaking = plDelegBreaking pl, dgBreakStarted = 0,
                dgRecalled = plDelegRecalled pl, dgRevoked = plDelegRevoked pl,
                dgNotificationMask = plDelegNotificationMask pl\<rparr>
         else None)\<rparr>"

section \<open>The in-memory lock store (store/memory/locks.go)\<close>

record memoryLockStore =
  mlsLocks :: "string \<rightharpoonup> PersistedLock"
  mlsServerEpoch :: u64
  mlsCleanShutdown :: bool

definition newMemoryLockStore :: memoryLockStore where
  "newMemoryLockStore = \<lparr>mlsLocks = Map.empty, mlsServerEpoch = 0, mlsCleanShutdown = False\<rparr>"

definition cloneLock :: "PersistedLock \<Rightarrow> PersistedLock" where
  "cloneLock lk =
     \<lparr>plID = plID lk, plShareName = plShareName lk, plFileID = plFileID lk, plOwnerID = plOwnerID lk,
      plClientID = plClientID lk, plLockType = plLockType lk, plOffset = plOffset lk,
      plLength = plLength lk, plIsZeroByte = plIsZeroByte lk,
      plIsLegacyByteRange = plIsLegacyByteRange lk, plAccessMode = plAccessMode lk,
      plAcquiredAt = plAcquiredAt lk, plServerEpoch = plServerEpoch lk,
      plLeaseKey = (if length (plLeaseKey lk) > 0 then plLeaseKey lk else []),
      plLeaseState = plLeaseState lk, plLeaseEpoch = plLeaseEpoch lk,
      plBreakToState = plBreakToState lk, plBreakingToRequired = plBreakingToRequired lk,
      plBreaking = plBreaking lk, plBreakStarted = plBreakStarted lk,
      plParentLeaseKey = (if length (plParentLeaseKey lk) > 0 then plParentLeaseKey lk else []),
      plIsDirectory = plIsDirectory lk, plIsTraditionalOplock = plIsTraditionalOplock lk,
      plDelegationID = plDelegationID lk, plDelegType = plDelegType lk,
      plDelegBreaking = plDelegBreaking lk, plDelegRecalled = plDelegRecalled lk,
      plDelegRevoked = plDelegRevoked lk, plDelegNotificationMask = plDelegNotificationMask lk\<rparr>"

definition mls_PutLock :: "bool \<Rightarrow> memoryLockStore \<Rightarrow> PersistedLock \<Rightarrow> store_error option \<times> memoryLockStore" where
  "mls_PutLock ctxErr s lk =
     (if ctxErr then (Some ErrContext, s)
      else (None, s\<lparr>mlsLocks := (mlsLocks s)(plID lk \<mapsto> cloneLock lk)\<rparr>))"

definition mls_GetLock :: "bool \<Rightarrow> memoryLockStore \<Rightarrow> string \<Rightarrow> store_error + PersistedLock" where
  "mls_GetLock ctxErr s lockID =
     (if ctxErr then Inl ErrContext
      else case mlsLocks s lockID of None \<Rightarrow> Inl ErrLockNotFound | Some lk \<Rightarrow> Inr (cloneLock lk))"

definition mls_DeleteLock :: "bool \<Rightarrow> memoryLockStore \<Rightarrow> string \<Rightarrow> store_error option \<times> memoryLockStore" where
  "mls_DeleteLock ctxErr s lockID =
     (if ctxErr then (Some ErrContext, s)
      else case mlsLocks s lockID of
        None \<Rightarrow> (Some ErrLockNotFound, s)
      | Some _ \<Rightarrow> (None, s\<lparr>mlsLocks := (mlsLocks s)(lockID := None)\<rparr>))"

text \<open>The order in which a Go map is visited is unspecified, so the listed records are a set.\<close>

definition mls_ListLocks :: "bool \<Rightarrow> memoryLockStore \<Rightarrow> LockQuery \<Rightarrow> store_error + PersistedLock set" where
  "mls_ListLocks ctxErr s query =
     (if ctxErr then Inl ErrContext
      else Inr (cloneLock ` {lk \<in> ran (mlsLocks s). MatchesLock query lk}))"

definition drop_records :: "(PersistedLock \<Rightarrow> bool) \<Rightarrow> (string \<rightharpoonup> PersistedLock) \<Rightarrow> (string \<rightharpoonup> PersistedLock)" where
  "drop_records P m = (\<lambda>k. case m k of None \<Rightarrow> None | Some lk \<Rightarrow> if P lk then None else Some lk)"

definition mls_DeleteLocksByClient :: "bool \<Rightarrow> memoryLockStore \<Rightarrow> string \<Rightarrow> (store_error + nat) \<times> memoryLockStore" where
  "mls_DeleteLocksByClient ctxErr s clientID =
     (if ctxErr then (Inl ErrContext, s)
      else (Inr (card {k. \<exists>lk. mlsLocks s k = Some lk \<and> plClientID lk = clientID}),
            s\<lparr>mlsLocks := drop_records (\<lambda>lk. plClientID lk = clientID) (mlsLocks s)\<rparr>))"

definition mls_DeleteLocksByFile :: "bool \<Rightarrow> memoryLockStore \<Rightarrow> string \<Rightarrow> (store_error + nat) \<times> memoryLockStore" where
  "mls_DeleteLocksByFile ctxErr s fileID =
     (if ctxErr then (Inl ErrContext, s)
      else (Inr (card {k. \<exists>lk. mlsLocks s k = Some lk \<and> plFileID lk = fileID}),
            s\<lparr>mlsLocks := drop_records (\<lambda>lk. plFileID lk = fileID) (mlsLocks s)\<rparr>))"

definition mls_GetServerEpoch :: "bool \<Rightarrow> memoryLockStore \<Rightarrow> store_error + u64" where
  "mls_GetServerEpoch ctxErr s = (if ctxErr then Inl ErrContext else Inr (mlsServerEpoch s))"

definition mls_IncrementServerEpoch :: "bool \<Rightarrow> memoryLockStore \<Rightarrow> (store_error + u64) \<times> memoryLockStore" where
  "mls_IncrementServerEpoch ctxErr s =
     (if ctxErr then (Inl ErrContext, s)
      else (let s = s\<lparr>mlsServerEpoch := mlsServerEpoch s + 1\<rparr> in (Inr (mlsServerEpoch s), s)))"

definition mls_GetCleanShutdown :: "bool \<Rightarrow> memoryLockStore \<Rightarrow> store_error + bool" where
  "mls_GetCleanShutdown ctxErr s = (if ctxErr then Inl ErrContext else Inr (mlsCleanShutdown s))"

definition mls_SetCleanShutdown :: "bool \<Rightarrow> memoryLockStore \<Rightarrow> bool \<Rightarrow> store_error option \<times> memoryLockStore" where
  "mls_SetCleanShutdown ctxErr s clean =
     (if ctxErr then (Some ErrContext, s) else (None, s\<lparr>mlsCleanShutdown := clean\<rparr>))"

section \<open>The wrapper on the memory metadata store\<close>

text \<open>The lock part of \<open>MemoryMetadataStore\<close> is \<open>None\<close> until first written.\<close>

type_synonym mms = "memoryLockStore option"

definition initLockStore :: "mms \<Rightarrow> memoryLockStore" where
  "initLockStore s = (case s of None \<Rightarrow> newMemoryLockStore | Some ls \<Rightarrow> ls)"

definition mms_PutLock :: "bool \<Rightarrow> mms \<Rightarrow> PersistedLock \<Rightarrow> store_error option \<times> mms" where
  "mms_PutLock ctxErr s lk =
     (if ctxErr then (Some ErrContext, s)
      else (let ls = initLockStore s
            in (None, Some (ls\<lparr>mlsLocks := (mlsLocks ls)(plID lk \<mapsto> cloneLock lk)\<rparr>))))"

definition mms_GetLock :: "bool \<Rightarrow> mms \<Rightarrow> string \<Rightarrow> store_error + PersistedLock" where
  "mms_GetLock ctxErr s lockID =
     (if ctxErr then Inl ErrContext
      else case s of None \<Rightarrow> Inl ErrLockNotFound
      | Some ls \<Rightarrow>
          (case mlsLocks ls lockID of None \<Rightarrow> Inl ErrLockNotFound | Some lk \<Rightarrow> Inr (cloneLock lk)))"

definition mms_DeleteLock :: "bool \<Rightarrow> mms \<Rightarrow> string \<Rightarrow> store_error option \<times> mms" where
  "mms_DeleteLock ctxErr s lockID =
     (if ctxErr then (Some ErrContext, s)
      else case s of None \<Rightarrow> (Some ErrLockNotFound, s)
      | Some ls \<Rightarrow>
          (case mlsLocks ls lockID of
             None \<Rightarrow> (Some ErrLockNotFound, s)
           | Some _ \<Rightarrow> (None, Some (ls\<lparr>mlsLocks := (mlsLocks ls)(lockID := None)\<rparr>))))"

definition mms_ListLocks :: "bool \<Rightarrow> mms \<Rightarrow> LockQuery \<Rightarrow> store_error + PersistedLock set" where
  "mms_ListLocks ctxErr s query =
     (if ctxErr then Inl ErrContext
      else case s of None \<Rightarrow> Inr {}
      | Some ls \<Rightarrow> Inr (cloneLock ` {lk \<in> ran (mlsLocks ls). MatchesLock query lk}))"

definition mms_IncrementServerEpoch :: "bool \<Rightarrow> mms \<Rightarrow> (store_error + u64) \<times> mms" where
  "mms_IncrementServerEpoch ctxErr s =
     (if ctxErr then (Inl ErrContext, s)
      else (let ls = initLockStore s; ls = ls\<lparr>mlsServerEpoch := mlsServerEpoch ls + 1\<rparr>
            in (Inr (mlsServerEpoch ls), Some ls)))"

definition mms_GetCleanShutdown :: "bool \<Rightarrow> mms \<Rightarrow> store_error + bool" where
  "mms_GetCleanShutdown ctxErr s =
     (if ctxErr then Inl ErrContext
      else case s of None \<Rightarrow> Inr False | Some ls \<Rightarrow> Inr (mlsCleanShutdown ls))"

definition mms_SetCleanShutdown :: "bool \<Rightarrow> mms \<Rightarrow> bool \<Rightarrow> store_error option \<times> mms" where
  "mms_SetCleanShutdown ctxErr s clean =
     (if ctxErr then (Some ErrContext, s)
      else (None, Some ((initLockStore s)\<lparr>mlsCleanShutdown := clean\<rparr>)))"

section \<open>The contract of a lock store\<close>

locale lock_store =
  fixes put :: "'s \<Rightarrow> PersistedLock \<Rightarrow> store_error option \<times> 's"
    and get :: "'s \<Rightarrow> string \<Rightarrow> store_error + PersistedLock"
    and del :: "'s \<Rightarrow> string \<Rightarrow> store_error option \<times> 's"
  assumes put_ok: "fst (put s lk) = None"
    and get_put: "get (snd (put s lk)) k = (if k = plID lk then Inr lk else get s k)"
    and del_err: "fst (del s k) = (case get s k of Inl e \<Rightarrow> Some e | Inr _ \<Rightarrow> None)"
    and get_del: "get (snd (del s k)) k' = (if k' = k then Inl ErrLockNotFound else get s k')"
begin

text \<open>A mutation the manager sends to the store.\<close>

definition apply_mut :: "'s \<Rightarrow> PersistedLock + string \<Rightarrow> 's" where
  "apply_mut s m = (case m of Inl lk \<Rightarrow> snd (put s lk) | Inr k \<Rightarrow> snd (del s k))"

definition mut_id :: "PersistedLock + string \<Rightarrow> string" where
  "mut_id m = (case m of Inl lk \<Rightarrow> plID lk | Inr k \<Rightarrow> k)"

lemma get_apply:
  "get (apply_mut s m) k =
     (if k = mut_id m then (case m of Inl lk \<Rightarrow> Inr lk | Inr _ \<Rightarrow> Inl ErrLockNotFound) else get s k)"
  by (auto simp: apply_mut_def mut_id_def get_put get_del split: sum.split)

text \<open>After any sequence of mutations, the record of an identifier is decided by the last mutation
  that names it.\<close>

lemma last_write_wins:
  "get (foldl apply_mut s ms) k =
     (if \<exists>m \<in> set ms. mut_id m = k
      then case last (filter (\<lambda>m. mut_id m = k) ms) of Inl lk \<Rightarrow> Inr lk | Inr _ \<Rightarrow> Inl ErrLockNotFound
      else get s k)"
  by (induction ms rule: rev_induct) (auto simp: get_apply)

end

lemma cloneLock_id [simp]: "cloneLock lk = lk"
  by (simp add: cloneLock_def)

interpretation mls: lock_store "mls_PutLock False" "mls_GetLock False" "mls_DeleteLock False"
  by unfold_locales
    (auto simp: mls_PutLock_def mls_GetLock_def mls_DeleteLock_def split: option.split)

interpretation mms: lock_store "mms_PutLock False" "mms_GetLock False" "mms_DeleteLock False"
  by unfold_locales
    (auto simp: mms_PutLock_def mms_GetLock_def mms_DeleteLock_def initLockStore_def
       newMemoryLockStore_def Let_def split: option.split)

section \<open>Round trips\<close>

text \<open>What survives a restart: every field but the runtime-only ones.\<close>

definition durable_lease :: "OpLock \<Rightarrow> OpLock" where
  "durable_lease l = l\<lparr>olBreakDeferred := False, olReclaim := False, olBrokenViaTimeout := False,
     olBreakReason := BreakReasonUnspecified,
     olBreakStarted := (if olBreaking l then olBreakStarted l else 0)\<rparr>"

definition durable_part :: "UnifiedLock \<Rightarrow> UnifiedLock" where
  "durable_part ul = ul\<lparr>
     ulOwner := (ulOwner ul)\<lparr>ExcludeLeaseKey := zero_key, ExcludeParentDirLeaseKey := zero_key,
                              HasExcludeParentDirLeaseKey := False\<rparr>,
     ulBlocking := False, ulReclaim := False,
     ulLease := map_option durable_lease (ulLease ul),
     ulDelegation := map_option (\<lambda>d. d\<lparr>dgBreakStarted := 0\<rparr>) (ulDelegation ul)\<rparr>"

definition lease_ok :: "OpLock \<Rightarrow> bool" where
  "lease_ok l \<longleftrightarrow> length (olLeaseKey l) = 16 \<and> length (olParentLeaseKey l) = 16
     \<and> (olBreakingToRequired l = 0 \<longrightarrow> (if olBreaking l then olBreakToState l else olLeaseState l) = 0)
     \<and> (olIsDirectory l \<longrightarrow> olLeaseState l AND 4 = 0 \<and> olBreakToState l AND 4 = 0
          \<and> olBreakingToRequired l AND 4 = 0)"

definition lock_ok :: "UnifiedLock \<Rightarrow> bool" where
  "lock_ok ul \<longleftrightarrow> (ulLease ul = None \<or> ulDelegation ul = None)
     \<and> (\<forall>l. ulLease ul = Some l \<longrightarrow> lease_ok l)
     \<and> (\<forall>d. ulDelegation ul = Some d \<longrightarrow> dgDelegationID d \<noteq> []
          \<and> dgClientID d = ClientID (ulOwner ul) \<and> dgShareName d = ShareName (ulOwner ul))"

lemma strip_write: "(s :: u32) AND 4 = 0 \<Longrightarrow> s AND NOT 4 = s"
  by (simp add: word_cases)

lemma lease_roundtrip:
  assumes "lease_ok l" and "ulLease ul = Some l"
  shows "lease_from_persisted (ToPersistedLock ul epoch) = durable_lease l"
proof -
  have "ToPersistedLock ul epoch =
      (ToPersistedLock (ul\<lparr>ulLease := None, ulDelegation := None\<rparr>) epoch)\<lparr>
        plLeaseKey := olLeaseKey l, plLeaseState := olLeaseState l,
        plLeaseEpoch := olEpoch l, plBreakToState := olBreakToState l,
        plBreakingToRequired := olBreakingToRequired l, plBreaking := olBreaking l,
        plBreakStarted := (if olBreaking l then olBreakStarted l else 0),
        plIsDirectory := olIsDirectory l, plIsTraditionalOplock := olIsTraditionalOplock l,
        plParentLeaseKey := (if olParentLeaseKey l \<noteq> zero_key then olParentLeaseKey l else [])\<rparr>"
    using assms(2) by (simp add: ToPersistedLock_def Let_def split: option.split)
  with assms(1) show ?thesis
    by (cases l) (auto simp: lease_from_persisted_def durable_lease_def lease_ok_def Let_def
        strip_write [simplified])
qed

section \<open>Properties\<close>


definition example_lease :: OpLock where
  "example_lease = \<lparr>olLeaseKey = replicate 16 1, olLeaseState = 3, olBreakToState = 1,
     olBreakingToRequired = 1, olBreaking = True, olBreakDeferred = False, olEpoch = 2,
     olBreakStarted = 9, olReclaim = False, olParentLeaseKey = zero_key, olIsDirectory = True,
     olIsTraditionalOplock = False, olBrokenViaTimeout = False, olBreakReason = BreakReasonDefault\<rparr>"

definition example_lock :: "OpLock option \<Rightarrow> UnifiedLock" where
  "example_lock l = \<lparr>ulID = ''id'', ulOwner = \<lparr>OwnerID = ''smb:1'', ClientID = ''c'', ShareName = ''s'',
       ExcludeLeaseKey = zero_key, ExcludeParentDirLeaseKey = zero_key,
       HasExcludeParentDirLeaseKey = False\<rparr>,
     ulFileHandle = ''f'', ulOffset = 0, ulLength = 0, ulType = LockTypeShared,
     ulAccessMode = AccessModeNone, ulAcquiredAt = 5, ulBlocking = False, ulReclaim = False,
     ulLease = l, ulDelegation = None\<rparr>"


text \<open>The in-memory lock store is a faithful log of mutations: after any sequence of puts and
  deletes, a lookup returns the record most recently put under that identifier, reports not-found
  when the most recent mutation of it was a delete, and is unchanged when none named it.\<close>

lemma memory_store_last_write_wins:
  "mls_GetLock False
     (foldl (\<lambda>s m. case m of Inl lk \<Rightarrow> snd (mls_PutLock False s lk) | Inr k \<Rightarrow> snd (mls_DeleteLock False s k)) s ms) k
   = (let named = filter (\<lambda>m. (case m of Inl lk \<Rightarrow> plID lk | Inr j \<Rightarrow> j) = k) ms
      in if named = [] then mls_GetLock False s k
         else case last named of Inl lk \<Rightarrow> Inr lk | Inr _ \<Rightarrow> Inl ErrLockNotFound)"
  using mls.last_write_wins [of s ms k]
  by (auto simp: mls.apply_mut_def [abs_def] mls.mut_id_def [abs_def] filter_empty_conv Let_def)

section \<open>Deviations from the documented behaviour\<close>

text \<open>A lease that is being broken in stages down to nothing (final target 0, current stage Read)
  comes back from persistence with final target Read: the zero final target is taken for an absent
  one, although the field documents zero as a valid target.\<close>

theorem break_target_lost_in_persistence:
  "map_option olBreakingToRequired
     (ulLease (FromPersistedLock (ToPersistedLock
        (example_lock (Some (example_lease\<lparr>olBreakingToRequired := 0\<rparr>))) 4))) = Some 1"
  by (simp add: example_lock_def example_lease_def ToPersistedLock_def FromPersistedLock_def
      lease_from_persisted_def base_record_def Let_def)

end
