(* ===== verification/Lock_Index.thy ===== *)
theory Lock_Index
  imports Lock_Store "HOL-Library.AList"
begin

text \<open>
  The reverse indexes of the lock manager (\<open>pkg/metadata/lock/indexes.go\<close>).  Both maps,
  lease key to handle buckets and client to handle buckets, are reference counted in the same
  way, so they are instances of one structure: a map from keys to association lists from handles
  to counts.  The locale \<open>ref_index\<close> states what the manager relies on, namely how an
  increment and a decrement change the counts, and proves once that removing the old
  contributions of a bucket and adding the new ones leaves exactly the counts of the new bucket.
\<close>

type_synonym 'k rindex = "'k \<rightharpoonup> (string \<times> nat) list"

section \<open>Reference counts per bucket\<close>

definition bucket_count :: "(string \<times> nat) list \<Rightarrow> string \<Rightarrow> nat" where
  "bucket_count b handleKey = (case map_of b handleKey of None \<Rightarrow> 0 | Some n \<Rightarrow> n)"

text \<open>\<open>buckets[handleKey]++\<close>, creating the inner map on first use.\<close>

definition idx_add :: "'k \<Rightarrow> string \<Rightarrow> 'k rindex \<Rightarrow> 'k rindex" where
  "idx_add k handleKey idx =
     (let buckets = (case idx k of None \<Rightarrow> [] | Some b \<Rightarrow> b)
      in idx(k \<mapsto> AList.update handleKey (bucket_count buckets handleKey + 1) buckets))"

text \<open>Decrement, dropping the bucket at the last reference and the key with its last bucket.\<close>

definition idx_remove :: "'k \<Rightarrow> string \<Rightarrow> 'k rindex \<Rightarrow> 'k rindex" where
  "idx_remove k handleKey idx =
     (case idx k of
        None \<Rightarrow> idx
      | Some buckets \<Rightarrow>
          (let n = bucket_count buckets handleKey
           in if n > 1 then idx(k \<mapsto> AList.update handleKey (n - 1) buckets)
              else (let buckets = AList.delete handleKey buckets
                    in if buckets = [] then idx(k := None) else idx(k \<mapsto> buckets))))"

definition idx_count :: "'k rindex \<Rightarrow> 'k \<Rightarrow> string \<Rightarrow> nat" where
  "idx_count idx k handleKey = (case idx k of None \<Rightarrow> 0 | Some b \<Rightarrow> bucket_count b handleKey)"

text \<open>No empty bucket map and no zero count is ever kept.\<close>

definition idx_wf :: "'k rindex \<Rightarrow> bool" where
  "idx_wf idx \<longleftrightarrow> (\<forall>k b. idx k = Some b \<longrightarrow> b \<noteq> [] \<and> distinct (map fst b) \<and> (\<forall>(h, n) \<in> set b. 0 < n))"

section \<open>The contract\<close>

text \<open>Contributions of a bucket: \<open>key\<close> is the index key of an element, if it has one.\<close>

definition upd_opt :: "('k \<Rightarrow> string \<Rightarrow> 'i \<Rightarrow> 'i) \<Rightarrow> ('x \<Rightarrow> 'k option) \<Rightarrow> string \<Rightarrow> 'x \<Rightarrow> 'i \<Rightarrow> 'i" where
  "upd_opt f key h x i = (case key x of None \<Rightarrow> i | Some k \<Rightarrow> f k h i)"

definition contrib :: "('x \<Rightarrow> 'k option) \<Rightarrow> 'x list \<Rightarrow> 'k \<Rightarrow> nat" where
  "contrib key xs k = length (filter (\<lambda>x. key x = Some k) xs)"

locale ref_index =
  fixes add :: "'k \<Rightarrow> string \<Rightarrow> 'i \<Rightarrow> 'i"
    and rem :: "'k \<Rightarrow> string \<Rightarrow> 'i \<Rightarrow> 'i"
    and cnt :: "'i \<Rightarrow> 'k \<Rightarrow> string \<Rightarrow> nat"
    and wf :: "'i \<Rightarrow> bool"
  assumes cnt_add: "cnt (add k h i) k' h' = cnt i k' h' + (if k' = k \<and> h' = h then 1 else 0)"
    and cnt_rem: "cnt (rem k h i) k' h' = cnt i k' h' - (if k' = k \<and> h' = h then 1 else 0)"
    and wf_add: "wf i \<Longrightarrow> wf (add k h i)"
    and wf_rem: "wf i \<Longrightarrow> wf (rem k h i)"
begin

lemma cnt_add_all:
  "cnt (fold (upd_opt add key h) xs i) k' h' = cnt i k' h' + (if h' = h then contrib key xs k' else 0)"
  by (induction xs arbitrary: i) (auto simp: contrib_def upd_opt_def cnt_add split: option.split)

lemma cnt_rem_all:
  "cnt (fold (upd_opt rem key h) xs i) k' h' = cnt i k' h' - (if h' = h then contrib key xs k' else 0)"
  by (induction xs arbitrary: i) (auto simp: contrib_def upd_opt_def cnt_rem split: option.split)

lemma wf_all:
  "wf i \<Longrightarrow> wf (fold (upd_opt add key h) xs i)"
  "wf i \<Longrightarrow> wf (fold (upd_opt rem key h) xs i)"
  by (induction xs arbitrary: i) (auto simp: upd_opt_def wf_add wf_rem split: option.split)

text \<open>Replacing the old contributions of a bucket by the new ones.\<close>

lemma cnt_reindex:
  assumes "cnt i k' h = contrib key old k'"
  shows "cnt (fold (upd_opt add key h) new (fold (upd_opt rem key h) old i)) k' h' =
    (if h' = h then contrib key new k' else cnt i k' h')"
  using assms by (simp add: cnt_add_all cnt_rem_all)

end

lemma bucket_count_update:
  "bucket_count (AList.update h n b) h' = (if h' = h then n else bucket_count b h')"
  by (simp add: bucket_count_def update_conv')

lemma bucket_count_delete:
  "bucket_count (AList.delete h b) h' = (if h' = h then 0 else bucket_count b h')"
  by (simp add: bucket_count_def delete_conv')

lemma bucket_count_Nil [simp]: "bucket_count [] h = 0"
  by (simp add: bucket_count_def)

lemma idx_count_add:
  "idx_count (idx_add k h idx) k' h' = idx_count idx k' h' + (if k' = k \<and> h' = h then 1 else 0)"
  by (simp add: idx_count_def idx_add_def bucket_count_update Let_def split: option.split)

lemma idx_count_remove:
  "idx_count (idx_remove k h idx) k' h' = idx_count idx k' h' - (if k' = k \<and> h' = h then 1 else 0)"
proof (cases "idx k")
  case (Some b)
  have "bucket_count b h' = 0" if "AList.delete h b = []" "h' \<noteq> h"
    using bucket_count_delete [of h b h'] that by (simp add: bucket_count_def)
  with Some show ?thesis
    by (auto simp: idx_count_def idx_remove_def Let_def bucket_count_update bucket_count_delete
        split: option.split)
qed (simp add: idx_count_def idx_remove_def)

lemma set_update_subset: "set (AList.update h n b) \<subseteq> insert (h, n) (set b)"
  by (induction b) auto

lemma idx_wf_upd:
  assumes "idx_wf idx" and "b \<noteq> []" and "distinct (map fst b)" and "\<forall>(h, n) \<in> set b. 0 < n"
  shows "idx_wf (idx(k \<mapsto> b))"
  using assms by (auto simp: idx_wf_def)

lemma idx_wf_add: "idx_wf idx \<Longrightarrow> idx_wf (idx_add k h idx)"
  unfolding idx_add_def Let_def
  by (rule idx_wf_upd)
    (use set_update_subset in \<open>fastforce simp: idx_wf_def distinct_update update_nonempty split: option.splits\<close>)+

lemma idx_wf_remove: "idx_wf idx \<Longrightarrow> idx_wf (idx_remove k h idx)"
proof (cases "idx k")
  case (Some b)
  assume wf: "idx_wf idx"
  with Some have b: "distinct (map fst b)" "\<forall>(h, n) \<in> set b. 0 < n" by (auto simp: idx_wf_def)
  show ?thesis
  proof (cases "bucket_count b h > 1 \<or> AList.delete h b \<noteq> []")
    case True
    then show ?thesis
      using Some wf b set_update_subset [of h "bucket_count b h - 1" b] 
      by (auto simp: idx_remove_def Let_def update_nonempty distinct_update distinct_map_filter
          AList.delete_eq intro!: idx_wf_upd)
  next
    case False
    then show ?thesis using Some wf by (auto simp: idx_remove_def Let_def idx_wf_def)
  qed
qed (simp add: idx_remove_def)

interpretation ridx: ref_index idx_add idx_remove idx_count idx_wf
  by unfold_locales (rule idx_count_add idx_count_remove idx_wf_add idx_wf_remove; assumption?)+

end
