(* ===== verification/Lock_Ranges.thy ===== *)
theory Lock_Ranges
  imports Lock_Types
begin

text \<open>
  POSIX range arithmetic on unified locks (\<open>pkg/metadata/lock/manager.go\<close>): splitting a
  lock when part of it is unlocked and coalescing the locks of one owner.  The lemmas relate both
  to the byte positions covered; a range must end strictly below \<open>2^64\<close> for the exclusive
  end the code computes to be exact.  Every UUID the code draws comes from the stream
  \<open>gen\<close>, read at a counter that the operations thread through.
\<close>

section \<open>Splitting\<close>

definition SplitLock :: "(nat \<Rightarrow> string) \<Rightarrow> nat \<Rightarrow> UnifiedLock \<Rightarrow> u64 \<Rightarrow> u64 \<Rightarrow> UnifiedLock list \<times> nat" where
  "SplitLock gen n existing unlockOffset unlockLength =
     (if \<not> RangesOverlap (ulOffset existing) (ulLength existing) unlockOffset unlockLength
      then ([existing], n)
      else
        let lockEnd = End existing;
            unlockEnd = unlockOffset + unlockLength;
            unlockEnd = (if unlockLength = 0 \<or> unlockEnd < unlockOffset then NOT 0 else unlockEnd)
        in if unlockOffset \<le> ulOffset existing \<and> unlockEnd \<ge> lockEnd then ([], n)
           else
             let (before, n) =
                   (if unlockOffset > ulOffset existing
                    then ([existing\<lparr>ulID := gen n, ulLength := unlockOffset - ulOffset existing\<rparr>], Suc n)
                    else ([], n));
                 (after, n) =
                   (if unlockEnd < lockEnd
                    then ([existing\<lparr>ulID := gen n, ulOffset := unlockEnd,
                              ulLength := (if ulLength existing = 0 then 0 else lockEnd - unlockEnd)\<rparr>], Suc n)
                    else ([], n))
             in (before @ after, n))"

section \<open>Merging\<close>

definition canMerge :: "UnifiedLock \<Rightarrow> UnifiedLock \<Rightarrow> bool" where
  "canMerge a b =
     (if ulLength a = 0 then ulOffset b \<ge> ulOffset a
      else if ulLength b = 0 then End a \<ge> ulOffset b
      else End a \<ge> ulOffset b)"

definition mergeTwoLocks :: "UnifiedLock \<Rightarrow> UnifiedLock \<Rightarrow> UnifiedLock" where
  "mergeTwoLocks a b =
     (let result = a\<lparr>ulOffset := min (ulOffset a) (ulOffset b)\<rparr>
      in if ulLength a = 0 \<or> ulLength b = 0 then result\<lparr>ulLength := 0\<rparr>
         else let maxEnd = max (End a) (End b)
              in result\<lparr>ulLength := maxEnd - ulOffset result\<rparr>)"

fun merge_loop :: "UnifiedLock \<Rightarrow> UnifiedLock list \<Rightarrow> UnifiedLock list \<Rightarrow> UnifiedLock list" where
  "merge_loop current [] result = result @ [current]"
| "merge_loop current (nxt # rest) result =
     (if canMerge current nxt then merge_loop (mergeTwoLocks current nxt) rest result
      else merge_loop nxt rest (result @ [current]))"

definition mergeRanges :: "UnifiedLock list \<Rightarrow> UnifiedLock list" where
  "mergeRanges locks =
     (if length locks = 0 then []
      else if length locks = 1 then [hd locks]
      else case sort_key ulOffset locks of
        [] \<Rightarrow> []
      | current # rest \<Rightarrow> merge_loop current rest [])"

type_synonym groupKey = "string \<times> LockType \<times> string"

definition group_key :: "UnifiedLock \<Rightarrow> groupKey" where
  "group_key l = (OwnerID (ulOwner l), ulType l, ulFileHandle l)"

text \<open>\<open>keys\<close> is the order in which the runtime visits the map of groups.\<close>

definition MergeLocks :: "groupKey list \<Rightarrow> UnifiedLock list \<Rightarrow> UnifiedLock list" where
  "MergeLocks keys locks =
     (if length locks = 0 then []
      else if length locks = 1 then [hd locks]
      else concat (map (\<lambda>k. mergeRanges (filter (\<lambda>l. group_key l = k) locks)) keys))"

section \<open>Exact ends\<close>

text \<open>A range whose exclusive end does not wrap.\<close>

definition range_exact :: "u64 \<Rightarrow> u64 \<Rightarrow> bool" where
  "range_exact offset len \<longleftrightarrow> len = 0 \<or> unat offset + unat len < 2 ^ 64"

abbreviation (input) ul_exact :: "UnifiedLock \<Rightarrow> bool" where
  "ul_exact ul \<equiv> range_exact (ulOffset ul) (ulLength ul)"

lemma range_exact_ok: "range_exact offset len \<Longrightarrow> range_ok offset len"
  by (auto simp: range_exact_def range_ok_def)

lemma unat_End:
  assumes "ul_exact ul"
  shows "unat (End ul) = (if ulLength ul = 0 then 2 ^ 64 - 1 else unat (ulOffset ul) + unat (ulLength ul))"
  using assms unat_not_0 by (auto simp: End_def range_exact_def unat_plus_if')

lemma u64_bound: "unat (w :: u64) \<le> 2 ^ 64 - 1"
  using unat_less_2p [of w] by simp

text \<open>The first position past a range, as a natural number.\<close>

definition end_nat :: "u64 \<Rightarrow> u64 \<Rightarrow> nat" where
  "end_nat offset len = (if len = 0 then 2 ^ 64 else unat offset + unat len)"

lemma range_bytes_end: "range_bytes offset len = {unat offset..<end_nat offset len}"
  by (simp add: range_bytes_def end_nat_def)

lemma end_nat_exact: "ul_exact ul \<Longrightarrow> end_nat (ulOffset ul) (ulLength ul) =
    (if ulLength ul = 0 then 2 ^ 64 else unat (End ul))"
  by (simp add: end_nat_def unat_End)

definition split_end :: "u64 \<Rightarrow> u64 \<Rightarrow> u64" where
  "split_end off len = (if len = 0 \<or> off + len < off then NOT 0 else off + len)"

lemma unat_split_end:
  assumes "range_ok off len"
  shows "unat (split_end off len) = (if end_nat off len = 2 ^ 64 then 2 ^ 64 - 1 else end_nat off len)"
    and "end_nat off len \<le> 2 ^ 64"
proof -
  have "off + len < off \<longleftrightarrow> unat off + unat len = 2 ^ 64" if "len \<noteq> 0"
    using assms that unat_less_2p [of off] unat_less_2p [of len] unat_gt_0 [of len]
    by (auto simp: range_ok_def word_less_nat_alt unat_plus_if')
  moreover have "unat (off + len) = unat off + unat len" if "unat off + unat len < 2 ^ 64"
    using that by (simp add: unat_plus_if')
  ultimately show "unat (split_end off len) = (if end_nat off len = 2 ^ 64 then 2 ^ 64 - 1 else end_nat off len)"
    using assms unat_not_0 by (auto simp: split_end_def end_nat_def range_ok_def)
  show "end_nat off len \<le> 2 ^ 64"
    using assms by (auto simp: end_nat_def range_ok_def)
qed

lemma SplitLock_eq:
  "SplitLock gen n e off len =
     (if \<not> RangesOverlap (ulOffset e) (ulLength e) off len then ([e], n)
      else if off \<le> ulOffset e \<and> End e \<le> split_end off len then ([], n)
      else
        ((if ulOffset e < off then [e\<lparr>ulID := gen n, ulLength := off - ulOffset e\<rparr>] else [])
         @ (if split_end off len < End e
            then [e\<lparr>ulID := gen (if ulOffset e < off then Suc n else n), ulOffset := split_end off len,
                     ulLength := (if ulLength e = 0 then 0 else End e - split_end off len)\<rparr>] else []),
         n + (if ulOffset e < off then 1 else 0) + (if split_end off len < End e then 1 else 0)))"
  unfolding SplitLock_def split_end_def [symmetric] Let_def by simp

definition split_parts :: "(nat \<Rightarrow> string) \<Rightarrow> nat \<Rightarrow> UnifiedLock \<Rightarrow> u64 \<Rightarrow> u64 \<Rightarrow> UnifiedLock list" where
  "split_parts gen n e off len = fst (SplitLock gen n e off len)"

text \<open>The byte positions of the pieces.\<close>

lemma before_bytes:
  assumes "ulOffset e < off"
  shows "range_bytes (ulOffset e) (off - ulOffset e) = {unat (ulOffset e)..<unat off}"
proof -
  have "off - ulOffset e \<noteq> 0" using assms by auto
  moreover have "unat (off - ulOffset e) = unat off - unat (ulOffset e)"
    using assms by (intro unat_sub) simp
  ultimately show ?thesis using assms by (simp add: range_bytes_def word_less_nat_alt)
qed

lemma after_bytes:
  assumes "ul_exact e" and "uEnd < End e" and "ulOffset e \<le> uEnd"
  shows "range_bytes uEnd (if ulLength e = 0 then 0 else End e - uEnd)
    = {unat uEnd..<end_nat (ulOffset e) (ulLength e)}"
proof (cases "ulLength e = 0")
  case False
  have "End e - uEnd \<noteq> 0" using assms(2) by auto
  moreover have "unat (End e - uEnd) = unat (End e) - unat uEnd"
    using assms(2) by (intro unat_sub) simp
  ultimately show ?thesis
    using assms False by (simp add: range_bytes_def end_nat_exact word_less_nat_alt)
qed (simp add: range_bytes_def end_nat_def)

lemma SplitLock_bytes:
  assumes e: "ul_exact e" and u: "range_ok off len"
    and edge: "\<not> (ulLength e = 0 \<and> len \<noteq> 0 \<and> unat off + unat len = 2 ^ 64 - 1)"
  shows "(\<Union>f \<in> set (split_parts gen n e off len). ul_bytes f) = ul_bytes e - range_bytes off len"
proof (cases "RangesOverlap (ulOffset e) (ulLength e) off len")
  case False
  then have "ul_bytes e \<inter> range_bytes off len = {}"
    using RangesOverlap_iff [OF range_exact_ok [OF e] u] by blast
  with False show ?thesis by (auto simp: split_parts_def SplitLock_def)
next
  case True
  let ?a = "unat (ulOffset e)" and ?b = "end_nat (ulOffset e) (ulLength e)"
    and ?u = "unat off" and ?v = "end_nat off len" and ?uE = "split_end off len"
  have overlap: "?a < ?v" "?u < ?b" "?u < ?v" "?a < ?b"
    using True RangesOverlap_iff [OF range_exact_ok [OF e] u]
    by (auto simp: range_bytes_end)
  have cover: "End e \<le> ?uE \<longleftrightarrow> ?b \<le> ?v"
    using unat_split_end [OF u] unat_End [OF e] edge end_nat_exact [OF e] e
    by (auto simp: word_le_nat_alt end_nat_def range_exact_def split: if_splits)
  have exact: "unat ?uE = ?v" if "?v < ?b"
    using that unat_split_end [OF u] end_nat_exact [OF e] u64_bound [of "End e"] by (auto split: if_splits)
  have after: "range_bytes ?uE (if ulLength e = 0 then 0 else End e - ?uE) = {?v..<?b}" if "?v < ?b"
    using after_bytes [OF e, of ?uE] that exact cover overlap(1)
    by (simp add: not_le [symmetric] word_le_nat_alt)
  have parts: "split_parts gen n e off len =
     (if off \<le> ulOffset e \<and> ?b \<le> ?v then [] else
      (if ulOffset e < off then [e\<lparr>ulID := gen n, ulLength := off - ulOffset e\<rparr>] else [])
      @ (if ?v < ?b then [e\<lparr>ulID := gen (if ulOffset e < off then Suc n else n), ulOffset := ?uE,
            ulLength := (if ulLength e = 0 then 0 else End e - ?uE)\<rparr>] else []))"
    using True cover by (simp add: split_parts_def SplitLock_eq not_le [symmetric])
  have "(\<Union>f \<in> set (split_parts gen n e off len). ul_bytes f)
      = (if ulOffset e < off then {?a..<?u} else {}) \<union> (if ?v < ?b then {?v..<?b} else {})"
  proof (cases "?v < ?b")
    case True
    then show ?thesis unfolding parts using before_bytes [of e off] after [OF True]
      by (simp add: Un_commute)
  next
    case False
    then show ?thesis unfolding parts using before_bytes [of e off] by simp
  qed
  also have "\<dots> = {?a..<?b} - {?u..<?v}"
    using overlap by (auto simp: word_less_nat_alt)
  finally show ?thesis by (simp add: range_bytes_end)
qed

text \<open>Whatever the unlock range, the pieces stay inside the original lock and keep its owner and
  kind.\<close>

lemma split_frag_same:
  assumes "f \<in> set (fst (SplitLock gen n e off len))"
  shows "ulOwner f = ulOwner e \<and> ulType f = ulType e \<and> ulLease f = ulLease e
    \<and> ulDelegation f = ulDelegation e \<and> ulFileHandle f = ulFileHandle e"
  using assms by (auto simp: SplitLock_eq split: if_splits)

lemma before_frag_sub:
  assumes "ul_ok e" and "RangesOverlap (ulOffset e) (ulLength e) off len" and "ulOffset e < off"
  shows "range_ok (ulOffset e) (off - ulOffset e)"
    and "range_bytes (ulOffset e) (off - ulOffset e) \<subseteq> ul_bytes e"
proof -
  have "unat off \<le> unat (rangeLast (ulOffset e) (ulLength e))"
    using assms(2) by (simp add: RangesOverlap_def Let_def word_le_nat_alt)
  then show "range_bytes (ulOffset e) (off - ulOffset e) \<subseteq> ul_bytes e"
    unfolding before_bytes [OF assms(3)] range_bytes_last [OF assms(1)] by auto
  have "unat (off - ulOffset e) = unat off - unat (ulOffset e)"
    using assms(3) by (intro unat_sub) simp
  then show "range_ok (ulOffset e) (off - ulOffset e)"
    using assms(3) unat_less_2p [of off] by (simp add: range_ok_def word_less_nat_alt)
qed

lemma after_frag_sub:
  assumes "ul_ok e" and "RangesOverlap (ulOffset e) (ulLength e) off len" and "split_end off len < End e"
  defines "l \<equiv> (if ulLength e = 0 then 0 else End e - split_end off len)"
  shows "range_ok (split_end off len) l" and "range_bytes (split_end off len) l \<subseteq> ul_bytes e"
proof -
  have ex: "ul_exact e"
  proof (rule ccontr)
    assume "\<not> ul_exact e"
    with assms(1) have "unat (ulOffset e) + unat (ulLength e) = 2 ^ 64" "ulLength e \<noteq> 0"
      by (auto simp: range_exact_def range_ok_def)
    then have "unat (End e) = 0" by (simp add: End_def unat_plus_if')
    then show False using assms(3) by (simp add: word_less_nat_alt)
  qed
  have len: "len \<noteq> 0" "\<not> off + len < off"
    using assms(3) u64_bound [of "End e"] unat_not_0
    by (auto simp: split_end_def word_less_nat_alt split: if_splits)
  have "ulOffset e \<le> split_end off len"
    using assms(2) len unat_less_2p [of off] unat_less_2p [of len] unat_gt_0 [of len]
    by (auto simp: RangesOverlap_def Let_def rangeLast_def split_end_def word_le_nat_alt
        word_less_nat_alt unat_plus_if' unat_sub_if' split: if_splits)
  from after_bytes [OF ex assms(3) this]
  have eq: "range_bytes (split_end off len) l = {unat (split_end off len)..<end_nat (ulOffset e) (ulLength e)}"
    by (simp add: l_def)
  then show "range_bytes (split_end off len) l \<subseteq> ul_bytes e"
    using \<open>ulOffset e \<le> split_end off len\<close> by (auto simp: range_bytes_end word_le_nat_alt)
  show "range_ok (split_end off len) l"
    using assms(3) unat_less_2p [of "End e"]
    by (auto simp: range_ok_def l_def unat_sub_if' word_less_nat_alt)
qed

lemma split_frag_sub:
  assumes "ul_ok e" and "f \<in> set (fst (SplitLock gen n e off len))"
  shows "ul_ok f" and "ul_bytes f \<subseteq> ul_bytes e"
proof -
  note before = before_frag_sub [OF assms(1)] and after = after_frag_sub [OF assms(1)]
  have "ul_ok f \<and> ul_bytes f \<subseteq> ul_bytes e"
  proof (cases "RangesOverlap (ulOffset e) (ulLength e) off len")
    case False
    with assms show ?thesis by (simp add: SplitLock_eq)
  next
    case True
    from assms(2) True consider "ulOffset e < off" "f = e\<lparr>ulID := gen n, ulLength := off - ulOffset e\<rparr>"
      | k where "split_end off len < End e" "f = e\<lparr>ulID := k, ulOffset := split_end off len,
          ulLength := (if ulLength e = 0 then 0 else End e - split_end off len)\<rparr>"
      by (auto simp: SplitLock_eq split: if_splits)
    then show ?thesis
      by cases (use before [OF True] after [OF True] in simp_all)
  qed
  then show "ul_ok f" and "ul_bytes f \<subseteq> ul_bytes e" by auto
qed

section \<open>Merging covers the same bytes\<close>

lemma End_eq_end_nat: "ul_exact a \<Longrightarrow> ulLength a \<noteq> 0 \<Longrightarrow> unat (End a) = end_nat (ulOffset a) (ulLength a)"
  by (simp add: end_nat_exact)

lemma mergeTwoLocks_bytes:
  assumes ex: "ul_exact a" "ul_exact b" and le: "ulOffset a \<le> ulOffset b" and can: "canMerge a b"
  shows "ul_bytes (mergeTwoLocks a b) = ul_bytes a \<union> ul_bytes b"
    and "ul_exact (mergeTwoLocks a b)" and "ulOffset (mergeTwoLocks a b) = ulOffset a"
    and "group_key (mergeTwoLocks a b) = group_key a"
proof -
  have off: "ulOffset (mergeTwoLocks a b) = ulOffset a"
    using le by (simp add: mergeTwoLocks_def Let_def min_def)
  show "ulOffset (mergeTwoLocks a b) = ulOffset a" by (rule off)
  show "group_key (mergeTwoLocks a b) = group_key a"
    by (simp add: mergeTwoLocks_def group_key_def Let_def)
  have start: "unat (ulOffset a) \<le> unat (ulOffset b)" using le by (simp add: word_le_nat_alt)
  have reach: "unat (ulOffset b) \<le> end_nat (ulOffset a) (ulLength a)"
    using can ex End_eq_end_nat [OF ex(1)] unat_less_2p [of "ulOffset b"]
    by (auto simp: canMerge_def word_le_nat_alt end_nat_def split: if_splits)
  have "ul_bytes (mergeTwoLocks a b) = ul_bytes a \<union> ul_bytes b \<and> ul_exact (mergeTwoLocks a b)"
  proof (cases "ulLength a = 0 \<or> ulLength b = 0")
    case True
    then have "ulLength (mergeTwoLocks a b) = 0" by (auto simp: mergeTwoLocks_def Let_def)
    moreover have "end_nat (ulOffset a) (ulLength a) \<le> 2 ^ 64" "end_nat (ulOffset b) (ulLength b) \<le> 2 ^ 64"
      using ex by (auto simp: end_nat_def range_exact_def)
    ultimately show ?thesis
      using True start reach off unat_less_2p [of "ulOffset b"]
      by (auto simp: range_bytes_end end_nat_def range_exact_def)
  next
    case False
    let ?E = "max (End a) (End b)"
    have E: "unat ?E = max (end_nat (ulOffset a) (ulLength a)) (end_nat (ulOffset b) (ulLength b))"
      using False ex by (simp add: max_def word_le_nat_alt End_eq_end_nat)
    have gt: "unat (ulOffset a) < unat ?E"
      using False unat_gt_0 [of "ulLength a"] by (auto simp: E end_nat_def)
    have len: "ulLength (mergeTwoLocks a b) = ?E - ulOffset a"
      using False le by (simp add: mergeTwoLocks_def Let_def min_def)
    have "unat (?E - ulOffset a) = unat ?E - unat (ulOffset a)"
      using gt by (intro unat_sub) (simp add: word_le_nat_alt)
    moreover have "?E - ulOffset a \<noteq> 0" using gt by auto
    ultimately have "end_nat (ulOffset a) (?E - ulOffset a) = unat ?E" "ul_exact (mergeTwoLocks a b)"
      using gt unat_less_2p [of ?E] by (simp_all add: end_nat_def range_exact_def len off)
    then show ?thesis
      using start reach by (auto simp: range_bytes_end len off E)
  qed
  then show "ul_bytes (mergeTwoLocks a b) = ul_bytes a \<union> ul_bytes b" "ul_exact (mergeTwoLocks a b)"
    by auto
qed

lemma merge_loop_spec:
  assumes "ul_exact cur" and "\<forall>l \<in> set rest. ul_exact l" and "sorted (map ulOffset (cur # rest))"
    and "\<forall>l \<in> set rest. group_key l = group_key cur"
  shows "(\<Union>l \<in> set (merge_loop cur rest acc). ul_bytes l)
      = (\<Union>l \<in> set acc. ul_bytes l) \<union> ul_bytes cur \<union> (\<Union>l \<in> set rest. ul_bytes l)
    \<and> (\<forall>l \<in> set (merge_loop cur rest acc). l \<in> set acc \<or> ul_exact l \<and> group_key l = group_key cur)"
  using assms
proof (induction rest arbitrary: cur acc)
  case (Cons nxt rest)
  show ?case
  proof (cases "canMerge cur nxt")
    case True
    note m = mergeTwoLocks_bytes [OF _ _ _ True]
    have le: "ulOffset cur \<le> ulOffset nxt" "ul_exact cur" "ul_exact nxt" using Cons.prems by auto
    have "sorted (map ulOffset (mergeTwoLocks cur nxt # rest))"
      using Cons.prems(3) m(3) [OF le(2,3,1)] by auto
    with Cons.IH [of "mergeTwoLocks cur nxt" acc] True m [OF le(2,3,1)] Cons.prems
    show ?thesis by auto
  next
    case False
    with Cons.IH [of nxt "acc @ [cur]"] Cons.prems show ?thesis by auto
  qed
qed auto

lemma mergeRanges_spec:
  assumes "\<forall>l \<in> set ls. ul_exact l" and "\<forall>l \<in> set ls. group_key l = k"
  shows "(\<Union>l \<in> set (mergeRanges ls). ul_bytes l) = (\<Union>l \<in> set ls. ul_bytes l)"
    and "\<forall>l \<in> set (mergeRanges ls). group_key l = k"
proof -
  have "(\<Union>l \<in> set (mergeRanges ls). ul_bytes l) = (\<Union>l \<in> set ls. ul_bytes l)
      \<and> (\<forall>l \<in> set (mergeRanges ls). group_key l = k)"
  proof (cases "length ls \<le> 1")
    case True
    then show ?thesis using assms by (cases ls) (auto simp: mergeRanges_def)
  next
    case False
    then obtain cur rest where srt: "sort_key ulOffset ls = cur # rest"
      by (cases "sort_key ulOffset ls") (auto dest: arg_cong [where f = length])
    have set_eq: "set (cur # rest) = set ls" by (metis srt set_sort)
    have "sorted (map ulOffset (cur # rest))" by (metis srt sorted_sort_key)
    moreover have "\<forall>l \<in> set (cur # rest). ul_exact l \<and> group_key l = k"
      using assms set_eq by blast
    ultimately have "(\<Union>l \<in> set (merge_loop cur rest []). ul_bytes l) = (\<Union>l \<in> set (cur # rest). ul_bytes l)
      \<and> (\<forall>l \<in> set (merge_loop cur rest []). group_key l = k)"
      using merge_loop_spec [of cur rest "[]"] by auto
    moreover have "length ls \<noteq> 0" "length ls \<noteq> 1" using False by auto
    then have "mergeRanges ls = merge_loop cur rest []"
      unfolding mergeRanges_def srt by (simp only: if_False list.case)
    ultimately show ?thesis by (simp only: set_eq) simp
  qed
  then show "(\<Union>l \<in> set (mergeRanges ls). ul_bytes l) = (\<Union>l \<in> set ls. ul_bytes l)"
    and "\<forall>l \<in> set (mergeRanges ls). group_key l = k" by auto
qed

lemma MergeLocks_group:
  assumes "\<forall>l \<in> set ls. ul_exact l" and "set keys = group_key ` set ls"
  shows "(\<Union>l \<in> {l \<in> set (MergeLocks keys ls). group_key l = k}. ul_bytes l)
    = (\<Union>l \<in> {l \<in> set ls. group_key l = k}. ul_bytes l)"
proof (cases "length ls \<le> 1")
  case True
  then have "MergeLocks keys ls = ls" by (cases ls) (simp_all add: MergeLocks_def)
  then show ?thesis by simp
next
  case False
  define grp where "grp j = filter (\<lambda>l. group_key l = j) ls" for j
  define f where "f j = mergeRanges (grp j)" for j
  have grp: "\<forall>l \<in> set (grp j). ul_exact l" "\<forall>l \<in> set (grp j). group_key l = j" for j
    using assms(1) by (simp_all add: grp_def)
  have bytes: "(\<Union>l \<in> set (f j). ul_bytes l) = (\<Union>l \<in> set (grp j). ul_bytes l)"
    and key: "\<forall>l \<in> set (f j). group_key l = j" for j
    unfolding f_def by (rule mergeRanges_spec [OF grp])+
  have "length ls \<noteq> 0" "length ls \<noteq> 1" using False by auto
  then have "MergeLocks keys ls = concat (map f keys)"
    unfolding MergeLocks_def f_def grp_def by (simp only: if_False)
  then have "set (MergeLocks keys ls) = (\<Union>j \<in> set keys. set (f j))"
    by (simp only: set_concat set_map image_image)
  then have "l \<in> set (MergeLocks keys ls) \<and> group_key l = k \<longleftrightarrow> k \<in> set keys \<and> l \<in> set (f k)" for l
    using key by (simp only: UN_iff) metis
  then have "{l \<in> set (MergeLocks keys ls). group_key l = k} = (if k \<in> set keys then set (f k) else {})"
    by simp
  moreover have "{l \<in> set ls. group_key l = k} = (if k \<in> set keys then set (grp k) else {})"
    using assms(2) by (auto simp: grp_def)
  ultimately show ?thesis
    using bytes [of k] by (cases "k \<in> set keys") (simp_all only: if_True if_False)
qed

section \<open>Properties\<close>


definition lock_0_100 :: UnifiedLock where
  "lock_0_100 = NewUnifiedLock ''id'' 1 \<lparr>OwnerID = ''nlm:a'', ClientID = [], ShareName = [],
     ExcludeLeaseKey = [], ExcludeParentDirLeaseKey = [], HasExcludeParentDirLeaseKey = False\<rparr>
     ''f'' 0 100 LockTypeExclusive"




section \<open>Deviations at the top of the offset range\<close>

text \<open>A bounded lock that ends at the last byte position has exclusive end 0, so unlocking its
  first byte releases all of it.\<close>

theorem SplitLock_over_releases_at_end:
  "fst (SplitLock gen n (lock_0_100\<lparr>ulOffset := 0xFFFFFFFFFFFFFFF0, ulLength := 16\<rparr>) 0xFFFFFFFFFFFFFFF0 1) = []"
  by (simp add: SplitLock_def RangesOverlap_def rangeLast_def End_def)

text \<open>An unlock range that runs past the last position is meant to be clamped to the end, but the
  overlap test before the clamp wraps and the lock is kept whole.\<close>

theorem SplitLock_ignores_overflowing_unlock:
  "fst (SplitLock gen n (lock_0_100\<lparr>ulOffset := 0xFFFFFFFFFFFFFFF8, ulLength := 4\<rparr>) 0xFFFFFFFFFFFFFFF0 100)
     = [lock_0_100\<lparr>ulOffset := 0xFFFFFFFFFFFFFFF8, ulLength := 4\<rparr>]"
  by (simp add: SplitLock_def RangesOverlap_def rangeLast_def)

end
