(* ===== verification/Lock_Manager.thy ===== *)
theory Lock_Manager
  imports Lock_Index Lock_Ranges
begin

text \<open>
  The lock manager (\<open>pkg/metadata/lock/manager.go\<close>): SMB byte-range locks
  (\<open>lm.locks\<close>), NLM and NFSv4 locks, leases and delegations (\<open>lm.unifiedLocks\<close>),
  the reverse indexes over the latter and the persisted copy of both.  Every operation runs under
  the manager's mutex, so it is a function from the state to its results and the new state.  The
  clock and the UUIDs the code draws are arguments.  Where the code ranges over a whole Go map, the
  order of the keys is an argument.  A store call of the manager uses a fresh context, so it is the
  call with \<open>ctxErr = False\<close>.
\<close>

section \<open>State\<close>

record Manager =
  lmLocks :: "string \<rightharpoonup> FileLock list"
  lmUnified :: "string \<rightharpoonup> UnifiedLock list"
  lmLeaseKeyIndex :: "lease_key rindex"
  lmClientIndex :: "string rindex"
  lmStore :: "memoryLockStore option"
  lmEpoch :: u64
  lmShareName :: string
  lmBreakWaitChans :: "string set"

definition newBaseManager :: Manager where
  "newBaseManager = \<lparr>lmLocks = Map.empty, lmUnified = Map.empty, lmLeaseKeyIndex = Map.empty,
     lmClientIndex = Map.empty, lmStore = None, lmEpoch = 0, lmShareName = [],
     lmBreakWaitChans = {}\<rparr>"

definition SetLockStore :: "Manager \<Rightarrow> memoryLockStore option \<Rightarrow> Manager" where
  "SetLockStore lm store = lm\<lparr>lmStore := store\<rparr>"

definition SetEpoch :: "Manager \<Rightarrow> u64 \<Rightarrow> Manager" where
  "SetEpoch lm epoch = lm\<lparr>lmEpoch := epoch\<rparr>"

definition SetShareName :: "Manager \<Rightarrow> string \<Rightarrow> Manager" where
  "SetShareName lm shareName = lm\<lparr>lmShareName := shareName\<rparr>"

text \<open>A missing map entry reads as the nil slice; emptied entries are deleted.\<close>

definition bucket :: "(string \<rightharpoonup> 'a list) \<Rightarrow> string \<Rightarrow> 'a list" where
  "bucket m k = (case m k of None \<Rightarrow> [] | Some xs \<Rightarrow> xs)"

definition set_bucket :: "(string \<rightharpoonup> 'a list) \<Rightarrow> string \<Rightarrow> 'a list \<Rightarrow> (string \<rightharpoonup> 'a list)" where
  "set_bucket m k xs = (if xs = [] then m(k := None) else m(k \<mapsto> xs))"

abbreviation fls :: "Manager \<Rightarrow> string \<Rightarrow> FileLock list" where
  "fls lm handleKey \<equiv> bucket (lmLocks lm) handleKey"

abbreviation uls :: "Manager \<Rightarrow> string \<Rightarrow> UnifiedLock list" where
  "uls lm handleKey \<equiv> bucket (lmUnified lm) handleKey"

section \<open>Errors and conflicts\<close>

record UnifiedLockConflict =
  ucLock :: UnifiedLock
  ucReason :: string

definition NewLockedError :: "LockConflict \<Rightarrow> store_error" where
  "NewLockedError conflict = ErrLocked (lcOwnerID conflict)"

definition NewLockConflictError :: "UnifiedLockConflict \<Rightarrow> store_error" where
  "NewLockConflictError conflict =
     ErrLockConflict (if ucReason conflict \<noteq> [] then ucReason conflict else ''lock conflict'')
       (OwnerID (ulOwner (ucLock conflict)))"

definition unifiedConflictFromFileLock :: "FileLock \<Rightarrow> UnifiedLockConflict" where
  "unifiedConflictFromFileLock fl =
     \<lparr>ucLock = \<lparr>ulID = [],
        ulOwner = \<lparr>OwnerID = lockOwnerID fl, ClientID = [], ShareName = [], ExcludeLeaseKey = zero_key,
                   ExcludeParentDirLeaseKey = zero_key, HasExcludeParentDirLeaseKey = False\<rparr>,
        ulFileHandle = [], ulOffset = flOffset fl, ulLength = flLength fl,
        ulType = (if flExclusive fl then LockTypeExclusive else LockTypeShared),
        ulAccessMode = AccessModeNone, ulAcquiredAt = 0, ulBlocking = False, ulReclaim = False,
        ulLease = None, ulDelegation = None\<rparr>,
      ucReason = ''cross-protocol byte-range conflict''\<rparr>"

section \<open>Reverse indexes\<close>

definition indexAddLockLocked :: "string \<Rightarrow> UnifiedLock \<Rightarrow> Manager \<Rightarrow> Manager" where
  "indexAddLockLocked handleKey l lm =
     (let lm = (case ulLease l of None \<Rightarrow> lm
                | Some lease \<Rightarrow> lm\<lparr>lmLeaseKeyIndex := idx_add (olLeaseKey lease) handleKey (lmLeaseKeyIndex lm)\<rparr>)
      in if ClientID (ulOwner l) \<noteq> []
         then lm\<lparr>lmClientIndex := idx_add (ClientID (ulOwner l)) handleKey (lmClientIndex lm)\<rparr>
         else lm)"

definition indexRemoveLockLocked :: "string \<Rightarrow> UnifiedLock \<Rightarrow> Manager \<Rightarrow> Manager" where
  "indexRemoveLockLocked handleKey l lm =
     (let lm = (case ulLease l of None \<Rightarrow> lm
                | Some lease \<Rightarrow> lm\<lparr>lmLeaseKeyIndex := idx_remove (olLeaseKey lease) handleKey (lmLeaseKeyIndex lm)\<rparr>)
      in if ClientID (ulOwner l) \<noteq> []
         then lm\<lparr>lmClientIndex := idx_remove (ClientID (ulOwner l)) handleKey (lmClientIndex lm)\<rparr>
         else lm)"

definition reindexHandleLocked :: "string \<Rightarrow> UnifiedLock list \<Rightarrow> Manager \<Rightarrow> Manager" where
  "reindexHandleLocked handleKey old lm =
     (let lm = fold (indexRemoveLockLocked handleKey) old lm
      in fold (indexAddLockLocked handleKey) (uls lm handleKey) lm)"

section \<open>Persistence\<close>

definition assignPersistIDLocked :: "string \<Rightarrow> FileLock \<Rightarrow> FileLock" where
  "assignPersistIDLocked uuid fl = (if flPersistID fl \<noteq> [] then fl else fl\<lparr>flPersistID := uuid\<rparr>)"

definition putLockLocked :: "PersistedLock \<Rightarrow> Manager \<Rightarrow> Manager" where
  "putLockLocked pl lm = lm\<lparr>lmStore := map_option (\<lambda>s. snd (mls_PutLock False s pl)) (lmStore lm)\<rparr>"

definition deletePersistedLocked :: "string \<Rightarrow> Manager \<Rightarrow> Manager" where
  "deletePersistedLocked lockID lm =
     lm\<lparr>lmStore := map_option (\<lambda>s. snd (mls_DeleteLock False s lockID)) (lmStore lm)\<rparr>"

definition fileLockToPersisted :: "Manager \<Rightarrow> string \<Rightarrow> FileLock \<Rightarrow> PersistedLock" where
  "fileLockToPersisted lm handleKey fl =
     base_record\<lparr>plID := flPersistID fl, plShareName := lmShareName lm, plFileID := handleKey,
       plOwnerID := lockOwnerID fl, plClientID := flClientID fl,
       plLockType := (if flExclusive fl then LockTypeExclusive else LockTypeShared),
       plOffset := flOffset fl, plLength := flLength fl, plIsZeroByte := flIsZeroByte fl,
       plIsLegacyByteRange := True, plAcquiredAt := flAcquiredAt fl, plServerEpoch := lmEpoch lm\<rparr>"

definition persistFileLockLocked :: "string \<Rightarrow> FileLock \<Rightarrow> Manager \<Rightarrow> Manager" where
  "persistFileLockLocked handleKey fl lm =
     (if lmStore lm = None then lm else putLockLocked (fileLockToPersisted lm handleKey fl) lm)"

definition deleteFileLockLocked :: "FileLock \<Rightarrow> Manager \<Rightarrow> Manager" where
  "deleteFileLockLocked fl lm =
     (if lmStore lm = None \<or> flPersistID fl = [] then lm else deletePersistedLocked (flPersistID fl) lm)"

definition unifiedToPersisted :: "Manager \<Rightarrow> UnifiedLock \<Rightarrow> PersistedLock" where
  "unifiedToPersisted lm ul =
     (let pl = ToPersistedLock ul (lmEpoch lm)
      in if lmShareName lm \<noteq> [] then pl\<lparr>plShareName := lmShareName lm\<rparr> else pl)"

definition persistUnifiedLockLocked :: "UnifiedLock \<Rightarrow> Manager \<Rightarrow> Manager" where
  "persistUnifiedLockLocked ul lm =
     (if lmStore lm = None then lm else putLockLocked (unifiedToPersisted lm ul) lm)"

definition deleteUnifiedLockLocked :: "UnifiedLock \<Rightarrow> Manager \<Rightarrow> Manager" where
  "deleteUnifiedLockLocked ul lm =
     (if lmStore lm = None then lm else deletePersistedLocked (ulID ul) lm)"

definition sessionIDFromOwnerID :: "string \<Rightarrow> u64 option" where
  "sessionIDFromOwnerID ownerID =
     (if \<not> has_prefix ownerID ''session:'' then None
      else map_option of_nat (parse_uint 64 (drop (length ''session:'') ownerID)))"

definition fileLockFromPersisted :: "PersistedLock \<Rightarrow> FileLock" where
  "fileLockFromPersisted pl =
     (let fl = \<lparr>flID = 0, flSessionID = 0, flOpenID = [], flOffset = plOffset pl, flLength = plLength pl,
            flExclusive = (plLockType pl = LockTypeExclusive), flAcquiredAt = plAcquiredAt pl,
            flClientAddr = [], flClientID = plClientID pl, flIsZeroByte = plIsZeroByte pl,
            flPersistID = plID pl\<rparr>
      in case sessionIDFromOwnerID (plOwnerID pl) of
           Some sid \<Rightarrow> fl\<lparr>flSessionID := sid\<rparr>
         | None \<Rightarrow> fl\<lparr>flOpenID := plOwnerID pl\<rparr>)"

definition restore_one :: "PersistedLock \<Rightarrow> Manager \<Rightarrow> Manager" where
  "restore_one pl lm =
     (if plIsLegacyByteRange pl
      then lm\<lparr>lmLocks := (lmLocks lm)(plFileID pl \<mapsto> fls lm (plFileID pl) @ [fileLockFromPersisted pl])\<rparr>
      else (let ul = FromPersistedLock pl;
                lm = lm\<lparr>lmUnified := (lmUnified lm)(plFileID pl \<mapsto> uls lm (plFileID pl) @ [ul])\<rparr>
            in indexAddLockLocked (plFileID pl) ul lm))"

definition RestoreLocks :: "Manager \<Rightarrow> PersistedLock list \<Rightarrow> Manager" where
  "RestoreLocks lm persisted = fold restore_one persisted lm"

section \<open>SMB byte-range locks\<close>

text \<open>An existing lock a request without an open replaces in place.\<close>

definition same_range_lock :: "FileLock \<Rightarrow> FileLock \<Rightarrow> bool" where
  "same_range_lock lock el \<longleftrightarrow>
     lockOwnerID el = lockOwnerID lock \<and> flOffset el = flOffset lock \<and> flLength el = flLength lock"

definition Lock :: "string \<Rightarrow> time \<Rightarrow> Manager \<Rightarrow> string \<Rightarrow> FileLock \<Rightarrow> store_error option \<times> Manager" where
  "Lock uuid now lm handleKey lock =
     (let existing = fls lm handleKey in
      case find (\<lambda>el. IsLockConflicting el lock) existing of
        Some el \<Rightarrow> (Some (NewLockedError (conflictFrom el)), lm)
      | None \<Rightarrow>
     (case find (\<lambda>ul. fileLockConflictsWithUnified lock ul) (uls lm handleKey) of
        Some ul \<Rightarrow> (Some (NewLockedError (conflictFromUnified ul)), lm)
      | None \<Rightarrow>
     (case (if flOpenID lock = [] then find_index (same_range_lock lock) existing else None) of
        Some i \<Rightarrow>
          (let el = assignPersistIDLocked uuid ((existing ! i)\<lparr>flExclusive := flExclusive lock,
                      flAcquiredAt := now, flID := flID lock\<rparr>)
           in (None, persistFileLockLocked handleKey el
                       (lm\<lparr>lmLocks := (lmLocks lm)(handleKey \<mapsto> existing[i := el])\<rparr>)))
      | None \<Rightarrow>
          (let lock = (if flAcquiredAt lock = 0 then lock\<lparr>flAcquiredAt := now\<rparr> else lock);
               lock = assignPersistIDLocked uuid lock
           in (None, persistFileLockLocked handleKey lock
                       (lm\<lparr>lmLocks := (lmLocks lm)(handleKey \<mapsto> existing @ [lock])\<rparr>))))))"

definition doUnlock :: "Manager \<Rightarrow> string \<Rightarrow> string \<Rightarrow> u64 \<Rightarrow> u64 \<Rightarrow> u64 \<Rightarrow> bool \<times> store_error option \<times> Manager" where
  "doUnlock lm handleKey openID sessionID offset len =
     (let existing = fls lm handleKey in
      if existing = [] then (False, Some ErrLockNotFound, lm)
      else
        (case find_index (\<lambda>el. lockOwnerID el = callerOwnerID openID sessionID \<and> flOffset el = offset
                               \<and> flLength el = len) existing of
           Some i \<Rightarrow>
             (let lm = deleteFileLockLocked (existing ! i) lm
              in (True, None, lm\<lparr>lmLocks := set_bucket (lmLocks lm) handleKey (remove_at i existing)\<rparr>))
         | None \<Rightarrow> (False, Some ErrLockNotFound, lm)))"

text \<open>The results of an operation that releases ranges carry the handles it notifies.\<close>

definition Unlock :: "Manager \<Rightarrow> string \<Rightarrow> string \<Rightarrow> u64 \<Rightarrow> u64 \<Rightarrow> u64 \<Rightarrow> store_error option \<times> string list \<times> Manager" where
  "Unlock lm handleKey openID sessionID offset len =
     (let (released, err, lm) = doUnlock lm handleKey openID sessionID offset len
      in (err, (if released then [handleKey] else []), lm))"

text \<open>The shared body of \<open>doUnlockAllForOpen\<close> and \<open>doUnlockAllForSession\<close>.\<close>

definition unlock_all :: "(FileLock \<Rightarrow> bool) \<Rightarrow> Manager \<Rightarrow> string \<Rightarrow> nat \<times> Manager" where
  "unlock_all P lm handleKey =
     (let existing = fls lm handleKey in
      if existing = [] then (0, lm)
      else
        (let gone = filter P existing;
             remaining = filter (\<lambda>el. \<not> P el) existing;
             lm = fold deleteFileLockLocked gone lm
         in (length gone, lm\<lparr>lmLocks := set_bucket (lmLocks lm) handleKey remaining\<rparr>)))"

definition doUnlockAllForOpen :: "Manager \<Rightarrow> string \<Rightarrow> string \<Rightarrow> nat \<times> Manager" where
  "doUnlockAllForOpen lm handleKey openID = unlock_all (\<lambda>el. flOpenID el = openID) lm handleKey"

definition UnlockAllForOpen :: "Manager \<Rightarrow> string \<Rightarrow> string \<Rightarrow> nat \<times> string list \<times> Manager" where
  "UnlockAllForOpen lm handleKey openID =
     (if openID = [] then (0, [], lm)
      else (let (removed, lm) = doUnlockAllForOpen lm handleKey openID
            in (removed, (if removed > 0 then [handleKey] else []), lm)))"

definition doUnlockAllForSession :: "Manager \<Rightarrow> string \<Rightarrow> u64 \<Rightarrow> nat \<times> Manager" where
  "doUnlockAllForSession lm handleKey sessionID = unlock_all (\<lambda>el. flSessionID el = sessionID) lm handleKey"

definition UnlockAllForSession :: "Manager \<Rightarrow> string \<Rightarrow> u64 \<Rightarrow> nat \<times> string list \<times> Manager" where
  "UnlockAllForSession lm handleKey sessionID =
     (let (removed, lm) = doUnlockAllForSession lm handleKey sessionID
      in (removed, (if removed > 0 then [handleKey] else []), lm))"

definition TestLock :: "Manager \<Rightarrow> string \<Rightarrow> FileLock \<Rightarrow> LockConflict option" where
  "TestLock lm handleKey lock =
     (case find (\<lambda>el. IsLockConflicting el lock) (fls lm handleKey) of
        Some el \<Rightarrow> Some (conflictFrom el)
      | None \<Rightarrow> map_option conflictFromUnified (find (fileLockConflictsWithUnified lock) (uls lm handleKey)))"

definition TestLockByParams :: "Manager \<Rightarrow> string \<Rightarrow> u64 \<Rightarrow> u64 \<Rightarrow> u64 \<Rightarrow> bool \<Rightarrow> bool \<times> LockConflict option" where
  "TestLockByParams lm handleKey sessionID offset len exclusive =
     (let testLock = \<lparr>flID = 0, flSessionID = sessionID, flOpenID = [], flOffset = offset, flLength = len,
            flExclusive = exclusive, flAcquiredAt = 0, flClientAddr = [], flClientID = [],
            flIsZeroByte = False, flPersistID = []\<rparr>
      in case TestLock lm handleKey testLock of
           Some conflict \<Rightarrow> (False, Some conflict)
         | None \<Rightarrow> (True, None))"

definition CheckForIO :: "Manager \<Rightarrow> string \<Rightarrow> string \<Rightarrow> u64 \<Rightarrow> u64 \<Rightarrow> u64 \<Rightarrow> bool \<Rightarrow> LockConflict option" where
  "CheckForIO lm handleKey openID sessionID offset len isWrite =
     (case find (\<lambda>el. CheckIOConflict el openID sessionID offset len isWrite) (fls lm handleKey) of
        Some el \<Rightarrow> Some (conflictFrom el)
      | None \<Rightarrow> map_option conflictFromUnified
                  (find (\<lambda>ul. unifiedLockBlocksIO ul offset len isWrite) (uls lm handleKey)))"

definition ListLocks :: "Manager \<Rightarrow> string \<Rightarrow> FileLock list" where
  "ListLocks lm handleKey = fls lm handleKey"

definition RemoveFileLocks :: "Manager \<Rightarrow> string \<Rightarrow> Manager" where
  "RemoveFileLocks lm handleKey = lm\<lparr>lmLocks := (lmLocks lm)(handleKey := None)\<rparr>"

section \<open>Unified locks\<close>

definition AddUnifiedLock :: "time \<Rightarrow> Manager \<Rightarrow> string \<Rightarrow> UnifiedLock \<Rightarrow> store_error option \<times> Manager" where
  "AddUnifiedLock now lm handleKey lock =
     (let existing = uls lm handleKey in
      case find (\<lambda>el. ConflictsWith lock el) existing of
        Some el \<Rightarrow> (Some (NewLockConflictError \<lparr>ucLock = el, ucReason = ''lock conflict''\<rparr>), lm)
      | None \<Rightarrow>
     (case (if \<not> IsLease lock \<and> \<not> IsDelegation lock
            then find (\<lambda>fl. fileLockConflictsWithUnified fl lock) (fls lm handleKey) else None) of
        Some fl \<Rightarrow> (Some (NewLockConflictError (unifiedConflictFromFileLock fl)), lm)
      | None \<Rightarrow>
     (case find_index (\<lambda>el. OwnerID (ulOwner el) = OwnerID (ulOwner lock) \<and> ulOffset el = ulOffset lock
                            \<and> ulLength el = ulLength lock) existing of
        Some i \<Rightarrow>
          (let el = (existing ! i)\<lparr>ulType := ulType lock, ulAcquiredAt := now\<rparr>
           in (None, persistUnifiedLockLocked el
                       (lm\<lparr>lmUnified := (lmUnified lm)(handleKey \<mapsto> existing[i := el])\<rparr>)))
      | None \<Rightarrow>
          (let lock = (if ulAcquiredAt lock = 0 then lock\<lparr>ulAcquiredAt := now\<rparr> else lock);
               lm = lm\<lparr>lmUnified := (lmUnified lm)(handleKey \<mapsto> existing @ [lock])\<rparr>
           in (None, persistUnifiedLockLocked lock (indexAddLockLocked handleKey lock lm))))))"

definition TestUnifiedLock :: "Manager \<Rightarrow> string \<Rightarrow> UnifiedLock \<Rightarrow> UnifiedLockConflict option" where
  "TestUnifiedLock lm handleKey want =
     (case find (\<lambda>el. ConflictsWith want el) (uls lm handleKey) of
        Some el \<Rightarrow> Some \<lparr>ucLock = el, ucReason = ''lock conflict''\<rparr>
      | None \<Rightarrow>
          (if \<not> IsLease want \<and> \<not> IsDelegation want
           then map_option unifiedConflictFromFileLock
                  (find (\<lambda>fl. fileLockConflictsWithUnified fl want) (fls lm handleKey))
           else None))"

text \<open>The loop of \<open>RemoveUnifiedLock\<close> over the file's locks: the locks that stay,
  whether a lock of the owner overlapped, and the state with the persisted records replaced.
  Fragments draw their identifiers from the stream \<open>gen\<close>, starting at \<open>n\<close>.\<close>

fun remove_loop :: "(nat \<Rightarrow> string) \<Rightarrow> string \<Rightarrow> u64 \<Rightarrow> u64 \<Rightarrow> UnifiedLock list \<Rightarrow> nat \<Rightarrow> Manager \<Rightarrow> UnifiedLock list \<times> bool \<times> Manager" where
  "remove_loop gen ownerID offset len [] n lm = ([], False, lm)"
| "remove_loop gen ownerID offset len (lock # rest) n lm =
     (if OwnerID (ulOwner lock) \<noteq> ownerID \<or> \<not> Overlaps lock offset len
      then (let (newLocks, found, lm) = remove_loop gen ownerID offset len rest n lm
            in (lock # newLocks, found, lm))
      else (let lm = deleteUnifiedLockLocked lock lm;
                (splitResult, n) = SplitLock gen n lock offset len;
                lm = fold persistUnifiedLockLocked splitResult lm;
                (newLocks, found, lm) = remove_loop gen ownerID offset len rest n lm
            in (splitResult @ newLocks, True, lm)))"

definition RemoveUnifiedLock :: "(nat \<Rightarrow> string) \<Rightarrow> Manager \<Rightarrow> string \<Rightarrow> LockOwner \<Rightarrow> u64 \<Rightarrow> u64 \<Rightarrow> store_error option \<times> Manager" where
  "RemoveUnifiedLock gen lm handleKey owner offset len =
     (let existing = uls lm handleKey in
      if existing = [] then (Some ErrLockNotFound, lm)
      else
        (let (newLocks, found, lm') = remove_loop gen (OwnerID owner) offset len existing 0 lm
         in if \<not> found then (Some ErrLockNotFound, lm)
            else (None, reindexHandleLocked handleKey existing
                          (lm'\<lparr>lmUnified := set_bucket (lmUnified lm') handleKey newLocks\<rparr>))))"

definition ListUnifiedLocks :: "Manager \<Rightarrow> string \<Rightarrow> UnifiedLock list" where
  "ListUnifiedLocks lm handleKey = uls lm handleKey"

definition GetUnifiedLock :: "Manager \<Rightarrow> string \<Rightarrow> LockOwner \<Rightarrow> u64 \<Rightarrow> u64 \<Rightarrow> store_error + UnifiedLock" where
  "GetUnifiedLock lm handleKey owner offset len =
     (case find (\<lambda>lock. OwnerID (ulOwner lock) = OwnerID owner \<and> ulOffset lock = offset
                        \<and> ulLength lock = len) (uls lm handleKey) of
        Some lock \<Rightarrow> Inr lock
      | None \<Rightarrow> Inl ErrLockNotFound)"

definition UpgradeLock :: "Manager \<Rightarrow> string \<Rightarrow> LockOwner \<Rightarrow> u64 \<Rightarrow> u64 \<Rightarrow> (store_error + UnifiedLock) \<times> Manager" where
  "UpgradeLock lm handleKey owner offset len =
     (let unifiedLocks = uls lm handleKey;
          own = (\<lambda>t lock. OwnerID (ulOwner lock) = OwnerID owner \<and> ulType lock = t
                          \<and> Overlaps lock offset len)
      in case find_index (own LockTypeShared) unifiedLocks of
           None \<Rightarrow>
             (case find (own LockTypeExclusive) unifiedLocks of
                Some lock \<Rightarrow> (Inr lock, lm)
              | None \<Rightarrow> (Inl ErrLockNotFound, lm))
         | Some i \<Rightarrow>
             (case find (\<lambda>lock. OwnerID (ulOwner lock) \<noteq> OwnerID owner \<and> Overlaps lock offset len)
                     unifiedLocks of
                Some lock \<Rightarrow>
                  (Inl (NewLockConflictError \<lparr>ucLock = lock, ucReason = ''other reader exists on range''\<rparr>), lm)
              | None \<Rightarrow>
                  (let up = (unifiedLocks ! i)\<lparr>ulType := LockTypeExclusive\<rparr>
                   in (Inr up, persistUnifiedLockLocked up
                         (lm\<lparr>lmUnified := (lmUnified lm)(handleKey \<mapsto> unifiedLocks[i := up])\<rparr>)))))"

section \<open>Cleanup\<close>

definition RemoveFileUnifiedLocks :: "Manager \<Rightarrow> string \<Rightarrow> Manager" where
  "RemoveFileUnifiedLocks lm handleKey =
     (let old = uls lm handleKey;
          lm = reindexHandleLocked handleKey old (lm\<lparr>lmUnified := (lmUnified lm)(handleKey := None)\<rparr>)
      in lm\<lparr>lmBreakWaitChans := lmBreakWaitChans lm - {handleKey}\<rparr>)"

definition RemoveAllLocks :: "Manager \<Rightarrow> string \<Rightarrow> Manager" where
  "RemoveAllLocks lm handleKey =
     (let lm = lm\<lparr>lmLocks := (lmLocks lm)(handleKey := None)\<rparr>;
          old = uls lm handleKey;
          lm = reindexHandleLocked handleKey old (lm\<lparr>lmUnified := (lmUnified lm)(handleKey := None)\<rparr>);
          lm = lm\<lparr>lmBreakWaitChans := lmBreakWaitChans lm - {handleKey}\<rparr>
      in lm\<lparr>lmStore := map_option (\<lambda>s. snd (mls_DeleteLocksByFile False s handleKey)) (lmStore lm)\<rparr>)"

definition remove_client_from :: "string \<Rightarrow> string \<Rightarrow> Manager \<Rightarrow> Manager" where
  "remove_client_from clientID handleKey lm =
     (let locks = uls lm handleKey;
          remaining = filter (\<lambda>lock. ClientID (ulOwner lock) \<noteq> clientID) locks
      in reindexHandleLocked handleKey locks
           (lm\<lparr>lmUnified := set_bucket (lmUnified lm) handleKey remaining\<rparr>))"

definition RemoveClientLocks :: "Manager \<Rightarrow> string \<Rightarrow> Manager" where
  "RemoveClientLocks lm clientID =
     (let handleKeys = (case lmClientIndex lm clientID of None \<Rightarrow> [] | Some b \<Rightarrow> map fst b);
          lm = fold (remove_client_from clientID) handleKeys lm
      in lm\<lparr>lmStore := map_option (\<lambda>s. snd (mls_DeleteLocksByClient False s clientID)) (lmStore lm)\<rparr>)"

definition release_prefix_from :: "string \<Rightarrow> string \<Rightarrow> nat \<times> Manager \<Rightarrow> nat \<times> Manager" where
  "release_prefix_from prfx handleKey = (\<lambda>(released, lm).
     (let locks = uls lm handleKey;
          gone = filter (\<lambda>lock. has_prefix (OwnerID (ulOwner lock)) prfx) locks;
          remaining = filter (\<lambda>lock. \<not> has_prefix (OwnerID (ulOwner lock)) prfx) locks;
          lm = fold deleteUnifiedLockLocked gone lm
      in if gone = [] then (released, lm)
         else (released + length gone, reindexHandleLocked handleKey locks
                (lm\<lparr>lmUnified := set_bucket (lmUnified lm) handleKey remaining\<rparr>))))"

definition ReleaseByOwnerPrefix :: "string list \<Rightarrow> Manager \<Rightarrow> string \<Rightarrow> nat \<times> Manager" where
  "ReleaseByOwnerPrefix keys lm prfx = fold (release_prefix_from prfx) keys (0, lm)"

text \<open>\<open>SetLeaseEpoch\<close>: one epoch for every record of the lease key.\<close>

definition has_lease_key :: "lease_key \<Rightarrow> UnifiedLock \<Rightarrow> bool" where
  "has_lease_key leaseKey ul = (case ulLease ul of None \<Rightarrow> False | Some l \<Rightarrow> olLeaseKey l = leaseKey)"

definition set_epoch :: "u16 \<Rightarrow> UnifiedLock \<Rightarrow> UnifiedLock" where
  "set_epoch target ul = ul\<lparr>ulLease := map_option (olEpoch_update (\<lambda>_. target)) (ulLease ul)\<rparr>"

definition SetLeaseEpoch :: "string list \<Rightarrow> Manager \<Rightarrow> lease_key \<Rightarrow> u16 \<Rightarrow> bool \<times> Manager" where
  "SetLeaseEpoch keys lm leaseKey epoch =
     (let matches = concat (map (\<lambda>h. filter (has_lease_key leaseKey) (uls lm h)) keys);
          target = foldl (\<lambda>t ul. case ulLease ul of None \<Rightarrow> t | Some l \<Rightarrow> if olEpoch l > t then olEpoch l else t)
                     epoch matches;
          lm = lm\<lparr>lmUnified := (\<lambda>h. map_option (map (\<lambda>ul. if has_lease_key leaseKey ul
                                                        then set_epoch target ul else ul)) (lmUnified lm h))\<rparr>
      in (matches \<noteq> [], fold persistUnifiedLockLocked (map (set_epoch target) matches) lm))"

end
