(* ===== verification/Lock_Safety.thy ===== *)
theory Lock_Safety
  imports Lock_Manager
begin

text \<open>
  Safety of the lock manager: over every sequence of its operations, a byte that one owner holds
  exclusively is held by no other owner, across SMB, NLM and NFSv4; and the reverse indexes are
  exactly the contents of the lock table.
\<close>

section \<open>Frames\<close>

lemma bucket_simps [simp]:
  "bucket Map.empty k = []"
  "bucket (m(k \<mapsto> xs)) k' = (if k' = k then xs else bucket m k')"
  "bucket (m(k := None)) k' = (if k' = k then [] else bucket m k')"
  "bucket (set_bucket m k xs) k' = (if k' = k then xs else bucket m k')"
  "bucket (\<lambda>h. map_option (map f) (m h)) k = map f (bucket m k)"
  by (auto simp: bucket_def set_bucket_def split: option.split)

lemmas persist_defs = persistFileLockLocked_def deleteFileLockLocked_def persistUnifiedLockLocked_def
  deleteUnifiedLockLocked_def putLockLocked_def deletePersistedLocked_def

lemma persist_frame [simp]:
  "lmLocks (persistFileLockLocked h fl lm) = lmLocks lm"
  "lmUnified (persistFileLockLocked h fl lm) = lmUnified lm"
  "lmClientIndex (persistFileLockLocked h fl lm) = lmClientIndex lm"
  "lmLeaseKeyIndex (persistFileLockLocked h fl lm) = lmLeaseKeyIndex lm"
  "lmLocks (deleteFileLockLocked fl lm) = lmLocks lm"
  "lmUnified (deleteFileLockLocked fl lm) = lmUnified lm"
  "lmClientIndex (deleteFileLockLocked fl lm) = lmClientIndex lm"
  "lmLeaseKeyIndex (deleteFileLockLocked fl lm) = lmLeaseKeyIndex lm"
  "lmLocks (persistUnifiedLockLocked ul lm) = lmLocks lm"
  "lmUnified (persistUnifiedLockLocked ul lm) = lmUnified lm"
  "lmClientIndex (persistUnifiedLockLocked ul lm) = lmClientIndex lm"
  "lmLeaseKeyIndex (persistUnifiedLockLocked ul lm) = lmLeaseKeyIndex lm"
  "lmLocks (deleteUnifiedLockLocked ul lm) = lmLocks lm"
  "lmUnified (deleteUnifiedLockLocked ul lm) = lmUnified lm"
  "lmClientIndex (deleteUnifiedLockLocked ul lm) = lmClientIndex lm"
  "lmLeaseKeyIndex (deleteUnifiedLockLocked ul lm) = lmLeaseKeyIndex lm"
  by (simp_all add: persist_defs)

text \<open>A field that a step leaves alone is left alone by a fold of the step.\<close>

lemma fold_frame: "(\<And>x s. P (f x s) = P s) \<Longrightarrow> P (fold f xs s) = P s"
  by (induction xs arbitrary: s) auto

lemma fold_persist_frame [simp]:
  "lmLocks (fold deleteFileLockLocked xs lm) = lmLocks lm"
  "lmUnified (fold deleteFileLockLocked xs lm) = lmUnified lm"
  "lmClientIndex (fold deleteFileLockLocked xs lm) = lmClientIndex lm"
  "lmLeaseKeyIndex (fold deleteFileLockLocked xs lm) = lmLeaseKeyIndex lm"
  "lmLocks (fold persistUnifiedLockLocked ys lm) = lmLocks lm"
  "lmUnified (fold persistUnifiedLockLocked ys lm) = lmUnified lm"
  "lmClientIndex (fold persistUnifiedLockLocked ys lm) = lmClientIndex lm"
  "lmLeaseKeyIndex (fold persistUnifiedLockLocked ys lm) = lmLeaseKeyIndex lm"
  "lmLocks (fold deleteUnifiedLockLocked ys lm) = lmLocks lm"
  "lmUnified (fold deleteUnifiedLockLocked ys lm) = lmUnified lm"
  "lmClientIndex (fold deleteUnifiedLockLocked ys lm) = lmClientIndex lm"
  "lmLeaseKeyIndex (fold deleteUnifiedLockLocked ys lm) = lmLeaseKeyIndex lm"
  by (simp_all add: fold_frame)

lemma index_frame [simp]:
  "lmLocks (indexAddLockLocked h ul lm) = lmLocks lm"
  "lmUnified (indexAddLockLocked h ul lm) = lmUnified lm"
  "lmStore (indexAddLockLocked h ul lm) = lmStore lm"
  "lmLocks (indexRemoveLockLocked h ul lm) = lmLocks lm"
  "lmUnified (indexRemoveLockLocked h ul lm) = lmUnified lm"
  "lmStore (indexRemoveLockLocked h ul lm) = lmStore lm"
  by (simp_all add: indexAddLockLocked_def indexRemoveLockLocked_def Let_def split: option.split)

lemma reindex_frame [simp]:
  "lmLocks (reindexHandleLocked h old lm) = lmLocks lm"
  "lmUnified (reindexHandleLocked h old lm) = lmUnified lm"
  "lmStore (reindexHandleLocked h old lm) = lmStore lm"
  by (simp_all add: reindexHandleLocked_def Let_def fold_frame)

lemma remove_loop_frame:
  "remove_loop gen own offset len ls n lm = (newLocks, found, lm') \<Longrightarrow>
   lmLocks lm' = lmLocks lm \<and> lmUnified lm' = lmUnified lm
   \<and> lmClientIndex lm' = lmClientIndex lm \<and> lmLeaseKeyIndex lm' = lmLeaseKeyIndex lm"
  by (induction ls arbitrary: n lm newLocks found) (auto simp: Let_def split: if_splits prod.splits)

section \<open>Holders of a byte\<close>

text \<open>SMB owners and NLM/NFSv4 owners are different principals even under one name.\<close>

datatype holder = SMBOwner string | NFSOwner string

definition fl_holds :: "FileLock \<Rightarrow> nat \<Rightarrow> bool" where
  "fl_holds fl b \<longleftrightarrow> \<not> flIsZeroByte fl \<and> b \<in> fl_bytes fl"

definition ul_holds :: "UnifiedLock \<Rightarrow> nat \<Rightarrow> bool" where
  "ul_holds ul b \<longleftrightarrow> byte_range_lock ul \<and> b \<in> ul_bytes ul"

definition byte_holders :: "Manager \<Rightarrow> string \<Rightarrow> nat \<Rightarrow> (holder \<times> bool) set" where
  "byte_holders lm h b =
     {(SMBOwner (lockOwnerID fl), flExclusive fl) | fl. fl \<in> set (fls lm h) \<and> fl_holds fl b}
     \<union> {(NFSOwner (OwnerID (ulOwner ul)), IsExclusive ul) | ul. ul \<in> set (uls lm h) \<and> ul_holds ul b}"

definition exclusive_ok :: "Manager \<Rightarrow> bool" where
  "exclusive_ok lm \<longleftrightarrow> (\<forall>h b o1 o2 x. (o1, True) \<in> byte_holders lm h b \<longrightarrow> (o2, x) \<in> byte_holders lm h b \<longrightarrow> o1 = o2)"

definition ranges_ok :: "Manager \<Rightarrow> bool" where
  "ranges_ok lm \<longleftrightarrow> (\<forall>h. (\<forall>fl \<in> set (fls lm h). fl_ok fl) \<and> (\<forall>ul \<in> set (uls lm h). ul_ok ul))"

definition safe :: "Manager \<Rightarrow> bool" where
  "safe lm \<longleftrightarrow> exclusive_ok lm \<and> ranges_ok lm"

text \<open>Releasing operations: what is left is part of what was there.\<close>

definition sub_lock :: "UnifiedLock \<Rightarrow> UnifiedLock \<Rightarrow> bool" where
  "sub_lock u v \<longleftrightarrow> OwnerID (ulOwner u) = OwnerID (ulOwner v) \<and> ulType u = ulType v
     \<and> byte_range_lock u = byte_range_lock v \<and> (ul_ok v \<longrightarrow> ul_ok u \<and> ul_bytes u \<subseteq> ul_bytes v)"

definition shrinks :: "Manager \<Rightarrow> Manager \<Rightarrow> bool" where
  "shrinks lm lm' \<longleftrightarrow> (\<forall>h. set (fls lm' h) \<subseteq> set (fls lm h)
     \<and> (\<forall>u \<in> set (uls lm' h). \<exists>v \<in> set (uls lm h). sub_lock u v))"

lemma sub_lock_refl [simp]: "sub_lock u u"
  by (simp add: sub_lock_def)

lemma sub_lock_trans: "sub_lock u v \<Longrightarrow> sub_lock v w \<Longrightarrow> sub_lock u w"
  by (auto simp: sub_lock_def)

lemma shrinks_subset:
  "(\<And>h. set (fls lm' h) \<subseteq> set (fls lm h)) \<Longrightarrow> (\<And>h. set (uls lm' h) \<subseteq> set (uls lm h)) \<Longrightarrow> shrinks lm lm'"
  unfolding shrinks_def by (meson subset_iff sub_lock_refl)

lemma shrinks_refl [simp]: "shrinks lm lm"
  by (rule shrinks_subset) auto

lemma shrinks_trans: "shrinks a b \<Longrightarrow> shrinks b c \<Longrightarrow> shrinks a c"
  unfolding shrinks_def by (meson subset_trans sub_lock_trans)

lemma byte_holders_iff:
  "x \<in> byte_holders lm h b \<longleftrightarrow>
     (\<exists>fl \<in> set (fls lm h). fl_holds fl b \<and> x = (SMBOwner (lockOwnerID fl), flExclusive fl))
     \<or> (\<exists>ul \<in> set (uls lm h). ul_holds ul b \<and> x = (NFSOwner (OwnerID (ulOwner ul)), IsExclusive ul))"
  by (auto simp: byte_holders_def)

lemma sub_lock_holds:
  assumes "sub_lock u v" and "ul_ok v" and "ul_holds u b"
  shows "ul_holds v b" and "OwnerID (ulOwner u) = OwnerID (ulOwner v)" and "IsExclusive u = IsExclusive v"
  using assms by (auto simp: sub_lock_def ul_holds_def IsExclusive_def)

lemma shrinks_holders:
  assumes "shrinks lm lm'" and "ranges_ok lm"
  shows "byte_holders lm' h b \<subseteq> byte_holders lm h b"
proof
  have fl: "set (fls lm' h) \<subseteq> set (fls lm h)"
    and ul: "\<forall>u \<in> set (uls lm' h). \<exists>v \<in> set (uls lm h). sub_lock u v"
    using assms(1) by (auto simp: shrinks_def)
  fix x assume "x \<in> byte_holders lm' h b"
  then consider fl where "fl \<in> set (fls lm' h)" "fl_holds fl b" "x = (SMBOwner (lockOwnerID fl), flExclusive fl)"
    | u where "u \<in> set (uls lm' h)" "ul_holds u b" "x = (NFSOwner (OwnerID (ulOwner u)), IsExclusive u)"
    unfolding byte_holders_iff by blast
  then show "x \<in> byte_holders lm h b"
  proof cases
    case 1
    with fl show ?thesis unfolding byte_holders_iff by blast
  next
    case 2
    then obtain v where v: "v \<in> set (uls lm h)" "sub_lock u v" using ul by blast
    with assms(2) have "ul_ok v" by (simp add: ranges_ok_def)
    from sub_lock_holds [OF v(2) this 2(2)] v(1) 2(3) show ?thesis unfolding byte_holders_iff by auto
  qed
qed

lemma shrinks_safe:
  assumes "shrinks lm lm'" and "safe lm"
  shows "safe lm'"
proof -
  have "exclusive_ok lm'"
    using assms shrinks_holders [OF assms(1)] unfolding safe_def exclusive_ok_def by blast
  moreover have "ranges_ok lm'"
    using assms unfolding safe_def ranges_ok_def shrinks_def sub_lock_def by (meson subset_iff)
  ultimately show ?thesis by (simp add: safe_def)
qed

section \<open>Releasing operations\<close>

lemma doUnlock_shrinks: "doUnlock lm h openID sid off len = (r, e, lm') \<Longrightarrow> shrinks lm lm'"
  using set_remove_at_subset
  by (fastforce simp: doUnlock_def Let_def split: if_splits option.splits intro: shrinks_subset)

lemma Unlock_shrinks: "Unlock lm h openID sid off len = (e, ns, lm') \<Longrightarrow> shrinks lm lm'"
  by (auto simp: Unlock_def split: prod.splits dest: doUnlock_shrinks)

lemma unlock_all_shrinks: "unlock_all P lm h = (n, lm') \<Longrightarrow> shrinks lm lm'"
  by (auto simp: unlock_all_def Let_def split: if_splits intro!: shrinks_subset)

lemma UnlockAllForOpen_shrinks: "UnlockAllForOpen lm h openID = (n, ns, lm') \<Longrightarrow> shrinks lm lm'"
  by (auto simp: UnlockAllForOpen_def doUnlockAllForOpen_def Let_def split: if_splits prod.splits
      dest: unlock_all_shrinks)

lemma UnlockAllForSession_shrinks: "UnlockAllForSession lm h sid = (n, ns, lm') \<Longrightarrow> shrinks lm lm'"
  by (auto simp: UnlockAllForSession_def doUnlockAllForSession_def Let_def split: if_splits prod.splits
      dest: unlock_all_shrinks)

lemma RemoveFileLocks_shrinks: "shrinks lm (RemoveFileLocks lm h)"
  by (rule shrinks_subset) (auto simp: RemoveFileLocks_def split: if_splits)

lemma split_sub_lock: "f \<in> set (fst (SplitLock gen n e off len)) \<Longrightarrow> sub_lock f e"
  using split_frag_same [of f gen n e off len] split_frag_sub [of e f gen n off len]
  by (simp add: sub_lock_def byte_range_lock_def)

lemma remove_loop_sub:
  "remove_loop gen own off len ls n lm = (newLocks, found, lm') \<Longrightarrow> u \<in> set newLocks \<Longrightarrow>
   \<exists>v \<in> set ls. sub_lock u v"
proof (induction ls arbitrary: n lm newLocks found)
  case (Cons l ls)
  then show ?case
    using split_sub_lock [of u gen n l off len]
    by (fastforce simp: Let_def split: if_splits prod.splits)
qed simp

lemma RemoveUnifiedLock_cases:
  assumes "RemoveUnifiedLock gen lm h owner off len = (e, lm')"
  obtains newLocks found lm1 where
    "remove_loop gen (OwnerID owner) off len (uls lm h) 0 lm = (newLocks, found, lm1)"
    "e = (if found then None else Some ErrLockNotFound)"
    "lm' = (if found then reindexHandleLocked h (uls lm h)
              (lm1\<lparr>lmUnified := set_bucket (lmUnified lm1) h newLocks\<rparr>) else lm)"
    "lmLocks lm' = lmLocks lm"
    "lmUnified lm' = (if found then set_bucket (lmUnified lm) h newLocks else lmUnified lm)"
proof -
  obtain newLocks found lm1 where loop:
    "remove_loop gen (OwnerID owner) off len (uls lm h) 0 lm = (newLocks, found, lm1)"
    by (metis prod_cases3)
  show ?thesis
  proof (rule that [OF loop])
    show e: "e = (if found then None else Some ErrLockNotFound)"
      "lm' = (if found then reindexHandleLocked h (uls lm h)
              (lm1\<lparr>lmUnified := set_bucket (lmUnified lm1) h newLocks\<rparr>) else lm)"
      using assms loop by (auto simp: RemoveUnifiedLock_def Let_def split: if_splits)
    show "lmLocks lm' = lmLocks lm"
      "lmUnified lm' = (if found then set_bucket (lmUnified lm) h newLocks else lmUnified lm)"
      using remove_loop_frame [OF loop] unfolding e(2) by auto
  qed
qed

lemma RemoveUnifiedLock_shrinks:
  assumes "RemoveUnifiedLock gen lm h owner off len = (e, lm')"
  shows "shrinks lm lm'"
  using assms
proof (cases rule: RemoveUnifiedLock_cases)
  case (1 newLocks found lm1)
  then show ?thesis
    using remove_loop_sub [OF 1(1)] sub_lock_refl unfolding shrinks_def
    by (metis (full_types) bucket_simps(4) subset_refl)
qed

lemma RemoveFileUnifiedLocks_shrinks: "shrinks lm (RemoveFileUnifiedLocks lm h)"
  by (rule shrinks_subset) (auto simp: RemoveFileUnifiedLocks_def Let_def split: if_splits)

lemma RemoveAllLocks_shrinks: "shrinks lm (RemoveAllLocks lm h)"
  by (rule shrinks_subset) (auto simp: RemoveAllLocks_def Let_def split: if_splits)

lemma fold_shrinks: "(\<And>x s. shrinks s (f x s)) \<Longrightarrow> shrinks s (fold f xs s)"
  by (induction xs arbitrary: s) (auto intro: shrinks_trans)

lemma RemoveClientLocks_shrinks: "shrinks lm (RemoveClientLocks lm c)"
proof -
  have "shrinks s (remove_client_from c h s)" for h s
    by (rule shrinks_subset) (auto simp: remove_client_from_def Let_def split: if_splits)
  then show ?thesis
    using fold_shrinks [of "remove_client_from c"]
    by (simp add: RemoveClientLocks_def Let_def shrinks_def)
qed

lemma release_prefix_shrinks: "shrinks (snd s) (snd (release_prefix_from p h s))"
  by (rule shrinks_subset) (auto simp: release_prefix_from_def Let_def split: prod.splits if_splits)

lemma ReleaseByOwnerPrefix_shrinks: "shrinks lm (snd (ReleaseByOwnerPrefix keys lm p))"
proof -
  have "shrinks (snd s) (snd (fold (release_prefix_from p) keys s))" for s
  proof (induction keys arbitrary: s)
    case (Cons h keys)
    show ?case using shrinks_trans [OF release_prefix_shrinks Cons.IH] by simp
  qed simp
  from this [of "(0, lm)"] show ?thesis by (simp add: ReleaseByOwnerPrefix_def)
qed

lemma set_epoch_sub_lock: "sub_lock (set_epoch e ul) ul"
  by (simp add: sub_lock_def set_epoch_def byte_range_lock_def)

lemma SetLeaseEpoch_shrinks: "shrinks lm (snd (SetLeaseEpoch keys lm k e))"
  unfolding shrinks_def SetLeaseEpoch_def Let_def
  by (auto intro: set_epoch_sub_lock sub_lock_refl)

section \<open>Granting operations\<close>

lemma exclusive_okD:
  assumes "exclusive_ok lm" and "(o1, x1) \<in> byte_holders lm h b" and "(o2, x2) \<in> byte_holders lm h b"
    and "x1 \<or> x2"
  shows "o1 = o2"
  using assms unfolding exclusive_ok_def by (metis (full_types))

text \<open>Adding one holder keeps exclusivity when it is compatible with every holder there.\<close>

lemma exclusive_grant:
  assumes "exclusive_ok lm"
    and sub: "\<And>h b. byte_holders lm' h b \<subseteq> byte_holders lm h b \<union> (if P h b then {(own, e)} else {})"
    and new: "\<And>h b o' x. P h b \<Longrightarrow> (o', x) \<in> byte_holders lm h b \<Longrightarrow> x \<or> e \<Longrightarrow> o' = own"
  shows "exclusive_ok lm'"
  unfolding exclusive_ok_def
proof (intro allI impI)
  fix h b o1 o2 x
  assume h1: "(o1, True) \<in> byte_holders lm' h b" and h2: "(o2, x) \<in> byte_holders lm' h b"
  have "(o1, True) \<in> byte_holders lm h b \<or> P h b \<and> o1 = own \<and> e"
    using subsetD [OF sub h1] by (auto split: if_splits)
  moreover have "(o2, x) \<in> byte_holders lm h b \<or> P h b \<and> o2 = own"
    using subsetD [OF sub h2] by (auto split: if_splits)
  ultimately show "o1 = o2"
    using exclusive_okD [OF assms(1)] new by metis
qed

lemma safe_grant_fl:
  assumes "safe lm" and "fl_ok new" and un: "lmUnified lm' = lmUnified lm"
    and sub: "\<And>h'. set (fls lm' h') \<subseteq> set (fls lm h') \<union> (if h' = h then {new} else {})"
    and comp: "\<And>el. el \<in> set (fls lm h) \<Longrightarrow> lockOwnerID el \<noteq> lockOwnerID new \<Longrightarrow>
      flExclusive el \<or> flExclusive new \<Longrightarrow> flIsZeroByte el \<or> flIsZeroByte new \<or> fl_bytes el \<inter> fl_bytes new = {}"
    and cross: "\<And>ul. ul \<in> set (uls lm h) \<Longrightarrow> \<not> fileLockConflictsWithUnified new ul"
  shows "safe lm'"
proof -
  have ok: "ul_ok ul" if "ul \<in> set (uls lm h)" for ul
    using assms(1) that by (simp add: safe_def ranges_ok_def)
  have "exclusive_ok lm'"
  proof (rule exclusive_grant)
    show "exclusive_ok lm" using assms(1) by (simp add: safe_def)
    show "byte_holders lm' h' b \<subseteq> byte_holders lm h' b \<union>
      (if h' = h \<and> fl_holds new b then {(SMBOwner (lockOwnerID new), flExclusive new)} else {})" for h' b
      using sub [of h'] un unfolding byte_holders_def by (auto split: if_splits)
    fix h' b o' x
    assume P: "h' = h \<and> fl_holds new b" and "(o', x) \<in> byte_holders lm h' b" and x: "x \<or> flExclusive new"
    then consider el where "el \<in> set (fls lm h)" "fl_holds el b" "o' = SMBOwner (lockOwnerID el)" "x = flExclusive el"
      | ul where "ul \<in> set (uls lm h)" "ul_holds ul b" "x = IsExclusive ul"
      unfolding byte_holders_iff by auto
    then show "o' = SMBOwner (lockOwnerID new)"
    proof cases
      case 1
      with P x comp [of el] show ?thesis by (auto simp: fl_holds_def)
    next
      case 2
      with ok assms(2) have "RangesOverlap (flOffset new) (flLength new) (ulOffset ul) (ulLength ul)"
        using P by (auto simp: RangesOverlap_iff fl_holds_def ul_holds_def)
      with 2 P x cross [of ul] show ?thesis
        by (auto simp: fileLockConflictsWithUnified_def fl_holds_def ul_holds_def byte_range_lock_def
            IsLease_def IsDelegation_def)
    qed
  qed
  moreover have "ranges_ok lm'"
    using assms(1,2) sub un unfolding safe_def ranges_ok_def by (auto split: if_splits dest!: subsetD [OF sub])
  ultimately show ?thesis by (simp add: safe_def)
qed

lemma safe_grant_ul:
  assumes "safe lm" and "ul_ok new" and un: "lmLocks lm' = lmLocks lm"
    and sub: "\<And>h'. set (uls lm' h') \<subseteq> set (uls lm h') \<union> (if h' = h then {new} else {})"
    and comp: "\<And>el. byte_range_lock new \<Longrightarrow> byte_range_lock el \<Longrightarrow> el \<in> set (uls lm h) \<Longrightarrow>
      OwnerID (ulOwner el) \<noteq> OwnerID (ulOwner new) \<Longrightarrow> IsExclusive el \<or> IsExclusive new \<Longrightarrow>
      ul_bytes el \<inter> ul_bytes new = {}"
    and cross: "\<And>fl. byte_range_lock new \<Longrightarrow> fl \<in> set (fls lm h) \<Longrightarrow> \<not> fileLockConflictsWithUnified fl new"
  shows "safe lm'"
proof -
  have ok: "fl_ok fl" if "fl \<in> set (fls lm h)" for fl
    using assms(1) that by (simp add: safe_def ranges_ok_def)
  have "exclusive_ok lm'"
  proof (rule exclusive_grant)
    show "exclusive_ok lm" using assms(1) by (simp add: safe_def)
    show "byte_holders lm' h' b \<subseteq> byte_holders lm h' b \<union>
      (if h' = h \<and> ul_holds new b then {(NFSOwner (OwnerID (ulOwner new)), IsExclusive new)} else {})" for h' b
      using sub [of h'] un unfolding byte_holders_def by (auto split: if_splits)
    fix h' b o' x
    assume P: "h' = h \<and> ul_holds new b" and "(o', x) \<in> byte_holders lm h' b" and x: "x \<or> IsExclusive new"
    then consider fl where "fl \<in> set (fls lm h)" "fl_holds fl b" "x = flExclusive fl"
      | el where "el \<in> set (uls lm h)" "ul_holds el b" "o' = NFSOwner (OwnerID (ulOwner el))" "x = IsExclusive el"
      unfolding byte_holders_iff by auto
    then show "o' = NFSOwner (OwnerID (ulOwner new))"
    proof cases
      case 1
      with ok assms(2) have "RangesOverlap (flOffset fl) (flLength fl) (ulOffset new) (ulLength new)"
        using P by (auto simp: RangesOverlap_iff fl_holds_def ul_holds_def)
      with 1 P x cross [of fl] show ?thesis
        by (auto simp: fileLockConflictsWithUnified_def fl_holds_def ul_holds_def byte_range_lock_def
            IsLease_def IsDelegation_def)
    next
      case 2
      with P x comp [of el] show ?thesis by (auto simp: ul_holds_def)
    qed
  qed
  moreover have "ranges_ok lm'"
    using assms(1,2) sub un unfolding safe_def ranges_ok_def by (auto split: if_splits dest!: subsetD [OF sub])
  ultimately show ?thesis by (simp add: safe_def)
qed

text \<open>Conflict-free requests are compatible byte by byte.\<close>

lemma IsLockConflicting_bytes:
  assumes "\<not> IsLockConflicting el new" and "fl_ok el" and "fl_ok new"
    and "lockOwnerID el \<noteq> lockOwnerID new" and "flExclusive el \<or> flExclusive new"
  shows "flIsZeroByte el \<or> flIsZeroByte new \<or> fl_bytes el \<inter> fl_bytes new = {}"
  using assms by (auto simp: IsLockConflicting_def locksOverlap_def RangesOverlap_iff split: if_splits)

lemma ConflictsWith_bytes:
  assumes "byte_range_lock a" and "byte_range_lock b" and "\<not> ConflictsWith a b"
    and "ul_ok a" and "ul_ok b" and "OwnerID (ulOwner b) \<noteq> OwnerID (ulOwner a)"
    and "IsExclusive b \<or> IsExclusive a"
  shows "ul_bytes b \<inter> ul_bytes a = {}"
  using ConflictsWith_byte_range [OF assms(1-5)] assms(6,7) by auto

lemma assign_simps [simp]:
  "flOffset (assignPersistIDLocked u fl) = flOffset fl" "flLength (assignPersistIDLocked u fl) = flLength fl"
  "flExclusive (assignPersistIDLocked u fl) = flExclusive fl"
  "flIsZeroByte (assignPersistIDLocked u fl) = flIsZeroByte fl"
  "lockOwnerID (assignPersistIDLocked u fl) = lockOwnerID fl"
  by (simp_all add: assignPersistIDLocked_def lockOwnerID_def)

lemma relock_simps [simp]:
  "lockOwnerID (fl\<lparr>flExclusive := e, flAcquiredAt := t, flID := i\<rparr>) = lockOwnerID fl"
  "lockOwnerID (fl\<lparr>flAcquiredAt := t\<rparr>) = lockOwnerID fl"
  by (simp_all add: lockOwnerID_def)

lemma find_None_iff': "find P xs = None \<longleftrightarrow> (\<forall>x \<in> set xs. \<not> P x)"
  by (auto simp: find_None_iff)

text \<open>The three outcomes of \<open>Lock\<close>.\<close>

lemma Lock_cases:
  assumes "Lock uuid now lm h lock = (e, lm')"
  obtains (conflict) err where "e = Some err" "lm' = lm"
  | (relock) i el where "e = None" "flOpenID lock = []" "i < length (fls lm h)"
      "same_range_lock lock (fls lm h ! i)"
      "el = assignPersistIDLocked uuid ((fls lm h ! i)\<lparr>flExclusive := flExclusive lock,
        flAcquiredAt := now, flID := flID lock\<rparr>)"
      "lm' = persistFileLockLocked h el (lm\<lparr>lmLocks := (lmLocks lm)(h \<mapsto> (fls lm h)[i := el])\<rparr>)"
      "\<forall>el \<in> set (fls lm h). \<not> IsLockConflicting el lock"
      "\<forall>ul \<in> set (uls lm h). \<not> fileLockConflictsWithUnified lock ul"
  | (stack) new where "e = None"
      "new = assignPersistIDLocked uuid (if flAcquiredAt lock = 0 then lock\<lparr>flAcquiredAt := now\<rparr> else lock)"
      "lm' = persistFileLockLocked h new (lm\<lparr>lmLocks := (lmLocks lm)(h \<mapsto> fls lm h @ [new])\<rparr>)"
      "\<forall>el \<in> set (fls lm h). \<not> IsLockConflicting el lock"
      "\<forall>ul \<in> set (uls lm h). \<not> fileLockConflictsWithUnified lock ul"
proof (cases "find (\<lambda>el. IsLockConflicting el lock) (fls lm h)")
  case (Some el)
  with assms conflict show ?thesis by (auto simp: Lock_def Let_def)
next
  case None
  note no_smb = None [unfolded find_None_iff']
  show ?thesis
  proof (cases "find (\<lambda>ul. fileLockConflictsWithUnified lock ul) (uls lm h)")
    case (Some ul)
    with None assms conflict show ?thesis by (auto simp: Lock_def Let_def)
  next
    case ul: None
    note no_ul = ul [unfolded find_None_iff']
    show ?thesis
    proof (cases "if flOpenID lock = [] then find_index (same_range_lock lock) (fls lm h) else None")
      case (Some i)
      then have "flOpenID lock = []" "find_index (same_range_lock lock) (fls lm h) = Some i"
        by (auto split: if_splits)
      with None ul Some assms find_index_Some [OF this(2)] no_ul no_smb relock [of i] show ?thesis
        by (simp add: Lock_def Let_def)
    next
      case same: None
      from assms have "e = None \<and> lm' = persistFileLockLocked h
          (assignPersistIDLocked uuid (if flAcquiredAt lock = 0 then lock\<lparr>flAcquiredAt := now\<rparr> else lock))
          (lm\<lparr>lmLocks := (lmLocks lm)(h \<mapsto> fls lm h @
            [assignPersistIDLocked uuid (if flAcquiredAt lock = 0 then lock\<lparr>flAcquiredAt := now\<rparr> else lock)])\<rparr>)"
        unfolding Lock_def Let_def None ul same by simp
      with no_ul no_smb stack show ?thesis by blast
    qed
  qed
qed

lemma Lock_safe:
  assumes "safe lm" and "fl_ok lock" and "flOpenID lock = [] \<longrightarrow> \<not> flIsZeroByte lock"
    and "Lock uuid now lm h lock = (e, lm')"
  shows "safe lm'"
  using assms(4)
proof (cases rule: Lock_cases)
  case conflict
  with assms(1) show ?thesis by simp
next
  case (relock i el)
  have range: "flOffset el = flOffset lock" "flLength el = flLength lock" "lockOwnerID el = lockOwnerID lock"
      "flExclusive el = flExclusive lock"
    using relock by (auto simp: same_range_lock_def)
  have ok: "fl_ok el'" if "el' \<in> set (fls lm h)" for el'
    using assms(1) that by (simp add: safe_def ranges_ok_def)
  show ?thesis
  proof (rule safe_grant_fl [OF assms(1), of el _ h])
    show "fl_ok el" using assms(2) range by simp
    show "lmUnified lm' = lmUnified lm" using relock by simp
    show "set (fls lm' h') \<subseteq> set (fls lm h') \<union> (if h' = h then {el} else {})" for h'
      using relock set_update_subset_insert [of "fls lm h" i el] by auto
    show "flIsZeroByte el' \<or> flIsZeroByte el \<or> fl_bytes el' \<inter> fl_bytes el = {}"
      if "el' \<in> set (fls lm h)" "lockOwnerID el' \<noteq> lockOwnerID el" "flExclusive el' \<or> flExclusive el" for el'
      using IsLockConflicting_bytes [of el' lock] that ok [OF that(1)] relock(2,7) assms(2,3) by (auto simp: range)
    show "\<not> fileLockConflictsWithUnified el ul" if "ul \<in> set (uls lm h)" for ul
      using relock(2,8) assms(3) that by (auto simp: fileLockConflictsWithUnified_def range split: if_splits)
  qed
next
  case (stack new)
  have range: "flOffset new = flOffset lock" "flLength new = flLength lock" "lockOwnerID new = lockOwnerID lock"
      "flExclusive new = flExclusive lock" "flIsZeroByte new = flIsZeroByte lock"
    using stack by auto
  have ok: "fl_ok el'" if "el' \<in> set (fls lm h)" for el'
    using assms(1) that by (simp add: safe_def ranges_ok_def)
  show ?thesis
  proof (rule safe_grant_fl [OF assms(1), of new _ h])
    show "fl_ok new" using assms(2) range by simp
    show "lmUnified lm' = lmUnified lm" using stack by simp
    show "set (fls lm' h') \<subseteq> set (fls lm h') \<union> (if h' = h then {new} else {})" for h'
      using stack by auto
    show "flIsZeroByte el' \<or> flIsZeroByte new \<or> fl_bytes el' \<inter> fl_bytes new = {}"
      if "el' \<in> set (fls lm h)" "lockOwnerID el' \<noteq> lockOwnerID new" "flExclusive el' \<or> flExclusive new" for el'
      using IsLockConflicting_bytes [of el' lock] that ok [OF that(1)] stack(4) assms(2) by (auto simp: range)
    show "\<not> fileLockConflictsWithUnified new ul" if "ul \<in> set (uls lm h)" for ul
      using stack(5) that by (auto simp: fileLockConflictsWithUnified_def range split: if_splits)
  qed
qed

lemma AddUnifiedLock_cases:
  assumes "AddUnifiedLock now lm h lock = (e, lm')"
  obtains (conflict) err where "e = Some err" "lm' = lm"
  | (update) i el where "e = None" "i < length (uls lm h)" "OwnerID (ulOwner (uls lm h ! i)) = OwnerID (ulOwner lock)"
      "ulOffset (uls lm h ! i) = ulOffset lock" "ulLength (uls lm h ! i) = ulLength lock"
      "el = (uls lm h ! i)\<lparr>ulType := ulType lock, ulAcquiredAt := now\<rparr>"
      "lm' = persistUnifiedLockLocked el (lm\<lparr>lmUnified := (lmUnified lm)(h \<mapsto> (uls lm h)[i := el])\<rparr>)"
      "\<forall>el \<in> set (uls lm h). \<not> ConflictsWith lock el"
      "byte_range_lock lock \<longrightarrow> (\<forall>fl \<in> set (fls lm h). \<not> fileLockConflictsWithUnified fl lock)"
  | (add) new where "e = None"
      "new = (if ulAcquiredAt lock = 0 then lock\<lparr>ulAcquiredAt := now\<rparr> else lock)"
      "lm' = persistUnifiedLockLocked new (indexAddLockLocked h new
        (lm\<lparr>lmUnified := (lmUnified lm)(h \<mapsto> uls lm h @ [new])\<rparr>))"
      "\<forall>el \<in> set (uls lm h). \<not> ConflictsWith lock el"
      "byte_range_lock lock \<longrightarrow> (\<forall>fl \<in> set (fls lm h). \<not> fileLockConflictsWithUnified fl lock)"
proof (cases "find (\<lambda>el. ConflictsWith lock el) (uls lm h)")
  case (Some el)
  with assms conflict show ?thesis by (auto simp: AddUnifiedLock_def Let_def)
next
  case None
  let ?smb = "if \<not> IsLease lock \<and> \<not> IsDelegation lock
    then find (\<lambda>fl. fileLockConflictsWithUnified fl lock) (fls lm h) else None"
  let ?same = "find_index (\<lambda>el. OwnerID (ulOwner el) = OwnerID (ulOwner lock) \<and> ulOffset el = ulOffset lock
    \<and> ulLength el = ulLength lock) (uls lm h)"
  note no_ul = None [unfolded find_None_iff']
  show ?thesis
  proof (cases ?smb)
    case (Some fl)
    with None assms conflict show ?thesis by (auto simp: AddUnifiedLock_def Let_def)
  next
    case smb: None
    then have no_smb: "byte_range_lock lock \<longrightarrow> (\<forall>fl \<in> set (fls lm h). \<not> fileLockConflictsWithUnified fl lock)"
      by (auto simp: find_None_iff' byte_range_lock_def IsLease_def IsDelegation_def split: if_splits)
    show ?thesis
    proof (cases ?same)
      case (Some i)
      with None smb assms find_index_Some [OF Some] no_ul no_smb update [of i] show ?thesis
        by (simp add: AddUnifiedLock_def Let_def)
    next
      case same: None
      with None smb assms no_ul no_smb add show ?thesis by (simp add: AddUnifiedLock_def Let_def)
    qed
  qed
qed

text \<open>Lease and delegation owners are never byte-range owners of the same file.\<close>

definition owner_kinds_ok :: "Manager \<Rightarrow> string \<Rightarrow> UnifiedLock \<Rightarrow> bool" where
  "owner_kinds_ok lm h lock \<longleftrightarrow> (\<forall>el \<in> set (uls lm h). OwnerID (ulOwner el) = OwnerID (ulOwner lock)
     \<longrightarrow> byte_range_lock el = byte_range_lock lock)"

lemma AddUnifiedLock_safe:
  assumes "safe lm" and "ul_ok lock" and "owner_kinds_ok lm h lock"
    and "AddUnifiedLock now lm h lock = (e, lm')"
  shows "safe lm'"
proof -
  have ok: "ul_ok el" if "el \<in> set (uls lm h)" for el
    using assms(1) that by (simp add: safe_def ranges_ok_def)
  have granted: "safe lm'" if "lmLocks lm' = lmLocks lm"
    "\<And>h'. set (uls lm' h') \<subseteq> set (uls lm h') \<union> (if h' = h then {new} else {})"
    "ulOffset new = ulOffset lock" "ulLength new = ulLength lock" "ulType new = ulType lock"
    "OwnerID (ulOwner new) = OwnerID (ulOwner lock)" "byte_range_lock new = byte_range_lock lock"
    "\<forall>el \<in> set (uls lm h). \<not> ConflictsWith lock el"
    "byte_range_lock lock \<longrightarrow> (\<forall>fl \<in> set (fls lm h). \<not> fileLockConflictsWithUnified fl lock)" for new
  proof (rule safe_grant_ul [OF assms(1), of new _ h])
    show "ul_ok new" using that(3,4) assms(2) by simp
    show "ul_bytes el \<inter> ul_bytes new = {}" if "byte_range_lock new" "byte_range_lock el" "el \<in> set (uls lm h)"
      "OwnerID (ulOwner el) \<noteq> OwnerID (ulOwner new)" "IsExclusive el \<or> IsExclusive new" for el
      using ConflictsWith_bytes [of lock el] ok that assms(2) \<open>ulOffset new = _\<close> \<open>ulLength new = _\<close>
        \<open>ulType new = _\<close> \<open>OwnerID (ulOwner new) = _\<close> \<open>byte_range_lock new = _\<close>
        \<open>\<forall>el \<in> set (uls lm h). \<not> ConflictsWith lock el\<close> by (simp add: IsExclusive_def)
    show "\<not> fileLockConflictsWithUnified fl new" if "byte_range_lock new" "fl \<in> set (fls lm h)" for fl
    proof -
      have "fileLockConflictsWithUnified fl new = fileLockConflictsWithUnified fl lock"
        using that(1) \<open>ulOffset new = _\<close> \<open>ulLength new = _\<close> \<open>ulType new = _\<close> \<open>byte_range_lock new = _\<close>
        by (simp add: fileLockConflictsWithUnified_def IsLease_def IsDelegation_def byte_range_lock_def IsExclusive_def)
      then show ?thesis using that \<open>byte_range_lock new = _\<close>
        \<open>byte_range_lock lock \<longrightarrow> (\<forall>fl \<in> set (fls lm h). \<not> fileLockConflictsWithUnified fl lock)\<close> by simp
    qed
  qed (use that in auto)
  from assms(4) show ?thesis
  proof (cases rule: AddUnifiedLock_cases)
    case conflict
    with assms(1) show ?thesis by simp
  next
    case (update i el)
    have "byte_range_lock (uls lm h ! i) = byte_range_lock lock"
      using assms(3) update(2,3) by (auto simp: owner_kinds_ok_def)
    then have "byte_range_lock el = byte_range_lock lock"
      using update(6) by (simp add: byte_range_lock_def)
    moreover have "set (uls lm' h') \<subseteq> set (uls lm h') \<union> (if h' = h then {el} else {})" for h'
      using update(7) set_update_subset_insert [of "uls lm h" i el] by auto
    ultimately show ?thesis using update(3-9) by (intro granted [of el]) simp_all
  next
    case (add new)
    then show ?thesis by (intro granted [of new]) (auto simp: byte_range_lock_def)
  qed
qed

lemma UpgradeLock_cases:
  assumes "UpgradeLock lm h owner off len = (r, lm')"
  obtains (same) "lm' = lm"
  | (up) i u where "i < length (uls lm h)" "OwnerID (ulOwner (uls lm h ! i)) = OwnerID owner"
      "Overlaps (uls lm h ! i) off len" "u = (uls lm h ! i)\<lparr>ulType := LockTypeExclusive\<rparr>"
      "lm' = persistUnifiedLockLocked u (lm\<lparr>lmUnified := (lmUnified lm)(h \<mapsto> (uls lm h)[i := u])\<rparr>)"
      "\<forall>el \<in> set (uls lm h). OwnerID (ulOwner el) \<noteq> OwnerID owner \<longrightarrow> \<not> Overlaps el off len"
proof -
  define own where "own t lock \<longleftrightarrow> OwnerID (ulOwner lock) = OwnerID owner \<and> ulType lock = t
    \<and> Overlaps lock off len" for t lock
  define other where "other lock \<longleftrightarrow> OwnerID (ulOwner lock) \<noteq> OwnerID owner \<and> Overlaps lock off len" for lock
  note eq = assms [unfolded UpgradeLock_def Let_def own_def [abs_def, symmetric] other_def [abs_def, symmetric]]
  show ?thesis
  proof (cases "find_index (own LockTypeShared) (uls lm h)")
    case None
    with eq same show ?thesis by (auto split: option.splits)
  next
    case (Some i)
    show ?thesis
    proof (cases "find other (uls lm h)")
      case None
      then have "\<forall>el \<in> set (uls lm h). \<not> other el" by (simp add: find_None_iff')
      with Some None eq find_index_Some [OF Some] up [of i] show ?thesis
        by (auto simp: own_def other_def)
    next
      case (Some l)
      with \<open>find_index _ _ = Some i\<close> eq same show ?thesis by simp
    qed
  qed
qed

text \<open>The precondition the code documents for an upgrade, the whole lock, and the one it leaves
  out: no SMB lock on the range.\<close>

definition upgrade_ok :: "Manager \<Rightarrow> string \<Rightarrow> LockOwner \<Rightarrow> u64 \<Rightarrow> u64 \<Rightarrow> bool" where
  "upgrade_ok lm h owner off len \<longleftrightarrow>
     (\<forall>el \<in> set (uls lm h). OwnerID (ulOwner el) = OwnerID owner \<and> Overlaps el off len
        \<longrightarrow> ulOffset el = off \<and> ulLength el = len)
     \<and> (\<forall>fl \<in> set (fls lm h). flIsZeroByte fl \<or> \<not> RangesOverlap (flOffset fl) (flLength fl) off len)"

lemma UpgradeLock_safe:
  assumes "safe lm" and "upgrade_ok lm h owner off len" and "UpgradeLock lm h owner off len = (r, lm')"
  shows "safe lm'"
  using assms(3)
proof (cases rule: UpgradeLock_cases)
  case same
  with assms(1) show ?thesis by simp
next
  case (up i u)
  have range: "ulOffset u = off" "ulLength u = len" "OwnerID (ulOwner u) = OwnerID owner"
    using assms(2) up(1-4) by (auto simp: upgrade_ok_def)
  have ok: "ul_ok el" if "el \<in> set (uls lm h)" for el
    using assms(1) that by (simp add: safe_def ranges_ok_def)
  show ?thesis
  proof (rule safe_grant_ul [OF assms(1), of u _ h])
    show "ul_ok u" using ok [of "uls lm h ! i"] up(1,4) by simp
    then have okr: "range_ok off len" using range by simp
    show "lmLocks lm' = lmLocks lm" using up(5) by simp
    show "set (uls lm' h') \<subseteq> set (uls lm h') \<union> (if h' = h then {u} else {})" for h'
      using up(5) set_update_subset_insert [of "uls lm h" i u] by auto
    show "ul_bytes el \<inter> ul_bytes u = {}" if "el \<in> set (uls lm h)" "OwnerID (ulOwner el) \<noteq> OwnerID (ulOwner u)" for el
    proof -
      have "\<not> Overlaps el off len" using up(6) that range(3) by simp
      then show ?thesis using ok [OF that(1)] okr by (simp add: Overlaps_def RangesOverlap_iff range)
    qed
    show "\<not> fileLockConflictsWithUnified fl u" if "fl \<in> set (fls lm h)" for fl
      using assms(2) that by (auto simp: upgrade_ok_def fileLockConflictsWithUnified_def range)
  qed
qed

section \<open>Sequences of operations\<close>

text \<open>One call of the manager.  Ranges stay below \<open>2^64\<close>, which the protocol layers check;
  a lock without an open is never a zero-byte lock, as the code documents; UUIDs, times and the
  order in which maps are visited are arbitrary.\<close>

inductive lock_step :: "Manager \<Rightarrow> Manager \<Rightarrow> bool" where
  "Lock uuid now lm h lock = (e, lm') \<Longrightarrow> fl_ok lock \<Longrightarrow> flOpenID lock = [] \<longrightarrow> \<not> flIsZeroByte lock \<Longrightarrow> lock_step lm lm'"
| "Unlock lm h openID sid off len = (e, ns, lm') \<Longrightarrow> lock_step lm lm'"
| "UnlockAllForOpen lm h openID = (n, ns, lm') \<Longrightarrow> lock_step lm lm'"
| "UnlockAllForSession lm h sid = (n, ns, lm') \<Longrightarrow> lock_step lm lm'"
| "RemoveFileLocks lm h = lm' \<Longrightarrow> lock_step lm lm'"
| "AddUnifiedLock now lm h ul = (e, lm') \<Longrightarrow> ul_ok ul \<Longrightarrow> owner_kinds_ok lm h ul \<Longrightarrow> lock_step lm lm'"
| "RemoveUnifiedLock gen lm h owner off len = (e, lm') \<Longrightarrow> lock_step lm lm'"
| "UpgradeLock lm h owner off len = (r, lm') \<Longrightarrow> upgrade_ok lm h owner off len \<Longrightarrow> lock_step lm lm'"
| "RemoveFileUnifiedLocks lm h = lm' \<Longrightarrow> lock_step lm lm'"
| "RemoveAllLocks lm h = lm' \<Longrightarrow> lock_step lm lm'"
| "RemoveClientLocks lm c = lm' \<Longrightarrow> lock_step lm lm'"
| "ReleaseByOwnerPrefix keys lm p = (n, lm') \<Longrightarrow> lock_step lm lm'"
| "SetLeaseEpoch keys lm k ep = (b, lm') \<Longrightarrow> lock_step lm lm'"

inductive lock_reachable :: "Manager \<Rightarrow> bool" where
  start: "lock_reachable (newBaseManager\<lparr>lmStore := store, lmEpoch := epoch, lmShareName := share\<rparr>)"
| step: "lock_reachable lm \<Longrightarrow> lock_step lm lm' \<Longrightarrow> lock_reachable lm'"

lemma lock_step_safe: "lock_step lm lm' \<Longrightarrow> safe lm \<Longrightarrow> safe lm'"
proof (induction rule: lock_step.induct)
  case (12 keys lm p n lm')
  then show ?case using shrinks_safe ReleaseByOwnerPrefix_shrinks [of lm keys p] by simp
next
  case (13 keys lm k ep b lm')
  then show ?case using shrinks_safe SetLeaseEpoch_shrinks [of lm keys k ep] by simp
qed (blast intro: Lock_safe AddUnifiedLock_safe UpgradeLock_safe
  shrinks_safe [OF Unlock_shrinks] shrinks_safe [OF UnlockAllForOpen_shrinks]
  shrinks_safe [OF UnlockAllForSession_shrinks] shrinks_safe [OF RemoveFileLocks_shrinks]
  shrinks_safe [OF RemoveUnifiedLock_shrinks] shrinks_safe [OF RemoveFileUnifiedLocks_shrinks]
  shrinks_safe [OF RemoveAllLocks_shrinks] shrinks_safe [OF RemoveClientLocks_shrinks])+

lemma reachable_safe: "lock_reachable lm \<Longrightarrow> safe lm"
proof (induction rule: lock_reachable.induct)
  case (start store epoch share)
  then show ?case
    by (simp add: safe_def exclusive_ok_def ranges_ok_def byte_holders_def newBaseManager_def)
qed (rule lock_step_safe)

section \<open>I/O checks and previews\<close>

text \<open>What a holder means for an I/O request of a caller.\<close>

definition io_allowed :: "string \<Rightarrow> bool \<Rightarrow> holder \<times> bool \<Rightarrow> bool" where
  "io_allowed caller isWrite = (\<lambda>(own, excl).
     if own = SMBOwner caller then isWrite \<longrightarrow> excl else \<not> isWrite \<and> \<not> excl)"

lemma CheckForIO_None_iff:
  assumes "ranges_ok lm" and "range_ok off len"
  shows "CheckForIO lm h openID sid off len isWrite = None \<longleftrightarrow>
    (\<forall>b \<in> range_bytes off len. \<forall>hd \<in> byte_holders lm h b. io_allowed (callerOwnerID openID sid) isWrite hd)"
proof -
  have fl: "CheckIOConflict el openID sid off len isWrite \<longleftrightarrow>
      (\<exists>b \<in> range_bytes off len. fl_holds el b \<and>
        \<not> io_allowed (callerOwnerID openID sid) isWrite (SMBOwner (lockOwnerID el), flExclusive el))"
    if "el \<in> set (fls lm h)" for el
  proof -
    have "fl_ok el" using assms(1) that by (simp add: ranges_ok_def)
    then show ?thesis using assms(2)
      by (auto simp: CheckIOConflict_def Let_def RangesOverlap_iff io_allowed_def fl_holds_def)
  qed
  have ul: "unifiedLockBlocksIO el off len isWrite \<longleftrightarrow>
      (\<exists>b \<in> range_bytes off len. ul_holds el b \<and>
        \<not> io_allowed (callerOwnerID openID sid) isWrite (NFSOwner (OwnerID (ulOwner el)), IsExclusive el))"
    if "el \<in> set (uls lm h)" for el
  proof -
    have "ul_ok el" using assms(1) that by (simp add: ranges_ok_def)
    then show ?thesis using assms(2)
      by (auto simp: unifiedLockBlocksIO_def Overlaps_def RangesOverlap_iff io_allowed_def ul_holds_def
          byte_range_lock_def IsLease_def IsDelegation_def)
  qed
  have "CheckForIO lm h openID sid off len isWrite = None \<longleftrightarrow>
      (\<forall>el \<in> set (fls lm h). \<not> CheckIOConflict el openID sid off len isWrite)
      \<and> (\<forall>el \<in> set (uls lm h). \<not> unifiedLockBlocksIO el off len isWrite)"
    by (auto simp: CheckForIO_def find_None_iff' split: option.split dest: find_Some_in_set)
  also have "\<dots> \<longleftrightarrow> (\<forall>el \<in> set (fls lm h). \<forall>b \<in> range_bytes off len. fl_holds el b \<longrightarrow>
        io_allowed (callerOwnerID openID sid) isWrite (SMBOwner (lockOwnerID el), flExclusive el))
      \<and> (\<forall>el \<in> set (uls lm h). \<forall>b \<in> range_bytes off len. ul_holds el b \<longrightarrow>
        io_allowed (callerOwnerID openID sid) isWrite (NFSOwner (OwnerID (ulOwner el)), IsExclusive el))"
    using fl ul by (intro arg_cong2 [where f = "(\<and>)"] ball_cong refl) blast+
  also have "\<dots> \<longleftrightarrow> (\<forall>b \<in> range_bytes off len. \<forall>hd \<in> byte_holders lm h b.
      io_allowed (callerOwnerID openID sid) isWrite hd)"
    unfolding Ball_def byte_holders_iff by blast
  finally show ?thesis .
qed

lemma Lock_preview: "fst (Lock uuid now lm h lock) = map_option NewLockedError (TestLock lm h lock)"
  by (auto simp: Lock_def TestLock_def Let_def split: option.split)

lemma AddUnifiedLock_preview:
  "fst (AddUnifiedLock now lm h lock) = map_option NewLockConflictError (TestUnifiedLock lm h lock)"
  by (auto simp: AddUnifiedLock_def TestUnifiedLock_def Let_def split: option.split)

section \<open>What an unlock releases\<close>

definition owner_bytes :: "string \<Rightarrow> UnifiedLock list \<Rightarrow> nat set" where
  "owner_bytes own ls = (\<Union>l \<in> {l \<in> set ls. OwnerID (ulOwner l) = own}. ul_bytes l)"

text \<open>Ranges on which splitting is exact: the lock ends below \<open>2^64\<close> or is unbounded, and an
  unbounded lock is not cut one byte before the end of the address space.\<close>

definition split_exact :: "u64 \<Rightarrow> u64 \<Rightarrow> UnifiedLock \<Rightarrow> bool" where
  "split_exact off len l \<longleftrightarrow> ul_exact l \<and> \<not> (ulLength l = 0 \<and> len \<noteq> 0 \<and> unat off + unat len = 2 ^ 64 - 1)"

lemma owner_bytes_simps [simp]:
  "owner_bytes own [] = {}"
  "owner_bytes own (l # ls) = (if OwnerID (ulOwner l) = own then ul_bytes l else {}) \<union> owner_bytes own ls"
  "owner_bytes own (xs @ ys) = owner_bytes own xs \<union> owner_bytes own ys"
  by (auto simp: owner_bytes_def)

lemma owner_bytes_split:
  assumes "split_exact off len l" and "range_ok off len" and "OwnerID (ulOwner l) = own"
  shows "owner_bytes own (fst (SplitLock gen n l off len)) = ul_bytes l - range_bytes off len"
proof -
  have "OwnerID (ulOwner f) = own" if "f \<in> set (fst (SplitLock gen n l off len))" for f
    using split_frag_same [OF that] assms(3) by simp
  then have "owner_bytes own (fst (SplitLock gen n l off len)) = (\<Union>f \<in> set (split_parts gen n l off len). ul_bytes f)"
    by (auto simp: owner_bytes_def split_parts_def)
  then show ?thesis using SplitLock_bytes [of l off len gen n] assms by (simp add: split_exact_def)
qed

lemma filter_split_empty:
  "OwnerID (ulOwner l) = own \<Longrightarrow> filter (\<lambda>l. OwnerID (ulOwner l) \<noteq> own) (fst (SplitLock gen n l off len)) = []"
  using split_frag_same [of _ gen n l off len] by (fastforce simp: filter_empty_conv)

lemma remove_loop_exact:
  assumes "remove_loop gen own off len ls n lm = (newLocks, found, lm')" and "range_ok off len"
    and "\<forall>l \<in> set ls. OwnerID (ulOwner l) = own \<longrightarrow> split_exact off len l"
  shows "owner_bytes own newLocks = owner_bytes own ls - range_bytes off len"
    and "filter (\<lambda>l. OwnerID (ulOwner l) \<noteq> own) newLocks = filter (\<lambda>l. OwnerID (ulOwner l) \<noteq> own) ls"
    and "found \<longleftrightarrow> owner_bytes own ls \<inter> range_bytes off len \<noteq> {}"
proof -
  have "owner_bytes own newLocks = owner_bytes own ls - range_bytes off len
    \<and> filter (\<lambda>l. OwnerID (ulOwner l) \<noteq> own) newLocks = filter (\<lambda>l. OwnerID (ulOwner l) \<noteq> own) ls
    \<and> (found \<longleftrightarrow> owner_bytes own ls \<inter> range_bytes off len \<noteq> {})"
    using assms(1,3)
  proof (induction ls arbitrary: n lm newLocks found)
    case (Cons l ls)
    show ?case
    proof (cases "OwnerID (ulOwner l) \<noteq> own \<or> \<not> Overlaps l off len")
      case True
      obtain new' found' lm1 where loop: "remove_loop gen own off len ls n lm = (new', found', lm1)"
        by (metis prod_cases3)
      have res: "newLocks = l # new'" "found = found'" "lm' = lm1"
        using Cons.prems(1) True loop by auto
      have "ul_bytes l \<inter> range_bytes off len = {}" if "OwnerID (ulOwner l) = own"
        using that True Cons.prems(2) assms(2) range_exact_ok [of "ulOffset l" "ulLength l"]
        by (auto simp: split_exact_def Overlaps_def RangesOverlap_iff)
      then show ?thesis using Cons.IH [of n lm new' found'] loop res Cons.prems(2) by auto
    next
      case False
      then have own: "OwnerID (ulOwner l) = own" and ov: "Overlaps l off len" by auto
      obtain parts n' where split: "SplitLock gen n l off len = (parts, n')" by force
      obtain new' found' lm1 where loop: "remove_loop gen own off len ls n'
          (fold persistUnifiedLockLocked parts (deleteUnifiedLockLocked l lm)) = (new', found', lm1)"
        by (metis prod_cases3)
      have res: "newLocks = parts @ new'" "found" "lm' = lm1"
        using Cons.prems(1) False split loop by (auto simp: Let_def)
      have exact: "split_exact off len l" using Cons.prems(2) own by simp
      have "ul_bytes l \<inter> range_bytes off len \<noteq> {}"
        using ov exact assms(2) range_exact_ok [of "ulOffset l" "ulLength l"]
        by (simp add: split_exact_def Overlaps_def RangesOverlap_iff)
      moreover have "owner_bytes own parts = ul_bytes l - range_bytes off len"
        using owner_bytes_split [OF exact assms(2) own, of gen n] split by simp
      moreover have "filter (\<lambda>l. OwnerID (ulOwner l) \<noteq> own) parts = []"
        using filter_split_empty [OF own, of gen n off len] split by simp
      ultimately show ?thesis
        using Cons.IH [of n' _ new' found'] loop res Cons.prems(2) own by auto
    qed
  qed auto
  then show "owner_bytes own newLocks = owner_bytes own ls - range_bytes off len"
    and "filter (\<lambda>l. OwnerID (ulOwner l) \<noteq> own) newLocks = filter (\<lambda>l. OwnerID (ulOwner l) \<noteq> own) ls"
    and "found \<longleftrightarrow> owner_bytes own ls \<inter> range_bytes off len \<noteq> {}" by auto
qed

lemma RemoveUnifiedLock_exact:
  assumes "RemoveUnifiedLock gen lm h owner off len = (e, lm')" and "range_ok off len"
    and "\<forall>l \<in> set (uls lm h). OwnerID (ulOwner l) = OwnerID owner \<longrightarrow> split_exact off len l"
  shows "e = (if owner_bytes (OwnerID owner) (uls lm h) \<inter> range_bytes off len = {} then Some ErrLockNotFound else None)"
    and "owner_bytes (OwnerID owner) (uls lm' h) = owner_bytes (OwnerID owner) (uls lm h) - range_bytes off len"
    and "filter (\<lambda>l. OwnerID (ulOwner l) \<noteq> OwnerID owner) (uls lm' h)
       = filter (\<lambda>l. OwnerID (ulOwner l) \<noteq> OwnerID owner) (uls lm h)"
    and "h' \<noteq> h \<Longrightarrow> uls lm' h' = uls lm h'"
proof -
  from assms(1) obtain newLocks found lm1 where
    loop: "remove_loop gen (OwnerID owner) off len (uls lm h) 0 lm = (newLocks, found, lm1)"
    and e: "e = (if found then None else Some ErrLockNotFound)"
    and un: "lmUnified lm' = (if found then set_bucket (lmUnified lm) h newLocks else lmUnified lm)"
    by (rule RemoveUnifiedLock_cases)
  note exact = remove_loop_exact [OF loop assms(2,3)]
  show "e = (if owner_bytes (OwnerID owner) (uls lm h) \<inter> range_bytes off len = {} then Some ErrLockNotFound else None)"
    using e exact(3) by simp
  show "owner_bytes (OwnerID owner) (uls lm' h) = owner_bytes (OwnerID owner) (uls lm h) - range_bytes off len"
    using un exact(1,3) by (cases found) auto
  show "filter (\<lambda>l. OwnerID (ulOwner l) \<noteq> OwnerID owner) (uls lm' h)
       = filter (\<lambda>l. OwnerID (ulOwner l) \<noteq> OwnerID owner) (uls lm h)"
    using un exact(2) by (cases found) auto
  show "uls lm' h' = uls lm h'" if "h' \<noteq> h"
    using un that by (cases found) auto
qed

section \<open>Properties\<close>

definition smb_lock :: "string \<Rightarrow> bool \<Rightarrow> FileLock" where
  "smb_lock openID excl = \<lparr>flID = 0, flSessionID = 7, flOpenID = openID, flOffset = 0, flLength = 100,
     flExclusive = excl, flAcquiredAt = 0, flClientAddr = [], flClientID = ''smb:7'', flIsZeroByte = False,
     flPersistID = []\<rparr>"

definition nfs_lock :: "string \<Rightarrow> LockType \<Rightarrow> UnifiedLock" where
  "nfs_lock own t = NewUnifiedLock ''id1'' 1 \<lparr>OwnerID = own, ClientID = ''c1'', ShareName = [],
     ExcludeLeaseKey = zero_key, ExcludeParentDirLeaseKey = zero_key, HasExcludeParentDirLeaseKey = False\<rparr>
     ''f'' 0 100 t"

definition one_smb :: "bool \<Rightarrow> Manager" where
  "one_smb excl = snd (Lock ''u1'' 1 newBaseManager ''f'' (smb_lock ''A'' excl))"

lemma one_smb_reachable: "lock_reachable (one_smb excl)"
proof -
  have "lock_reachable (newBaseManager\<lparr>lmStore := None, lmEpoch := 0, lmShareName := []\<rparr>)"
    by (rule lock_reachable.start)
  then have "lock_reachable newBaseManager" by (simp add: newBaseManager_def)
  moreover have "lock_step newBaseManager (one_smb excl)"
    unfolding one_smb_def
    by (rule lock_step.intros(1) [OF surjective_pairing]) (simp_all add: smb_lock_def range_ok_def)
  ultimately show ?thesis by (rule lock_reachable.step)
qed

lemmas example_simps = Lock_def newBaseManager_def smb_lock_def nfs_lock_def NewUnifiedLock_def
  assignPersistIDLocked_def persistFileLockLocked_def lockOwnerID_def callerOwnerID_def bucket_def

lemma one_smb_locks: "lmLocks (one_smb excl) = [''f'' \<mapsto> [(smb_lock ''A'' excl)\<lparr>flAcquiredAt := 1, flPersistID := ''u1''\<rparr>]]"
  "lmUnified (one_smb excl) = Map.empty" "lmStore (one_smb excl) = None"
  by (simp_all add: one_smb_def example_simps)

lemma one_smb_holder: "(SMBOwner ''A'', excl) \<in> byte_holders (one_smb excl) ''f'' 5"
  by (auto simp: byte_holders_iff one_smb_locks bucket_def smb_lock_def lockOwnerID_def callerOwnerID_def
      fl_holds_def range_bytes_def)



text \<open>C20: The previews are honest: \<open>TestLock\<close> reports exactly the conflict with which
  \<open>Lock\<close> would fail, and none when it would succeed; \<open>TestUnifiedLock\<close> does the same
  for \<open>AddUnifiedLock\<close>.\<close>

theorem lock_previews_exact:
  "fst (Lock uuid now lm h lock) = map_option NewLockedError (TestLock lm h lock)
   \<and> fst (AddUnifiedLock now lm h ul) = map_option NewLockConflictError (TestUnifiedLock lm h ul)"
  by (simp add: Lock_preview AddUnifiedLock_preview)


definition one_nfs :: Manager where
  "one_nfs = newBaseManager\<lparr>lmUnified := [''f'' \<mapsto> [nfs_lock ''nlm:a'' LockTypeShared]]\<rparr>"


section \<open>A conflict the upgrade misses\<close>

text \<open>\<open>UpgradeLock\<close> looks at the unified locks only: an NFS lock is promoted to exclusive
  over bytes on which an SMB client holds a shared lock.\<close>

definition shared_both :: Manager where
  "shared_both = (one_smb False)\<lparr>lmUnified := [''f'' \<mapsto> [nfs_lock ''nlm:a'' LockTypeShared]]\<rparr>"

lemma UpgradeLock_ignores_SMB:
  "(NFSOwner ''nlm:a'', True) \<in> byte_holders (snd (UpgradeLock shared_both ''f''
      (ulOwner (nfs_lock ''nlm:a'' LockTypeShared)) 0 100)) ''f'' 5
   \<and> (SMBOwner ''A'', False) \<in> byte_holders (snd (UpgradeLock shared_both ''f''
      (ulOwner (nfs_lock ''nlm:a'' LockTypeShared)) 0 100)) ''f'' 5"
proof -
  let ?lm = "snd (UpgradeLock shared_both ''f'' (ulOwner (nfs_lock ''nlm:a'' LockTypeShared)) 0 100)"
  have "uls ?lm ''f'' = [nfs_lock ''nlm:a'' LockTypeExclusive]"
    "fls ?lm ''f'' = [(smb_lock ''A'' False)\<lparr>flAcquiredAt := 1, flPersistID := ''u1''\<rparr>]"
    by (simp_all add: UpgradeLock_def Let_def shared_both_def one_smb_locks bucket_def nfs_lock_def NewUnifiedLock_def
        Overlaps_def RangesOverlap_def rangeLast_def persistUnifiedLockLocked_def)
  then show ?thesis
    by (simp add: byte_holders_iff fl_holds_def ul_holds_def range_bytes_def byte_range_lock_def IsExclusive_def
        nfs_lock_def NewUnifiedLock_def smb_lock_def lockOwnerID_def callerOwnerID_def)
qed

end
