(* ===== verification/Lock_Sweep.thy ===== *)
theory Lock_Sweep
  imports Lock_Safety
begin

text \<open>
  The reverse indexes of the lock manager never drift: over every sequence of operations their
  counts are the contents of the lock table, so the index-bounded removal of a disconnected
  client's locks finds every one of them.
\<close>

section \<open>Index keys of a lock\<close>

definition client_key :: "UnifiedLock \<Rightarrow> string option" where
  "client_key ul = (if ClientID (ulOwner ul) = [] then None else Some (ClientID (ulOwner ul)))"

definition lease_key_of :: "UnifiedLock \<Rightarrow> lease_key option" where
  "lease_key_of ul = map_option olLeaseKey (ulLease ul)"

lemma index_keys:
  "lmClientIndex (indexAddLockLocked h l lm) = upd_opt idx_add client_key h l (lmClientIndex lm)"
  "lmLeaseKeyIndex (indexAddLockLocked h l lm) = upd_opt idx_add lease_key_of h l (lmLeaseKeyIndex lm)"
  "lmClientIndex (indexRemoveLockLocked h l lm) = upd_opt idx_remove client_key h l (lmClientIndex lm)"
  "lmLeaseKeyIndex (indexRemoveLockLocked h l lm) = upd_opt idx_remove lease_key_of h l (lmLeaseKeyIndex lm)"
  by (auto simp: indexAddLockLocked_def indexRemoveLockLocked_def upd_opt_def client_key_def lease_key_of_def Let_def
      split: option.split)

lemma fold_index_keys:
  "lmClientIndex (fold (indexAddLockLocked h) ls lm) = fold (upd_opt idx_add client_key h) ls (lmClientIndex lm)"
  "lmLeaseKeyIndex (fold (indexAddLockLocked h) ls lm) = fold (upd_opt idx_add lease_key_of h) ls (lmLeaseKeyIndex lm)"
  "lmClientIndex (fold (indexRemoveLockLocked h) ls lm) = fold (upd_opt idx_remove client_key h) ls (lmClientIndex lm)"
  "lmLeaseKeyIndex (fold (indexRemoveLockLocked h) ls lm) = fold (upd_opt idx_remove lease_key_of h) ls (lmLeaseKeyIndex lm)"
  by (induction ls arbitrary: lm) (simp_all add: index_keys)

lemma fold_index_unified:
  "lmUnified (fold (indexRemoveLockLocked h) ls lm) = lmUnified lm"
  by (simp add: fold_frame)

section \<open>The invariant\<close>

definition index_ok :: "Manager \<Rightarrow> bool" where
  "index_ok lm \<longleftrightarrow> idx_wf (lmClientIndex lm) \<and> idx_wf (lmLeaseKeyIndex lm)
     \<and> (\<forall>k h. idx_count (lmClientIndex lm) k h = contrib client_key (uls lm h) k)
     \<and> (\<forall>k h. idx_count (lmLeaseKeyIndex lm) k h = contrib lease_key_of (uls lm h) k)"

lemma contrib_map: "map key xs = map key ys \<Longrightarrow> contrib key xs k = contrib key ys k"
proof -
  have "contrib key zs k = length (filter ((=) (Some k)) (map key zs))" for zs
    by (simp add: contrib_def filter_map comp_def eq_commute)
  then show "map key xs = map key ys \<Longrightarrow> contrib key xs k = contrib key ys k" by metis
qed

lemma index_ok_frame:
  assumes "index_ok lm" and "lmClientIndex lm' = lmClientIndex lm" and "lmLeaseKeyIndex lm' = lmLeaseKeyIndex lm"
    and "\<And>h. map client_key (uls lm' h) = map client_key (uls lm h)"
    and "\<And>h. map lease_key_of (uls lm' h) = map lease_key_of (uls lm h)"
  shows "index_ok lm'"
  using assms contrib_map [OF assms(4)] contrib_map [OF assms(5)] by (simp add: index_ok_def)

lemma index_ok_reindex:
  assumes "index_ok lm0" and "lmClientIndex lm = lmClientIndex lm0" and "lmLeaseKeyIndex lm = lmLeaseKeyIndex lm0"
    and "\<And>h'. h' \<noteq> h \<Longrightarrow> uls lm h' = uls lm0 h'"
  shows "index_ok (reindexHandleLocked h (uls lm0 h) lm)"
proof -
  let ?lm = "reindexHandleLocked h (uls lm0 h) lm"
  have c: "lmClientIndex ?lm = fold (upd_opt idx_add client_key h) (uls lm h)
      (fold (upd_opt idx_remove client_key h) (uls lm0 h) (lmClientIndex lm0))"
    and l: "lmLeaseKeyIndex ?lm = fold (upd_opt idx_add lease_key_of h) (uls lm h)
      (fold (upd_opt idx_remove lease_key_of h) (uls lm0 h) (lmLeaseKeyIndex lm0))"
    by (simp_all add: reindexHandleLocked_def Let_def fold_index_keys fold_index_unified assms(2,3))
  have counts: "idx_count (lmClientIndex lm0) k h' = contrib client_key (uls lm0 h') k"
    "idx_count (lmLeaseKeyIndex lm0) k' h' = contrib lease_key_of (uls lm0 h') k'" for k k' h'
    using assms(1) by (simp_all add: index_ok_def)
  show ?thesis
    using assms(1,4) ridx.cnt_reindex [OF counts(1)] ridx.cnt_reindex [OF counts(2)] counts
    by (simp add: index_ok_def c l ridx.wf_all)
qed

lemma index_ok_add:
  assumes "index_ok lm"
  shows "index_ok (indexAddLockLocked h new (lm\<lparr>lmUnified := (lmUnified lm)(h \<mapsto> uls lm h @ [new])\<rparr>))"
  using assms ridx.cnt_add_all [of client_key h "[new]"] ridx.cnt_add_all [of lease_key_of h "[new]"]
    ridx.wf_all(1) [of _ client_key h "[new]"] ridx.wf_all(1) [of _ lease_key_of h "[new]"]
  by (simp add: index_ok_def index_keys contrib_def)

section \<open>Preservation\<close>

lemma index_ok_store: "index_ok (lm\<lparr>lmStore := s\<rparr>) = index_ok lm"
  "index_ok (lm\<lparr>lmBreakWaitChans := w\<rparr>) = index_ok lm"
  by (simp_all add: index_ok_def)

lemma index_ok_unlock:
  "doUnlock lm h openID sid off len = (r, e, lm') \<Longrightarrow> index_ok lm \<Longrightarrow> index_ok lm'"
  "unlock_all P lm h = (n, lm') \<Longrightarrow> index_ok lm \<Longrightarrow> index_ok lm'"
  by (auto simp: doUnlock_def unlock_all_def Let_def index_ok_def split: if_splits option.splits)

lemma key_simps [simp]:
  "client_key (ul\<lparr>ulType := t, ulAcquiredAt := a\<rparr>) = client_key ul"
  "lease_key_of (ul\<lparr>ulType := t, ulAcquiredAt := a\<rparr>) = lease_key_of ul"
  "client_key (ul\<lparr>ulType := t\<rparr>) = client_key ul"
  "lease_key_of (ul\<lparr>ulType := t\<rparr>) = lease_key_of ul"
  "client_key (set_epoch ep ul) = client_key ul"
  "lease_key_of (set_epoch ep ul) = lease_key_of ul"
  by (simp_all add: client_key_def lease_key_of_def set_epoch_def option.map_comp comp_def)

lemma map_update_same: "i < length xs \<Longrightarrow> f y = f (xs ! i) \<Longrightarrow> map f (xs[i := y]) = map f xs"
  by (metis length_map list_update_id map_update nth_map)

lemma index_ok_remove_client: "index_ok lm \<Longrightarrow> index_ok (remove_client_from c h lm)"
  unfolding remove_client_from_def Let_def by (rule index_ok_reindex) simp_all

lemma index_ok_release_prefix: "index_ok (snd s) \<Longrightarrow> index_ok (snd (release_prefix_from p h s))"
proof (cases s)
  case (Pair n lm)
  let ?gone = "filter (\<lambda>l. has_prefix (OwnerID (ulOwner l)) p) (uls lm h)"
  assume ok: "index_ok (snd s)"
  then have base: "index_ok (fold deleteUnifiedLockLocked ?gone lm)"
    using Pair by (simp add: index_ok_def)
  have "uls lm h = uls (fold deleteUnifiedLockLocked ?gone lm) h" by simp
  then show ?thesis
    using Pair ok base index_ok_reindex [OF base, of "fold deleteUnifiedLockLocked ?gone lm\<lparr>lmUnified :=
      set_bucket (lmUnified lm) h (filter (\<lambda>l. \<not> has_prefix (OwnerID (ulOwner l)) p) (uls lm h))\<rparr>" h]
    by (simp add: release_prefix_from_def Let_def)
qed

lemma fold_invariant: "(\<And>x s. I s \<Longrightarrow> I (f x s)) \<Longrightarrow> I s \<Longrightarrow> I (fold f xs s)"
  by (induction xs arbitrary: s) auto

lemma index_ok_Lock:
  assumes "Lock uuid now lm h lock = (e, lm')" and "index_ok lm"
  shows "index_ok lm'"
  using assms(1) by (cases rule: Lock_cases) (use assms(2) in \<open>simp_all add: index_ok_def\<close>)

lemma index_ok_AddUnifiedLock:
  assumes "AddUnifiedLock now lm h ul = (e, lm')" and "index_ok lm"
  shows "index_ok lm'"
  using assms(1)
proof (cases rule: AddUnifiedLock_cases)
  case (update i el)
  show ?thesis
    by (rule index_ok_frame [OF assms(2)]) (use update in \<open>auto simp: map_update_same\<close>)
next
  case (add new)
  show ?thesis
    by (rule index_ok_frame [OF index_ok_add [OF assms(2), of h new]]) (use add in simp_all)
qed (use assms(2) in simp)

lemma index_ok_UpgradeLock:
  assumes "UpgradeLock lm h owner off len = (r, lm')" and "index_ok lm"
  shows "index_ok lm'"
  using assms(1)
proof (cases rule: UpgradeLock_cases)
  case (up i u)
  show ?thesis
    by (rule index_ok_frame [OF assms(2)]) (use up in \<open>auto simp: map_update_same\<close>)
qed (use assms(2) in simp)

lemma index_ok_RemoveUnifiedLock:
  assumes "RemoveUnifiedLock gen lm h owner off len = (e, lm')" and "index_ok lm"
  shows "index_ok lm'"
  using assms(1)
proof (cases rule: RemoveUnifiedLock_cases)
  case (1 newLocks found lm1)
  note frame = remove_loop_frame [OF 1(1)]
  show ?thesis
  proof (cases found)
    case True
    then have "lm' = reindexHandleLocked h (uls lm h) (lm1\<lparr>lmUnified := set_bucket (lmUnified lm1) h newLocks\<rparr>)"
      using 1(3) by simp
    then show ?thesis using frame by (auto intro!: index_ok_reindex [OF assms(2)])
  next
    case False
    then show ?thesis using 1(3) assms(2) by simp
  qed
qed

lemma index_ok_cleanup:
  assumes "index_ok lm"
  shows "index_ok (RemoveFileUnifiedLocks lm h)" and "index_ok (RemoveAllLocks lm h)"
    and "index_ok (RemoveClientLocks lm c)" and "index_ok (snd (ReleaseByOwnerPrefix keys lm p))"
    and "index_ok (snd (SetLeaseEpoch keys lm k ep))"
proof -
  show "index_ok (RemoveFileUnifiedLocks lm h)"
    unfolding RemoveFileUnifiedLocks_def Let_def index_ok_store
    by (rule index_ok_reindex [OF assms]) simp_all
  have "index_ok (lm\<lparr>lmLocks := (lmLocks lm)(h := None)\<rparr>)" using assms by (simp add: index_ok_def)
  then show "index_ok (RemoveAllLocks lm h)"
    unfolding RemoveAllLocks_def Let_def index_ok_store by (rule index_ok_reindex) simp_all
  show "index_ok (RemoveClientLocks lm c)"
    unfolding RemoveClientLocks_def Let_def index_ok_store
    by (rule fold_invariant [where I = index_ok]) (simp_all add: index_ok_remove_client assms)
  show "index_ok (snd (ReleaseByOwnerPrefix keys lm p))"
    unfolding ReleaseByOwnerPrefix_def
    by (rule fold_invariant [where I = "\<lambda>s. index_ok (snd s)"]) (simp_all add: index_ok_release_prefix assms)
  show "index_ok (snd (SetLeaseEpoch keys lm k ep))"
    by (rule index_ok_frame [OF assms]) (auto simp: SetLeaseEpoch_def Let_def)
qed

lemma lock_step_index_ok: "lock_step lm lm' \<Longrightarrow> index_ok lm \<Longrightarrow> index_ok lm'"
proof (induction rule: lock_step.induct)
  case (2 lm h openID sid off len e ns lm')
  then show ?case by (auto simp: Unlock_def split: prod.splits dest: index_ok_unlock)
next
  case (3 lm h openID n ns lm')
  then show ?case
    by (auto simp: UnlockAllForOpen_def doUnlockAllForOpen_def split: if_splits prod.splits dest: index_ok_unlock)
next
  case (4 lm h sid n ns lm')
  then show ?case
    by (auto simp: UnlockAllForSession_def doUnlockAllForSession_def split: prod.splits dest: index_ok_unlock)
next
  case (5 lm h lm')
  then show ?case by (auto simp: RemoveFileLocks_def index_ok_def)
next
  case (12 keys lm p n lm')
  then show ?case using index_ok_cleanup(4) [of lm keys p] by simp
next
  case (13 keys lm k ep b lm')
  then show ?case using index_ok_cleanup(5) [of lm keys k ep] by simp
qed (blast intro: index_ok_Lock index_ok_AddUnifiedLock index_ok_RemoveUnifiedLock index_ok_UpgradeLock
  index_ok_cleanup(1-3))+

lemma reachable_index_ok: "lock_reachable lm \<Longrightarrow> index_ok lm"
proof (induction rule: lock_reachable.induct)
  case (start store epoch share)
  then show ?case by (simp add: index_ok_def newBaseManager_def idx_wf_def idx_count_def contrib_def)
qed (rule lock_step_index_ok)

section \<open>Looking up in the indexes\<close>

definition idx_handles :: "'k rindex \<Rightarrow> 'k \<Rightarrow> string set" where
  "idx_handles idx k = (case idx k of None \<Rightarrow> {} | Some b \<Rightarrow> fst ` set b)"

lemma idx_handles_count:
  assumes "idx_wf idx"
  shows "h \<in> idx_handles idx k \<longleftrightarrow> 0 < idx_count idx k h"
proof (cases "idx k")
  case (Some b)
  then have pos: "\<forall>(h, n) \<in> set b. 0 < n" using assms by (auto simp: idx_wf_def)
  show ?thesis
  proof (cases "map_of b h")
    case None
    then have "h \<notin> fst ` set b" by (simp add: map_of_eq_None_iff)
    with None Some show ?thesis by (simp add: idx_handles_def idx_count_def bucket_count_def)
  next
    case (Some n)
    with pos have "(h, n) \<in> set b" "0 < n" using map_of_SomeD by fastforce+
    with Some \<open>idx k = Some b\<close> show ?thesis
      by (force simp: idx_handles_def idx_count_def bucket_count_def)
  qed
qed (simp add: idx_handles_def idx_count_def)

lemma contrib_pos: "0 < contrib key xs k \<longleftrightarrow> (\<exists>x \<in> set xs. key x = Some k)"
  by (auto simp: contrib_def filter_empty_conv)

lemma index_handles:
  assumes "index_ok lm"
  shows "h \<in> idx_handles (lmClientIndex lm) c \<longleftrightarrow> (\<exists>ul \<in> set (uls lm h). client_key ul = Some c)"
    and "h \<in> idx_handles (lmLeaseKeyIndex lm) k \<longleftrightarrow> (\<exists>ul \<in> set (uls lm h). lease_key_of ul = Some k)"
  using assms by (simp_all add: index_ok_def idx_handles_count contrib_pos)

lemma fold_remove_client:
  "uls (fold (remove_client_from c) hs lm) h =
     (if h \<in> set hs then filter (\<lambda>l. ClientID (ulOwner l) \<noteq> c) (uls lm h) else uls lm h)"
  by (induction hs arbitrary: lm) (auto simp: remove_client_from_def Let_def)

lemma RemoveClientLocks_all:
  assumes "index_ok lm" and "c \<noteq> []"
  shows "uls (RemoveClientLocks lm c) h = filter (\<lambda>l. ClientID (ulOwner l) \<noteq> c) (uls lm h)"
proof -
  let ?hs = "case lmClientIndex lm c of None \<Rightarrow> [] | Some b \<Rightarrow> map fst b"
  have hs: "set ?hs = idx_handles (lmClientIndex lm) c" by (simp add: idx_handles_def split: option.split)
  have "filter (\<lambda>l. ClientID (ulOwner l) \<noteq> c) (uls lm h) = uls lm h" if "h \<notin> set ?hs"
    using that index_handles(1) [OF assms(1), of h c] assms(2) unfolding hs
    by (auto simp: client_key_def intro!: filter_True)
  then show ?thesis by (auto simp: RemoveClientLocks_def Let_def fold_remove_client)
qed

section \<open>Properties\<close>


definition one_added :: Manager where
  "one_added = snd (AddUnifiedLock 1 newBaseManager ''f'' (nfs_lock ''nlm:a'' LockTypeShared))"

lemma one_added_reachable: "lock_reachable one_added"
proof -
  have "lock_reachable (newBaseManager\<lparr>lmStore := None, lmEpoch := 0, lmShareName := []\<rparr>)"
    by (rule lock_reachable.start)
  then have "lock_reachable newBaseManager" by (simp add: newBaseManager_def)
  moreover have "lock_step newBaseManager one_added"
    unfolding one_added_def
    by (rule lock_step.intros(6) [OF surjective_pairing])
      (simp_all add: nfs_lock_def NewUnifiedLock_def range_ok_def owner_kinds_ok_def newBaseManager_def)
  ultimately show ?thesis by (rule lock_reachable.step)
qed

lemma one_added_locks: "uls one_added ''f'' = [nfs_lock ''nlm:a'' LockTypeShared]"
  by (simp add: one_added_def AddUnifiedLock_def Let_def newBaseManager_def nfs_lock_def NewUnifiedLock_def
      IsLease_def IsDelegation_def)




end
