(* ===== verification/Lock_Breaks.thy ===== *)
theory Lock_Breaks
  imports Lock_Manager
begin

text \<open>
  Breaking leases and recalling delegations (last part of \<open>pkg/metadata/lock/manager.go\<close>,
  \<open>directory.go\<close>, \<open>oplock_break.go\<close>).  Notifications are sent after the mutex has
  been released, to callbacks of the protocol adapters; an operation returns the ones it sends, in
  order.  Records are changed in place in the code; here the file's list is rebuilt.  A wait on a
  break is a loop around a critical section, so each wait is given by what happened while it was
  blocked: the states of the manager it found when it was woken or its deadline passed.
\<close>

section \<open>Changing records in place\<close>

definition update_bucket :: "string \<Rightarrow> UnifiedLock list \<Rightarrow> Manager \<Rightarrow> Manager" where
  "update_bucket handleKey locks lm =
     (if locks = [] then lm else lm\<lparr>lmUnified := (lmUnified lm)(handleKey \<mapsto> locks)\<rparr>)"

definition lockTypeForLeaseState :: "u32 \<Rightarrow> LockType" where
  "lockTypeForLeaseState state = (if state AND LeaseStateWrite \<noteq> 0 then LockTypeExclusive else LockTypeShared)"

definition advanceEpoch :: "OpLock \<Rightarrow> OpLock" where
  "advanceEpoch lease = lease\<lparr>olEpoch := olEpoch lease + 1\<rparr>"

definition signalBreakWaitLocked :: "string \<Rightarrow> Manager \<Rightarrow> Manager" where
  "signalBreakWaitLocked handleKey lm = lm\<lparr>lmBreakWaitChans := lmBreakWaitChans lm - {handleKey}\<rparr>"

definition signalBreakWait :: "string \<Rightarrow> Manager \<Rightarrow> Manager" where
  "signalBreakWait handleKey lm = signalBreakWaitLocked handleKey lm"

definition SignalParkedCreates :: "string \<Rightarrow> Manager \<Rightarrow> Manager" where
  "SignalParkedCreates handleKey lm = signalBreakWait handleKey lm"

section \<open>One stage of a break\<close>

definition computeFreshTarget :: "u32 \<Rightarrow> u32 \<Rightarrow> u32" where
  "computeFreshTarget currentState sentinel =
     (if sentinel = BreakToStripWrite then currentState AND NOT LeaseStateWrite
      else if sentinel = BreakToStripHandle then currentState AND NOT LeaseStateHandle
      else sentinel)"

text \<open>The stage itself on the lease of a record: a pure read lease is downgraded at once, any other waits
  for the acknowledgment.\<close>

definition apply_stage :: "time \<Rightarrow> u32 \<Rightarrow> OpLock \<Rightarrow> OpLock" where
  "apply_stage now target lease =
     (if olLeaseState lease \<noteq> LeaseStateRead
      then lease\<lparr>olBreaking := True, olBreakToState := target, olBreakStarted := now\<rparr>
      else lease\<lparr>olBreaking := False, olBreakToState := 0, olBreakStarted := 0,
                  olLeaseState := target, olBreakingToRequired := target\<rparr>)"

definition applyBreakStageLocked :: "time \<Rightarrow> u32 \<Rightarrow> UnifiedLock \<Rightarrow> OpLock \<Rightarrow> Manager \<Rightarrow> UnifiedLock \<times> UnifiedLock \<times> Manager" where
  "applyBreakStageLocked now target lock lease lm =
     (let snapshot = lock\<lparr>ulLease := Some lease\<rparr>;
          lock' = lock\<lparr>ulLease := Some (apply_stage now target lease)\<rparr>
      in if olLeaseState lease \<noteq> LeaseStateRead then (snapshot, lock', lm)
         else (let lock' = lock'\<lparr>ulType := lockTypeForLeaseState target\<rparr>
               in (snapshot, lock', persistUnifiedLockLocked lock' lm)))"

definition mirror_stage :: "OpLock \<Rightarrow> OpLock \<Rightarrow> OpLock" where
  "mirror_stage canonical lease =
     lease\<lparr>olBreaking := olBreaking canonical, olBreakToState := olBreakToState canonical,
            olBreakingToRequired := olBreakingToRequired canonical, olBreakStarted := olBreakStarted canonical,
            olEpoch := olEpoch canonical, olLeaseState := olLeaseState canonical\<rparr>"

definition mirrorBreakStageLocked :: "UnifiedLock \<Rightarrow> OpLock \<Rightarrow> OpLock \<Rightarrow> bool \<Rightarrow> Manager \<Rightarrow> UnifiedLock \<times> Manager" where
  "mirrorBreakStageLocked sibling lease canonical persist lm =
     (let sibling = sibling\<lparr>ulLease := Some (mirror_stage canonical lease),
                             ulType := lockTypeForLeaseState (olLeaseState canonical)\<rparr>
      in (sibling, if persist then persistUnifiedLockLocked sibling lm else lm))"

section \<open>Breaking the leases of a file\<close>

definition break_excluded :: "LockOwner option \<Rightarrow> UnifiedLock \<Rightarrow> OpLock \<Rightarrow> bool" where
  "break_excluded excludeOwner lock lease =
     (case excludeOwner of
        None \<Rightarrow> False
      | Some ex \<Rightarrow>
          (OwnerID (ulOwner lock) = OwnerID ex \<or> (ClientID ex \<noteq> [] \<and> ClientID (ulOwner lock) = ClientID ex))
        \<or> (ExcludeLeaseKey ex \<noteq> zero_key \<and> olLeaseKey lease = ExcludeLeaseKey ex)
        \<or> (HasExcludeParentDirLeaseKey ex \<and> olIsDirectory lease \<and> olLeaseKey lease = ExcludeParentDirLeaseKey ex))"

definition break_target :: "u32 \<Rightarrow> OpLock \<Rightarrow> u32" where
  "break_target breakToState lease =
     (let targetState = computeFreshTarget (olLeaseState lease) breakToState
      in if olIsTraditionalOplock lease then targetState AND NOT (LeaseStateHandle OR LeaseStateWrite) else targetState)"

text \<open>The body of the loop of \<open>breakOpLocks\<close>: the changed record, the notification to send, the keys
  already handled in this pass with their leases, and the manager with its store.\<close>

definition break_one :: "time \<Rightarrow> LockOwner option \<Rightarrow> u32 \<Rightarrow> BreakReason \<Rightarrow> (OpLock \<Rightarrow> bool) \<Rightarrow> (lease_key \<rightharpoonup> OpLock)
    \<Rightarrow> UnifiedLock \<Rightarrow> Manager \<Rightarrow> UnifiedLock \<times> (UnifiedLock \<times> u32) list \<times> (lease_key \<rightharpoonup> OpLock) \<times> Manager" where
  "break_one now excludeOwner breakToState reason shouldBreak canonicalByKey lock lm =
     (case ulLease lock of
        None \<Rightarrow> (lock, [], canonicalByKey, lm)
      | Some lease \<Rightarrow>
          if break_excluded excludeOwner lock lease \<or> \<not> shouldBreak lease then (lock, [], canonicalByKey, lm)
          else case canonicalByKey (olLeaseKey lease) of
            Some canonical \<Rightarrow>
              (let (lock', lm) = mirrorBreakStageLocked lock lease canonical True lm in (lock', [], canonicalByKey, lm))
          | None \<Rightarrow>
              (let targetState = break_target breakToState lease
               in if olBreaking lease then
                    (let lease' = lease\<lparr>olBreakingToRequired := olBreakingToRequired lease AND targetState\<rparr>;
                         lease' = (if reason \<noteq> BreakReasonUnspecified then lease'\<lparr>olBreakReason := reason\<rparr> else lease');
                         lock' = lock\<lparr>ulLease := Some lease'\<rparr>
                     in (lock', [], canonicalByKey(olLeaseKey lease \<mapsto> lease'), persistUnifiedLockLocked lock' lm))
                  else
                    (let lease' = advanceEpoch (lease\<lparr>olBreakingToRequired := targetState, olBreakReason := reason\<rparr>);
                         (snapshot, lock', lm) = applyBreakStageLocked now targetState lock lease' lm
                     in (lock', [(snapshot, targetState)],
                         canonicalByKey(olLeaseKey lease \<mapsto> apply_stage now targetState lease'),
                         persistUnifiedLockLocked lock' lm))))"

fun break_loop :: "time \<Rightarrow> LockOwner option \<Rightarrow> u32 \<Rightarrow> BreakReason \<Rightarrow> (OpLock \<Rightarrow> bool) \<Rightarrow> (lease_key \<rightharpoonup> OpLock)
    \<Rightarrow> UnifiedLock list \<Rightarrow> Manager \<Rightarrow> UnifiedLock list \<times> (UnifiedLock \<times> u32) list \<times> Manager" where
  "break_loop now excludeOwner breakToState reason shouldBreak canonicalByKey [] lm = ([], [], lm)"
| "break_loop now excludeOwner breakToState reason shouldBreak canonicalByKey (lock # locks) lm =
     (let (lock', note, canonicalByKey, lm) = break_one now excludeOwner breakToState reason shouldBreak canonicalByKey lock lm;
          (rest, notes, lm) = break_loop now excludeOwner breakToState reason shouldBreak canonicalByKey locks lm
      in (lock' # rest, note @ notes, lm))"

definition breakOpLocks :: "time \<Rightarrow> string \<Rightarrow> LockOwner option \<Rightarrow> u32 \<Rightarrow> BreakReason \<Rightarrow> (OpLock \<Rightarrow> bool)
    \<Rightarrow> Manager \<Rightarrow> (UnifiedLock \<times> u32) list \<times> Manager" where
  "breakOpLocks now handleKey excludeOwner breakToState reason shouldBreak lm =
     (let (locks, toBreak, lm) = break_loop now excludeOwner breakToState reason shouldBreak Map.empty (uls lm handleKey) lm
      in (toBreak, update_bucket handleKey locks lm))"

definition CheckAndBreakLeasesForSMBOpen :: "time \<Rightarrow> string \<Rightarrow> LockOwner option \<Rightarrow> Manager \<Rightarrow> (UnifiedLock \<times> u32) list \<times> Manager" where
  "CheckAndBreakLeasesForSMBOpen now handleKey excludeOwner =
     breakOpLocks now handleKey excludeOwner BreakToStripWrite BreakReasonUnspecified HasWrite"

definition BreakLeasesForByteRangeLock :: "time \<Rightarrow> string \<Rightarrow> LockOwner option \<Rightarrow> Manager \<Rightarrow> (UnifiedLock \<times> u32) list \<times> Manager" where
  "BreakLeasesForByteRangeLock now handleKey excludeOwner =
     breakOpLocks now handleKey excludeOwner LeaseStateNone BreakReasonUnspecified HasRead"

definition BreakLeasesOnOpenConflict :: "time \<Rightarrow> string \<Rightarrow> LockOwner option \<Rightarrow> BreakReason \<Rightarrow> Manager \<Rightarrow> (UnifiedLock \<times> u32) list \<times> Manager" where
  "BreakLeasesOnOpenConflict now handleKey excludeOwner reason =
     breakOpLocks now handleKey excludeOwner (breakSentinelForReason reason) reason
       (\<lambda>lease. ComputeLeaseBreakTo (olLeaseState lease) reason \<noteq> olLeaseState lease)"

definition BreakReadLeasesForParentDir :: "time \<Rightarrow> string \<Rightarrow> LockOwner option \<Rightarrow> Manager \<Rightarrow> (UnifiedLock \<times> u32) list \<times> Manager" where
  "BreakReadLeasesForParentDir now handleKey excludeOwner =
     breakOpLocks now handleKey excludeOwner LeaseStateNone BreakReasonUnspecified (\<lambda>lease. olIsDirectory lease \<and> HasRead lease)"

section \<open>The cache of recently broken files\<close>

text \<open>It has a mutex of its own and lives beside the manager.\<close>

record recentlyBrokenCache =
  rbEntries :: "string \<rightharpoonup> time"
  rbTTL :: time

definition newRecentlyBrokenCache :: "time \<Rightarrow> recentlyBrokenCache" where
  "newRecentlyBrokenCache ttl = \<lparr>rbEntries = Map.empty, rbTTL = ttl\<rparr>"

definition IsRecentlyBroken :: "time \<Rightarrow> string \<Rightarrow> recentlyBrokenCache \<Rightarrow> bool \<times> recentlyBrokenCache" where
  "IsRecentlyBroken now handleKey c =
     (case rbEntries c handleKey of
        None \<Rightarrow> (False, c)
      | Some ts \<Rightarrow> if now - ts > rbTTL c then (False, c\<lparr>rbEntries := (rbEntries c)(handleKey := None)\<rparr>) else (True, c))"

definition cleanupLocked :: "time \<Rightarrow> recentlyBrokenCache \<Rightarrow> recentlyBrokenCache" where
  "cleanupLocked now c =
     c\<lparr>rbEntries := (\<lambda>k. case rbEntries c k of None \<Rightarrow> None | Some ts \<Rightarrow> if now - ts > rbTTL c then None else Some ts)\<rparr>"

definition Mark :: "time \<Rightarrow> string \<Rightarrow> recentlyBrokenCache \<Rightarrow> recentlyBrokenCache" where
  "Mark now handleKey c = cleanupLocked now (c\<lparr>rbEntries := (rbEntries c)(handleKey \<mapsto> now)\<rparr>)"

section \<open>Delegations\<close>

definition NewDelegation :: "string \<Rightarrow> DelegationType \<Rightarrow> string \<Rightarrow> string \<Rightarrow> bool \<Rightarrow> Delegation" where
  "NewDelegation uuid delegType clientID shareName isDirectory =
     \<lparr>dgDelegationID = uuid, dgDelegType = delegType, dgIsDirectory = isDirectory, dgClientID = clientID,
      dgShareName = shareName, dgBreaking = False, dgBreakStarted = 0, dgRecalled = False, dgRevoked = False,
      dgNotificationMask = 0\<rparr>"

definition DelegationOwnerID :: "string \<Rightarrow> string \<Rightarrow> string" where
  "DelegationOwnerID clientID delegationID = ''deleg:'' @ clientID @ '':'' @ delegationID"

definition delegationToLockType :: "DelegationType \<Rightarrow> LockType" where
  "delegationToLockType dt = (if dt = DelegTypeWrite then LockTypeExclusive else LockTypeShared)"

definition plain_owner :: "string \<Rightarrow> string \<Rightarrow> string \<Rightarrow> LockOwner" where
  "plain_owner ownerID clientID shareName =
     \<lparr>OwnerID = ownerID, ClientID = clientID, ShareName = shareName, ExcludeLeaseKey = zero_key,
      ExcludeParentDirLeaseKey = zero_key, HasExcludeParentDirLeaseKey = False\<rparr>"

datatype deleg_error = ErrRecentlyBroken | ErrDelegLeaseConflict | ErrDelegNotFound

definition lm_GrantDelegation :: "time \<Rightarrow> string \<Rightarrow> Delegation \<Rightarrow> Manager \<times> recentlyBrokenCache
    \<Rightarrow> deleg_error option \<times> Manager \<times> recentlyBrokenCache" where
  "lm_GrantDelegation now handleKey delegation = (\<lambda>(lm, rb).
     (let (recent, rb) = IsRecentlyBroken now handleKey rb
      in if recent then (Some ErrRecentlyBroken, lm, rb)
         else if list_ex (\<lambda>lock. DelegationConflictsWithLease (Some delegation) (ulLease lock)) (uls lm handleKey)
         then (Some ErrDelegLeaseConflict, lm, rb)
         else
           (let newLock = \<lparr>ulID = dgDelegationID delegation,
                  ulOwner = plain_owner (DelegationOwnerID (dgClientID delegation) (dgDelegationID delegation))
                              (dgClientID delegation) (dgShareName delegation),
                  ulFileHandle = handleKey, ulOffset = 0, ulLength = 0,
                  ulType = delegationToLockType (dgDelegType delegation), ulAccessMode = AccessModeNone,
                  ulAcquiredAt = now, ulBlocking = False, ulReclaim = False, ulLease = None,
                  ulDelegation = Some delegation\<rparr>
            in (None, indexAddLockLocked handleKey newLock
                        (lm\<lparr>lmUnified := (lmUnified lm)(handleKey \<mapsto> uls lm handleKey @ [newLock])\<rparr>), rb))))"

definition removeMatchingLocksAndSignal :: "string \<Rightarrow> bool \<Rightarrow> (UnifiedLock \<Rightarrow> bool) \<Rightarrow> Manager \<Rightarrow> bool \<times> Manager" where
  "removeMatchingLocksAndSignal handleKey deletePersisted match lm =
     (let old = uls lm handleKey;
          remaining = filter (\<lambda>l. \<not> match l) old;
          found = list_ex match old
      in if \<not> found then (False, lm)
         else
           (let lm = (if deletePersisted then fold deleteUnifiedLockLocked (filter match old) lm else lm);
                lm = reindexHandleLocked handleKey old (lm\<lparr>lmUnified := set_bucket (lmUnified lm) handleKey remaining\<rparr>)
            in (True, signalBreakWait handleKey lm)))"

definition is_delegation_id :: "string \<Rightarrow> UnifiedLock \<Rightarrow> bool" where
  "is_delegation_id delegationID l = (case ulDelegation l of None \<Rightarrow> False | Some d \<Rightarrow> dgDelegationID d = delegationID)"

definition lm_RevokeDelegation :: "string \<Rightarrow> string \<Rightarrow> Manager \<Rightarrow> deleg_error option \<times> Manager" where
  "lm_RevokeDelegation handleKey delegationID lm =
     (let (found, lm) = removeMatchingLocksAndSignal handleKey False (is_delegation_id delegationID) lm
      in (if found then None else Some ErrDelegNotFound, lm))"

definition revokeTimedOutLease :: "string \<Rightarrow> lease_key \<Rightarrow> Manager \<Rightarrow> Manager" where
  "revokeTimedOutLease handleKey leaseKey lm = snd (removeMatchingLocksAndSignal handleKey True (has_lease_key leaseKey) lm)"

definition lm_ReturnDelegation :: "string \<Rightarrow> string \<Rightarrow> Manager \<Rightarrow> Manager" where
  "lm_ReturnDelegation handleKey delegationID lm =
     (let locks = uls lm handleKey;
          remaining = filter (\<lambda>l. \<not> is_delegation_id delegationID l) locks
      in signalBreakWait handleKey
           (reindexHandleLocked handleKey locks (lm\<lparr>lmUnified := set_bucket (lmUnified lm) handleKey remaining\<rparr>)))"

definition GetDelegation :: "Manager \<Rightarrow> string \<Rightarrow> string \<Rightarrow> Delegation option" where
  "GetDelegation lm handleKey delegationID =
     (case find (is_delegation_id delegationID) (uls lm handleKey) of None \<Rightarrow> None | Some lock \<Rightarrow> ulDelegation lock)"

definition ListDelegations :: "Manager \<Rightarrow> string \<Rightarrow> Delegation list" where
  "ListDelegations lm handleKey = List.map_filter ulDelegation (uls lm handleKey)"

text \<open>The order of the files is the order in which the code meets them.\<close>

definition CollectExpiredDelegationRecalls :: "string list \<Rightarrow> time \<Rightarrow> time \<Rightarrow> Manager \<Rightarrow> (string \<times> string) list" where
  "CollectExpiredDelegationRecalls handleKeys now timeout lm =
     concat (map (\<lambda>handleKey. List.map_filter (\<lambda>lock. case ulDelegation lock of
          None \<Rightarrow> None
        | Some d \<Rightarrow> if dgBreaking d \<and> now > dgBreakStarted d + timeout then Some (handleKey, dgDelegationID d) else None)
        (uls lm handleKey)) handleKeys)"

definition deleg_to_break :: "LockOwner option \<Rightarrow> (Delegation \<Rightarrow> bool) \<Rightarrow> UnifiedLock \<Rightarrow> bool" where
  "deleg_to_break excludeOwner shouldBreak lock =
     (case ulDelegation lock of
        None \<Rightarrow> False
      | Some d \<Rightarrow>
          \<not> (case excludeOwner of None \<Rightarrow> False
             | Some ex \<Rightarrow> OwnerID (ulOwner lock) = OwnerID ex \<or> (ClientID ex \<noteq> [] \<and> ClientID (ulOwner lock) = ClientID ex))
          \<and> \<not> dgBreaking d \<and> shouldBreak d)"

definition start_recall :: "time \<Rightarrow> UnifiedLock \<Rightarrow> UnifiedLock" where
  "start_recall now lock = lock\<lparr>ulDelegation := map_option (\<lambda>d. d\<lparr>dgBreaking := True, dgBreakStarted := now\<rparr>) (ulDelegation lock)\<rparr>"

definition breakDelegations :: "time \<Rightarrow> string \<Rightarrow> LockOwner option \<Rightarrow> (Delegation \<Rightarrow> bool) \<Rightarrow> Manager \<times> recentlyBrokenCache
    \<Rightarrow> UnifiedLock list \<times> Manager \<times> recentlyBrokenCache" where
  "breakDelegations now handleKey excludeOwner shouldBreak = (\<lambda>(lm, rb).
     (let locks = uls lm handleKey;
          toBreak = map (start_recall now) (filter (deleg_to_break excludeOwner shouldBreak) locks);
          locks' = map (\<lambda>l. if deleg_to_break excludeOwner shouldBreak l then start_recall now l else l) locks
      in (toBreak, update_bucket handleKey locks' lm, if toBreak \<noteq> [] then Mark now handleKey rb else rb)))"

text \<open>Breaks before an access of another protocol: what is sent to lease holders and to delegation holders.\<close>

definition CheckAndBreakCachingForWrite :: "time \<Rightarrow> string \<Rightarrow> LockOwner option \<Rightarrow> Manager \<times> recentlyBrokenCache
    \<Rightarrow> ((UnifiedLock \<times> u32) list \<times> UnifiedLock list) \<times> Manager \<times> recentlyBrokenCache" where
  "CheckAndBreakCachingForWrite now handleKey excludeOwner = (\<lambda>(lm, rb).
     (let (notes, lm) = breakOpLocks now handleKey excludeOwner LeaseStateNone BreakReasonUnspecified
                          (\<lambda>lease. HasRead lease \<or> HasWrite lease) lm;
          (recalls, s) = breakDelegations now handleKey excludeOwner (\<lambda>_. True) (lm, rb)
      in ((notes, recalls), s)))"

definition CheckAndBreakCachingForRead :: "time \<Rightarrow> string \<Rightarrow> LockOwner option \<Rightarrow> Manager \<times> recentlyBrokenCache
    \<Rightarrow> ((UnifiedLock \<times> u32) list \<times> UnifiedLock list) \<times> Manager \<times> recentlyBrokenCache" where
  "CheckAndBreakCachingForRead now handleKey excludeOwner = (\<lambda>(lm, rb).
     (let (notes, lm) = breakOpLocks now handleKey excludeOwner LeaseStateRead BreakReasonUnspecified HasWrite lm;
          (recalls, s) = breakDelegations now handleKey excludeOwner (\<lambda>d. dgDelegType d = DelegTypeWrite) (lm, rb)
      in ((notes, recalls), s)))"

definition CheckAndBreakCachingForDelete :: "time \<Rightarrow> string \<Rightarrow> LockOwner option \<Rightarrow> Manager \<times> recentlyBrokenCache
    \<Rightarrow> ((UnifiedLock \<times> u32) list \<times> UnifiedLock list) \<times> Manager \<times> recentlyBrokenCache" where
  "CheckAndBreakCachingForDelete now handleKey excludeOwner = (\<lambda>(lm, rb).
     (let (notes, lm) = breakOpLocks now handleKey excludeOwner LeaseStateNone BreakReasonUnspecified
                          (\<lambda>lease. olLeaseState lease \<noteq> LeaseStateNone) lm;
          (recalls, s) = breakDelegations now handleKey excludeOwner (\<lambda>_. True) (lm, rb)
      in ((notes, recalls), s)))"

definition CheckAndBreakOpLocksForWrite :: "time \<Rightarrow> string \<Rightarrow> LockOwner option \<Rightarrow> Manager \<times> recentlyBrokenCache
    \<Rightarrow> ((UnifiedLock \<times> u32) list \<times> UnifiedLock list) \<times> Manager \<times> recentlyBrokenCache" where
  "CheckAndBreakOpLocksForWrite = CheckAndBreakCachingForWrite"

definition CheckAndBreakOpLocksForRead :: "time \<Rightarrow> string \<Rightarrow> LockOwner option \<Rightarrow> Manager \<times> recentlyBrokenCache
    \<Rightarrow> ((UnifiedLock \<times> u32) list \<times> UnifiedLock list) \<times> Manager \<times> recentlyBrokenCache" where
  "CheckAndBreakOpLocksForRead = CheckAndBreakCachingForRead"

definition CheckAndBreakOpLocksForDelete :: "time \<Rightarrow> string \<Rightarrow> LockOwner option \<Rightarrow> Manager \<times> recentlyBrokenCache
    \<Rightarrow> ((UnifiedLock \<times> u32) list \<times> UnifiedLock list) \<times> Manager \<times> recentlyBrokenCache" where
  "CheckAndBreakOpLocksForDelete = CheckAndBreakCachingForDelete"

section \<open>Waiting for a break\<close>

definition lease_breaking :: "UnifiedLock \<Rightarrow> bool" where
  "lease_breaking l = (case ulLease l of None \<Rightarrow> False | Some lease \<Rightarrow> olBreaking lease)"

definition deleg_breaking :: "UnifiedLock \<Rightarrow> bool" where
  "deleg_breaking l = (case ulDelegation l of None \<Rightarrow> False | Some d \<Rightarrow> dgBreaking d)"

definition lease_breaking_except :: "lease_key \<Rightarrow> UnifiedLock \<Rightarrow> bool" where
  "lease_breaking_except exceptKey l =
     (case ulLease l of None \<Rightarrow> False | Some lease \<Rightarrow> olBreaking lease \<and> olLeaseKey lease \<noteq> exceptKey)"

definition hasBreakingLeaseLocked :: "string \<Rightarrow> Manager \<Rightarrow> bool" where
  "hasBreakingLeaseLocked handleKey lm = list_ex (\<lambda>l. lease_breaking l \<or> deleg_breaking l) (uls lm handleKey)"

text \<open>Completing breaks the holders did not acknowledge: the leases fall to None.\<close>

definition force_none :: "OpLock \<Rightarrow> OpLock" where
  "force_none lease =
     lease\<lparr>olLeaseState := LeaseStateNone, olBreakingToRequired := LeaseStateNone, olBreaking := False,
            olBreakToState := 0, olBreakStarted := 0, olBrokenViaTimeout := True\<rparr>"

definition force_lock :: "UnifiedLock \<Rightarrow> UnifiedLock" where
  "force_lock l = l\<lparr>ulLease := map_option force_none (ulLease l), ulType := lockTypeForLeaseState LeaseStateNone\<rparr>"

definition forceCompleteBreaksExceptKey :: "string \<Rightarrow> lease_key \<Rightarrow> Manager \<Rightarrow> Manager" where
  "forceCompleteBreaksExceptKey handleKey exceptKey lm =
     (let locks = uls lm handleKey;
          locks' = map (\<lambda>l. if lease_breaking_except exceptKey l then force_lock l else l) locks;
          lm' = fold persistUnifiedLockLocked (map force_lock (filter (lease_breaking_except exceptKey) locks))
                  (update_bucket handleKey locks' lm)
      in if list_ex (lease_breaking_except exceptKey) locks then signalBreakWaitLocked handleKey lm' else lm')"

definition forceCompleteBreaks :: "string \<Rightarrow> Manager \<Rightarrow> Manager" where
  "forceCompleteBreaks handleKey lm = forceCompleteBreaksExceptKey handleKey zero_key lm"

text \<open>The critical section at the top of a wait: nothing to wait for, or the wait channel is registered.\<close>

definition wait_poll :: "(UnifiedLock \<Rightarrow> bool) \<Rightarrow> string \<Rightarrow> Manager \<Rightarrow> bool \<times> Manager" where
  "wait_poll relevant handleKey lm =
     (if \<not> list_ex relevant (uls lm handleKey) then (True, lm)
      else (False, lm\<lparr>lmBreakWaitChans := insert handleKey (lmBreakWaitChans lm)\<rparr>))"

text \<open>What ends one blocking select: the channel was closed, or the context is done, by its deadline or by
  cancellation; each with the manager at that moment.  For a deadline the flag says that the
  caller's own context has expired too.\<close>

datatype wait_event = Woken Manager | Deadline bool Manager | Cancelled Manager

datatype wait_error = DeadlineExceeded bool | ContextCanceled

text \<open>A wait returns, or is still blocked when the events are used up.\<close>

fun wait_loop :: "(UnifiedLock \<Rightarrow> bool) \<Rightarrow> (wait_error \<Rightarrow> Manager \<Rightarrow> Manager) \<Rightarrow> string \<Rightarrow> wait_event list \<Rightarrow> Manager
    \<Rightarrow> (wait_error option \<times> Manager) option" where
  "wait_loop relevant onDone handleKey events lm =
     (let (ok, lm) = wait_poll relevant handleKey lm
      in if ok then Some (None, lm)
         else case events of
           [] \<Rightarrow> None
         | Woken lm' # events \<Rightarrow> wait_loop relevant onDone handleKey events lm'
         | Deadline own lm' # _ \<Rightarrow> Some (Some (DeadlineExceeded own), onDone (DeadlineExceeded own) lm')
         | Cancelled lm' # _ \<Rightarrow> Some (Some ContextCanceled, onDone ContextCanceled lm'))"

definition WaitForBreakCompletion :: "wait_event list \<Rightarrow> string \<Rightarrow> Manager \<Rightarrow> (wait_error option \<times> Manager) option" where
  "WaitForBreakCompletion events handleKey =
     wait_loop (\<lambda>l. lease_breaking l \<or> deleg_breaking l) (\<lambda>_. forceCompleteBreaks handleKey) handleKey events"

definition WaitForBreakCompletionExceptKey :: "wait_event list \<Rightarrow> string \<Rightarrow> lease_key \<Rightarrow> Manager \<Rightarrow> (wait_error option \<times> Manager) option" where
  "WaitForBreakCompletionExceptKey events handleKey exceptKey =
     wait_loop (\<lambda>l. lease_breaking_except exceptKey l \<or> deleg_breaking l)
       (\<lambda>_. forceCompleteBreaksExceptKey handleKey exceptKey) handleKey events"

definition WaitForByteRangeLeaseBreak :: "wait_event list \<Rightarrow> string \<Rightarrow> Manager \<Rightarrow> (wait_error option \<times> Manager) option" where
  "WaitForByteRangeLeaseBreak events handleKey =
     wait_loop lease_breaking
       (\<lambda>err lm. if err = ContextCanceled then lm else forceCompleteBreaksExceptKey handleKey zero_key lm) handleKey events"

definition WaitForByteRangeLockBreak :: "wait_event list \<Rightarrow> string \<Rightarrow> Manager \<Rightarrow> (wait_error option \<times> Manager) option" where
  "WaitForByteRangeLockBreak events handleKey lm =
     (case WaitForByteRangeLeaseBreak events handleKey lm of
        None \<Rightarrow> None
      | Some (None, lm) \<Rightarrow> Some (None, lm)
      | Some (Some ContextCanceled, lm) \<Rightarrow> Some (Some ContextCanceled, lm)
      | Some (Some (DeadlineExceeded own), lm) \<Rightarrow> Some (if own then Some (DeadlineExceeded own) else None, lm))"

section \<open>Queries\<close>

definition AnyHolderHasLeaseBits :: "Manager \<Rightarrow> string \<Rightarrow> lease_key \<Rightarrow> u32 \<Rightarrow> bool" where
  "AnyHolderHasLeaseBits lm handleKey exceptKey bits =
     (if bits = 0 then False
      else list_ex (\<lambda>l. case ulLease l of None \<Rightarrow> False
             | Some lease \<Rightarrow> \<not> (exceptKey \<noteq> zero_key \<and> olLeaseKey lease = exceptKey) \<and> olLeaseState lease AND bits \<noteq> 0)
           (uls lm handleKey))"

definition HasActiveLeaseRecord :: "Manager \<Rightarrow> string \<Rightarrow> lease_key \<Rightarrow> bool" where
  "HasActiveLeaseRecord lm handleKey excludeKey =
     list_ex (\<lambda>l. case ulLease l of None \<Rightarrow> False
       | Some lease \<Rightarrow> olLeaseKey lease \<noteq> excludeKey \<and> \<not> olBrokenViaTimeout lease) (uls lm handleKey)"

definition IsLeaseBrokenViaTimeout :: "Manager \<Rightarrow> string \<Rightarrow> lease_key \<Rightarrow> bool" where
  "IsLeaseBrokenViaTimeout lm handleKey leaseKey =
     (case find (has_lease_key leaseKey) (uls lm handleKey) of
        None \<Rightarrow> False
      | Some l \<Rightarrow> (case ulLease l of None \<Rightarrow> False | Some lease \<Rightarrow> olBrokenViaTimeout lease))"

definition AnyHolderIsTraditionalOplock :: "Manager \<Rightarrow> string \<Rightarrow> bool" where
  "AnyHolderIsTraditionalOplock lm handleKey =
     list_ex (\<lambda>l. case ulLease l of None \<Rightarrow> False | Some lease \<Rightarrow> olIsTraditionalOplock lease) (uls lm handleKey)"

definition OnlyTimeoutTombstoneRecords :: "Manager \<Rightarrow> string \<Rightarrow> bool" where
  "OnlyTimeoutTombstoneRecords lm handleKey =
     (let leases = List.map_filter ulLease (uls lm handleKey)
      in leases \<noteq> [] \<and> list_all olBrokenViaTimeout leases)"

definition HasOtherBreakingLeases :: "Manager \<Rightarrow> string \<Rightarrow> lease_key \<Rightarrow> bool" where
  "HasOtherBreakingLeases lm handleKey exceptKey =
     list_ex (\<lambda>l. (if exceptKey \<noteq> zero_key then lease_breaking_except exceptKey l else lease_breaking l) \<or> deleg_breaking l)
       (uls lm handleKey)"

section \<open>Changes of a directory\<close>

datatype DirChangeType = DirChangeAddEntry | DirChangeRemoveEntry | DirChangeRenameEntry

text \<open>Whether the originator of the change, or the parent lease key it carries, exempts a record.\<close>

definition dir_exempt :: "DirChangeType \<Rightarrow> string \<Rightarrow> lease_key \<Rightarrow> bool \<Rightarrow> UnifiedLock \<Rightarrow> bool" where
  "dir_exempt changeType originClientID excludeParentLeaseKey hasExcludeKey lock =
     (let dirLease = (case ulLease lock of None \<Rightarrow> False | Some lease \<Rightarrow> olIsDirectory lease)
      in ClientID (ulOwner lock) = originClientID \<and> \<not> (changeType = DirChangeRemoveEntry \<and> dirLease)
       \<or> hasExcludeKey \<and> dirLease \<and> has_lease_key excludeParentLeaseKey lock)"

definition dir_break :: "time \<Rightarrow> OpLock \<Rightarrow> OpLock" where
  "dir_break now lease =
     advanceEpoch (lease\<lparr>olBreaking := True, olBreakToState := LeaseStateNone, olBreakingToRequired := LeaseStateNone,
                          olBreakStarted := now\<rparr>)"

definition dir_recall :: "time \<Rightarrow> UnifiedLock \<Rightarrow> UnifiedLock" where
  "dir_recall now lock = lock\<lparr>ulDelegation := map_option (\<lambda>d. d\<lparr>dgBreaking := True, dgBreakStarted := now, dgRecalled := True\<rparr>) (ulDelegation lock)\<rparr>"

text \<open>The body of the loop of \<open>OnDirChange\<close>: the changed record, whether its lease is broken and its
  delegation recalled, and the keys broken so far.  The first lease broken is notified at once; the
  others are marked as deferred, which the code does after the loop and here happens with
  \<open>first\<close>.\<close>

definition dir_one :: "time \<Rightarrow> DirChangeType \<Rightarrow> string \<Rightarrow> lease_key \<Rightarrow> bool \<Rightarrow> bool \<Rightarrow> (lease_key \<rightharpoonup> OpLock) \<Rightarrow> UnifiedLock
    \<Rightarrow> UnifiedLock \<times> bool \<times> bool \<times> (lease_key \<rightharpoonup> OpLock)" where
  "dir_one now changeType origin exclKey hasExcl first canonicalByKey lock =
     (if dir_exempt changeType origin exclKey hasExcl lock then (lock, False, False, canonicalByKey)
      else
        (let (lock', broken, canonicalByKey) =
           (case ulLease lock of
              None \<Rightarrow> (lock, False, canonicalByKey)
            | Some lease \<Rightarrow>
                if olIsDirectory lease \<and> olLeaseState lease \<noteq> LeaseStateNone \<and> \<not> olBreaking lease then
                  (case canonicalByKey (olLeaseKey lease) of
                     None \<Rightarrow>
                       (let lease' = (dir_break now lease)\<lparr>olBreakDeferred := (if first then olBreakDeferred lease else True)\<rparr>
                        in (lock\<lparr>ulLease := Some lease'\<rparr>, True, canonicalByKey(olLeaseKey lease \<mapsto> lease')))
                   | Some canonical \<Rightarrow>
                       (lock\<lparr>ulLease := Some (mirror_stage canonical lease), ulType := lockTypeForLeaseState (olLeaseState canonical)\<rparr>,
                        False, canonicalByKey))
                else (lock, False, canonicalByKey))
         in case ulDelegation lock' of
              None \<Rightarrow> (lock', broken, False, canonicalByKey)
            | Some d \<Rightarrow> if dgIsDirectory d \<and> \<not> dgBreaking d then (dir_recall now lock', broken, True, canonicalByKey)
                        else (lock', broken, False, canonicalByKey)))"

fun dir_loop :: "time \<Rightarrow> DirChangeType \<Rightarrow> string \<Rightarrow> lease_key \<Rightarrow> bool \<Rightarrow> bool \<Rightarrow> (lease_key \<rightharpoonup> OpLock) \<Rightarrow> UnifiedLock list
    \<Rightarrow> UnifiedLock list \<times> UnifiedLock list \<times> UnifiedLock list" where
  "dir_loop now changeType origin exclKey hasExcl first canonicalByKey [] = ([], [], [])"
| "dir_loop now changeType origin exclKey hasExcl first canonicalByKey (lock # locks) =
     (let (lock', broken, recalled, canonicalByKey) = dir_one now changeType origin exclKey hasExcl first canonicalByKey lock;
          (rest, leases, delegs) = dir_loop now changeType origin exclKey hasExcl (first \<and> \<not> broken) canonicalByKey locks
      in (lock' # rest, (if broken then lock' # leases else leases), (if recalled then lock' # delegs else delegs)))"

definition OnDirChange :: "time \<Rightarrow> string \<Rightarrow> DirChangeType \<Rightarrow> string \<Rightarrow> lease_key \<Rightarrow> bool \<Rightarrow> Manager \<times> recentlyBrokenCache
    \<Rightarrow> ((UnifiedLock \<times> u32) list \<times> UnifiedLock list) \<times> Manager \<times> recentlyBrokenCache" where
  "OnDirChange now handleKey changeType originClientID excludeParentLeaseKey hasExcludeKey = (\<lambda>(lm, rb).
     (let (locks, leasesToBreak, delegsToBreak) =
            dir_loop now changeType originClientID excludeParentLeaseKey hasExcludeKey True Map.empty (uls lm handleKey);
          lm = update_bucket handleKey locks lm
      in if leasesToBreak = [] \<and> delegsToBreak = [] then (([], []), lm, rb)
         else ((map (\<lambda>l. (l, LeaseStateNone)) (take 1 leasesToBreak), delegsToBreak), lm, Mark now handleKey rb)))"

definition dispatchNextDeferredDirBreakLocked :: "string \<Rightarrow> Manager \<Rightarrow> (UnifiedLock \<times> u32) list \<times> Manager" where
  "dispatchNextDeferredDirBreakLocked handleKey lm =
     (let locks = uls lm handleKey
      in case find_index (\<lambda>l. case ulLease l of None \<Rightarrow> False
                | Some lease \<Rightarrow> olIsDirectory lease \<and> olBreaking lease \<and> olBreakDeferred lease) locks of
           None \<Rightarrow> ([], lm)
         | Some i \<Rightarrow>
             (let lock = (locks ! i)\<lparr>ulLease := map_option (\<lambda>lease. lease\<lparr>olBreakDeferred := False\<rparr>) (ulLease (locks ! i))\<rparr>
              in ([(lock, LeaseStateNone)], update_bucket handleKey (locks[i := lock]) lm)))"

section \<open>The scanner of expired breaks\<close>

text \<open>One pass over the persisted leases, in the order the store lists them, and over the delegations;
  the leases whose timeout is reported to the callback are returned.\<close>

definition break_expired :: "time \<Rightarrow> time \<Rightarrow> PersistedLock \<Rightarrow> bool" where
  "break_expired now timeout pl =
     (length (plLeaseKey pl) = 16 \<and> plBreaking pl
      \<and> now > (if plBreakStarted pl = 0 then now else plBreakStarted pl) + timeout)"

fun scanExpiredLeaseBreaks :: "time \<Rightarrow> time \<Rightarrow> PersistedLock list \<Rightarrow> Manager \<Rightarrow> lease_key list \<times> Manager" where
  "scanExpiredLeaseBreaks now timeout [] lm = ([], lm)"
| "scanExpiredLeaseBreaks now timeout (pl # leases) lm =
     (if \<not> break_expired now timeout pl then scanExpiredLeaseBreaks now timeout leases lm
      else
        (case lmStore lm of
           None \<Rightarrow> ([], lm)
         | Some store \<Rightarrow>
             (case mls_DeleteLock False store (plID pl) of
                (Some _, _) \<Rightarrow> scanExpiredLeaseBreaks now timeout leases lm
              | (None, store') \<Rightarrow>
                  (let lm = revokeTimedOutLease (plFileID pl) (plLeaseKey pl) (lm\<lparr>lmStore := Some store'\<rparr>);
                       (keys, lm) = scanExpiredLeaseBreaks now timeout leases lm
                   in (plLeaseKey pl # keys, lm)))))"

definition scanExpiredDelegationRecalls :: "string list \<Rightarrow> time \<Rightarrow> time \<Rightarrow> Manager \<Rightarrow> Manager" where
  "scanExpiredDelegationRecalls handleKeys now delegTimeout lm =
     (if delegTimeout = 0 then lm
      else fold (\<lambda>(handleKey, delegationID) lm. snd (lm_RevokeDelegation handleKey delegationID lm))
             (CollectExpiredDelegationRecalls handleKeys now delegTimeout lm) lm)"

end
