(* ===== verification/Lock_Leases.thy ===== *)
theory Lock_Leases
  imports Lock_Breaks
begin

text \<open>
  Leases of the lock manager (\<open>pkg/metadata/lock/leases.go\<close> and the lease part of
  \<open>cross_protocol.go\<close>): requesting, upgrading, acknowledging a break and releasing.  A request that breaks another holder releases the mutex to send the notification and
  takes it again to grant, so it has two parts.  Where the code ranges over a Go map, the order is
  that of a list: the keys of the manager's map are an argument, those of an index its own.
\<close>

datatype lease_error = ErrLeaseBreakInProgress | ErrLeaseKeyInUse | ErrLeaseDelegationConflict
  | ErrLeaseAckNotFound | ErrLeaseAckNotBreaking | ErrStaleEpoch | ErrAcknowledgedStateExceedsBreakTo

section \<open>Looking up leases\<close>

definition isValidUpgrade :: "u32 \<Rightarrow> u32 \<Rightarrow> bool" where
  "isValidUpgrade currentState requestedState =
     (let R = LeaseStateRead; RW = LeaseStateRead OR LeaseStateWrite; RH = LeaseStateRead OR LeaseStateHandle;
          RWH = LeaseStateRead OR LeaseStateWrite OR LeaseStateHandle
      in if currentState = LeaseStateNone then List.member [R, RW, RH, RWH] requestedState
         else if currentState = R then List.member [RW, RH, RWH] requestedState
         else if currentState = RH then List.member [RWH] requestedState
         else if currentState = RW then List.member [RWH] requestedState
         else False)"

text \<open>The file and the position of the first record with the key, among the files the index lists for it.\<close>

fun find_in_buckets :: "lease_key \<Rightarrow> string list \<Rightarrow> Manager \<Rightarrow> (string \<times> nat) option" where
  "find_in_buckets leaseKey [] lm = None"
| "find_in_buckets leaseKey (h # hs) lm =
     (case find_index (has_lease_key leaseKey) (uls lm h) of
        Some i \<Rightarrow> Some (h, i)
      | None \<Rightarrow> find_in_buckets leaseKey hs lm)"

definition findLeaseByKey :: "lease_key \<Rightarrow> Manager \<Rightarrow> (string \<times> nat) option" where
  "findLeaseByKey leaseKey lm =
     (case lmLeaseKeyIndex lm leaseKey of
        None \<Rightarrow> None
      | Some buckets \<Rightarrow> find_in_buckets leaseKey (map fst buckets) lm)"

definition hasLeaseKeyOnOtherFile :: "string list \<Rightarrow> lease_key \<Rightarrow> string \<Rightarrow> string \<Rightarrow> Manager \<Rightarrow> bool" where
  "hasLeaseKeyOnOtherFile handleKeys leaseKey excludeHandleKey clientID lm =
     list_ex (\<lambda>h. h \<noteq> excludeHandleKey
       \<and> list_ex (\<lambda>l. has_lease_key leaseKey l \<and> ClientID (ulOwner l) = clientID) (uls lm h)) handleKeys"

definition hasPersistedLeaseKeyOnOtherFile :: "bool \<Rightarrow> lease_key \<Rightarrow> string \<Rightarrow> string \<Rightarrow> Manager \<Rightarrow> bool" where
  "hasPersistedLeaseKeyOnOtherFile ctxErr leaseKey excludeHandleKey clientID lm =
     (case lmStore lm of
        None \<Rightarrow> False
      | Some store \<Rightarrow>
          if clientID = [] then False
          else (case mls_ListLocks ctxErr store \<lparr>lqFileID = [], lqOwnerID = [], lqClientID = clientID, lqShareName = [], lqIsLease = Some True\<rparr> of
                  Inl _ \<Rightarrow> True
                | Inr persisted \<Rightarrow>
                    (\<exists>pl\<in>persisted. length (plLeaseKey pl) = 16 \<and> plLeaseKey pl = leaseKey \<and> plFileID pl \<noteq> excludeHandleKey)))"

definition CheckNLMLocksForLeaseConflict :: "memoryLockStore option \<Rightarrow> bool \<Rightarrow> string \<Rightarrow> u32 \<Rightarrow> bool" where
  "CheckNLMLocksForLeaseConflict lockStore ctxErr handleKey requestedState =
     (case lockStore of
        None \<Rightarrow> False
      | Some store \<Rightarrow>
          (case mls_ListLocks ctxErr store \<lparr>lqFileID = handleKey, lqOwnerID = [], lqClientID = [], lqShareName = [], lqIsLease = Some False\<rparr> of
             Inl _ \<Rightarrow> False
           | Inr locks \<Rightarrow>
               (let wantsWrite = requestedState AND LeaseStateWrite \<noteq> 0; wantsRead = requestedState AND LeaseStateRead \<noteq> 0
                in \<exists>pl\<in>locks. let el = FromPersistedLock pl in
                     \<not> IsLease el \<and> \<not> (\<not> wantsWrite \<and> (\<not> wantsRead \<or> \<not> IsExclusive el)))))"

definition hasByteRangeLockConflictForLease :: "bool \<Rightarrow> string \<Rightarrow> u32 \<Rightarrow> Manager \<Rightarrow> bool" where
  "hasByteRangeLockConflictForLease ctxErr handleKey requestedState lm =
     (if CheckNLMLocksForLeaseConflict (lmStore lm) ctxErr handleKey requestedState then True
      else
        (let wantsWrite = requestedState AND LeaseStateWrite \<noteq> 0; wantsRead = requestedState AND LeaseStateRead \<noteq> 0
         in if \<not> wantsWrite \<and> \<not> wantsRead then False
            else list_ex (\<lambda>fl. \<not> (\<not> wantsWrite \<and> \<not> flExclusive fl)) (fls lm handleKey)))"

section \<open>Granting\<close>

definition lease_with :: "lease_key \<Rightarrow> u32 \<Rightarrow> OpLock" where
  "lease_with leaseKey state =
     \<lparr>olLeaseKey = leaseKey, olLeaseState = state, olBreakToState = 0, olBreakingToRequired = 0, olBreaking = False,
      olBreakDeferred = False, olEpoch = 0, olBreakStarted = 0, olReclaim = False, olParentLeaseKey = zero_key,
      olIsDirectory = False, olIsTraditionalOplock = False, olBrokenViaTimeout = False, olBreakReason = BreakReasonUnspecified\<rparr>"

text \<open>The caching rights a holder keeps once its pending break is done.\<close>

definition effective_state :: "OpLock \<Rightarrow> u32" where
  "effective_state lease = (if olBreaking lease then olBreakingToRequired lease else olLeaseState lease)"

definition downgradeCandidates :: "u32 \<Rightarrow> bool \<Rightarrow> u32 list" where
  "downgradeCandidates requestedState isDirectory =
     (let isValidState = (if isDirectory then IsValidDirectoryLeaseState else IsValidFileLeaseState);
          addIfValid = (\<lambda>candidates state.
            if state = LeaseStateNone \<or> List.member candidates state \<or> \<not> isValidState state then candidates else candidates @ [state])
      in addIfValid (addIfValid (addIfValid (addIfValid (addIfValid [] requestedState)
           (requestedState AND NOT LeaseStateWrite)) (requestedState AND NOT LeaseStateHandle))
           (requestedState AND NOT (LeaseStateWrite OR LeaseStateHandle))) LeaseStateRead)"

definition other_leases :: "lease_key \<Rightarrow> UnifiedLock list \<Rightarrow> OpLock list" where
  "other_leases leaseKey locks = filter (\<lambda>lease. olLeaseKey lease \<noteq> leaseKey) (List.map_filter ulLease locks)"

definition strip_mask :: "OpLock list \<Rightarrow> bool \<Rightarrow> u32" where
  "strip_mask others isTraditionalOplock =
     (let m = (if \<not> isTraditionalOplock \<and> list_ex olIsTraditionalOplock others then LeaseStateHandle else 0)
      in if list_ex (\<lambda>lease. \<not> olBrokenViaTimeout lease) others
         then m OR LeaseStateWrite OR (if isTraditionalOplock then LeaseStateHandle else 0) else m)"

definition bestGrantableState :: "UnifiedLock list \<Rightarrow> lease_key \<Rightarrow> u32 \<Rightarrow> bool \<Rightarrow> bool \<Rightarrow> u32" where
  "bestGrantableState locks leaseKey requestedState isDirectory isTraditionalOplock =
     (let others = other_leases leaseKey locks
      in if isTraditionalOplock \<and> list_ex (\<lambda>lease. effective_state lease AND LeaseStateHandle \<noteq> 0) others then LeaseStateNone
         else
           (let stripMask = strip_mask others isTraditionalOplock
            in case find (\<lambda>candidate. \<not> list_ex (\<lambda>lease. OpLocksConflict lease (lease_with leaseKey (candidate AND NOT stripMask))) others)
                      (downgradeCandidates requestedState isDirectory) of
                 Some candidate \<Rightarrow> candidate AND NOT stripMask
               | None \<Rightarrow> LeaseStateNone))"

definition createAndGrantLease :: "string \<Rightarrow> time \<Rightarrow> string \<Rightarrow> lease_key \<Rightarrow> lease_key \<Rightarrow> LockOwner \<Rightarrow> u32 \<Rightarrow> bool \<Rightarrow> bool
    \<Rightarrow> Manager \<Rightarrow> Manager" where
  "createAndGrantLease uuid now handleKey leaseKey parentLeaseKey owner requestedState isDirectory isTraditionalOplock lm =
     (let newLock = \<lparr>ulID = uuid, ulOwner = owner, ulFileHandle = handleKey, ulOffset = 0, ulLength = 0,
            ulType = lockTypeForLeaseState requestedState, ulAccessMode = AccessModeNone, ulAcquiredAt = now,
            ulBlocking = False, ulReclaim = False,
            ulLease = Some ((lease_with leaseKey requestedState)\<lparr>olParentLeaseKey := parentLeaseKey, olIsDirectory := isDirectory,
              olIsTraditionalOplock := isTraditionalOplock, olEpoch := 1\<rparr>),
            ulDelegation = None\<rparr>;
          lm = lm\<lparr>lmUnified := (lmUnified lm)(handleKey \<mapsto> uls lm handleKey @ [newLock])\<rparr>
      in persistUnifiedLockLocked newLock (indexAddLockLocked handleKey newLock lm))"

section \<open>Requests\<close>

text \<open>The first part of a request ends with an answer, goes on to the grant, or has broken another holder
  and must send a notification before the grant.\<close>

datatype request_step = Reply u32 u16 "lease_error option" | Grant | Dispatch UnifiedLock u32

definition set_lease :: "OpLock \<Rightarrow> UnifiedLock \<Rightarrow> UnifiedLock" where
  "set_lease lease l = l\<lparr>ulLease := Some lease\<rparr>"

text \<open>The file already has a lease with the key.\<close>

definition same_key_request :: "nat \<Rightarrow> string \<Rightarrow> lease_key \<Rightarrow> u32 \<Rightarrow> Manager \<Rightarrow> request_step \<times> Manager" where
  "same_key_request i handleKey leaseKey requestedState lm =
     (let locks = uls lm handleKey
      in case ulLease (locks ! i) of
           None \<Rightarrow> (Grant, lm)
         | Some lease \<Rightarrow>
             if olBreaking lease then (Reply (olLeaseState lease) (olEpoch lease) (Some ErrLeaseBreakInProgress), lm)
             else if olLeaseState lease = requestedState then (Reply (olLeaseState lease) (olEpoch lease) None, lm)
             else if isValidUpgrade (olLeaseState lease) requestedState
                     \<and> \<not> list_ex (\<lambda>other. OpLocksConflict other (lease_with leaseKey requestedState)) (other_leases leaseKey locks)
             then (let lease' = advanceEpoch (lease\<lparr>olLeaseState := requestedState\<rparr>);
                       lock = set_lease lease' (locks ! i)
                   in (Reply requestedState (olEpoch lease') None,
                       persistUnifiedLockLocked lock (update_bucket handleKey (locks[i := lock]) lm)))
             else (Reply (olLeaseState lease) (olEpoch lease) None, lm))"

text \<open>Only the first conflicting holder is broken; its pending break is what the request contends with.\<close>

definition cross_key_request :: "time \<Rightarrow> string \<Rightarrow> lease_key \<Rightarrow> u32 \<Rightarrow> bool \<Rightarrow> Manager \<Rightarrow> request_step \<times> Manager" where
  "cross_key_request now handleKey leaseKey requestedState suppressConflictBreak lm =
     (let locks = uls lm handleKey;
          conflicting = (\<lambda>l. case ulLease l of None \<Rightarrow> False | Some lease \<Rightarrow> OpLocksConflict lease (lease_with leaseKey requestedState))
      in case (if suppressConflictBreak then None else find_index conflicting locks) of
           None \<Rightarrow> (Grant, lm)
         | Some i \<Rightarrow>
             (case ulLease (locks ! i) of
                None \<Rightarrow> (Grant, lm)
              | Some lease \<Rightarrow>
                  (let effectiveState = effective_state lease;
                       breakTo = ComputeLeaseBreakTo effectiveState BreakReasonDefault
                   in if breakTo = effectiveState then (Grant, lm)
                      else if olBreaking lease then
                        (let lock = set_lease (lease\<lparr>olBreakingToRequired := olBreakingToRequired lease AND breakTo\<rparr>) (locks ! i)
                         in (Grant, persistUnifiedLockLocked lock (update_bucket handleKey (locks[i := lock]) lm)))
                      else
                        (let lock = set_lease (advanceEpoch (lease\<lparr>olBreaking := True, olBreakToState := breakTo,
                               olBreakingToRequired := breakTo, olBreakStarted := now, olBreakReason := BreakReasonDefault\<rparr>)) (locks ! i)
                         in (Dispatch lock breakTo, persistUnifiedLockLocked lock (update_bucket handleKey (locks[i := lock]) lm))))))"

definition request_begin :: "time \<Rightarrow> bool \<Rightarrow> string list \<Rightarrow> string \<Rightarrow> lease_key \<Rightarrow> string \<Rightarrow> u32 \<Rightarrow> bool \<Rightarrow> bool
    \<Rightarrow> Manager \<times> recentlyBrokenCache \<Rightarrow> request_step \<times> Manager \<times> recentlyBrokenCache" where
  "request_begin now ctxErr handleKeys handleKey leaseKey clientID requestedState isDirectory suppressConflictBreak = (\<lambda>(lm, rb).
     (let maskedKnown = requestedState AND (LeaseStateRead OR LeaseStateWrite OR LeaseStateHandle)
      in if maskedKnown \<noteq> LeaseStateNone \<and> maskedKnown AND LeaseStateRead = 0 then (Reply LeaseStateNone 0 None, lm, rb)
         else
           (let requestedState = (if isDirectory then requestedState AND NOT LeaseStateWrite else requestedState)
            in if requestedState = LeaseStateNone then
                 ((case find (has_lease_key leaseKey) (uls lm handleKey) of
                     None \<Rightarrow> Reply LeaseStateNone 0 None
                   | Some l \<Rightarrow> (case ulLease l of
                       None \<Rightarrow> Reply LeaseStateNone 0 None
                     | Some lease \<Rightarrow> Reply (olLeaseState lease) (olEpoch lease) (if olBreaking lease then Some ErrLeaseBreakInProgress else None))), lm, rb)
               else
                 (let (recent, rb) = (if isDirectory then IsRecentlyBroken now handleKey rb else (False, rb))
                  in if recent then (Reply LeaseStateNone 0 None, lm, rb)
                     else if hasByteRangeLockConflictForLease ctxErr handleKey requestedState lm then (Reply LeaseStateNone 0 None, lm, rb)
                     else if hasPersistedLeaseKeyOnOtherFile ctxErr leaseKey handleKey clientID lm then (Reply LeaseStateNone 0 (Some ErrLeaseKeyInUse), lm, rb)
                     else if hasLeaseKeyOnOtherFile handleKeys leaseKey handleKey clientID lm then (Reply LeaseStateNone 0 (Some ErrLeaseKeyInUse), lm, rb)
                     else if list_ex (\<lambda>l. DelegationConflictsWithLease (ulDelegation l) (Some (lease_with zero_key requestedState))) (uls lm handleKey)
                     then (Reply LeaseStateNone 0 (Some ErrLeaseDelegationConflict), lm, rb)
                     else
                       (let (step, lm) = (case find_index (has_lease_key leaseKey) (uls lm handleKey) of
                                Some i \<Rightarrow> same_key_request i handleKey leaseKey requestedState lm
                              | None \<Rightarrow> cross_key_request now handleKey leaseKey requestedState suppressConflictBreak lm)
                        in (step, lm, rb))))))"

definition request_grant :: "string \<Rightarrow> time \<Rightarrow> string \<Rightarrow> lease_key \<Rightarrow> lease_key \<Rightarrow> LockOwner \<Rightarrow> u32 \<Rightarrow> bool \<Rightarrow> bool
    \<Rightarrow> Manager \<Rightarrow> (u32 \<times> u16) \<times> Manager" where
  "request_grant uuid now handleKey leaseKey parentLeaseKey owner requestedState isDirectory isTraditionalOplock lm =
     (let requestedState = (if isDirectory then requestedState AND NOT LeaseStateWrite else requestedState);
          grantState = bestGrantableState (uls lm handleKey) leaseKey requestedState isDirectory isTraditionalOplock
      in if grantState = LeaseStateNone then ((LeaseStateNone, 0), lm)
         else ((grantState, 1), createAndGrantLease uuid now handleKey leaseKey parentLeaseKey owner grantState isDirectory isTraditionalOplock lm))"

text \<open>The whole request: \<open>others\<close> is what other callers do to the manager while the notification is
  sent.  The answer is the granted state, its epoch and an error; the notification sent comes first.\<close>

definition requestLeaseImplWithMode :: "string \<Rightarrow> time \<Rightarrow> bool \<Rightarrow> string list \<Rightarrow> (Manager \<Rightarrow> Manager) \<Rightarrow> string \<Rightarrow> lease_key \<Rightarrow> lease_key
    \<Rightarrow> LockOwner \<Rightarrow> u32 \<Rightarrow> bool \<Rightarrow> bool \<Rightarrow> bool \<Rightarrow> Manager \<times> recentlyBrokenCache
    \<Rightarrow> (UnifiedLock \<times> u32) list \<times> (u32 \<times> u16 \<times> lease_error option) \<times> Manager \<times> recentlyBrokenCache" where
  "requestLeaseImplWithMode uuid now ctxErr handleKeys others handleKey leaseKey parentLeaseKey owner requestedState isDirectory
     isTraditionalOplock suppressConflictBreak s =
     (case request_begin now ctxErr handleKeys handleKey leaseKey (ClientID owner) requestedState isDirectory suppressConflictBreak s of
        (Reply state epoch err, s) \<Rightarrow> ([], (state, epoch, err), s)
      | (step, lm, rb) \<Rightarrow>
          (let (notes, lm) = (case step of Dispatch lock breakTo \<Rightarrow> ([(lock, breakTo)], others lm) | _ \<Rightarrow> ([], lm));
               ((state, epoch), lm) = request_grant uuid now handleKey leaseKey parentLeaseKey owner requestedState isDirectory isTraditionalOplock lm
           in (notes, (state, epoch, None), lm, rb)))"

definition RequestLease :: "string \<Rightarrow> time \<Rightarrow> bool \<Rightarrow> string list \<Rightarrow> (Manager \<Rightarrow> Manager) \<Rightarrow> string \<Rightarrow> lease_key \<Rightarrow> lease_key
    \<Rightarrow> LockOwner \<Rightarrow> u32 \<Rightarrow> bool \<Rightarrow> Manager \<times> recentlyBrokenCache
    \<Rightarrow> (UnifiedLock \<times> u32) list \<times> (u32 \<times> u16 \<times> lease_error option) \<times> Manager \<times> recentlyBrokenCache" where
  "RequestLease uuid now ctxErr handleKeys others handleKey leaseKey parentLeaseKey owner requestedState isDirectory =
     requestLeaseImplWithMode uuid now ctxErr handleKeys others handleKey leaseKey parentLeaseKey owner requestedState isDirectory False False"

definition RequestLeaseAsOplock :: "string \<Rightarrow> time \<Rightarrow> bool \<Rightarrow> string list \<Rightarrow> (Manager \<Rightarrow> Manager) \<Rightarrow> string \<Rightarrow> lease_key \<Rightarrow> lease_key
    \<Rightarrow> LockOwner \<Rightarrow> u32 \<Rightarrow> bool \<Rightarrow> Manager \<times> recentlyBrokenCache
    \<Rightarrow> (UnifiedLock \<times> u32) list \<times> (u32 \<times> u16 \<times> lease_error option) \<times> Manager \<times> recentlyBrokenCache" where
  "RequestLeaseAsOplock uuid now ctxErr handleKeys others handleKey leaseKey parentLeaseKey owner requestedState isDirectory =
     requestLeaseImplWithMode uuid now ctxErr handleKeys others handleKey leaseKey parentLeaseKey owner requestedState isDirectory True False"

definition RequestLeaseStatOpen :: "string \<Rightarrow> time \<Rightarrow> bool \<Rightarrow> string list \<Rightarrow> (Manager \<Rightarrow> Manager) \<Rightarrow> string \<Rightarrow> lease_key \<Rightarrow> lease_key
    \<Rightarrow> LockOwner \<Rightarrow> u32 \<Rightarrow> bool \<Rightarrow> Manager \<times> recentlyBrokenCache
    \<Rightarrow> (UnifiedLock \<times> u32) list \<times> (u32 \<times> u16 \<times> lease_error option) \<times> Manager \<times> recentlyBrokenCache" where
  "RequestLeaseStatOpen uuid now ctxErr handleKeys others handleKey leaseKey parentLeaseKey owner requestedState isDirectory =
     requestLeaseImplWithMode uuid now ctxErr handleKeys others handleKey leaseKey parentLeaseKey owner requestedState isDirectory False True"

section \<open>Acknowledging a break\<close>

definition end_break :: "u32 \<Rightarrow> OpLock \<Rightarrow> OpLock" where
  "end_break state lease = lease\<lparr>olLeaseState := state, olBreaking := False, olBreakToState := 0, olBreakStarted := 0\<rparr>"

text \<open>The other records of the key take over the state of the acknowledged one, which is named by its file
  and position.\<close>

definition clear_sibling :: "OpLock \<Rightarrow> UnifiedLock \<Rightarrow> UnifiedLock" where
  "clear_sibling primary l =
     l\<lparr>ulLease := map_option (\<lambda>lease. (end_break (olLeaseState primary) lease)\<lparr>olBreakingToRequired := olBreakingToRequired primary\<rparr>) (ulLease l),
       ulType := lockTypeForLeaseState (olLeaseState primary)\<rparr>"

definition clear_handle :: "string \<times> nat \<Rightarrow> lease_key \<Rightarrow> OpLock \<Rightarrow> string \<Rightarrow> Manager \<Rightarrow> Manager" where
  "clear_handle pos leaseKey primary handleKey lm =
     (let hit = (\<lambda>(j, l). (handleKey, j) \<noteq> pos \<and> has_lease_key leaseKey l \<and> lease_breaking l);
          indexed = List.enumerate 0 (uls lm handleKey);
          locks' = map (\<lambda>(j, l). if hit (j, l) then clear_sibling primary l else l) indexed;
          cleared = map (clear_sibling primary \<circ> snd) (filter hit indexed);
          lm = fold persistUnifiedLockLocked cleared (update_bucket handleKey locks' lm)
      in if cleared \<noteq> [] then signalBreakWaitLocked handleKey lm else lm)"

definition clearBreakingSiblingsLocked :: "string \<times> nat \<Rightarrow> lease_key \<Rightarrow> OpLock \<Rightarrow> Manager \<Rightarrow> Manager" where
  "clearBreakingSiblingsLocked pos leaseKey primary lm =
     fold (clear_handle pos leaseKey primary) (case lmLeaseKeyIndex lm leaseKey of None \<Rightarrow> [] | Some buckets \<Rightarrow> map fst buckets) lm"

definition put_record :: "string \<Rightarrow> nat \<Rightarrow> UnifiedLock \<Rightarrow> Manager \<Rightarrow> Manager" where
  "put_record handleKey i lock lm = persistUnifiedLockLocked lock (update_bucket handleKey ((uls lm handleKey)[i := lock]) lm)"

text \<open>A late acknowledgment, after the server completed the break itself.\<close>

definition late_ack :: "OpLock \<Rightarrow> lease_error option" where
  "late_ack lease =
     (if olBrokenViaTimeout lease \<and> olLeaseState lease = LeaseStateNone then
        (if olBreakReason lease = BreakReasonDefault \<and> \<not> olIsDirectory lease then Some ErrLeaseAckNotBreaking else None)
      else Some ErrLeaseAckNotBreaking)"

definition ack_to_none :: "string \<Rightarrow> nat \<Rightarrow> lease_key \<Rightarrow> UnifiedLock \<Rightarrow> OpLock \<Rightarrow> Manager \<Rightarrow> (UnifiedLock \<times> u32) list \<times> Manager" where
  "ack_to_none handleKey i leaseKey lock lease lm =
     (let lease = (end_break LeaseStateNone lease)\<lparr>olBreakingToRequired := LeaseStateNone\<rparr>;
          lock = lock\<lparr>ulLease := Some lease, ulType := lockTypeForLeaseState LeaseStateNone\<rparr>;
          lm = clearBreakingSiblingsLocked (handleKey, i) leaseKey lease (put_record handleKey i lock lm)
      in dispatchNextDeferredDirBreakLocked handleKey (signalBreakWaitLocked handleKey lm))"

text \<open>What happens after the notification of a further stage: \<open>others\<close> ran meanwhile.\<close>

definition ack_resume :: "string \<Rightarrow> lease_key \<Rightarrow> u32 \<Rightarrow> Manager \<Rightarrow> Manager" where
  "ack_resume handleKey leaseKey nextTarget lm =
     (case findLeaseByKey leaseKey lm of
        None \<Rightarrow> signalBreakWaitLocked handleKey lm
      | Some (h, j) \<Rightarrow>
          if map_option olLeaseState (ulLease (uls lm h ! j)) = Some nextTarget then signalBreakWaitLocked handleKey lm else lm)"

definition acknowledgeLeaseBreakImpl :: "time \<Rightarrow> (Manager \<Rightarrow> Manager) \<Rightarrow> lease_key \<Rightarrow> u32 \<Rightarrow> u16 \<Rightarrow> Manager
    \<Rightarrow> lease_error option \<times> (UnifiedLock \<times> u32) list \<times> Manager" where
  "acknowledgeLeaseBreakImpl now others leaseKey acknowledgedState epoch lm =
     (case findLeaseByKey leaseKey lm of
        None \<Rightarrow> (Some ErrLeaseAckNotFound, [], lm)
      | Some (handleKey, i) \<Rightarrow>
          (let lock = uls lm handleKey ! i
           in case ulLease lock of
                None \<Rightarrow> (Some ErrLeaseAckNotFound, [], lm)
              | Some lease \<Rightarrow>
                  if \<not> olBreaking lease then (late_ack lease, [], lm)
                  else if epoch \<noteq> 0 \<and> olEpoch lease \<noteq> epoch then (Some ErrStaleEpoch, [], lm)
                  else if acknowledgedState AND NOT (olBreakToState lease) \<noteq> 0 then (Some ErrAcknowledgedStateExceedsBreakTo, [], lm)
                  else if acknowledgedState = LeaseStateNone then (None, ack_to_none handleKey i leaseKey lock lease lm)
                  else
                    (let lease = end_break acknowledgedState lease;
                         lock = lock\<lparr>ulType := lockTypeForLeaseState acknowledgedState\<rparr>
                     in if acknowledgedState AND NOT (olBreakingToRequired lease) \<noteq> 0 then
                          (let nextTarget = nextProgressiveBreakTarget acknowledgedState (olBreakingToRequired lease);
                               (snapshot, lock, lm) = applyBreakStageLocked now nextTarget lock lease lm
                           in (None, [(snapshot, nextTarget)], ack_resume handleKey leaseKey nextTarget (others (put_record handleKey i lock lm))))
                        else
                          (let lease = lease\<lparr>olBreakingToRequired := acknowledgedState\<rparr>;
                               lm = put_record handleKey i (lock\<lparr>ulLease := Some lease\<rparr>) lm
                           in (None, [], signalBreakWaitLocked handleKey (clearBreakingSiblingsLocked (handleKey, i) leaseKey lease lm))))))"

section \<open>Releasing\<close>

definition release_key_from :: "lease_key \<Rightarrow> string \<Rightarrow> Manager \<Rightarrow> Manager" where
  "release_key_from leaseKey handleKey lm =
     (let locks = uls lm handleKey;
          remaining = filter (\<lambda>l. \<not> has_lease_key leaseKey l) locks;
          lm' = fold deleteUnifiedLockLocked (filter (has_lease_key leaseKey) locks) lm
      in if \<not> list_ex (has_lease_key leaseKey) locks then lm
         else reindexHandleLocked handleKey locks (lm'\<lparr>lmUnified := set_bucket (lmUnified lm') handleKey remaining\<rparr>))"

definition releaseLeaseImpl :: "string list \<Rightarrow> lease_key \<Rightarrow> Manager \<Rightarrow> Manager" where
  "releaseLeaseImpl handleKeys leaseKey lm = fold (release_key_from leaseKey) handleKeys lm"

text \<open>Deleting the persisted record with the caller's context; an error other than a missing record is reported.\<close>

definition delete_with_ctx :: "bool \<Rightarrow> UnifiedLock \<Rightarrow> bool \<times> Manager \<Rightarrow> bool \<times> Manager" where
  "delete_with_ctx ctxErr lock = (\<lambda>(failed, lm).
     (case lmStore lm of
        None \<Rightarrow> (failed, lm)
      | Some store \<Rightarrow>
          (case mls_DeleteLock ctxErr store (ulID lock) of
             (err, store') \<Rightarrow> (failed \<or> (err \<noteq> None \<and> err \<noteq> Some ErrLockNotFound), lm\<lparr>lmStore := Some store'\<rparr>))))"

definition releaseLeaseForHandleImpl :: "bool \<Rightarrow> string \<Rightarrow> lease_key \<Rightarrow> Manager \<Rightarrow> bool \<times> Manager" where
  "releaseLeaseForHandleImpl ctxErr handleKey leaseKey lm =
     (let locks = uls lm handleKey
      in if locks = [] then (False, lm)
         else
           (let released = filter (has_lease_key leaseKey) locks;
                remaining = filter (\<lambda>l. \<not> has_lease_key leaseKey l) locks;
                (failed, lm) = fold (delete_with_ctx ctxErr) released (False, lm);
                lm = reindexHandleLocked handleKey locks (lm\<lparr>lmUnified := set_bucket (lmUnified lm) handleKey remaining\<rparr>)
            in (failed, if list_ex lease_breaking released then signalBreakWaitLocked handleKey lm else lm)))"

definition getLeaseStateImpl :: "lease_key \<Rightarrow> Manager \<Rightarrow> (u32 \<times> u16) option" where
  "getLeaseStateImpl leaseKey lm =
     (case findLeaseByKey leaseKey lm of
        None \<Rightarrow> None
      | Some (h, i) \<Rightarrow> map_option (\<lambda>lease. (olLeaseState lease, olEpoch lease)) (ulLease (uls lm h ! i)))"

definition IsTraditionalOplockForKey :: "lease_key \<Rightarrow> Manager \<Rightarrow> bool" where
  "IsTraditionalOplockForKey leaseKey lm =
     (case findLeaseByKey leaseKey lm of
        None \<Rightarrow> False
      | Some (h, i) \<Rightarrow> (case ulLease (uls lm h ! i) of None \<Rightarrow> False | Some lease \<Rightarrow> olIsTraditionalOplock lease))"

end
