(* ===== verification/Lock_Rights.thy ===== *)
theory Lock_Rights
  imports Lock_Leases Lock_Safety
begin

text \<open>
  The caching rights of lease holders.  Two rights matter for coherence: to cache writes and to cache
  what a writer would make stale.  Every operation that breaks, completes, revokes or releases leases,
  and every operation on delegations, leaves each lease key with no more rights than it had.
\<close>

section \<open>The leases of a file\<close>

definition leases :: "Manager \<Rightarrow> string \<Rightarrow> OpLock set" where
  "leases lm h = {a. \<exists>l \<in> set (uls lm h). ulLease l = Some a}"

text \<open>Rights to cache writes, and rights to cache anything a writer would make stale.\<close>

definition capW :: "u32 \<Rightarrow> bool" where
  "capW s \<longleftrightarrow> s AND LeaseStateWrite \<noteq> 0"

definition capRW :: "u32 \<Rightarrow> bool" where
  "capRW s \<longleftrightarrow> s AND (LeaseStateRead OR LeaseStateWrite) \<noteq> 0"

text \<open>Leases with different keys on one file: a right to cache writes excludes every other.\<close>

definition coherent :: "Manager \<Rightarrow> bool" where
  "coherent lm \<longleftrightarrow> (\<forall>h. \<forall>a \<in> leases lm h. \<forall>b \<in> leases lm h.
     olLeaseKey a \<noteq> olLeaseKey b \<longrightarrow> capW (effective_state a) \<longrightarrow> \<not> capRW (effective_state b))"

definition weaker :: "u32 \<Rightarrow> u32 \<Rightarrow> bool" where
  "weaker s t \<longleftrightarrow> (capW s \<longrightarrow> capW t) \<and> (capRW s \<longrightarrow> capRW t)"

definition no_more_rights :: "OpLock set \<Rightarrow> OpLock set \<Rightarrow> bool" where
  "no_more_rights A' A \<longleftrightarrow> (\<forall>a' \<in> A'. \<exists>a \<in> A. olLeaseKey a = olLeaseKey a' \<and> weaker (effective_state a') (effective_state a))"

definition rights_shrink :: "Manager \<Rightarrow> Manager \<Rightarrow> bool" where
  "rights_shrink lm lm' \<longleftrightarrow> (\<forall>h. no_more_rights (leases lm' h) (leases lm h))"

lemma capW_bit: "capW s \<longleftrightarrow> bit s 2"
  by (simp add: capW_def mask_bits)

lemma capRW_bit: "capRW s \<longleftrightarrow> bit s 0 \<or> bit s 2"
  unfolding capRW_def bit.conj_disj_distrib or_eq_0_iff by (auto simp: mask_bits)

lemma capW_RW: "capW s \<Longrightarrow> capRW s"
  by (simp add: capW_bit capRW_bit)

lemma weaker_refl [simp]: "weaker s s"
  by (simp add: weaker_def)

lemma weaker_trans: "weaker a b \<Longrightarrow> weaker b c \<Longrightarrow> weaker a c"
  by (auto simp: weaker_def)

lemma weaker_0 [simp]: "weaker 0 s"
  by (simp add: weaker_def capW_def capRW_def)

lemma weaker_and [simp]: "weaker (s AND m) s" "weaker (m AND s) s"
  by (auto simp: weaker_def capW_bit capRW_bit bit_and_iff)

lemma weaker_read: "capW s \<Longrightarrow> weaker LeaseStateRead s"
  by (auto simp: weaker_def capW_bit capRW_bit bit_simps)

lemma no_more_rights_refl [simp]: "no_more_rights A A"
  by (auto simp: no_more_rights_def)

lemma no_more_rights_subset: "A' \<subseteq> A \<Longrightarrow> no_more_rights A' A"
  by (auto simp: no_more_rights_def)

lemma no_more_rights_trans: "no_more_rights C B \<Longrightarrow> no_more_rights B A \<Longrightarrow> no_more_rights C A"
  unfolding no_more_rights_def by (metis weaker_trans)

lemma rights_shrink_refl [simp]: "rights_shrink lm lm"
  by (simp add: rights_shrink_def)

lemma rights_shrink_trans: "rights_shrink a b \<Longrightarrow> rights_shrink b c \<Longrightarrow> rights_shrink a c"
  unfolding rights_shrink_def by (metis no_more_rights_trans)

lemma rights_shrink_coherent:
  assumes "rights_shrink lm lm'" and "coherent lm"
  shows "coherent lm'"
  unfolding coherent_def
proof (intro allI ballI impI)
  fix h a' b' assume a': "a' \<in> leases lm' h" and b': "b' \<in> leases lm' h" and ne: "olLeaseKey a' \<noteq> olLeaseKey b'"
    and W: "capW (effective_state a')"
  obtain a where a: "a \<in> leases lm h" "olLeaseKey a = olLeaseKey a'" "weaker (effective_state a') (effective_state a)"
    using assms(1) a' by (auto simp: rights_shrink_def no_more_rights_def)
  obtain b where b: "b \<in> leases lm h" "olLeaseKey b = olLeaseKey b'" "weaker (effective_state b') (effective_state b)"
    using assms(1) b' by (auto simp: rights_shrink_def no_more_rights_def)
  show "\<not> capRW (effective_state b')" using assms(2) a b ne W unfolding coherent_def weaker_def by metis
qed

lemma rights_shrink_unified: "lmUnified lm' = lmUnified lm \<Longrightarrow> rights_shrink lm lm'"
  by (simp add: rights_shrink_def leases_def)

lemma leases_unified: "lmUnified lm' = lmUnified lm \<Longrightarrow> leases lm' = leases lm"
  unfolding leases_def by simp

lemma rights_shrink_subset: "(\<And>h. set (uls lm' h) \<subseteq> set (uls lm h)) \<Longrightarrow> rights_shrink lm lm'"
  unfolding rights_shrink_def leases_def by (intro allI no_more_rights_subset) blast

section \<open>Breaks only take rights away\<close>

lemma update_bucket_uls:
  assumes "length locks = length (uls lm h)"
  shows "uls (update_bucket h locks lm) h' = (if h' = h then locks else uls lm h')"
  using assms by (auto simp: update_bucket_def)

lemma update_bucket_frame [simp]:
  "lmBreakWaitChans (update_bucket h locks lm) = lmBreakWaitChans lm"
  "lmLeaseKeyIndex (update_bucket h locks lm) = lmLeaseKeyIndex lm"
  "lmLocks (update_bucket h locks lm) = lmLocks lm"
  by (simp_all add: update_bucket_def)

lemma chans_frame [simp]:
  "lmBreakWaitChans (persistUnifiedLockLocked ul lm) = lmBreakWaitChans lm"
  "lmBreakWaitChans (deleteUnifiedLockLocked ul lm) = lmBreakWaitChans lm"
  "lmBreakWaitChans (fold persistUnifiedLockLocked uls' lm) = lmBreakWaitChans lm"
  "lmBreakWaitChans (fold deleteUnifiedLockLocked uls' lm) = lmBreakWaitChans lm"
  "lmBreakWaitChans (indexAddLockLocked h ul lm) = lmBreakWaitChans lm"
  "lmBreakWaitChans (indexRemoveLockLocked h ul lm) = lmBreakWaitChans lm"
  "lmBreakWaitChans (reindexHandleLocked h old lm) = lmBreakWaitChans lm"
  by (auto simp: persist_defs fold_frame indexAddLockLocked_def indexRemoveLockLocked_def reindexHandleLocked_def Let_def
    intro!: fold_frame split: option.splits)

lemma signal_frame [simp]:
  "lmUnified (signalBreakWaitLocked h lm) = lmUnified lm"
  "lmLeaseKeyIndex (signalBreakWaitLocked h lm) = lmLeaseKeyIndex lm"
  "lmBreakWaitChans (signalBreakWaitLocked h lm) = lmBreakWaitChans lm - {h}"
  by (simp_all add: signalBreakWaitLocked_def)

lemma rights_shrink_bucket:
  assumes "length locks = length (uls lm h)"
    and "\<And>l a. l \<in> set locks \<Longrightarrow> ulLease l = Some a \<Longrightarrow>
      \<exists>b \<in> leases lm h. olLeaseKey b = olLeaseKey a \<and> weaker (effective_state a) (effective_state b)"
  shows "rights_shrink lm (update_bucket h locks lm)"
  unfolding rights_shrink_def no_more_rights_def
proof (intro allI ballI)
  fix h' a assume "a \<in> leases (update_bucket h locks lm) h'"
  then show "\<exists>b \<in> leases lm h'. olLeaseKey b = olLeaseKey a \<and> weaker (effective_state a) (effective_state b)"
    using assms(2) by (cases "h' = h") (auto simp: leases_def update_bucket_uls [OF assms(1)])
qed

text \<open>One changed record.\<close>

lemma rights_shrink_record:
  assumes "i < length (uls lm h)" and "ulLease (uls lm h ! i) = Some a" and "ulLease l = Some b"
    and "olLeaseKey b = olLeaseKey a" and "weaker (effective_state b) (effective_state a)"
  shows "rights_shrink lm (update_bucket h ((uls lm h)[i := l]) lm)"
proof (rule rights_shrink_bucket)
  fix m c assume m: "m \<in> set ((uls lm h)[i := l])" "ulLease m = Some c"
  then consider "m = l" | "m \<in> set (uls lm h)" using set_update_subset_insert [of "uls lm h" i l] by blast
  then show "\<exists>b \<in> leases lm h. olLeaseKey b = olLeaseKey c \<and> weaker (effective_state c) (effective_state b)"
  proof cases
    case 1
    then have "c = b" using m(2) assms(3) by simp
    moreover have "a \<in> leases lm h" using assms(1,2) nth_mem unfolding leases_def by blast
    ultimately show ?thesis using assms(4,5) by metis
  next
    case 2
    then show ?thesis using m(2) weaker_refl unfolding leases_def by blast
  qed
qed simp

text \<open>What a break asks of a lease it picks: no right to cache that the lease did not have.\<close>

definition break_ok :: "u32 \<Rightarrow> (OpLock \<Rightarrow> bool) \<Rightarrow> bool" where
  "break_ok breakToState shouldBreak \<longleftrightarrow>
     (\<forall>lease. shouldBreak lease \<longrightarrow> weaker (computeFreshTarget (olLeaseState lease) breakToState) (olLeaseState lease))"

lemma break_target_weaker:
  "break_ok s sb \<Longrightarrow> sb lease \<Longrightarrow> weaker (break_target s lease) (olLeaseState lease)"
  unfolding break_ok_def break_target_def Let_def using weaker_trans [OF weaker_and(1)] by simp

lemma effective_apply_stage [simp]:
  "olBreakingToRequired lease = target \<Longrightarrow> effective_state (apply_stage now target lease) = target"
  by (simp add: effective_state_def apply_stage_def)

lemma effective_mirror [simp]: "effective_state (mirror_stage c a) = effective_state c"
  by (simp add: effective_state_def mirror_stage_def)

lemma key_frame [simp]:
  "olLeaseKey (apply_stage now t a) = olLeaseKey a" "olLeaseKey (mirror_stage c a) = olLeaseKey a"
  "olLeaseKey (advanceEpoch a) = olLeaseKey a" "olLeaseKey (force_none a) = olLeaseKey a"
  "olLeaseKey (dir_break now a) = olLeaseKey a" "olLeaseKey (end_break st a) = olLeaseKey a"
  by (simp_all add: apply_stage_def mirror_stage_def advanceEpoch_def force_none_def dir_break_def end_break_def)

lemma break_one_shrinks:
  assumes run: "break_one now ex s r sb canon lock lm = (lock', nt, canon', lm')" and ok: "break_ok s sb"
    and canon: "\<And>K c. canon K = Some c \<Longrightarrow> olLeaseKey c = K \<and> (\<exists>a \<in> A. olLeaseKey a = K \<and> weaker (effective_state c) (effective_state a))"
    and lock: "\<And>a. ulLease lock = Some a \<Longrightarrow> a \<in> A"
  shows "\<And>a'. ulLease lock' = Some a' \<Longrightarrow> \<exists>a \<in> A. olLeaseKey a = olLeaseKey a' \<and> weaker (effective_state a') (effective_state a)"
    and "\<And>K c. canon' K = Some c \<Longrightarrow> olLeaseKey c = K \<and> (\<exists>a \<in> A. olLeaseKey a = K \<and> weaker (effective_state c) (effective_state a))"
    and "lmUnified lm' = lmUnified lm \<and> lmBreakWaitChans lm' = lmBreakWaitChans lm \<and> lmLeaseKeyIndex lm' = lmLeaseKeyIndex lm"
proof -
  have "(\<forall>a'. ulLease lock' = Some a' \<longrightarrow> (\<exists>a \<in> A. olLeaseKey a = olLeaseKey a' \<and> weaker (effective_state a') (effective_state a)))
    \<and> (\<forall>K c. canon' K = Some c \<longrightarrow> olLeaseKey c = K \<and> (\<exists>a \<in> A. olLeaseKey a = K \<and> weaker (effective_state c) (effective_state a)))
    \<and> lmUnified lm' = lmUnified lm \<and> lmBreakWaitChans lm' = lmBreakWaitChans lm \<and> lmLeaseKeyIndex lm' = lmLeaseKeyIndex lm"
  proof (cases "ulLease lock")
    case None
    then show ?thesis using run canon by (auto simp: break_one_def)
  next
    case (Some lease)
    then have A: "lease \<in> A" by (rule lock)
    show ?thesis
    proof (cases "break_excluded ex lock lease \<or> \<not> sb lease")
      case True
      then show ?thesis using run canon Some A by (auto simp: break_one_def)
    next
      case False
      show ?thesis
      proof (cases "canon (olLeaseKey lease)")
        case c: (Some c)
        then show ?thesis using run canon Some False canon [OF c]
          by (auto simp: break_one_def mirrorBreakStageLocked_def Let_def)
      next
        case None
        have w: "weaker (break_target s lease) (olLeaseState lease)" using break_target_weaker [OF ok] False by blast
        have eff: "\<not> olBreaking lease \<Longrightarrow> effective_state lease = olLeaseState lease"
          "olBreaking lease \<Longrightarrow> effective_state lease = olBreakingToRequired lease" by (simp_all add: effective_state_def)
        show ?thesis
        proof (cases "olBreaking lease")
          case br: True
          define l where "l = (if r \<noteq> BreakReasonUnspecified
            then lease\<lparr>olBreakingToRequired := olBreakingToRequired lease AND break_target s lease, olBreakReason := r\<rparr>
            else lease\<lparr>olBreakingToRequired := olBreakingToRequired lease AND break_target s lease\<rparr>)"
          have "olLeaseKey l = olLeaseKey lease" "weaker (effective_state l) (effective_state lease)"
            using br by (simp_all add: effective_state_def l_def)
          moreover have "ulLease lock' = Some l \<and> canon' = canon(olLeaseKey lease \<mapsto> l)
              \<and> lmUnified lm' = lmUnified lm \<and> lmBreakWaitChans lm' = lmBreakWaitChans lm \<and> lmLeaseKeyIndex lm' = lmLeaseKeyIndex lm"
            using run Some False None br by (auto simp: break_one_def Let_def l_def split: if_splits)
          ultimately show ?thesis using canon A by auto
        next
          case br: False
          let ?l = "advanceEpoch (lease\<lparr>olBreakingToRequired := break_target s lease, olBreakReason := r\<rparr>)"
          have "effective_state (apply_stage now (break_target s lease) ?l) = break_target s lease"
            by (simp add: advanceEpoch_def)
          then have "weaker (effective_state (apply_stage now (break_target s lease) ?l)) (effective_state lease)"
            using w eff(1) [OF br] by simp
          moreover have "ulLease lock' = Some (apply_stage now (break_target s lease) ?l)
              \<and> canon' = canon(olLeaseKey lease \<mapsto> apply_stage now (break_target s lease) ?l)
              \<and> lmUnified lm' = lmUnified lm \<and> lmBreakWaitChans lm' = lmBreakWaitChans lm \<and> lmLeaseKeyIndex lm' = lmLeaseKeyIndex lm"
            using run Some False None br by (auto simp: break_one_def applyBreakStageLocked_def Let_def split: if_splits)
          ultimately show ?thesis using canon A by (auto simp: advanceEpoch_def)
        qed
      qed
    qed
  qed
  then show "\<And>a'. ulLease lock' = Some a' \<Longrightarrow> \<exists>a \<in> A. olLeaseKey a = olLeaseKey a' \<and> weaker (effective_state a') (effective_state a)"
    and "\<And>K c. canon' K = Some c \<Longrightarrow> olLeaseKey c = K \<and> (\<exists>a \<in> A. olLeaseKey a = K \<and> weaker (effective_state c) (effective_state a))"
    and "lmUnified lm' = lmUnified lm \<and> lmBreakWaitChans lm' = lmBreakWaitChans lm \<and> lmLeaseKeyIndex lm' = lmLeaseKeyIndex lm" by blast+
qed

lemma break_loop_shrinks:
  assumes "break_loop now ex s r sb canon locks lm = (locks', nts, lm')" and "break_ok s sb"
    and "\<And>K c. canon K = Some c \<Longrightarrow> olLeaseKey c = K \<and> (\<exists>a \<in> A. olLeaseKey a = K \<and> weaker (effective_state c) (effective_state a))"
    and "\<And>l a. l \<in> set locks \<Longrightarrow> ulLease l = Some a \<Longrightarrow> a \<in> A"
  shows "length locks' = length locks \<and> lmUnified lm' = lmUnified lm \<and> lmBreakWaitChans lm' = lmBreakWaitChans lm
    \<and> lmLeaseKeyIndex lm' = lmLeaseKeyIndex lm
    \<and> (\<forall>l \<in> set locks'. \<forall>a'. ulLease l = Some a' \<longrightarrow> (\<exists>a \<in> A. olLeaseKey a = olLeaseKey a' \<and> weaker (effective_state a') (effective_state a)))"
  using assms
proof (induction locks arbitrary: canon lm locks' nts lm')
  case (Cons lock locks)
  obtain lock1 nt canon1 lm1 where one: "break_one now ex s r sb canon lock lm = (lock1, nt, canon1, lm1)" by (metis prod_cases4)
  obtain rest nts1 lm2 where rest: "break_loop now ex s r sb canon1 locks lm1 = (rest, nts1, lm2)" by (metis prod_cases3)
  have res: "locks' = lock1 # rest" "lm' = lm2" using Cons.prems(1) by (auto simp: one rest)
  have lockA: "\<And>a. ulLease lock = Some a \<Longrightarrow> a \<in> A" using Cons.prems(4) [of lock] by simp
  note b = break_one_shrinks [OF one Cons.prems(2), of A, OF Cons.prems(3) lockA]
  have "length rest = length locks \<and> lmUnified lm2 = lmUnified lm1 \<and> lmBreakWaitChans lm2 = lmBreakWaitChans lm1
    \<and> lmLeaseKeyIndex lm2 = lmLeaseKeyIndex lm1
    \<and> (\<forall>l \<in> set rest. \<forall>a'. ulLease l = Some a' \<longrightarrow> (\<exists>a \<in> A. olLeaseKey a = olLeaseKey a' \<and> weaker (effective_state a') (effective_state a)))"
    by (rule Cons.IH [OF rest Cons.prems(2) b(2)]) (use Cons.prems(4) in auto)
  then show ?case using b(1,3) by (auto simp: res)
qed simp

lemma breakOpLocks_shrinks:
  assumes "breakOpLocks now h ex s r sb lm = (nts, lm')" and "break_ok s sb"
  shows "rights_shrink lm lm'" and "lmBreakWaitChans lm' = lmBreakWaitChans lm"
proof -
  obtain locks nts1 lm1 where loop: "break_loop now ex s r sb Map.empty (uls lm h) lm = (locks, nts1, lm1)" by (metis prod_cases3)
  have lm': "lm' = update_bucket h locks lm1" using assms(1) by (simp add: breakOpLocks_def loop)
  note l = break_loop_shrinks [OF loop assms(2), of "leases lm h"]
  have l': "length locks = length (uls lm h)" "lmUnified lm1 = lmUnified lm" "lmBreakWaitChans lm1 = lmBreakWaitChans lm"
    "\<And>l a. l \<in> set locks \<Longrightarrow> ulLease l = Some a \<Longrightarrow> \<exists>b \<in> leases lm h. olLeaseKey b = olLeaseKey a \<and> weaker (effective_state a) (effective_state b)"
    using l by (auto simp: leases_def)
  have "rights_shrink lm1 (update_bucket h locks lm1)"
    by (rule rights_shrink_bucket) (use l' in \<open>auto simp: leases_unified [OF l'(2)]\<close>)
  then show "rights_shrink lm lm'" using rights_shrink_unified [OF l'(2)] rights_shrink_trans unfolding lm' by blast
  show "lmBreakWaitChans lm' = lmBreakWaitChans lm" by (simp add: lm' l'(3))
qed

text \<open>The breaks the manager offers.\<close>

lemma break_ok_none: "break_ok LeaseStateNone sb"
  by (simp add: break_ok_def computeFreshTarget_def)

lemma break_ok_strip: "break_ok BreakToStripWrite sb" "break_ok BreakToStripHandle sb"
  by (simp_all add: break_ok_def computeFreshTarget_def)

lemma break_ok_read: "break_ok LeaseStateRead HasWrite"
  using weaker_read by (auto simp: break_ok_def computeFreshTarget_def HasWrite_def capW_def)

lemma break_ok_reason: "break_ok (breakSentinelForReason r) sb"
  using break_ok_none break_ok_strip by (cases r) (simp_all add: breakSentinelForReason_def)

lemma dir_one_lease:
  assumes "ulLease lock = Some lease"
  shows "ulLease (fst (dir_one now ct origin ek he first canon lock)) = Some
      (if dir_exempt ct origin ek he lock \<or> \<not> (olIsDirectory lease \<and> olLeaseState lease \<noteq> LeaseStateNone \<and> \<not> olBreaking lease) then lease
       else case canon (olLeaseKey lease) of
         None \<Rightarrow> (dir_break now lease)\<lparr>olBreakDeferred := (if first then olBreakDeferred lease else True)\<rparr>
       | Some c \<Rightarrow> mirror_stage c lease)"
    and "snd (snd (snd (dir_one now ct origin ek he first canon lock))) =
      (if dir_exempt ct origin ek he lock \<or> \<not> (olIsDirectory lease \<and> olLeaseState lease \<noteq> LeaseStateNone \<and> \<not> olBreaking lease)
          \<or> canon (olLeaseKey lease) \<noteq> None then canon
       else canon(olLeaseKey lease \<mapsto> (dir_break now lease)\<lparr>olBreakDeferred := (if first then olBreakDeferred lease else True)\<rparr>))"
  using assms by (auto simp: dir_one_def dir_recall_def Let_def split: option.split)

lemma dir_one_shrinks:
  assumes run: "dir_one now ct origin ek he first canon lock = (lock', broken, recalled, canon')"
    and canon: "\<And>K c. canon K = Some c \<Longrightarrow> olLeaseKey c = K \<and> (\<exists>a \<in> A. olLeaseKey a = K \<and> weaker (effective_state c) (effective_state a))"
    and lock: "\<And>a. ulLease lock = Some a \<Longrightarrow> a \<in> A"
  shows "(\<forall>a'. ulLease lock' = Some a' \<longrightarrow> (\<exists>a \<in> A. olLeaseKey a = olLeaseKey a' \<and> weaker (effective_state a') (effective_state a)))
    \<and> (\<forall>K c. canon' K = Some c \<longrightarrow> olLeaseKey c = K \<and> (\<exists>a \<in> A. olLeaseKey a = K \<and> weaker (effective_state c) (effective_state a)))"
proof (cases "ulLease lock")
  case None
  then have "ulLease lock' = None \<and> canon' = canon"
    using run by (auto simp: dir_one_def dir_recall_def split: if_splits option.splits)
  then show ?thesis using canon by auto
next
  case (Some lease)
  then have A: "lease \<in> A" by (rule lock)
  define d where "d = (dir_break now lease)\<lparr>olBreakDeferred := (if first then olBreakDeferred lease else True)\<rparr>"
  have eff: "effective_state d = 0" "olLeaseKey d = olLeaseKey lease"
    by (simp_all add: effective_state_def dir_break_def advanceEpoch_def d_def)
  note l = dir_one_lease [OF Some, of now ct origin ek he first canon, unfolded run fst_conv snd_conv, folded d_def]
  show ?thesis
  proof (cases "dir_exempt ct origin ek he lock \<or> \<not> (olIsDirectory lease \<and> olLeaseState lease \<noteq> LeaseStateNone \<and> \<not> olBreaking lease)")
    case True
    then show ?thesis using l canon A by auto
  next
    case False
    show ?thesis
    proof (cases "canon (olLeaseKey lease)")
      case None
      then have "ulLease lock' = Some d" "canon' = canon(olLeaseKey lease \<mapsto> d)" using l False by auto
      then show ?thesis using canon A eff by auto
    next
      case c: (Some c)
      then have "ulLease lock' = Some (mirror_stage c lease)" "canon' = canon" using l False by auto
      then show ?thesis using canon canon [OF c] by auto
    qed
  qed
qed

lemma dir_loop_shrinks:
  assumes "dir_loop now ct origin ek he first canon locks = (locks', ls, ds)"
    and "\<And>K c. canon K = Some c \<Longrightarrow> olLeaseKey c = K \<and> (\<exists>a \<in> A. olLeaseKey a = K \<and> weaker (effective_state c) (effective_state a))"
    and "\<And>l a. l \<in> set locks \<Longrightarrow> ulLease l = Some a \<Longrightarrow> a \<in> A"
  shows "length locks' = length locks
    \<and> (\<forall>l \<in> set locks'. \<forall>a'. ulLease l = Some a' \<longrightarrow> (\<exists>a \<in> A. olLeaseKey a = olLeaseKey a' \<and> weaker (effective_state a') (effective_state a)))"
  using assms
proof (induction locks arbitrary: first canon locks' ls ds)
  case (Cons lock locks)
  obtain lock1 br rc canon1 where one: "dir_one now ct origin ek he first canon lock = (lock1, br, rc, canon1)" by (metis prod_cases4)
  obtain rest ls1 ds1 where rest: "dir_loop now ct origin ek he (first \<and> \<not> br) canon1 locks = (rest, ls1, ds1)" by (metis prod_cases3)
  have res: "locks' = lock1 # rest" using Cons.prems(1) by (simp add: one rest)
  have lockA: "\<And>a. ulLease lock = Some a \<Longrightarrow> a \<in> A" using Cons.prems(3) [of lock] by simp
  note b = dir_one_shrinks [OF one, of A, OF Cons.prems(2) lockA]
  have "length rest = length locks
    \<and> (\<forall>l \<in> set rest. \<forall>a'. ulLease l = Some a' \<longrightarrow> (\<exists>a \<in> A. olLeaseKey a = olLeaseKey a' \<and> weaker (effective_state a') (effective_state a)))"
    by (rule Cons.IH [OF rest]) (use b Cons.prems(3) in auto)
  then show ?case using b by (auto simp: res)
qed simp

lemma OnDirChange_shrinks:
  assumes "OnDirChange now h ct origin ek he (lm, rb) = (out, lm', rb')"
  shows "rights_shrink lm lm'"
proof -
  obtain locks ls ds where loop: "dir_loop now ct origin ek he True Map.empty (uls lm h) = (locks, ls, ds)" by (metis prod_cases3)
  have lm': "lm' = update_bucket h locks lm" using assms by (auto simp: OnDirChange_def loop Let_def split: if_splits)
  have "length locks = length (uls lm h)"
    "\<And>l a. l \<in> set locks \<Longrightarrow> ulLease l = Some a \<Longrightarrow> \<exists>b \<in> leases lm h. olLeaseKey b = olLeaseKey a \<and> weaker (effective_state a) (effective_state b)"
    using dir_loop_shrinks [OF loop, of "leases lm h"] by (auto simp: leases_def)
  then show ?thesis unfolding lm' by (rule rights_shrink_bucket)
qed

text \<open>Changing every record of a file by a function that keeps keys and adds no rights.\<close>

lemma rights_shrink_map:
  assumes "\<And>l a. ulLease (f l) = Some a \<Longrightarrow> \<exists>b. ulLease l = Some b \<and> olLeaseKey b = olLeaseKey a \<and> weaker (effective_state a) (effective_state b)"
  shows "rights_shrink lm (update_bucket h (map f (uls lm h)) lm)"
proof (rule rights_shrink_bucket)
  fix l a assume "l \<in> set (map f (uls lm h))" "ulLease l = Some a"
  then show "\<exists>b \<in> leases lm h. olLeaseKey b = olLeaseKey a \<and> weaker (effective_state a) (effective_state b)"
    using assms unfolding leases_def by fastforce
qed simp

lemma breakDelegations_shrinks:
  assumes "breakDelegations now h ex sb (lm, rb) = (recalls, lm', rb')"
  shows "rights_shrink lm lm'" and "lmBreakWaitChans lm' = lmBreakWaitChans lm"
proof -
  have lm': "lm' = update_bucket h (map (\<lambda>l. if deleg_to_break ex sb l then start_recall now l else l) (uls lm h)) lm"
    using assms by (simp add: breakDelegations_def Let_def)
  show "rights_shrink lm lm'" unfolding lm' by (rule rights_shrink_map) (auto simp: start_recall_def split: if_splits)
  show "lmBreakWaitChans lm' = lmBreakWaitChans lm" by (simp add: lm')
qed

lemma forceComplete_shrinks: "rights_shrink lm (forceCompleteBreaksExceptKey h k lm)"
proof -
  let ?f = "\<lambda>l. if lease_breaking_except k l then force_lock l else l"
  have "rights_shrink lm (update_bucket h (map ?f (uls lm h)) lm)"
    by (rule rights_shrink_map) (auto simp: force_lock_def effective_state_def force_none_def split: if_splits)
  moreover have "lmUnified (forceCompleteBreaksExceptKey h k lm) = lmUnified (update_bucket h (map ?f (uls lm h)) lm)"
    by (simp add: forceCompleteBreaksExceptKey_def Let_def)
  ultimately show ?thesis using rights_shrink_unified rights_shrink_trans by blast
qed

lemma dispatchNext_shrinks: "rights_shrink lm (snd (dispatchNextDeferredDirBreakLocked h lm))"
proof -
  let ?P = "\<lambda>l. case ulLease l of None \<Rightarrow> False | Some lease \<Rightarrow> olIsDirectory lease \<and> olBreaking lease \<and> olBreakDeferred lease"
  show ?thesis
  proof (cases "find_index ?P (uls lm h)")
    case (Some i)
    note i = find_index_Some [OF Some]
    obtain a where a: "ulLease (uls lm h ! i) = Some a" using i by (auto split: option.splits)
    show ?thesis using rights_shrink_record [of i lm h a _ "a\<lparr>olBreakDeferred := False\<rparr>"] i Some a
      by (simp add: dispatchNextDeferredDirBreakLocked_def effective_state_def Let_def)
  next
    case None
    show ?thesis unfolding dispatchNextDeferredDirBreakLocked_def Let_def None by simp
  qed
qed

lemma removeMatching_shrinks: "rights_shrink lm (snd (removeMatchingLocksAndSignal h del m lm))"
  by (rule rights_shrink_subset) (auto simp: removeMatchingLocksAndSignal_def signalBreakWait_def Let_def)

lemma ReturnDelegation_shrinks: "rights_shrink lm (lm_ReturnDelegation h d lm)"
  by (rule rights_shrink_subset) (auto simp: lm_ReturnDelegation_def signalBreakWait_def Let_def)

lemma GrantDelegation_shrinks:
  assumes "lm_GrantDelegation now h d (lm, rb) = (e, lm', rb')"
  shows "rights_shrink lm lm'" and "lmBreakWaitChans lm' = lmBreakWaitChans lm"
proof -
  show "rights_shrink lm lm'"
    unfolding rights_shrink_def
  proof (intro allI no_more_rights_subset)
    fix h' show "leases lm' h' \<subseteq> leases lm h'"
      using assms by (auto simp: lm_GrantDelegation_def leases_def Let_def split: if_splits prod.splits)
  qed
  show "lmBreakWaitChans lm' = lmBreakWaitChans lm"
    using assms by (auto simp: lm_GrantDelegation_def Let_def split: if_splits prod.splits)
qed

lemma delete_with_ctx_frame:
  "lmUnified (snd (fold (delete_with_ctx c) ls s)) = lmUnified (snd s)"
  "lmBreakWaitChans (snd (fold (delete_with_ctx c) ls s)) = lmBreakWaitChans (snd s)"
  by (induction ls arbitrary: s) (auto simp: delete_with_ctx_def split: prod.splits option.splits)

lemma releaseForHandle_shrinks: "rights_shrink lm (snd (releaseLeaseForHandleImpl c h k lm))"
proof (rule rights_shrink_subset)
  fix h' show "set (uls (snd (releaseLeaseForHandleImpl c h k lm)) h') \<subseteq> set (uls lm h')"
    using delete_with_ctx_frame(1) [of c "filter (has_lease_key k) (uls lm h)" "(False, lm)"]
    by (auto simp: releaseLeaseForHandleImpl_def Let_def split: prod.splits)
qed

lemma releaseLease_shrinks: "rights_shrink lm (releaseLeaseImpl keys k lm)"
proof -
  have "rights_shrink s (release_key_from k h s)" for h s
    by (rule rights_shrink_subset) (auto simp: release_key_from_def Let_def)
  then show ?thesis unfolding releaseLeaseImpl_def
    by (induction keys arbitrary: lm) (auto intro: rights_shrink_trans)
qed

end
