(* ===== verification/Lock_Coherence.thy ===== *)
theory Lock_Coherence
  imports Lock_Rights
begin

text \<open>
  What the lease protocol guarantees: over every sequence of operations of the lock manager two
  clients never keep conflicting caching rights on a file, and a caller that waits for a break is
  always woken when the last break it waits for has ended.
\<close>

section \<open>Requests keep leases coherent\<close>

lemma OpLocksConflict_iff:
  "OpLocksConflict e (lease_with K st) \<longleftrightarrow> olLeaseKey e \<noteq> K
     \<and> (capW (effective_state e) \<and> capRW st \<or> capW st \<and> capRW (effective_state e))"
  by (auto simp: OpLocksConflict_def lease_with_def effective_state_def capW_def capRW_def Let_def)

lemma other_leases_set: "set (other_leases K (uls lm h)) = {a \<in> leases lm h. olLeaseKey a \<noteq> K}"
  by (force simp: other_leases_def leases_def List.map_filter_def)

text \<open>A lease put on a file without conflict, or raised without conflict, keeps the file coherent.\<close>

lemma coherent_grant:
  assumes "coherent lm"
    and "\<And>h'. h' \<noteq> h \<Longrightarrow> leases lm' h' \<subseteq> leases lm h'"
    and "leases lm' h \<subseteq> insert new (leases lm h)" and "olLeaseKey new = K" and "effective_state new = st"
    and free: "\<not> list_ex (\<lambda>lease. OpLocksConflict lease (lease_with K st)) (other_leases K (uls lm h))"
  shows "coherent lm'"
  unfolding coherent_def
proof (intro allI ballI impI)
  fix h' a b assume a: "a \<in> leases lm' h'" and b: "b \<in> leases lm' h'" and ne: "olLeaseKey a \<noteq> olLeaseKey b"
    and W: "capW (effective_state a)"
  have no: "\<not> (capW (effective_state c) \<and> capRW st \<or> capW st \<and> capRW (effective_state c))"
    if "c \<in> leases lm h" "olLeaseKey c \<noteq> K" for c
    using free that by (auto simp: list_ex_iff OpLocksConflict_iff other_leases_set)
  have old: "\<not> capRW (effective_state b)" if "a \<in> leases lm h'" "b \<in> leases lm h'"
    using assms(1) that ne W unfolding coherent_def by blast
  show "\<not> capRW (effective_state b)"
  proof (cases "h' = h")
    case False
    then show ?thesis using old a b assms(2) by blast
  next
    case True
    then consider "a \<in> leases lm h" "b \<in> leases lm h" | "a = new" "b \<in> leases lm h" | "b = new" "a \<in> leases lm h" | "a = new" "b = new"
      using a b assms(3) by blast
    then show ?thesis
    proof cases
      case 1
      then show ?thesis using old True by blast
    next
      case 2
      then show ?thesis using no [of b] assms(4,5) ne W by auto
    next
      case 3
      then show ?thesis using no [of a] assms(4,5) ne W by auto
    qed (use ne in simp)
  qed
qed

lemma request_grant_coherent:
  assumes run: "request_grant uuid now h K pk owner req dir trad lm = (res, lm')" and coh: "coherent lm"
  shows "coherent lm'"
proof -
  define req' where "req' = (if dir then req AND NOT LeaseStateWrite else req)"
  define g where "g = bestGrantableState (uls lm h) K req' dir trad"
  have run': "lm' = (if g = LeaseStateNone then lm else createAndGrantLease uuid now h K pk owner g dir trad lm)"
    using run unfolding request_grant_def req'_def [symmetric] Let_def g_def [symmetric] by (auto split: if_splits)
  show ?thesis
  proof (cases "g = LeaseStateNone")
    case False
    let ?m = "strip_mask (other_leases K (uls lm h)) trad"
    have "\<exists>c. g = c AND NOT ?m \<and> \<not> list_ex (\<lambda>lease. OpLocksConflict lease (lease_with K (c AND NOT ?m))) (other_leases K (uls lm h))"
    proof (cases "find (\<lambda>c. \<not> list_ex (\<lambda>lease. OpLocksConflict lease (lease_with K (c AND NOT ?m))) (other_leases K (uls lm h)))
        (downgradeCandidates req' dir)")
      case None
      then show ?thesis using False unfolding g_def bestGrantableState_def Let_def by (simp split: if_splits)
    next
      case (Some c)
      have "g = LeaseStateNone \<or> g = c AND NOT ?m" unfolding g_def bestGrantableState_def Let_def Some by simp
      then have "g = c AND NOT ?m" using False by blast
      moreover have "\<not> list_ex (\<lambda>lease. OpLocksConflict lease (lease_with K (c AND NOT ?m))) (other_leases K (uls lm h))"
        using Some by (auto simp: find_Some_iff)
      ultimately show ?thesis by blast
    qed
    then have free: "\<not> list_ex (\<lambda>lease. OpLocksConflict lease (lease_with K g)) (other_leases K (uls lm h))" by auto
    let ?new = "(lease_with K g)\<lparr>olParentLeaseKey := pk, olIsDirectory := dir, olIsTraditionalOplock := trad, olEpoch := 1\<rparr>"
    show ?thesis
    proof (rule coherent_grant [OF coh, of h lm' ?new K g])
      show "leases lm' h' \<subseteq> leases lm h'" if "h' \<noteq> h" for h'
        using that False by (auto simp: run' createAndGrantLease_def leases_def Let_def)
      show "leases lm' h \<subseteq> insert ?new (leases lm h)"
        using False by (auto simp: run' createAndGrantLease_def leases_def Let_def)
      show "olLeaseKey ?new = K" "effective_state ?new = g" by (simp_all add: lease_with_def effective_state_def)
    qed (rule free)
  qed (use run' coh in simp)
qed

lemma leases_record:
  assumes "i < length (uls lm h)"
  shows "leases (update_bucket h ((uls lm h)[i := l]) lm) h' \<subseteq> (if h' = h then (set_option (ulLease l)) \<union> leases lm h else leases lm h')"
  using set_update_subset_insert [of "uls lm h" i l] assms by (auto simp: leases_def update_bucket_uls)

lemma same_key_coherent:
  assumes run: "same_key_request i h K req lm = (step, lm')" and coh: "coherent lm"
    and i: "i < length (uls lm h)" "has_lease_key K (uls lm h ! i)"
  shows "coherent lm'"
proof -
  obtain lease where lease: "ulLease (uls lm h ! i) = Some lease" "olLeaseKey lease = K"
    using i(2) by (auto simp: has_lease_key_def split: option.splits)
  define new where "new = advanceEpoch (lease\<lparr>olLeaseState := req\<rparr>)"
  define ok where "ok \<longleftrightarrow> \<not> list_ex (\<lambda>other. OpLocksConflict other (lease_with K req)) (other_leases K (uls lm h))"
  have "lm' = lm \<or> \<not> olBreaking lease \<and> ok
      \<and> lm' = persistUnifiedLockLocked (set_lease new (uls lm h ! i)) (update_bucket h ((uls lm h)[i := set_lease new (uls lm h ! i)]) lm)"
    using arg_cong [OF run, of snd]
    unfolding same_key_request_def Let_def lease(1) option.case new_def [symmetric] ok_def [symmetric] by (simp split: if_splits)
  then show ?thesis
  proof
    assume r: "\<not> olBreaking lease \<and> ok
      \<and> lm' = persistUnifiedLockLocked (set_lease new (uls lm h ! i)) (update_bucket h ((uls lm h)[i := set_lease new (uls lm h ! i)]) lm)"
    then have u: "leases lm' = leases (update_bucket h ((uls lm h)[i := set_lease new (uls lm h ! i)]) lm)"
      by (intro leases_unified) simp
    show ?thesis
    proof (rule coherent_grant [OF coh, of h lm' new K req])
      show "leases lm' h' \<subseteq> leases lm h'" if "h' \<noteq> h" for h'
        unfolding u using leases_record [OF i(1), of _ h'] that by simp
      show "leases lm' h \<subseteq> insert new (leases lm h)"
        unfolding u using leases_record [OF i(1), of "set_lease new (uls lm h ! i)" h] by (simp add: set_lease_def)
      show "olLeaseKey new = K" "effective_state new = req"
        using lease(2) r by (simp_all add: effective_state_def advanceEpoch_def new_def)
    qed (use r ok_def in blast)
  qed (use coh in simp)
qed

lemma cross_key_shrinks:
  assumes run: "cross_key_request now h K req sp lm = (step, lm')"
  shows "rights_shrink lm lm'" and "lmBreakWaitChans lm' = lmBreakWaitChans lm"
proof -
  define P where "P l \<longleftrightarrow> (case ulLease l of None \<Rightarrow> False | Some lease \<Rightarrow> OpLocksConflict lease (lease_with K req))" for l :: UnifiedLock
  have "rights_shrink lm lm' \<and> lmBreakWaitChans lm' = lmBreakWaitChans lm"
  proof (cases "if sp then None else find_index P (uls lm h)")
    case None
    then have "lm' = lm" using run unfolding cross_key_request_def P_def [abs_def, symmetric] Let_def by simp
    then show ?thesis by simp
  next
    case (Some i)
    then have i: "i < length (uls lm h)" "P (uls lm h ! i)" using find_index_Some [of P "uls lm h" i] by (auto split: if_splits)
    then obtain lease where lease: "ulLease (uls lm h ! i) = Some lease" by (auto simp: P_def split: option.splits)
    define bt where "bt = ComputeLeaseBreakTo (effective_state lease) BreakReasonDefault"
    have w: "weaker bt (effective_state lease)" by (simp add: bt_def ComputeLeaseBreakTo_def)
    define b1 where "b1 = lease\<lparr>olBreakingToRequired := olBreakingToRequired lease AND bt\<rparr>"
    define b2 where "b2 = advanceEpoch (lease\<lparr>olBreaking := True, olBreakToState := bt, olBreakingToRequired := bt,
      olBreakStarted := now, olBreakReason := BreakReasonDefault\<rparr>)"
    have eff: "olBreaking lease \<Longrightarrow> weaker (effective_state b1) (effective_state lease)" "effective_state b2 = bt"
      "olLeaseKey b1 = olLeaseKey lease" "olLeaseKey b2 = olLeaseKey lease"
      by (simp_all add: b1_def b2_def effective_state_def advanceEpoch_def)
    let ?u = "\<lambda>b. update_bucket h ((uls lm h)[i := set_lease b (uls lm h ! i)]) lm"
    have cases: "lm' = lm \<or> olBreaking lease \<and> lm' = persistUnifiedLockLocked (set_lease b1 (uls lm h ! i)) (?u b1)
        \<or> lm' = persistUnifiedLockLocked (set_lease b2 (uls lm h ! i)) (?u b2)"
      using arg_cong [OF run, of snd] unfolding cross_key_request_def P_def [abs_def, symmetric] Let_def Some option.case lease bt_def [symmetric]
        b1_def [symmetric] b2_def [symmetric] by (simp split: if_splits)
    have good: "rights_shrink lm (persistUnifiedLockLocked x (?u b))"
      if "olLeaseKey b = olLeaseKey lease" "weaker (effective_state b) (effective_state lease)" for b x
      using rights_shrink_record [OF i(1) lease, of "set_lease b (uls lm h ! i)" b] that
        rights_shrink_trans [OF _ rights_shrink_unified [of "persistUnifiedLockLocked x (?u b)" "?u b"]] by (simp add: set_lease_def)
    show ?thesis using cases good [of b1] good [of b2] eff w by (elim disjE conjE) simp_all
  qed
  then show "rights_shrink lm lm'" and "lmBreakWaitChans lm' = lmBreakWaitChans lm" by blast+
qed

lemma request_begin_cases:
  assumes run: "request_begin now ce hs h K c req dir sp (lm, rb) = (step, lm', rb')"
  obtains (same) "lm' = lm"
  | (key) i req' where "find_index (has_lease_key K) (uls lm h) = Some i" "same_key_request i h K req' lm = (step, lm')"
  | (cross) req' where "find_index (has_lease_key K) (uls lm h) = None" "cross_key_request now h K req' sp lm = (step, lm')"
proof -
  define req' where "req' = (if dir then req AND NOT LeaseStateWrite else req)"
  define res where "res = (case find_index (has_lease_key K) (uls lm h) of
      Some i \<Rightarrow> same_key_request i h K req' lm | None \<Rightarrow> cross_key_request now h K req' sp lm)"
  have "lm' = lm \<or> (step, lm') = res"
    using run unfolding request_begin_def Let_def req'_def [symmetric] res_def [symmetric] prod.case by (simp split: if_splits prod.splits)
  then show ?thesis
  proof
    assume "(step, lm') = res"
    then show ?thesis using key cross unfolding res_def by (cases "find_index (has_lease_key K) (uls lm h)") (simp_all only: option.case)
  qed (rule same)
qed

lemma request_begin_coherent:
  assumes "request_begin now ce hs h K c req dir sp (lm, rb) = (step, lm', rb')" and coh: "coherent lm"
  shows "coherent lm'"
  using assms(1)
proof (cases rule: request_begin_cases)
  case (key i req')
  then show ?thesis using same_key_coherent coh find_index_Some by blast
next
  case (cross req')
  then show ?thesis using cross_key_shrinks(1) rights_shrink_coherent coh by blast
qed (use coh in simp)

section \<open>Acknowledgments\<close>

text \<open>A lease key names one file: clients draw their keys at random and the manager refuses a key that
  the same client uses on another file.\<close>

definition key_files :: "Manager \<Rightarrow> bool" where
  "key_files lm \<longleftrightarrow> (\<forall>h h'. \<forall>a \<in> leases lm h. \<forall>b \<in> leases lm h'. olLeaseKey a = olLeaseKey b \<longrightarrow> h = h')"

lemma key_filesD: "key_files lm \<Longrightarrow> a \<in> leases lm h \<Longrightarrow> b \<in> leases lm h' \<Longrightarrow> olLeaseKey a = olLeaseKey b \<Longrightarrow> h = h'"
  unfolding key_files_def by blast

lemma rights_shrink_key_files:
  assumes "rights_shrink lm lm'" and "key_files lm"
  shows "key_files lm'"
  unfolding key_files_def
proof (intro allI ballI impI)
  fix h h' a b assume "a \<in> leases lm' h" "b \<in> leases lm' h'" and k: "olLeaseKey a = olLeaseKey b"
  then obtain a0 b0 where "a0 \<in> leases lm h" "olLeaseKey a0 = olLeaseKey a" "b0 \<in> leases lm h'" "olLeaseKey b0 = olLeaseKey b"
    using assms(1) unfolding rights_shrink_def no_more_rights_def by metis
  then show "h = h'" using key_filesD [OF assms(2)] k by metis
qed

lemma leases_nth: "i < length (uls lm h) \<Longrightarrow> ulLease (uls lm h ! i) = Some p \<Longrightarrow> p \<in> leases lm h"
  unfolding leases_def using nth_mem by blast

lemma clear_handle_shrinks:
  assumes kf: "key_files lm" and i: "i < length (uls lm h)" "ulLease (uls lm h ! i) = Some p"
    and K: "olLeaseKey p = K" and nb: "\<not> olBreaking p"
  shows "rights_shrink lm (clear_handle (h, i) K p h2 lm)
    \<and> i < length (uls (clear_handle (h, i) K p h2 lm) h) \<and> ulLease (uls (clear_handle (h, i) K p h2 lm) h ! i) = Some p"
proof -
  define hit where "hit = (\<lambda>(j, l). (h2, j) \<noteq> (h, i) \<and> has_lease_key K l \<and> lease_breaking l)"
  define locks where "locks = map (\<lambda>(j, l). if hit (j, l) then clear_sibling p l else l) (List.enumerate 0 (uls lm h2))"
  have len: "length locks = length (uls lm h2)" by (simp add: locks_def)
  have u: "lmUnified (clear_handle (h, i) K p h2 lm) = lmUnified (update_bucket h2 locks lm)"
    unfolding clear_handle_def Let_def hit_def [symmetric] locks_def [symmetric] by simp
  have nth: "locks ! j = (if hit (j, uls lm h2 ! j) then clear_sibling p (uls lm h2 ! j) else uls lm h2 ! j)" if "j < length (uls lm h2)" for j
    using that by (simp add: locks_def nth_enumerate_eq)
  have p: "p \<in> leases lm h" using leases_nth [OF i] .
  have "rights_shrink lm (update_bucket h2 locks lm)"
  proof (rule rights_shrink_bucket [OF len])
    fix l a assume "l \<in> set locks" and a: "ulLease l = Some a"
    then obtain j where j: "j < length (uls lm h2)" "l = locks ! j" using len by (metis in_set_conv_nth)
    show "\<exists>b \<in> leases lm h2. olLeaseKey b = olLeaseKey a \<and> weaker (effective_state a) (effective_state b)"
    proof (cases "hit (j, uls lm h2 ! j)")
      case False
      then show ?thesis using j a nth leases_nth [OF j(1)] by auto
    next
      case True
      then obtain b where b: "ulLease (uls lm h2 ! j) = Some b" "olLeaseKey b = K"
        by (auto simp: hit_def has_lease_key_def split: option.splits)
      then have "h2 = h" using key_filesD [OF kf leases_nth [OF j(1)] p] K by simp
      moreover have "effective_state a = effective_state p" "olLeaseKey a = K"
        using a j nth True b nb by (auto simp: clear_sibling_def effective_state_def end_break_def)
      ultimately show ?thesis using p K by auto
    qed
  qed
  moreover have "\<not> hit (i, uls lm h2 ! i)" if "h2 = h" using that by (simp add: hit_def)
  moreover have "uls (clear_handle (h, i) K p h2 lm) h = (if h = h2 then locks else uls lm h)"
    unfolding u by (rule update_bucket_uls [OF len])
  ultimately show ?thesis
    using rights_shrink_trans [OF _ rights_shrink_unified [OF u]] i nth [of i] len by auto
qed

lemma clearSiblings_shrinks:
  assumes "key_files lm" and "i < length (uls lm h)" "ulLease (uls lm h ! i) = Some p"
    and "olLeaseKey p = K" and "\<not> olBreaking p"
  shows "rights_shrink lm (clearBreakingSiblingsLocked (h, i) K p lm)"
proof -
  have "rights_shrink lm (fold (clear_handle (h, i) K p) hs lm)" for hs
    using assms
  proof (induction hs arbitrary: lm)
    case (Cons h2 hs)
    note c = clear_handle_shrinks [OF Cons.prems, of h2]
    show ?case using rights_shrink_trans [OF _ Cons.IH [of "clear_handle (h, i) K p h2 lm"]] c
        rights_shrink_key_files [OF conjunct1 [OF c] Cons.prems(1)] Cons.prems(4,5) by simp
  qed simp
  then show ?thesis by (simp add: clearBreakingSiblingsLocked_def)
qed

lemma find_in_buckets_Some:
  "find_in_buckets K hs lm = Some (h, i) \<Longrightarrow> i < length (uls lm h) \<and> has_lease_key K (uls lm h ! i)"
  by (induction hs) (auto split: option.splits dest: find_index_Some)

lemma findLeaseByKey_Some:
  assumes "findLeaseByKey K lm = Some (h, i)"
  obtains lease where "i < length (uls lm h)" "ulLease (uls lm h ! i) = Some lease" "olLeaseKey lease = K"
  using assms by (auto simp: findLeaseByKey_def has_lease_key_def split: option.splits dest!: find_in_buckets_Some)

lemma put_record_shrinks:
  assumes "i < length (uls lm h)" and "ulLease (uls lm h ! i) = Some a" and "ulLease l = Some b"
    and "olLeaseKey b = olLeaseKey a" and "weaker (effective_state b) (effective_state a)"
  shows "rights_shrink lm (put_record h i l lm)"
    and "i < length (uls (put_record h i l lm) h)" and "ulLease (uls (put_record h i l lm) h ! i) = Some b"
proof -
  have u: "lmUnified (put_record h i l lm) = lmUnified (update_bucket h ((uls lm h)[i := l]) lm)" by (simp add: put_record_def)
  show "rights_shrink lm (put_record h i l lm)"
    using rights_shrink_trans [OF rights_shrink_record [OF assms] rights_shrink_unified [OF u]] .
  have "uls (put_record h i l lm) h = (uls lm h)[i := l]"
    unfolding u by (subst update_bucket_uls) simp_all
  then show "i < length (uls (put_record h i l lm) h)" and "ulLease (uls (put_record h i l lm) h ! i) = Some b"
    using assms by auto
qed

lemma weaker_sub: "s AND NOT t = 0 \<Longrightarrow> weaker s t"
  by (auto simp: weaker_def capW_bit capRW_bit word_eq_iff_bits bit_simps)

lemma signal_shrinks: "rights_shrink lm lm' \<Longrightarrow> rights_shrink lm (signalBreakWaitLocked h lm')"
  using rights_shrink_trans [OF _ rights_shrink_unified] by simp

text \<open>The acknowledged record ends its break with no more than what the break requires, and the other
  records of the key follow.\<close>

lemma ack_end_shrinks:
  assumes kf: "key_files lm" and i: "i < length (uls lm h)" "ulLease (uls lm h ! i) = Some lease" "olLeaseKey lease = K"
    and br: "olBreaking lease" and st: "st AND NOT (olBreakingToRequired lease) = 0"
    and l: "ulLease l = Some ((end_break st lease)\<lparr>olBreakingToRequired := st\<rparr>)"
  shows "rights_shrink lm (clearBreakingSiblingsLocked (h, i) K ((end_break st lease)\<lparr>olBreakingToRequired := st\<rparr>) (put_record h i l lm))"
proof -
  let ?b = "(end_break st lease)\<lparr>olBreakingToRequired := st\<rparr>"
  have "effective_state ?b = st" "olLeaseKey ?b = olLeaseKey lease" "\<not> olBreaking ?b" "effective_state lease = olBreakingToRequired lease"
    using br by (simp_all add: effective_state_def end_break_def)
  moreover have "weaker st (olBreakingToRequired lease)" using st by (rule weaker_sub)
  ultimately show ?thesis
    using put_record_shrinks [OF i(1,2) l] clearSiblings_shrinks [of "put_record h i l lm" i h ?b K]
      rights_shrink_key_files [OF _ kf] rights_shrink_trans i(3) by metis
qed

lemma ack_stage_shrinks:
  assumes i: "i < length (uls lm h)" "ulLease (uls lm h ! i) = Some lease" and br: "olBreaking lease"
    and more: "acked AND NOT (olBreakingToRequired lease) \<noteq> 0"
    and stage: "applyBreakStageLocked now (nextProgressiveBreakTarget acked (olBreakingToRequired lease)) l (end_break acked lease) lm = (sn, l', lm1)"
  shows "rights_shrink lm (put_record h i l' lm1)"
proof -
  let ?t = "nextProgressiveBreakTarget acked (olBreakingToRequired lease)"
  let ?b = "apply_stage now ?t (end_break acked lease)"
  have l': "ulLease l' = Some ?b" and lm1: "lmUnified lm1 = lmUnified lm"
    using stage by (auto simp: applyBreakStageLocked_def Let_def split: if_splits)
  have "effective_state ?b = olBreakingToRequired lease"
    by (simp add: effective_state_def apply_stage_def end_break_def nextProgressiveBreakTarget_def)
  then have "weaker (effective_state ?b) (effective_state lease)" using br by (simp add: effective_state_def)
  then have "rights_shrink lm1 (put_record h i l' lm1)"
    using put_record_shrinks(1) [of i lm1 h lease l' ?b] i l' lm1 by simp
  then show ?thesis using rights_shrink_trans [OF rights_shrink_unified [OF lm1]] by blast
qed

text \<open>The outcomes of an acknowledgment.\<close>

lemma acknowledge_cases:
  assumes run: "acknowledgeLeaseBreakImpl now (\<lambda>lm. lm) K st ep lm = (e, nts, lm')"
  obtains (same) "lm' = lm"
  | (none) h i lease where "i < length (uls lm h)" "ulLease (uls lm h ! i) = Some lease" "olLeaseKey lease = K" "olBreaking lease"
      "lm' = snd (ack_to_none h i K (uls lm h ! i) lease lm)"
  | (stage) h i lease where "i < length (uls lm h)" "ulLease (uls lm h ! i) = Some lease" "olLeaseKey lease = K" "olBreaking lease"
      "st AND NOT (olBreakingToRequired lease) \<noteq> 0"
      "lm' = (case applyBreakStageLocked now (nextProgressiveBreakTarget st (olBreakingToRequired lease))
         ((uls lm h ! i)\<lparr>ulType := lockTypeForLeaseState st\<rparr>) (end_break st lease) lm of
           (sn, l, lm1) \<Rightarrow> ack_resume h K (nextProgressiveBreakTarget st (olBreakingToRequired lease)) (put_record h i l lm1))"
  | (ended) h i lease where "i < length (uls lm h)" "ulLease (uls lm h ! i) = Some lease" "olLeaseKey lease = K" "olBreaking lease"
      "st AND NOT (olBreakingToRequired lease) = 0"
      "lm' = signalBreakWaitLocked h (clearBreakingSiblingsLocked (h, i) K ((end_break st lease)\<lparr>olBreakingToRequired := st\<rparr>)
        (put_record h i ((uls lm h ! i)\<lparr>ulType := lockTypeForLeaseState st, ulLease := Some ((end_break st lease)\<lparr>olBreakingToRequired := st\<rparr>)\<rparr>) lm))"
proof (cases "findLeaseByKey K lm")
  case None
  then show ?thesis using run same by (simp add: acknowledgeLeaseBreakImpl_def)
next
  case (Some hi)
  obtain h i where hi: "hi = (h, i)" by (cases hi)
  obtain lease where i: "i < length (uls lm h)" "ulLease (uls lm h ! i) = Some lease" "olLeaseKey lease = K"
    using findLeaseByKey_Some [OF Some [unfolded hi]] .
  define lock where "lock = uls lm h ! i"
  note run' = arg_cong [OF run, of "snd \<circ> snd", unfolded acknowledgeLeaseBreakImpl_def Some hi option.case prod.case Let_def i(2)]
  have [simp]: "olBreakingToRequired (end_break st lease) = olBreakingToRequired lease" by (simp add: end_break_def)
  show ?thesis using run' same none [OF i] stage [OF i] ended [OF i] by (fold lock_def) (simp split: if_splits prod.splits)
qed

lemma acknowledge_shrinks:
  assumes run: "acknowledgeLeaseBreakImpl now (\<lambda>lm. lm) K st ep lm = (e, nts, lm')" and kf: "key_files lm"
  shows "rights_shrink lm lm'"
  using run
proof (cases rule: acknowledge_cases)
  case (none h i lease)
  let ?l = "(uls lm h ! i)\<lparr>ulLease := Some ((end_break 0 lease)\<lparr>olBreakingToRequired := 0\<rparr>), ulType := lockTypeForLeaseState 0\<rparr>"
  have "rights_shrink lm (clearBreakingSiblingsLocked (h, i) K ((end_break 0 lease)\<lparr>olBreakingToRequired := 0\<rparr>) (put_record h i ?l lm))"
    by (rule ack_end_shrinks [OF kf none(1-4)]) simp_all
  then show ?thesis using rights_shrink_trans [OF signal_shrinks dispatchNext_shrinks] by (simp add: none(5) ack_to_none_def Let_def)
next
  case (stage h i lease)
  obtain sn l lm1 where s: "applyBreakStageLocked now (nextProgressiveBreakTarget st (olBreakingToRequired lease))
         ((uls lm h ! i)\<lparr>ulType := lockTypeForLeaseState st\<rparr>) (end_break st lease) lm = (sn, l, lm1)" by (metis prod_cases3)
  show ?thesis using ack_stage_shrinks [OF stage(1,2,4,5) s] signal_shrinks
    by (simp add: stage(6) s ack_resume_def split: option.splits)
next
  case (ended h i lease)
  then show ?thesis using ack_end_shrinks [OF kf ended(1-5)] signal_shrinks by simp
qed simp

section \<open>Byte-range operations and leases\<close>

lemma rights_shrink_update:
  assumes "i < length (uls lm h)" and "ulLease l = ulLease (uls lm h ! i)"
    and "lmUnified lm' = (lmUnified lm)(h \<mapsto> (uls lm h)[i := l])"
  shows "rights_shrink lm lm'"
  unfolding rights_shrink_def leases_def
proof (intro allI no_more_rights_subset)
  fix h'
  have "set ((uls lm h)[i := l]) \<subseteq> insert l (set (uls lm h))" by (rule set_update_subset_insert)
  moreover have "uls lm h ! i \<in> set (uls lm h)" using assms(1) by simp
  ultimately show "{a. \<exists>l \<in> set (uls lm' h'). ulLease l = Some a} \<subseteq> {a. \<exists>l \<in> set (uls lm h'). ulLease l = Some a}"
    using assms(2) by (auto simp: assms(3)) (metis subset_iff insert_iff)
qed

lemma Lock_shrinks_rights: "Lock uuid now lm h lock = (e, lm') \<Longrightarrow> rights_shrink lm lm'"
  by (erule Lock_cases) (auto intro: rights_shrink_unified)

lemma Unlock_unified: "Unlock lm h oid sid off len = (e, ns, lm') \<Longrightarrow> lmUnified lm' = lmUnified lm"
  by (auto simp: Unlock_def doUnlock_def Let_def split: prod.splits if_splits option.splits)

lemma UnlockAllForOpen_unified: "UnlockAllForOpen lm h oid = (n, ns, lm') \<Longrightarrow> lmUnified lm' = lmUnified lm"
  by (auto simp: UnlockAllForOpen_def doUnlockAllForOpen_def unlock_all_def Let_def split: prod.splits if_splits)

lemma UnlockAllForSession_unified: "UnlockAllForSession lm h sid = (n, ns, lm') \<Longrightarrow> lmUnified lm' = lmUnified lm"
  by (auto simp: UnlockAllForSession_def doUnlockAllForSession_def unlock_all_def Let_def split: prod.splits if_splits)

lemma RemoveFileLocks_unified: "lmUnified (RemoveFileLocks lm h) = lmUnified lm"
  by (simp add: RemoveFileLocks_def)

lemma AddUnifiedLock_shrinks_rights:
  assumes "AddUnifiedLock now lm h ul = (e, lm')" and "ulLease ul = None"
  shows "rights_shrink lm lm'"
  using assms(1)
proof (cases rule: AddUnifiedLock_cases)
  case (update i el)
  then show ?thesis by (intro rights_shrink_update [of i lm h el]) simp_all
next
  case (add new)
  then show ?thesis using assms(2) unfolding rights_shrink_def
    by (intro allI no_more_rights_subset) (auto simp: leases_def split: if_splits)
qed simp

lemma remove_loop_leases:
  "remove_loop gen own off len ls n lm = (newLocks, found, lm') \<Longrightarrow> u \<in> set newLocks \<Longrightarrow> \<exists>v \<in> set ls. ulLease u = ulLease v"
proof (induction ls arbitrary: n lm newLocks found)
  case (Cons l ls)
  then show ?case using split_frag_same [of u gen n l off len] by (fastforce simp: Let_def split: if_splits prod.splits)
qed simp

lemma RemoveUnifiedLock_shrinks_rights:
  assumes "RemoveUnifiedLock gen lm h owner off len = (e, lm')"
  shows "rights_shrink lm lm'"
  using assms
proof (cases rule: RemoveUnifiedLock_cases)
  case (1 newLocks found lm1)
  show ?thesis unfolding rights_shrink_def leases_def
    by (intro allI no_more_rights_subset) (use remove_loop_leases [OF 1(1)] 1(5) in \<open>force split: if_splits\<close>)
qed

lemma UpgradeLock_shrinks_rights:
  assumes "UpgradeLock lm h owner off len = (r, lm')"
  shows "rights_shrink lm lm'"
  using assms
proof (cases rule: UpgradeLock_cases)
  case (up i u)
  then show ?thesis by (intro rights_shrink_update [of i lm h u]) simp_all
qed simp

lemma cleanup_shrinks_rights:
  "rights_shrink lm (RemoveFileUnifiedLocks lm h)" "rights_shrink lm (RemoveAllLocks lm h)"
  by (rule rights_shrink_subset; auto simp: RemoveFileUnifiedLocks_def RemoveAllLocks_def Let_def split: if_splits)+

lemma fold_rights: "(\<And>x s. rights_shrink s (f x s)) \<Longrightarrow> rights_shrink s (fold f xs s)"
  by (induction xs arbitrary: s) (auto intro: rights_shrink_trans)

lemma RemoveClientLocks_shrinks_rights: "rights_shrink lm (RemoveClientLocks lm c)"
proof -
  have "rights_shrink s (remove_client_from c h s)" for h s
    by (rule rights_shrink_subset) (auto simp: remove_client_from_def Let_def split: if_splits)
  then show ?thesis
    using fold_rights [of "remove_client_from c"] by (simp add: RemoveClientLocks_def Let_def rights_shrink_def leases_def)
qed

lemma ReleaseByOwnerPrefix_shrinks_rights: "rights_shrink lm (snd (ReleaseByOwnerPrefix keys lm p))"
proof -
  have one: "rights_shrink (snd s) (snd (release_prefix_from p h s))" for h s
    by (rule rights_shrink_subset) (auto simp: release_prefix_from_def Let_def split: prod.splits if_splits)
  have "rights_shrink (snd s) (snd (fold (release_prefix_from p) keys s))" for s
  proof (induction keys arbitrary: s)
    case (Cons h keys)
    show ?case using rights_shrink_trans [OF one Cons.IH] by simp
  qed simp
  from this [of "(0, lm)"] show ?thesis by (simp add: ReleaseByOwnerPrefix_def)
qed

lemma SetLeaseEpoch_shrinks_rights: "rights_shrink lm (snd (SetLeaseEpoch keys lm k e))"
proof -
  obtain t where u: "lmUnified (snd (SetLeaseEpoch keys lm k e))
      = (\<lambda>h. map_option (map (\<lambda>ul. if has_lease_key k ul then set_epoch t ul else ul)) (lmUnified lm h))"
    by (simp add: SetLeaseEpoch_def Let_def)
  have ep: "\<exists>b. ulLease l = Some b \<and> olLeaseKey b = olLeaseKey a \<and> effective_state a = effective_state b"
    if "ulLease (if has_lease_key k l then set_epoch t l else l) = Some a" for l a
    using that by (auto simp: set_epoch_def effective_state_def split: if_splits)
  show ?thesis unfolding rights_shrink_def no_more_rights_def
  proof (intro allI ballI)
    fix h a assume "a \<in> leases (snd (SetLeaseEpoch keys lm k e)) h"
    then obtain l where "l \<in> set (uls lm h)" "ulLease (if has_lease_key k l then set_epoch t l else l) = Some a"
      unfolding leases_def u by (cases "lmUnified lm h") auto
    then show "\<exists>b \<in> leases lm h. olLeaseKey b = olLeaseKey a \<and> weaker (effective_state a) (effective_state b)"
      using ep [of l a] unfolding leases_def by fastforce
  qed
qed

lemma scan_shrinks: "rights_shrink lm (snd (scanExpiredLeaseBreaks now t pls lm))"
proof (induction pls arbitrary: lm)
  case (Cons pl pls)
  have one: "rights_shrink lm (revokeTimedOutLease h k (lm\<lparr>lmStore := s\<rparr>))" for h k s
    using rights_shrink_trans [OF rights_shrink_unified [of "lm\<lparr>lmStore := s\<rparr>" lm] removeMatching_shrinks]
    by (simp add: revokeTimedOutLease_def)
  have rest: "rights_shrink lm lm'" if "scanExpiredLeaseBreaks now t pls (revokeTimedOutLease h k (lm\<lparr>lmStore := st\<rparr>)) = (ks, lm')" for h k st ks lm'
    using rights_shrink_trans [OF one [of h k st] Cons.IH] that by (metis snd_conv)
  show ?case using Cons.IH by (auto simp: Let_def split: option.splits prod.splits intro: rest)
qed simp

lemma RevokeDelegation_shrinks: "rights_shrink lm (snd (lm_RevokeDelegation h d lm))"
  using removeMatching_shrinks [of lm h False "is_delegation_id d"] by (auto simp: lm_RevokeDelegation_def split: prod.splits)

lemma scanDelegations_shrinks: "rights_shrink lm (scanExpiredDelegationRecalls hs now t lm)"
  unfolding scanExpiredDelegationRecalls_def using RevokeDelegation_shrinks
  by (auto intro!: fold_rights split: prod.splits)

end
