(* ===== verification/Lock_Protocol.thy ===== *)
theory Lock_Protocol
  imports Lock_Coherence
begin

text \<open>
  The lock manager as one state machine: byte-range locks of both protocols, leases, delegations, breaks,
  acknowledgments, timeouts and cleanup as the critical sections they are, in any order.  Its invariant joins
  the two halves of the manager: conflicting byte ranges are never held together, and two clients never keep
  conflicting caching rights.
\<close>

section \<open>Lease operations leave byte-range locks alone\<close>

definition kept_or_caching :: "UnifiedLock set \<Rightarrow> UnifiedLock \<Rightarrow> bool" where
  "kept_or_caching A u \<longleftrightarrow> u \<in> A
     \<or> \<not> byte_range_lock u \<and> ((\<exists>v \<in> A. ulOffset u = ulOffset v \<and> ulLength u = ulLength v) \<or> ul_ok u)"

definition keeps_bytes :: "Manager \<Rightarrow> Manager \<Rightarrow> bool" where
  "keeps_bytes lm lm' \<longleftrightarrow> lmLocks lm' = lmLocks lm \<and> (\<forall>h. \<forall>u \<in> set (uls lm' h). kept_or_caching (set (uls lm h)) u)"

lemma keeps_bytes_refl [simp]: "keeps_bytes lm lm"
  by (simp add: keeps_bytes_def kept_or_caching_def)

lemma keeps_bytes_trans:
  assumes "keeps_bytes a b" and "keeps_bytes b c"
  shows "keeps_bytes a c"
proof -
  have "kept_or_caching (set (uls a h)) u" if u: "u \<in> set (uls c h)" for h u
  proof -
    have ab: "\<And>v. v \<in> set (uls b h) \<Longrightarrow> kept_or_caching (set (uls a h)) v"
      and bc: "kept_or_caching (set (uls b h)) u" using assms u by (auto simp: keeps_bytes_def)
    from bc consider "u \<in> set (uls b h)" | v where "v \<in> set (uls b h)" "\<not> byte_range_lock u" "ulOffset u = ulOffset v" "ulLength u = ulLength v"
      | "\<not> byte_range_lock u" "ul_ok u" by (auto simp: kept_or_caching_def)
    then show ?thesis
    proof cases
      case 2
      with ab [of v] show ?thesis by (auto simp: kept_or_caching_def)
    qed (use ab in \<open>auto simp: kept_or_caching_def\<close>)
  qed
  then show ?thesis using assms by (simp add: keeps_bytes_def)
qed

lemma keeps_bytes_safe:
  assumes "keeps_bytes lm lm'" and "safe lm"
  shows "safe lm'"
proof -
  have k: "lmLocks lm' = lmLocks lm" "\<And>h u. u \<in> set (uls lm' h) \<Longrightarrow> kept_or_caching (set (uls lm h)) u"
    using assms(1) by (auto simp: keeps_bytes_def)
  have "byte_holders lm' h b \<subseteq> byte_holders lm h b" for h b
    using k(2) [of _ h] by (auto simp: byte_holders_def k(1) ul_holds_def kept_or_caching_def)
  then have "exclusive_ok lm'" using assms(2) unfolding safe_def exclusive_ok_def by blast
  moreover have "ul_ok u" if "u \<in> set (uls lm' h)" for u h
    using k(2) [OF that] assms(2) by (fastforce simp: safe_def ranges_ok_def kept_or_caching_def)
  ultimately show ?thesis using assms(2) by (auto simp: safe_def ranges_ok_def k(1))
qed

lemma keeps_bytes_subset:
  "lmLocks lm' = lmLocks lm \<Longrightarrow> (\<And>h. set (uls lm' h) \<subseteq> set (uls lm h)) \<Longrightarrow> keeps_bytes lm lm'"
  by (auto simp: keeps_bytes_def kept_or_caching_def)

lemma keeps_bytes_frame: "lmLocks lm' = lmLocks lm \<Longrightarrow> lmUnified lm' = lmUnified lm \<Longrightarrow> keeps_bytes lm lm'"
  by (rule keeps_bytes_subset) simp_all

lemma keeps_bytes_persist [simp]: "keeps_bytes lm (persistUnifiedLockLocked u lm') = keeps_bytes lm lm'"
  "keeps_bytes lm (signalBreakWaitLocked h lm') = keeps_bytes lm lm'"
  by (simp_all add: keeps_bytes_def signalBreakWaitLocked_def)

text \<open>A changed record still is a lease or a delegation, at the same place.\<close>

definition lease_edit :: "UnifiedLock \<Rightarrow> UnifiedLock \<Rightarrow> bool" where
  "lease_edit l l' \<longleftrightarrow> l' = l \<or> (\<not> byte_range_lock l' \<and> ulOffset l' = ulOffset l \<and> ulLength l' = ulLength l)"

lemma lease_edit_refl [simp]: "lease_edit l l"
  by (simp add: lease_edit_def)

lemma lease_edit_lease [simp]: "lease_edit l (l\<lparr>ulLease := Some a\<rparr>)" "lease_edit l (l\<lparr>ulLease := Some a, ulType := t\<rparr>)"
  "lease_edit l (l\<lparr>ulType := t, ulLease := Some a\<rparr>)"
  by (simp_all add: lease_edit_def byte_range_lock_def)

lemma keeps_bytes_bucket:
  assumes "list_all2 lease_edit (uls lm h) locks"
  shows "keeps_bytes lm (update_bucket h locks lm)"
proof -
  have len: "length locks = length (uls lm h)" using list_all2_lengthD [OF assms] by simp
  have "kept_or_caching (set (uls lm h)) u" if u: "u \<in> set locks" for u
  proof -
    obtain l where "l \<in> set (uls lm h)" "lease_edit l u"
      using u assms unfolding list_all2_conv_all_nth by (metis in_set_conv_nth)
    then show ?thesis by (auto simp: lease_edit_def kept_or_caching_def)
  qed
  then show ?thesis by (auto simp: keeps_bytes_def update_bucket_uls [OF len] kept_or_caching_def)
qed

lemma keeps_bytes_map: "(\<And>l. lease_edit l (f l)) \<Longrightarrow> keeps_bytes lm (update_bucket h (map f (uls lm h)) lm)"
  by (rule keeps_bytes_bucket) (simp add: list_all2_conv_all_nth)

lemma keeps_bytes_record:
  assumes "i < length (uls lm h)" and "lease_edit (uls lm h ! i) l"
  shows "keeps_bytes lm (update_bucket h ((uls lm h)[i := l]) lm)"
  by (rule keeps_bytes_bucket) (use assms in \<open>auto simp: list_all2_conv_all_nth nth_list_update\<close>)

lemma locks_frame [simp]:
  "lmLocks (signalBreakWaitLocked h lm) = lmLocks lm"
  by (simp add: signalBreakWaitLocked_def)

lemma break_one_edit:
  assumes "break_one now ex s r sb canon lock lm = (lock', nt, canon', lm')"
  shows "lease_edit lock lock' \<and> lmLocks lm' = lmLocks lm \<and> lmUnified lm' = lmUnified lm"
  using assms
  by (auto simp: break_one_def applyBreakStageLocked_def mirrorBreakStageLocked_def Let_def split: option.splits if_splits)

lemma break_loop_edit:
  "break_loop now ex s r sb canon locks lm = (locks', nts, lm') \<Longrightarrow>
   list_all2 lease_edit locks locks' \<and> lmLocks lm' = lmLocks lm \<and> lmUnified lm' = lmUnified lm"
proof (induction locks arbitrary: canon lm locks' nts lm')
  case (Cons lock locks)
  obtain lock1 nt canon1 lm1 where one: "break_one now ex s r sb canon lock lm = (lock1, nt, canon1, lm1)" by (metis prod_cases4)
  obtain rest nts1 lm2 where rest: "break_loop now ex s r sb canon1 locks lm1 = (rest, nts1, lm2)" by (metis prod_cases3)
  show ?case using Cons.prems Cons.IH [OF rest] break_one_edit [OF one] by (auto simp: one rest)
qed simp

lemma breakOpLocks_bytes: "breakOpLocks now h ex s r sb lm = (nts, lm') \<Longrightarrow> keeps_bytes lm lm'"
proof -
  assume run: "breakOpLocks now h ex s r sb lm = (nts, lm')"
  obtain locks nts1 lm1 where loop: "break_loop now ex s r sb Map.empty (uls lm h) lm = (locks, nts1, lm1)" by (metis prod_cases3)
  have lm': "lm' = update_bucket h locks lm1" using run by (simp add: breakOpLocks_def loop)
  note l = break_loop_edit [OF loop]
  then have "keeps_bytes lm lm1" by (intro keeps_bytes_frame) auto
  moreover have "keeps_bytes lm1 lm'" unfolding lm' using l by (intro keeps_bytes_bucket) simp
  ultimately show ?thesis by (rule keeps_bytes_trans)
qed

lemma dir_one_edit: "lease_edit lock (fst (dir_one now ct origin ek he first canon lock))"
  by (auto simp: dir_one_def dir_recall_def Let_def lease_edit_def byte_range_lock_def split: option.splits)

lemma dir_loop_edit:
  "dir_loop now ct origin ek he first canon locks = (locks', ls, ds) \<Longrightarrow> list_all2 lease_edit locks locks'"
proof (induction locks arbitrary: first canon locks' ls ds)
  case (Cons lock locks)
  obtain lock1 br rc canon1 where one: "dir_one now ct origin ek he first canon lock = (lock1, br, rc, canon1)" by (metis prod_cases4)
  obtain rest ls1 ds1 where rest: "dir_loop now ct origin ek he (first \<and> \<not> br) canon1 locks = (rest, ls1, ds1)" by (metis prod_cases3)
  show ?case using Cons.prems Cons.IH [OF rest] dir_one_edit [of lock now ct origin ek he first canon] by (auto simp: one rest)
qed simp

lemma OnDirChange_bytes:
  assumes "OnDirChange now h ct origin ek he (lm, rb) = (out, lm', rb')"
  shows "keeps_bytes lm lm'"
proof -
  obtain locks ls ds where loop: "dir_loop now ct origin ek he True Map.empty (uls lm h) = (locks, ls, ds)" by (metis prod_cases3)
  have lm': "lm' = update_bucket h locks lm" using assms by (auto simp: OnDirChange_def loop Let_def split: if_splits)
  show ?thesis unfolding lm' by (rule keeps_bytes_bucket [OF dir_loop_edit [OF loop]])
qed

lemma breakDelegations_bytes:
  assumes "breakDelegations now h ex sb (lm, rb) = (recalls, lm', rb')"
  shows "keeps_bytes lm lm'"
proof -
  have lm': "lm' = update_bucket h (map (\<lambda>l. if deleg_to_break ex sb l then start_recall now l else l) (uls lm h)) lm"
    using assms by (simp add: breakDelegations_def Let_def)
  show ?thesis unfolding lm'
    by (rule keeps_bytes_map) (auto simp: deleg_to_break_def start_recall_def lease_edit_def byte_range_lock_def split: option.splits)
qed

lemma forceComplete_bytes: "keeps_bytes lm (forceCompleteBreaksExceptKey h k lm)"
proof -
  let ?f = "\<lambda>l. if lease_breaking_except k l then force_lock l else l"
  have "keeps_bytes lm (update_bucket h (map ?f (uls lm h)) lm)"
    by (rule keeps_bytes_map) (auto simp: lease_breaking_except_def force_lock_def lease_edit_def byte_range_lock_def split: option.splits)
  moreover have "keeps_bytes (update_bucket h (map ?f (uls lm h)) lm) (forceCompleteBreaksExceptKey h k lm)"
    by (rule keeps_bytes_frame) (simp_all add: forceCompleteBreaksExceptKey_def Let_def)
  ultimately show ?thesis by (rule keeps_bytes_trans)
qed

lemma dispatchNext_bytes: "keeps_bytes lm (snd (dispatchNextDeferredDirBreakLocked h lm))"
proof -
  let ?P = "\<lambda>l. case ulLease l of None \<Rightarrow> False | Some lease \<Rightarrow> olIsDirectory lease \<and> olBreaking lease \<and> olBreakDeferred lease"
  show ?thesis
  proof (cases "find_index ?P (uls lm h)")
    case (Some i)
    note i = find_index_Some [OF Some]
    obtain a where a: "ulLease (uls lm h ! i) = Some a" using i by (auto split: option.splits)
    show ?thesis using keeps_bytes_record [of i lm h] i Some a
      by (simp add: dispatchNextDeferredDirBreakLocked_def Let_def)
  next
    case None
    show ?thesis unfolding dispatchNextDeferredDirBreakLocked_def Let_def None by simp
  qed
qed

lemma removeMatching_bytes: "keeps_bytes lm (snd (removeMatchingLocksAndSignal h del m lm))"
  by (rule keeps_bytes_subset) (auto simp: removeMatchingLocksAndSignal_def signalBreakWait_def Let_def)

lemma ReturnDelegation_bytes: "keeps_bytes lm (lm_ReturnDelegation h d lm)"
  by (rule keeps_bytes_subset) (auto simp: lm_ReturnDelegation_def signalBreakWait_def Let_def)

lemma GrantDelegation_bytes:
  assumes "lm_GrantDelegation now h d (lm, rb) = (e, lm', rb')"
  shows "keeps_bytes lm lm'"
  using assms by (auto simp: lm_GrantDelegation_def Let_def keeps_bytes_def kept_or_caching_def byte_range_lock_def range_ok_def
      split: if_splits prod.splits)

lemma delete_with_ctx_locks: "lmLocks (snd (fold (delete_with_ctx c) ls s)) = lmLocks (snd s)"
  by (induction ls arbitrary: s) (auto simp: delete_with_ctx_def split: prod.splits option.splits)

lemma releaseForHandle_bytes: "keeps_bytes lm (snd (releaseLeaseForHandleImpl c h k lm))"
proof (rule keeps_bytes_subset)
  note f = delete_with_ctx_frame(1) [of c "filter (has_lease_key k) (uls lm h)" "(False, lm)"]
    delete_with_ctx_locks [of c "filter (has_lease_key k) (uls lm h)" "(False, lm)"]
  show "lmLocks (snd (releaseLeaseForHandleImpl c h k lm)) = lmLocks lm"
    using f by (auto simp: releaseLeaseForHandleImpl_def Let_def split: prod.splits)
  show "set (uls (snd (releaseLeaseForHandleImpl c h k lm)) h') \<subseteq> set (uls lm h')" for h'
    using f by (auto simp: releaseLeaseForHandleImpl_def Let_def split: prod.splits)
qed

lemma fold_bytes: "(\<And>x s. keeps_bytes s (f x s)) \<Longrightarrow> keeps_bytes s (fold f xs s)"
  by (induction xs arbitrary: s) (auto intro: keeps_bytes_trans)

lemma releaseLease_bytes: "keeps_bytes lm (releaseLeaseImpl keys k lm)"
  unfolding releaseLeaseImpl_def
  by (rule fold_bytes, rule keeps_bytes_subset) (auto simp: release_key_from_def Let_def)

lemma request_grant_bytes:
  assumes "request_grant uuid now h K pk owner req dir trad lm = (res, lm')"
  shows "keeps_bytes lm lm'"
proof -
  have "lm' = lm \<or> (\<exists>g. lm' = createAndGrantLease uuid now h K pk owner g dir trad lm)"
    using assms unfolding request_grant_def Let_def by (auto split: if_splits)
  then show ?thesis
    by (auto simp: createAndGrantLease_def Let_def keeps_bytes_def kept_or_caching_def byte_range_lock_def range_ok_def split: if_splits)
qed

lemma same_key_bytes:
  assumes run: "same_key_request i h K req lm = (step, lm')" and i: "i < length (uls lm h)"
  shows "keeps_bytes lm lm'"
proof (cases "ulLease (uls lm h ! i)")
  case None
  then show ?thesis using run by (simp add: same_key_request_def)
next
  case (Some lease)
  let ?l = "set_lease (advanceEpoch (lease\<lparr>olLeaseState := req\<rparr>)) (uls lm h ! i)"
  have "lm' = lm \<or> lm' = persistUnifiedLockLocked ?l (update_bucket h ((uls lm h)[i := ?l]) lm)"
    using arg_cong [OF run, of snd] unfolding same_key_request_def Let_def Some option.case by (simp split: if_splits)
  moreover have "keeps_bytes lm (update_bucket h ((uls lm h)[i := ?l]) lm)"
    by (rule keeps_bytes_record [OF i]) (simp add: set_lease_def)
  ultimately show ?thesis by auto
qed

lemma cross_key_bytes:
  assumes run: "cross_key_request now h K req sp lm = (step, lm')"
  shows "keeps_bytes lm lm'"
proof -
  define P where "P l \<longleftrightarrow> (case ulLease l of None \<Rightarrow> False | Some lease \<Rightarrow> OpLocksConflict lease (lease_with K req))" for l :: UnifiedLock
  show ?thesis
  proof (cases "if sp then None else find_index P (uls lm h)")
    case None
    then show ?thesis using run unfolding cross_key_request_def P_def [abs_def, symmetric] Let_def by simp
  next
    case (Some i)
    then have i: "i < length (uls lm h)" "P (uls lm h ! i)" using find_index_Some [of P "uls lm h" i] by (auto split: if_splits)
    then obtain lease where lease: "ulLease (uls lm h ! i) = Some lease" by (auto simp: P_def split: option.splits)
    have "lm' = lm \<or> (\<exists>b. lm' = persistUnifiedLockLocked (set_lease b (uls lm h ! i)) (update_bucket h ((uls lm h)[i := set_lease b (uls lm h ! i)]) lm))"
      using arg_cong [OF run, of snd] unfolding cross_key_request_def P_def [abs_def, symmetric] Let_def Some option.case lease
      by (simp split: if_splits) blast+
    moreover have "keeps_bytes lm (update_bucket h ((uls lm h)[i := set_lease b (uls lm h ! i)]) lm)" for b
      by (rule keeps_bytes_record [OF i(1)]) (simp add: set_lease_def)
    ultimately show ?thesis by auto
  qed
qed

lemma request_begin_bytes:
  assumes "request_begin now ce hs h K c req dir sp (lm, rb) = (step, lm', rb')"
  shows "keeps_bytes lm lm'"
  using assms
proof (cases rule: request_begin_cases)
  case (key i req')
  then show ?thesis using same_key_bytes find_index_Some by blast
qed (auto intro: cross_key_bytes)

section \<open>Acknowledgments and byte-range locks\<close>

lemma put_record_bytes:
  assumes "i < length (uls lm h)" and "ulLease l = Some a" and "ulOffset l = ulOffset (uls lm h ! i)" and "ulLength l = ulLength (uls lm h ! i)"
  shows "keeps_bytes lm (put_record h i l lm)"
  unfolding put_record_def
  using keeps_bytes_record [of i lm h l] assms by (simp add: lease_edit_def byte_range_lock_def)

lemma clear_handle_bytes: "keeps_bytes lm (clear_handle pos K p h lm)"
proof -
  define hit where "hit = (\<lambda>(j, l). (h, j) \<noteq> pos \<and> has_lease_key K l \<and> lease_breaking l)"
  define locks where "locks = map (\<lambda>(j, l). if hit (j, l) then clear_sibling p l else l) (List.enumerate 0 (uls lm h))"
  have "list_all2 lease_edit (uls lm h) locks"
    by (auto simp: locks_def list_all2_conv_all_nth nth_enumerate_eq hit_def has_lease_key_def clear_sibling_def lease_edit_def
        byte_range_lock_def split: option.splits)
  then have "keeps_bytes lm (update_bucket h locks lm)" by (rule keeps_bytes_bucket)
  moreover have "keeps_bytes (update_bucket h locks lm) (clear_handle pos K p h lm)"
    unfolding clear_handle_def Let_def hit_def [symmetric] locks_def [symmetric] by (rule keeps_bytes_frame) simp_all
  ultimately show ?thesis by (rule keeps_bytes_trans)
qed

lemma clearSiblings_bytes: "keeps_bytes lm (clearBreakingSiblingsLocked pos K p lm)"
  unfolding clearBreakingSiblingsLocked_def by (rule fold_bytes, rule clear_handle_bytes)

lemma acknowledge_bytes:
  assumes run: "acknowledgeLeaseBreakImpl now (\<lambda>lm. lm) K st ep lm = (e, nts, lm')"
  shows "keeps_bytes lm lm'"
  using run
proof (cases rule: acknowledge_cases)
  case (none h i lease)
  let ?l = "(uls lm h ! i)\<lparr>ulLease := Some ((end_break 0 lease)\<lparr>olBreakingToRequired := 0\<rparr>), ulType := lockTypeForLeaseState 0\<rparr>"
  have "keeps_bytes lm (put_record h i ?l lm)" by (rule put_record_bytes [OF none(1)]) simp_all
  then have "keeps_bytes lm (clearBreakingSiblingsLocked (h, i) K ((end_break 0 lease)\<lparr>olBreakingToRequired := 0\<rparr>) (put_record h i ?l lm))"
    using clearSiblings_bytes by (rule keeps_bytes_trans)
  then show ?thesis using keeps_bytes_trans [OF _ dispatchNext_bytes, of lm "signalBreakWaitLocked h
      (clearBreakingSiblingsLocked (h, i) K ((end_break 0 lease)\<lparr>olBreakingToRequired := 0\<rparr>) (put_record h i ?l lm))" h]
    by (simp add: none(5) ack_to_none_def Let_def)
next
  case (stage h i lease)
  obtain sn l lm1 where s: "applyBreakStageLocked now (nextProgressiveBreakTarget st (olBreakingToRequired lease))
         ((uls lm h ! i)\<lparr>ulType := lockTypeForLeaseState st\<rparr>) (end_break st lease) lm = (sn, l, lm1)" by (metis prod_cases3)
  have f: "lmLocks lm1 = lmLocks lm" "lmUnified lm1 = lmUnified lm" "ulLease l \<noteq> None"
      "ulOffset l = ulOffset (uls lm h ! i)" "ulLength l = ulLength (uls lm h ! i)"
    using s by (auto simp: applyBreakStageLocked_def Let_def split: if_splits)
  have "keeps_bytes lm1 (put_record h i l lm1)" using put_record_bytes [of i lm1 h l] stage(1) f by auto
  then have "keeps_bytes lm (put_record h i l lm1)" using keeps_bytes_trans [OF keeps_bytes_frame] f(1,2) by blast
  then show ?thesis by (simp add: stage(6) s ack_resume_def split: option.splits)
next
  case (ended h i lease)
  have "keeps_bytes lm (put_record h i ((uls lm h ! i)\<lparr>ulType := lockTypeForLeaseState st,
      ulLease := Some ((end_break st lease)\<lparr>olBreakingToRequired := st\<rparr>)\<rparr>) lm)" by (rule put_record_bytes [OF ended(1)]) simp_all
  then show ?thesis using keeps_bytes_trans [OF _ clearSiblings_bytes] by (simp add: ended(6))
qed simp

lemma Caching_split:
  "CheckAndBreakCachingForWrite now h ex (lm, rb) = (out, lm', rb') \<Longrightarrow>
     \<exists>nts lm1 rc. breakOpLocks now h ex LeaseStateNone BreakReasonUnspecified (\<lambda>lease. HasRead lease \<or> HasWrite lease) lm = (nts, lm1)
       \<and> breakDelegations now h ex (\<lambda>_. True) (lm1, rb) = (rc, lm', rb')"
  "CheckAndBreakCachingForRead now h ex (lm, rb) = (out, lm', rb') \<Longrightarrow>
     \<exists>nts lm1 rc. breakOpLocks now h ex LeaseStateRead BreakReasonUnspecified HasWrite lm = (nts, lm1)
       \<and> breakDelegations now h ex (\<lambda>d. dgDelegType d = DelegTypeWrite) (lm1, rb) = (rc, lm', rb')"
  "CheckAndBreakCachingForDelete now h ex (lm, rb) = (out, lm', rb') \<Longrightarrow>
     \<exists>nts lm1 rc. breakOpLocks now h ex LeaseStateNone BreakReasonUnspecified (\<lambda>lease. olLeaseState lease \<noteq> LeaseStateNone) lm = (nts, lm1)
       \<and> breakDelegations now h ex (\<lambda>_. True) (lm1, rb) = (rc, lm', rb')"
  by (auto simp: CheckAndBreakCachingForWrite_def CheckAndBreakCachingForRead_def CheckAndBreakCachingForDelete_def split: prod.splits)

lemma RevokeDelegation_bytes: "keeps_bytes lm (snd (lm_RevokeDelegation h d lm))"
  using removeMatching_bytes [of lm h False "is_delegation_id d"] by (auto simp: lm_RevokeDelegation_def split: prod.splits)

lemma scanDelegations_bytes: "keeps_bytes lm (scanExpiredDelegationRecalls hs now t lm)"
  unfolding scanExpiredDelegationRecalls_def using RevokeDelegation_bytes by (auto intro!: fold_bytes split: prod.splits)

lemma scan_bytes: "keeps_bytes lm (snd (scanExpiredLeaseBreaks now t pls lm))"
proof (induction pls arbitrary: lm)
  case (Cons pl pls)
  have one: "keeps_bytes lm (revokeTimedOutLease h k (lm\<lparr>lmStore := s\<rparr>))" for h k s
    using keeps_bytes_trans [OF keeps_bytes_frame [of "lm\<lparr>lmStore := s\<rparr>" lm] removeMatching_bytes] by (simp add: revokeTimedOutLease_def)
  have rest: "keeps_bytes lm lm'" if "scanExpiredLeaseBreaks now t pls (revokeTimedOutLease h k (lm\<lparr>lmStore := st\<rparr>)) = (ks, lm')" for h k st ks lm'
    using keeps_bytes_trans [OF one [of h k st] Cons.IH] that by (metis snd_conv)
  show ?case using Cons.IH by (auto simp: Let_def split: option.splits prod.splits intro: rest)
qed simp

section \<open>The state machine\<close>

text \<open>One critical section of the manager, with the cache of recently broken files.  A lease request is two
  sections, for the code releases the mutex while it notifies a holder; a lease key is granted on one file
  only, as clients draw keys at random.  Registering a waiter, waking waiters and completing breaks after a
  timeout are the sections of the wait functions.  \<open>ReclaimLock\<close> and the lease reclaim of the grace
  period are not steps.\<close>

inductive manager_step :: "Manager \<times> recentlyBrokenCache \<Rightarrow> Manager \<times> recentlyBrokenCache \<Rightarrow> bool" where
  "Lock uuid now lm h lock = (e, lm') \<Longrightarrow> fl_ok lock \<Longrightarrow> flOpenID lock = [] \<longrightarrow> \<not> flIsZeroByte lock \<Longrightarrow> manager_step (lm, rb) (lm', rb)"
| "Unlock lm h openID sid off len = (e, ns, lm') \<Longrightarrow> manager_step (lm, rb) (lm', rb)"
| "UnlockAllForOpen lm h openID = (n, ns, lm') \<Longrightarrow> manager_step (lm, rb) (lm', rb)"
| "UnlockAllForSession lm h sid = (n, ns, lm') \<Longrightarrow> manager_step (lm, rb) (lm', rb)"
| "RemoveFileLocks lm h = lm' \<Longrightarrow> manager_step (lm, rb) (lm', rb)"
| "AddUnifiedLock now lm h ul = (e, lm') \<Longrightarrow> ul_ok ul \<Longrightarrow> owner_kinds_ok lm h ul \<Longrightarrow> ulLease ul = None \<Longrightarrow> manager_step (lm, rb) (lm', rb)"
| "RemoveUnifiedLock gen lm h owner off len = (e, lm') \<Longrightarrow> manager_step (lm, rb) (lm', rb)"
| "UpgradeLock lm h owner off len = (r, lm') \<Longrightarrow> upgrade_ok lm h owner off len \<Longrightarrow> manager_step (lm, rb) (lm', rb)"
| "RemoveFileUnifiedLocks lm h = lm' \<Longrightarrow> manager_step (lm, rb) (lm', rb)"
| "RemoveAllLocks lm h = lm' \<Longrightarrow> manager_step (lm, rb) (lm', rb)"
| "RemoveClientLocks lm c = lm' \<Longrightarrow> manager_step (lm, rb) (lm', rb)"
| "ReleaseByOwnerPrefix keys lm p = (n, lm') \<Longrightarrow> manager_step (lm, rb) (lm', rb)"
| "SetLeaseEpoch keys lm k ep = (b, lm') \<Longrightarrow> manager_step (lm, rb) (lm', rb)"
| "CheckAndBreakLeasesForSMBOpen now h ex lm = (nts, lm') \<Longrightarrow> manager_step (lm, rb) (lm', rb)"
| "BreakLeasesForByteRangeLock now h ex lm = (nts, lm') \<Longrightarrow> manager_step (lm, rb) (lm', rb)"
| "BreakLeasesOnOpenConflict now h ex reason lm = (nts, lm') \<Longrightarrow> manager_step (lm, rb) (lm', rb)"
| "BreakReadLeasesForParentDir now h ex lm = (nts, lm') \<Longrightarrow> manager_step (lm, rb) (lm', rb)"
| "CheckAndBreakCachingForWrite now h ex s = (out, s') \<Longrightarrow> manager_step s s'"
| "CheckAndBreakCachingForRead now h ex s = (out, s') \<Longrightarrow> manager_step s s'"
| "CheckAndBreakCachingForDelete now h ex s = (out, s') \<Longrightarrow> manager_step s s'"
| "OnDirChange now h ct origin ek he s = (out, s') \<Longrightarrow> manager_step s s'"
| "lm_GrantDelegation now h d s = (de, s') \<Longrightarrow> manager_step s s'"
| "lm_RevokeDelegation h did lm = (de, lm') \<Longrightarrow> manager_step (lm, rb) (lm', rb)"
| "lm_ReturnDelegation h did lm = lm' \<Longrightarrow> manager_step (lm, rb) (lm', rb)"
| "request_begin now ce hs h K c req dir sp s = (stp, s') \<Longrightarrow> manager_step s s'"
| "request_grant uuid now h K pk owner req dir trad lm = (res, lm') \<Longrightarrow>
     (\<And>h' a. h' \<noteq> h \<Longrightarrow> a \<in> leases lm h' \<Longrightarrow> olLeaseKey a \<noteq> K) \<Longrightarrow> manager_step (lm, rb) (lm', rb)"
| "acknowledgeLeaseBreakImpl now (\<lambda>lm. lm) K st ep lm = (ae, nts, lm') \<Longrightarrow> manager_step (lm, rb) (lm', rb)"
| "releaseLeaseImpl hs K lm = lm' \<Longrightarrow> manager_step (lm, rb) (lm', rb)"
| "releaseLeaseForHandleImpl ce h K lm = (failed, lm') \<Longrightarrow> manager_step (lm, rb) (lm', rb)"
| "wait_poll relevant h lm = (ok, lm') \<Longrightarrow> manager_step (lm, rb) (lm', rb)"
| "forceCompleteBreaksExceptKey h K lm = lm' \<Longrightarrow> manager_step (lm, rb) (lm', rb)"
| "signalBreakWaitLocked h lm = lm' \<Longrightarrow> manager_step (lm, rb) (lm', rb)"
| "scanExpiredLeaseBreaks now t pls lm = (ks, lm') \<Longrightarrow> manager_step (lm, rb) (lm', rb)"
| "scanExpiredDelegationRecalls hs now t lm = lm' \<Longrightarrow> manager_step (lm, rb) (lm', rb)"

inductive manager_run :: "Manager \<times> recentlyBrokenCache \<Rightarrow> bool" where
  start: "manager_run (newBaseManager\<lparr>lmStore := store, lmEpoch := epoch, lmShareName := share\<rparr>, newRecentlyBrokenCache ttl)"
| step: "manager_run s \<Longrightarrow> manager_step s s' \<Longrightarrow> manager_run s'"

definition manager_inv :: "Manager \<Rightarrow> bool" where
  "manager_inv lm \<longleftrightarrow> safe lm \<and> coherent lm \<and> key_files lm"

lemma manager_inv_shrink: "safe lm' \<Longrightarrow> rights_shrink lm lm' \<Longrightarrow> manager_inv lm \<Longrightarrow> manager_inv lm'"
  using rights_shrink_coherent rights_shrink_key_files unfolding manager_inv_def by blast

lemma manager_inv_caching: "keeps_bytes lm lm' \<Longrightarrow> rights_shrink lm lm' \<Longrightarrow> manager_inv lm \<Longrightarrow> manager_inv lm'"
  using manager_inv_shrink keeps_bytes_safe unfolding manager_inv_def by blast

lemma manager_inv_release: "shrinks lm lm' \<Longrightarrow> rights_shrink lm lm' \<Longrightarrow> manager_inv lm \<Longrightarrow> manager_inv lm'"
  using manager_inv_shrink shrinks_safe unfolding manager_inv_def by blast

lemma manager_inv_break:
  "breakOpLocks now h ex s r sb lm = (nts, lm') \<Longrightarrow> break_ok s sb \<Longrightarrow> manager_inv lm \<Longrightarrow> manager_inv lm'"
  using manager_inv_caching [OF breakOpLocks_bytes breakOpLocks_shrinks(1)] .

lemma manager_inv_recall: "breakDelegations now h ex sb (lm, rb) = (rc, lm', rb') \<Longrightarrow> manager_inv lm \<Longrightarrow> manager_inv lm'"
  using manager_inv_caching [OF breakDelegations_bytes breakDelegations_shrinks(1)] .

lemma request_grant_leases:
  assumes "request_grant uuid now h K pk owner req dir trad lm = (res, lm')" and "a \<in> leases lm' h'"
  shows "a \<in> leases lm h' \<or> h' = h \<and> olLeaseKey a = K"
proof -
  have "lm' = lm \<or> (\<exists>g. lm' = createAndGrantLease uuid now h K pk owner g dir trad lm)"
    using assms(1) unfolding request_grant_def Let_def by (auto split: if_splits)
  then show ?thesis
    using assms(2) by (auto simp: createAndGrantLease_def leases_def Let_def lease_with_def split: if_splits)
qed

lemma key_files_grant:
  assumes "request_grant uuid now h K pk owner req dir trad lm = (res, lm')" and "key_files lm"
    and "\<And>h' a. h' \<noteq> h \<Longrightarrow> a \<in> leases lm h' \<Longrightarrow> olLeaseKey a \<noteq> K"
  shows "key_files lm'"
  unfolding key_files_def
proof (intro allI ballI impI)
  fix h1 h2 a b assume "a \<in> leases lm' h1" "b \<in> leases lm' h2" "olLeaseKey a = olLeaseKey b"
  then show "h1 = h2" using request_grant_leases [OF assms(1)] assms(3) key_filesD [OF assms(2)] by metis
qed

lemma same_key_files:
  assumes "same_key_request i h K req lm = (stp, lm')" and "i < length (uls lm h)" and "has_lease_key K (uls lm h ! i)" and "key_files lm"
  shows "key_files lm'"
proof -
  obtain lease where lease: "ulLease (uls lm h ! i) = Some lease" "olLeaseKey lease = K"
    using assms(3) by (auto simp: has_lease_key_def split: option.splits)
  let ?l = "set_lease (advanceEpoch (lease\<lparr>olLeaseState := req\<rparr>)) (uls lm h ! i)"
  have "lm' = lm \<or> lm' = persistUnifiedLockLocked ?l (update_bucket h ((uls lm h)[i := ?l]) lm)"
    using arg_cong [OF assms(1), of snd] unfolding same_key_request_def Let_def lease(1) option.case by (simp split: if_splits)
  then have sub: "a \<in> leases lm h' \<or> h' = h \<and> olLeaseKey a = K" if "a \<in> leases lm' h'" for a h'
    using that leases_record [OF assms(2), of ?l h'] lease(2) leases_unified [of "persistUnifiedLockLocked ?l (update_bucket h ((uls lm h)[i := ?l]) lm)"
        "update_bucket h ((uls lm h)[i := ?l]) lm"] by (auto simp: set_lease_def advanceEpoch_def split: if_splits)
  have "lease \<in> leases lm h" using leases_nth [OF assms(2) lease(1)] .
  then show ?thesis unfolding key_files_def using sub key_filesD [OF assms(4)] lease(2) by metis
qed

lemma request_begin_inv:
  assumes "request_begin now ce hs h K c req dir sp (lm, rb) = (stp, lm', rb')" and "manager_inv lm"
  shows "manager_inv lm'"
proof -
  have "key_files lm'" using assms(1)
  proof (cases rule: request_begin_cases)
    case (key i req')
    then show ?thesis using same_key_files find_index_Some assms(2) unfolding manager_inv_def by blast
  next
    case (cross req')
    then show ?thesis using cross_key_shrinks(1) rights_shrink_key_files assms(2) unfolding manager_inv_def by blast
  qed (use assms(2) manager_inv_def in simp)
  then show ?thesis using assms(2) request_begin_coherent [OF assms(1)] keeps_bytes_safe [OF request_begin_bytes [OF assms(1)]]
    unfolding manager_inv_def by blast
qed

lemma manager_step_inv: "manager_step s s' \<Longrightarrow> manager_inv (fst s) \<Longrightarrow> manager_inv (fst s')"
proof (induction rule: manager_step.induct)
  case (1 uuid now lm h lock e lm' rb)
  then show ?case using manager_inv_shrink [OF Lock_safe [OF _ 1(2,3,1)] Lock_shrinks_rights [OF 1(1)]] by (simp add: manager_inv_def)
next
  case (6 now lm h ul e lm' rb)
  then show ?case using manager_inv_shrink [OF AddUnifiedLock_safe [OF _ 6(2,3,1)] AddUnifiedLock_shrinks_rights [OF 6(1,4)]] by (simp add: manager_inv_def)
next
  case (8 lm h owner off len r lm' rb)
  then show ?case using manager_inv_shrink [OF UpgradeLock_safe [OF _ 8(2,1)] UpgradeLock_shrinks_rights [OF 8(1)]] by (simp add: manager_inv_def)
next
  case (12 keys lm p n lm' rb)
  then show ?case using manager_inv_release [OF ReleaseByOwnerPrefix_shrinks ReleaseByOwnerPrefix_shrinks_rights, of lm keys p] by simp
next
  case (13 keys lm k ep b lm' rb)
  then show ?case using manager_inv_release [OF SetLeaseEpoch_shrinks SetLeaseEpoch_shrinks_rights, of lm keys k ep] by simp
next
  case (26 uuid now h K pk owner req dir trad lm res lm' rb)
  then show ?case using request_grant_coherent [OF 26(1)] key_files_grant [OF 26(1)] keeps_bytes_safe [OF request_grant_bytes [OF 26(1)]]
    unfolding manager_inv_def by auto
next
  case (27 now K st ep lm ae nts lm' rb)
  then show ?case using manager_inv_caching [OF acknowledge_bytes [OF 27(1)] acknowledge_shrinks [OF 27(1)]] by (simp add: manager_inv_def)
next
  case (18 now h ex s out s')
  obtain lm rb lm' rb' where [simp]: "s = (lm, rb)" "s' = (lm', rb')" by (metis surj_pair)
  show ?case using 18 Caching_split(1) [of now h ex lm rb out lm' rb'] manager_inv_break [OF _ break_ok_none] manager_inv_recall by fastforce
next
  case (19 now h ex s out s')
  obtain lm rb lm' rb' where [simp]: "s = (lm, rb)" "s' = (lm', rb')" by (metis surj_pair)
  show ?case using 19 Caching_split(2) [of now h ex lm rb out lm' rb'] manager_inv_break [OF _ break_ok_read] manager_inv_recall by fastforce
next
  case (20 now h ex s out s')
  obtain lm rb lm' rb' where [simp]: "s = (lm, rb)" "s' = (lm', rb')" by (metis surj_pair)
  show ?case using 20 Caching_split(3) [of now h ex lm rb out lm' rb'] manager_inv_break [OF _ break_ok_none] manager_inv_recall by fastforce
next
  case (21 now h ct origin ek he s out s')
  obtain lm rb lm' rb' where [simp]: "s = (lm, rb)" "s' = (lm', rb')" by (metis surj_pair)
  show ?case using 21 manager_inv_caching [OF OnDirChange_bytes OnDirChange_shrinks] by simp
next
  case (22 now h d s de s')
  obtain lm rb lm' rb' where [simp]: "s = (lm, rb)" "s' = (lm', rb')" by (metis surj_pair)
  show ?case using 22 manager_inv_caching [OF GrantDelegation_bytes GrantDelegation_shrinks(1)] by simp
next
  case (25 now ce hs h K c req dir sp s stp s')
  obtain lm rb lm' rb' where [simp]: "s = (lm, rb)" "s' = (lm', rb')" by (metis surj_pair)
  show ?case using 25 request_begin_inv by simp
next
  case (23 h did lm de lm' rb)
  then show ?case using manager_inv_caching [OF RevokeDelegation_bytes RevokeDelegation_shrinks, of lm h did] by simp
next
  case (29 ce h K lm failed lm' rb)
  then show ?case using manager_inv_caching [OF releaseForHandle_bytes releaseForHandle_shrinks, of lm ce h K] by simp
next
  case (30 relevant h lm ok lm' rb)
  then have "lmUnified lm' = lmUnified lm" "lmLocks lm' = lmLocks lm" by (auto simp: wait_poll_def split: if_splits)
  then show ?case using manager_inv_caching [OF keeps_bytes_frame rights_shrink_unified] 30 by simp
next
  case (32 h lm lm' rb)
  then show ?case using manager_inv_caching [of lm lm'] signal_shrinks [of lm lm h] by auto
next
  case (33 now t pls lm ks lm' rb)
  then show ?case using manager_inv_caching [OF scan_bytes scan_shrinks, of lm now t pls] by simp
qed (use manager_inv_release [OF Unlock_shrinks rights_shrink_unified [OF Unlock_unified]]
    manager_inv_release [OF UnlockAllForOpen_shrinks rights_shrink_unified [OF UnlockAllForOpen_unified]]
    manager_inv_release [OF UnlockAllForSession_shrinks rights_shrink_unified [OF UnlockAllForSession_unified]]
    manager_inv_release [OF RemoveFileLocks_shrinks rights_shrink_unified [OF RemoveFileLocks_unified]]
    manager_inv_release [OF RemoveUnifiedLock_shrinks RemoveUnifiedLock_shrinks_rights]
    manager_inv_release [OF RemoveFileUnifiedLocks_shrinks cleanup_shrinks_rights(1)]
    manager_inv_release [OF RemoveAllLocks_shrinks cleanup_shrinks_rights(2)]
    manager_inv_release [OF RemoveClientLocks_shrinks RemoveClientLocks_shrinks_rights]
    manager_inv_caching [OF ReturnDelegation_bytes ReturnDelegation_shrinks]
    manager_inv_caching [OF releaseLease_bytes releaseLease_shrinks]
    manager_inv_caching [OF forceComplete_bytes forceComplete_shrinks]
    manager_inv_caching [OF scanDelegations_bytes scanDelegations_shrinks]
    manager_inv_break [OF _ break_ok_none] manager_inv_break [OF _ break_ok_strip(1)] manager_inv_break [OF _ break_ok_reason] in
    \<open>force simp: CheckAndBreakLeasesForSMBOpen_def BreakLeasesForByteRangeLock_def BreakLeasesOnOpenConflict_def BreakReadLeasesForParentDir_def\<close>)+

lemma manager_run_inv: "manager_run s \<Longrightarrow> manager_inv (fst s)"
proof (induction rule: manager_run.induct)
  case (start store epoch share ttl)
  show ?case by (simp add: manager_inv_def safe_def exclusive_ok_def ranges_ok_def byte_holders_def coherent_def key_files_def leases_def newBaseManager_def)
qed (rule manager_step_inv)

section \<open>Waiting\<close>

definition ends_wait :: "wait_event \<Rightarrow> bool" where
  "ends_wait e = (case e of Woken _ \<Rightarrow> False | _ \<Rightarrow> True)"

lemma wait_loop_returns: "list_ex ends_wait events \<Longrightarrow> wait_loop rel dn h events lm \<noteq> None"
proof (induction events arbitrary: lm)
  case (Cons e events)
  then show ?case by (subst wait_loop.simps) (auto simp: ends_wait_def split: wait_event.splits prod.splits)
qed simp

lemma wait_loop_result:
  "wait_loop rel dn h events lm = Some (err, lm') \<Longrightarrow>
     (case err of None \<Rightarrow> \<not> list_ex rel (uls lm' h) | Some e \<Rightarrow> \<exists>lm0. lm' = dn e lm0)"
proof (induction events arbitrary: lm)
  case Nil
  then show ?case by (subst (asm) wait_loop.simps) (auto simp: wait_poll_def split: if_splits)
next
  case (Cons e events)
  then show ?case
    by (subst (asm) wait_loop.simps) (auto simp: wait_poll_def split: if_splits wait_event.splits)
qed

lemma forceComplete_ends:
  assumes "l \<in> set (uls (forceCompleteBreaksExceptKey h k lm) h)"
  shows "\<not> lease_breaking_except k l"
proof -
  let ?f = "\<lambda>l. if lease_breaking_except k l then force_lock l else l"
  have "lmUnified (forceCompleteBreaksExceptKey h k lm) = lmUnified (update_bucket h (map ?f (uls lm h)) lm)"
    by (simp add: forceCompleteBreaksExceptKey_def Let_def)
  then have "l \<in> set (map ?f (uls lm h))"
    using assms update_bucket_uls [of "map ?f (uls lm h)" lm h h] by simp
  then show ?thesis by (auto simp: lease_breaking_except_def force_lock_def force_none_def split: option.splits)
qed

section \<open>Properties\<close>


definition ex_key :: "char \<Rightarrow> lease_key" where
  "ex_key c = replicate 16 (of_char c)"

definition ex_owner :: "string \<Rightarrow> LockOwner" where
  "ex_owner c = plain_owner c c ''share''"

definition read_leased :: Manager where
  "read_leased = snd (request_grant ''u1'' 10 ''f'' (ex_key CHR ''A'') zero_key (ex_owner ''A'') LeaseStateRead False False newBaseManager)"

definition read_broken :: Manager where
  "read_broken = snd (BreakLeasesForByteRangeLock 20 ''f'' None read_leased)"

definition both_leased :: Manager where
  "both_leased = snd (request_grant ''u2'' 30 ''f'' (ex_key CHR ''B'') zero_key (ex_owner ''B'') (LeaseStateRead OR LeaseStateWrite) False False read_broken)"

definition write_leased :: "Manager \<times> recentlyBrokenCache" where
  "write_leased = snd (request_begin 40 False [''f''] ''f'' (ex_key CHR ''B'') ''B'' (LeaseStateRead OR LeaseStateWrite) False False
     (both_leased, newRecentlyBrokenCache 5))"

lemma ex_guards: "Option.is_none (lmStore both_leased)" "Option.is_none (lmLocks both_leased ''f'')" "\<not> hasLeaseKeyOnOtherFile [''f''] (ex_key CHR ''B'') ''f'' ''B'' both_leased"
  "\<not> list_ex (\<lambda>l. DelegationConflictsWithLease (ulDelegation l) (Some (lease_with zero_key 5))) (uls both_leased ''f'')"
  "find_index (has_lease_key (ex_key CHR ''B'')) (uls both_leased ''f'') = Some 1"
  by code_simp+

lemma write_leased_eq: "fst write_leased = snd (same_key_request 1 ''f'' (ex_key CHR ''B'') 5 both_leased)"
proof -
  have "lmStore both_leased = None" "fls both_leased ''f'' = []" using ex_guards(1,2) by (simp_all add: Option.is_none_def bucket_def)
  then have "\<not> hasPersistedLeaseKeyOnOtherFile False (ex_key CHR ''B'') ''f'' ''B'' both_leased"
    "\<not> hasByteRangeLockConflictForLease False ''f'' 5 both_leased"
    by (simp_all add: hasPersistedLeaseKeyOnOtherFile_def hasByteRangeLockConflictForLease_def CheckNLMLocksForLeaseConflict_def)
  then show ?thesis using ex_guards(3-5) by (simp add: write_leased_def request_begin_def Let_def split: prod.splits)
qed

lemma ex_leases: "map (map_option (\<lambda>a. (olLeaseKey a, effective_state a)) o ulLease) (uls (fst write_leased) ''f'')
    = [Some (ex_key CHR ''A'', 0), Some (ex_key CHR ''B'', 5)]"
  unfolding write_leased_eq by code_simp

lemma ex_run: "manager_run write_leased"
proof -
  let ?rb = "newRecentlyBrokenCache 5"
  have "manager_run (newBaseManager\<lparr>lmStore := None, lmEpoch := 0, lmShareName := []\<rparr>, ?rb)" by (rule manager_run.start)
  then have start: "manager_run (newBaseManager, ?rb)" by (simp add: newBaseManager_def)
  have none: "leases newBaseManager h = {}" for h by (simp add: leases_def newBaseManager_def)
  have A: "h' = ''f''" if "a \<in> leases read_leased h'" for a h'
    using request_grant_leases [OF surjective_pairing that [unfolded read_leased_def]] none by blast
  have sh: "rights_shrink read_leased read_broken"
    unfolding read_broken_def BreakLeasesForByteRangeLock_def by (rule breakOpLocks_shrinks(1) [OF surjective_pairing break_ok_none])
  have B: "h' = ''f''" if "a \<in> leases read_broken h'" for a h'
    using sh A that unfolding rights_shrink_def no_more_rights_def by metis
  have "manager_step (newBaseManager, ?rb) (read_leased, ?rb)"
    unfolding read_leased_def by (rule manager_step.intros(26) [OF surjective_pairing]) (simp add: none)
  moreover have "manager_step (read_leased, ?rb) (read_broken, ?rb)"
    unfolding read_broken_def by (rule manager_step.intros(15) [OF surjective_pairing])
  moreover have "manager_step (read_broken, ?rb) (both_leased, ?rb)"
    unfolding both_leased_def by (rule manager_step.intros(26) [OF surjective_pairing]) (use B in auto)
  moreover have "manager_step (both_leased, ?rb) write_leased"
    unfolding write_leased_def by (rule manager_step.intros(25) [OF surjective_pairing])
  ultimately show ?thesis using start manager_run.step by meson
qed




text \<open>C31: Waiting for a break ends: once the deadline of the wait passes or its context is cancelled it
  returns, however often it was woken before, and whenever it returns no lease of the file is in the middle
  of a break any more; without an error no delegation recall is pending either.  A lease with the all-zero
  key is the exception, which the timeout leaves breaking.\<close>

theorem break_wait_completes:
  assumes "list_ex ends_wait events"
  shows "\<exists>err lm'. WaitForBreakCompletion events h lm = Some (err, lm')
     \<and> (\<forall>l \<in> set (uls lm' h). \<forall>a. ulLease l = Some a \<longrightarrow> olBreaking a \<longrightarrow> err \<noteq> None \<and> olLeaseKey a = zero_key)
     \<and> (err = None \<longrightarrow> \<not> hasBreakingLeaseLocked h lm')"
proof -
  obtain err lm' where run: "WaitForBreakCompletion events h lm = Some (err, lm')"
    using wait_loop_returns [OF assms] by (fastforce simp: WaitForBreakCompletion_def)
  note r = wait_loop_result [OF run [unfolded WaitForBreakCompletion_def]]
  show ?thesis
  proof (cases err)
    case None
    then show ?thesis using run r by (auto simp: list_ex_iff lease_breaking_def hasBreakingLeaseLocked_def)
  next
    case (Some e)
    then obtain lm0 where "lm' = forceCompleteBreaksExceptKey h zero_key lm0" using r by (auto simp: forceCompleteBreaks_def)
    then show ?thesis using run Some forceComplete_ends [of _ h zero_key lm0] by (fastforce simp: lease_breaking_except_def)
  qed
qed

definition write_breaking :: Manager where
  "write_breaking = snd (BreakLeasesForByteRangeLock 20 ''f'' None
     (snd (request_grant ''u1'' 10 ''f'' (ex_key CHR ''A'') zero_key (ex_owner ''A'') (LeaseStateRead OR LeaseStateWrite) False False newBaseManager)))"

theorem break_wait_completes_witness:
  "hasBreakingLeaseLocked ''f'' write_breaking
   \<and> (\<exists>err lm'. WaitForBreakCompletion [Woken write_breaking, Deadline False write_breaking] ''f'' write_breaking = Some (err, lm')
     \<and> (\<forall>l \<in> set (uls lm' ''f''). \<forall>a. ulLease l = Some a \<longrightarrow> olBreaking a \<longrightarrow> err \<noteq> None \<and> olLeaseKey a = zero_key)
     \<and> (err = None \<longrightarrow> \<not> hasBreakingLeaseLocked ''f'' lm'))"
proof
  show "hasBreakingLeaseLocked ''f'' write_breaking" by code_simp
  show "\<exists>err lm'. WaitForBreakCompletion [Woken write_breaking, Deadline False write_breaking] ''f'' write_breaking = Some (err, lm')
     \<and> (\<forall>l \<in> set (uls lm' ''f''). \<forall>a. ulLease l = Some a \<longrightarrow> olBreaking a \<longrightarrow> err \<noteq> None \<and> olLeaseKey a = zero_key)
     \<and> (err = None \<longrightarrow> \<not> hasBreakingLeaseLocked ''f'' lm')"
    by (rule break_wait_completes) (simp add: ends_wait_def)
qed

end
