(* ===== verification/Deadlock.thy ===== *)
theory Deadlock
  imports Lock_Safety
begin

text \<open>
  Deadlock detection for blocking locks: the wait-for graph
  (\<open>pkg/metadata/lock/deadlock.go\<close>) and the part of the SMB handler that feeds it
  (\<open>internal/adapter/smb/handlers/lock_async.go\<close>).  A Go map of sets is an association list
  with distinct keys; the order of the list stands for the unspecified order in which Go visits the
  map, and the theorems hold for every order.
\<close>

type_synonym WaitForGraph = "(string \<times> string list) list"

section \<open>The graph\<close>

definition NewWaitForGraph :: WaitForGraph where
  "NewWaitForGraph = []"

text \<open>The owners a search has not visited yet bound its depth.\<close>

definition unvisited :: "WaitForGraph \<Rightarrow> string list \<Rightarrow> nat" where
  "unvisited g v = card (fst ` set g - set v)"

lemma unvisited_mono: "set v \<subseteq> set v' \<Longrightarrow> unvisited g v' \<le> unvisited g v"
  unfolding unvisited_def by (intro card_mono) auto

lemma unvisited_less:
  assumes "map_of g from = Some ws" and "from \<notin> set v"
  shows "unvisited g (from # v) < unvisited g v"
  unfolding unvisited_def
proof (rule psubset_card_mono)
  have "from \<in> fst ` set g" using map_of_SomeD [OF assms(1)] by force
  with assms(2) show "fst ` set g - set (from # v) \<subset> fst ` set g - set v" by auto
qed simp

text \<open>\<open>canReach\<close>; the loop over a wait set is \<open>canReachAny\<close>.  The visited set is shared
  by the recursive calls, so it is threaded through them.\<close>

function canReach :: "WaitForGraph \<Rightarrow> string \<Rightarrow> string \<Rightarrow> string list \<Rightarrow> bool \<times> string list"
  and canReachAny :: "WaitForGraph \<Rightarrow> string \<Rightarrow> string list \<Rightarrow> string list \<Rightarrow> bool \<times> string list" where
  "canReach g to from visited =
     (if from \<in> set visited then (False, visited)
      else (let visited = from # visited in
            case map_of g from of
              None \<Rightarrow> (False, visited)
            | Some waitSet \<Rightarrow>
                if to \<in> set waitSet then (True, visited) else canReachAny g to waitSet visited))"
| "canReachAny g to [] visited = (False, visited)"
| "canReachAny g to (waitingFor # rest) visited =
     (let (found, visited) = canReach g to waitingFor visited
      in if found then (True, visited) else canReachAny g to rest visited)"
  by pat_completeness auto

termination
proof -
  have grows:
    "canReach_canReachAny_dom (Inl (g, to, src, v)) \<Longrightarrow> set v \<subseteq> set (snd (canReach g to src v))"
    "canReach_canReachAny_dom (Inr (g, to, ws, v)) \<Longrightarrow> set v \<subseteq> set (snd (canReachAny g to ws v))"
    for g to src ws v
    by (induction rule: canReach_canReachAny.pinduct)
      (auto simp: canReach.psimps canReachAny.psimps Let_def split: option.splits prod.splits, blast)
  have shrinks: "unvisited g v' < unvisited g v \<or> unvisited g v' = unvisited g v"
    if "canReach_canReachAny_dom (Inl (g, to, src, v))" and "(b, v') = canReach g to src v" for g to src v b v'
    using unvisited_mono [OF grows(1) [OF that(1)], of g] that(2) by (metis order_le_less snd_conv)
  show ?thesis
    by (relation "inv_image (less_than <*lex*> less_than)
      (\<lambda>x. case x of Inl (g, to, src, v) \<Rightarrow> (unvisited g v, 0)
                   | Inr (g, to, ws, v) \<Rightarrow> (unvisited g v, Suc (length ws)))")
      (auto simp: unvisited_less dest: shrinks)
qed

definition WouldCauseCycle :: "WaitForGraph \<Rightarrow> string \<Rightarrow> string list \<Rightarrow> bool" where
  "WouldCauseCycle g waiter owners = list_ex (\<lambda>owner. fst (canReach g waiter owner [])) owners"

definition AddWaiter :: "WaitForGraph \<Rightarrow> string \<Rightarrow> string list \<Rightarrow> WaitForGraph" where
  "AddWaiter g waiter owners =
     (if owners = [] then g
      else (let waitSet = (case map_of g waiter of None \<Rightarrow> [] | Some ws \<Rightarrow> ws)
            in AList.update waiter (fold List.insert owners waitSet) g))"

definition RemoveWaiter :: "WaitForGraph \<Rightarrow> string \<Rightarrow> WaitForGraph" where
  "RemoveWaiter g waiter = AList.delete waiter g"

definition RemoveOwner :: "WaitForGraph \<Rightarrow> string \<Rightarrow> WaitForGraph" where
  "RemoveOwner g owner =
     AList.delete owner (filter (\<lambda>(w, ws). ws \<noteq> []) (map (\<lambda>(w, ws). (w, removeAll owner ws)) g))"

definition GetWaitersFor :: "WaitForGraph \<Rightarrow> string \<Rightarrow> string list" where
  "GetWaitersFor g owner = map fst (filter (\<lambda>(w, ws). owner \<in> set ws) g)"

definition Size :: "WaitForGraph \<Rightarrow> nat" where
  "Size g = length g"

section \<open>Parking a blocking lock (lock_async.go)\<close>

definition lockOwnerOf :: "FileLock \<Rightarrow> string" where
  "lockOwnerOf fl = (if flOpenID fl \<noteq> [] then flOpenID fl else ''session:'' @ show_nat (unat (flSessionID fl)))"

fun holders_loop :: "FileLock \<Rightarrow> FileLock list \<Rightarrow> string list \<Rightarrow> string list" where
  "holders_loop fileLock [] owners = owners"
| "holders_loop fileLock (existing # rest) owners =
     (if \<not> IsLockConflicting existing fileLock then holders_loop fileLock rest owners
      else (let owner = lockOwnerOf existing in
            if owner = [] \<or> owner = flOpenID fileLock then holders_loop fileLock rest owners
            else if owner \<in> set owners then holders_loop fileLock rest owners
            else holders_loop fileLock rest (owners @ [owner])))"

definition conflictHolders :: "Manager \<Rightarrow> string \<Rightarrow> FileLock \<Rightarrow> string list" where
  "conflictHolders lm handleKey fileLock = holders_loop fileLock (ListLocks lm handleKey) []"

text \<open>The wait-for-graph part of \<open>parkLockOnConflict\<close>: \<open>None\<close> is the refusal to
  park.  The check and the registration are two critical sections.\<close>

definition park_check :: "WaitForGraph \<Rightarrow> FileLock \<Rightarrow> string list \<Rightarrow> bool" where
  "park_check g fileLock owners \<longleftrightarrow> \<not> (owners \<noteq> [] \<and> WouldCauseCycle g (flOpenID fileLock) owners)"

definition park_register :: "WaitForGraph \<Rightarrow> FileLock \<Rightarrow> string list \<Rightarrow> WaitForGraph" where
  "park_register g fileLock owners = (if owners \<noteq> [] then AddWaiter g (flOpenID fileLock) owners else g)"

definition park :: "WaitForGraph \<Rightarrow> Manager \<Rightarrow> string \<Rightarrow> FileLock \<Rightarrow> WaitForGraph option" where
  "park g lm handleKey fileLock =
     (let owners = conflictHolders lm handleKey fileLock
      in if park_check g fileLock owners then Some (park_register g fileLock owners) else None)"

section \<open>Search is reachability\<close>

definition wait_edges :: "WaitForGraph \<Rightarrow> (string \<times> string) set" where
  "wait_edges g = {(a, b). \<exists>ws. map_of g a = Some ws \<and> b \<in> set ws}"

lemma canReach_sound:
  "fst (canReach g to src v) \<Longrightarrow> (src, to) \<in> (wait_edges g)\<^sup>+"
  "fst (canReachAny g to ws v) \<Longrightarrow> \<exists>w \<in> set ws. (w, to) \<in> (wait_edges g)\<^sup>+"
proof (induction g to src v and g to ws v rule: canReach_canReachAny.induct)
  case (1 g to src visited)
  then obtain ws where ws: "map_of g src = Some ws" "src \<notin> set visited"
    by (auto simp: Let_def split: if_splits option.splits)
  show ?case
  proof (cases "to \<in> set ws")
    case True
    with ws show ?thesis by (auto simp: wait_edges_def)
  next
    case False
    with 1 ws obtain w where "w \<in> set ws" "(w, to) \<in> (wait_edges g)\<^sup>+" by (auto simp: Let_def)
    moreover from this ws have "(src, w) \<in> wait_edges g" by (auto simp: wait_edges_def)
    ultimately show ?thesis by (blast intro: trancl_into_trancl2)
  qed
qed (auto simp: Let_def split: prod.splits if_splits)

text \<open>A fruitless search leaves a visited set that is closed under the edges.\<close>

definition searched :: "WaitForGraph \<Rightarrow> string \<Rightarrow> string list \<Rightarrow> string list \<Rightarrow> bool" where
  "searched g to v v' \<longleftrightarrow> set v \<subseteq> set v' \<and>
     (\<forall>x y. x \<in> set v' - set v \<longrightarrow> (x, y) \<in> wait_edges g \<longrightarrow> y \<in> set v' \<and> y \<noteq> to)"

lemma searched_trans: "searched g to a b \<Longrightarrow> searched g to b c \<Longrightarrow> searched g to a c"
  unfolding searched_def by blast

lemma canReach_complete:
  "\<not> fst (canReach g to src v) \<Longrightarrow> searched g to v (snd (canReach g to src v)) \<and> src \<in> set (snd (canReach g to src v))"
  "\<not> fst (canReachAny g to ws v) \<Longrightarrow> searched g to v (snd (canReachAny g to ws v)) \<and> set ws \<subseteq> set (snd (canReachAny g to ws v))"
proof (induction g to src v and g to ws v rule: canReach_canReachAny.induct)
  case (1 g to src visited)
  show ?case
  proof (cases "src \<in> set visited \<or> map_of g src = None")
    case True
    then show ?thesis by (auto simp: searched_def Let_def wait_edges_def)
  next
    case False
    then obtain ws where ws: "map_of g src = Some ws" "src \<notin> set visited" by auto
    let ?V = "set (snd (canReachAny g to ws (src # visited)))"
    from 1 ws have rec: "searched g to (src # visited) (snd (canReachAny g to ws (src # visited)))"
      "set ws \<subseteq> ?V" "to \<notin> set ws"
      by (auto simp: Let_def split: if_splits)
    have E: "(src, y) \<in> wait_edges g \<longleftrightarrow> y \<in> set ws" for y
      using ws by (simp add: wait_edges_def)
    have sub: "src \<in> ?V" "set visited \<subseteq> ?V"
      and step: "x \<in> ?V \<Longrightarrow> x \<noteq> src \<Longrightarrow> x \<notin> set visited \<Longrightarrow> (x, y) \<in> wait_edges g \<Longrightarrow> y \<in> ?V \<and> y \<noteq> to" for x y
      using rec(1) by (auto simp: searched_def)
    have "y \<in> ?V \<and> y \<noteq> to" if "x \<in> ?V - set visited" "(x, y) \<in> wait_edges g" for x y
      using that step [of x y] E [of y] rec(2,3) by (cases "x = src") auto
    with sub have "searched g to visited (snd (canReachAny g to ws (src # visited)))" "src \<in> ?V"
      by (auto simp: searched_def)
    with ws rec(3) show ?thesis by (simp add: Let_def)
  qed
next
  case (3 g to waitingFor rest visited)
  obtain found v1 where first: "canReach g to waitingFor visited = (found, v1)" by force
  with 3 have "\<not> found" "\<not> fst (canReachAny g to rest v1)" by (auto simp: Let_def split: if_splits)
  with 3 first have "searched g to visited v1" "waitingFor \<in> set v1"
    "searched g to v1 (snd (canReachAny g to rest v1))" "set rest \<subseteq> set (snd (canReachAny g to rest v1))"
    by auto
  with first \<open>\<not> found\<close> show ?case
    by (auto simp: Let_def intro: searched_trans) (auto simp: searched_def)
qed (simp add: searched_def)

lemma canReach_iff: "fst (canReach g to src []) \<longleftrightarrow> (src, to) \<in> (wait_edges g)\<^sup>+"
proof
  assume reach: "(src, to) \<in> (wait_edges g)\<^sup>+"
  show "fst (canReach g to src [])"
  proof (rule ccontr)
    assume not: "\<not> fst (canReach g to src [])"
    let ?V = "set (snd (canReach g to src []))"
    from canReach_complete(1) [OF not] have closed: "src \<in> ?V"
      "\<And>x y. x \<in> ?V \<Longrightarrow> (x, y) \<in> wait_edges g \<Longrightarrow> y \<in> ?V \<and> y \<noteq> to"
      by (auto simp: searched_def)
    have "y \<in> ?V \<and> y \<noteq> to" if "(src, y) \<in> (wait_edges g)\<^sup>+" for y
      using that by (induction rule: trancl_induct) (use closed in blast)+
    with reach show False by blast
  qed
qed (rule canReach_sound)

declare canReach.simps [simp del]

section \<open>Cycles\<close>

lemma WouldCauseCycle_iff:
  "WouldCauseCycle g waiter owners \<longleftrightarrow> (\<exists>own \<in> set owners. (own, waiter) \<in> (wait_edges g)\<^sup>+)"
  by (simp add: WouldCauseCycle_def list_ex_iff canReach_iff)

lemma set_fold_insert: "set (fold List.insert xs ys) = set xs \<union> set ys"
  by (induction xs arbitrary: ys) auto

lemma wait_edges_AddWaiter: "wait_edges (AddWaiter g w owners) = wait_edges g \<union> {w} \<times> set owners"
proof (cases "owners = []")
  case False
  then have "map_of (AddWaiter g w owners) a = (if a = w then
      Some (fold List.insert owners (case map_of g w of None \<Rightarrow> [] | Some ws \<Rightarrow> ws)) else map_of g a)" for a
    by (simp add: AddWaiter_def Let_def update_conv')
  then show ?thesis
    by (auto simp: wait_edges_def set_fold_insert split: option.splits if_splits)
qed (simp add: AddWaiter_def)

lemma acyclic_add_source:
  assumes "acyclic E"
  shows "acyclic (E \<union> {w} \<times> A) \<longleftrightarrow> (\<forall>a \<in> A. (a, w) \<notin> E\<^sup>*)"
proof
  assume ac: "acyclic (E \<union> {w} \<times> A)"
  show "\<forall>a \<in> A. (a, w) \<notin> E\<^sup>*"
  proof (intro ballI notI)
    fix a assume "a \<in> A" "(a, w) \<in> E\<^sup>*"
    then have "(w, a) \<in> E \<union> {w} \<times> A" "(a, w) \<in> (E \<union> {w} \<times> A)\<^sup>*"
      using rtrancl_mono [of E "E \<union> {w} \<times> A"] by auto
    then have "(w, w) \<in> (E \<union> {w} \<times> A)\<^sup>+" by (rule rtrancl_into_trancl2)
    with ac show False by (simp add: acyclic_def)
  qed
next
  assume none: "\<forall>a \<in> A. (a, w) \<notin> E\<^sup>*"
  text \<open>A path in the larger graph that avoids returning to \<open>w\<close> stays in the old one.\<close>
  have path: "(x, y) \<in> E\<^sup>+ \<or> ((x, w) \<in> E\<^sup>* \<and> (\<exists>a \<in> A. (a, y) \<in> E\<^sup>*))"
    if "(x, y) \<in> (E \<union> {w} \<times> A)\<^sup>+" for x y
    using that
  proof (induction rule: trancl_induct)
    case (base y)
    then show ?case by auto
  next
    case (step y z)
    then show ?case
      by (auto dest: trancl_into_rtrancl intro: rtrancl_into_rtrancl trancl_into_trancl)
  qed
  show "acyclic (E \<union> {w} \<times> A)"
    unfolding acyclic_def
  proof (intro allI notI)
    fix x assume "(x, x) \<in> (E \<union> {w} \<times> A)\<^sup>+"
    then consider "(x, x) \<in> E\<^sup>+" | a where "(x, w) \<in> E\<^sup>*" "a \<in> A" "(a, x) \<in> E\<^sup>*"
      using path by blast
    then show False
    proof cases
      case 1
      with assms show ?thesis by (simp add: acyclic_def)
    next
      case 2
      then have "(a, w) \<in> E\<^sup>*" by (meson rtrancl_trans)
      with none 2 show ?thesis by blast
    qed
  qed
qed

lemma AddWaiter_acyclic_iff:
  assumes "acyclic (wait_edges g)"
  shows "acyclic (wait_edges (AddWaiter g w owners)) \<longleftrightarrow> \<not> WouldCauseCycle g w owners \<and> w \<notin> set owners"
  using acyclic_add_source [OF assms, of w "set owners"]
  by (auto simp: wait_edges_AddWaiter WouldCauseCycle_iff rtrancl_eq_or_trancl)

lemma wait_edges_RemoveWaiter: "wait_edges (RemoveWaiter g w) \<subseteq> wait_edges g"
  by (auto simp: wait_edges_def RemoveWaiter_def delete_conv' split: if_splits)

definition wfg_ok :: "WaitForGraph \<Rightarrow> bool" where
  "wfg_ok g \<longleftrightarrow> distinct (map fst g) \<and> (\<forall>(w, ws) \<in> set g. ws \<noteq> [])"

lemma map_of_distinct: "distinct (map fst g) \<Longrightarrow> map_of g a = Some ws \<longleftrightarrow> (a, ws) \<in> set g"
  using map_of_is_SomeI map_of_SomeD by metis

lemma wfg_ok_ops:
  assumes "wfg_ok g"
  shows "wfg_ok (AddWaiter g w owners)" and "wfg_ok (RemoveWaiter g w)" and "wfg_ok (RemoveOwner g own)"
proof -
  have d: "distinct (map fst g)" and ne: "\<forall>(w, ws) \<in> set g. ws \<noteq> []"
    using assms by (auto simp: wfg_ok_def)
  have "fold List.insert owners ws \<noteq> []" if "owners \<noteq> []" for ws
    using set_fold_insert [of owners ws] that by (metis empty_iff empty_set list.set_intros(1) neq_Nil_conv sup_eq_bot_iff)
  then have new: "fold List.insert owners ws \<noteq> []" if "owners \<noteq> []" for ws using that by blast
  have "v \<noteq> []" if own: "owners \<noteq> []" and kv: "(k, v) \<in> set (AList.update w (fold List.insert owners ws) g)" for ws k v
  proof -
    from subsetD [OF set_update_subset kv] have "v = fold List.insert owners ws \<or> (k, v) \<in> set g" by auto
    with new [OF own, of ws] ne show ?thesis by auto
  qed
  then show "wfg_ok (AddWaiter g w owners)"
    using d ne by (fastforce simp: wfg_ok_def AddWaiter_def Let_def distinct_update)
  show "wfg_ok (RemoveWaiter g w)"
    using d ne by (auto simp: wfg_ok_def RemoveWaiter_def AList.delete_eq distinct_map_filter)
  have "map fst (map (\<lambda>(w, ws). (w, removeAll own ws)) g) = map fst g" by (simp add: case_prod_unfold comp_def)
  then have "distinct (map fst (map (\<lambda>(w, ws). (w, removeAll own ws)) g))" using d by (simp only:)
  then show "wfg_ok (RemoveOwner g own)"
    by (auto simp: wfg_ok_def RemoveOwner_def AList.delete_eq intro!: distinct_map_filter)
qed

lemma wait_edges_RemoveOwner:
  assumes "wfg_ok g"
  shows "wait_edges (RemoveOwner g own) = {(a, b) \<in> wait_edges g. a \<noteq> own \<and> b \<noteq> own}"
proof -
  have d: "distinct (map fst g)" "distinct (map fst (RemoveOwner g own))"
    using assms wfg_ok_ops(3) [OF assms] by (auto simp: wfg_ok_def)
  have mem: "(a, ws') \<in> set (RemoveOwner g own) \<longleftrightarrow>
      a \<noteq> own \<and> ws' \<noteq> [] \<and> (\<exists>ws. (a, ws) \<in> set g \<and> ws' = removeAll own ws)" for a ws'
    by (auto simp: RemoveOwner_def AList.delete_eq)
  have "(\<exists>ws'. (a, ws') \<in> set (RemoveOwner g own) \<and> b \<in> set ws') \<longleftrightarrow>
      (\<exists>ws. (a, ws) \<in> set g \<and> b \<in> set ws) \<and> a \<noteq> own \<and> b \<noteq> own" (is "?L \<longleftrightarrow> ?R") for a b
  proof
    show "?L \<Longrightarrow> ?R" by (auto simp: mem)
    assume ?R
    then obtain ws where "(a, ws) \<in> set g" "b \<in> set (removeAll own ws)" "a \<noteq> own" by auto
    then show ?L using mem [of a "removeAll own ws"] by (metis empty_iff empty_set)
  qed
  then show ?thesis
    unfolding wait_edges_def map_of_distinct [OF d(1)] map_of_distinct [OF d(2)] by auto
qed

lemma GetWaitersFor_iff: "wfg_ok g \<Longrightarrow> w \<in> set (GetWaitersFor g own) \<longleftrightarrow> (w, own) \<in> wait_edges g"
  by (force simp: GetWaitersFor_def wait_edges_def wfg_ok_def map_of_distinct)

section \<open>Parking\<close>

lemma lockOwnerOf_eq: "lockOwnerOf fl = lockOwnerID fl"
  by (simp add: lockOwnerOf_def lockOwnerID_def callerOwnerID_def)

lemma set_holders_loop:
  "set (holders_loop fl els owners) = set owners \<union>
     {lockOwnerID el | el. el \<in> set els \<and> IsLockConflicting el fl \<and> lockOwnerID el \<noteq> [] \<and> lockOwnerID el \<noteq> flOpenID fl}"
  by (induction els arbitrary: owners) (auto simp: lockOwnerOf_eq Let_def)

lemma set_conflictHolders:
  "set (conflictHolders lm h fl) =
     {lockOwnerID el | el. el \<in> set (fls lm h) \<and> IsLockConflicting el fl \<and> lockOwnerID el \<noteq> flOpenID fl}"
  by (auto simp: conflictHolders_def set_holders_loop ListLocks_def lockOwnerID_def callerOwnerID_def)

text \<open>Waiters come and go; the lock table may be in any state when a request parks.\<close>

inductive wfg_reachable :: "WaitForGraph \<Rightarrow> bool" where
  new: "wfg_reachable NewWaitForGraph"
| park: "wfg_reachable g \<Longrightarrow> park g lm h fl = Some g' \<Longrightarrow> wfg_reachable g'"
| wake: "wfg_reachable g \<Longrightarrow> wfg_reachable (RemoveWaiter g w)"
| release: "wfg_reachable g \<Longrightarrow> wfg_reachable (RemoveOwner g own)"

lemma park_acyclic:
  assumes "acyclic (wait_edges g)" and "park g lm h fl = Some g'"
  shows "acyclic (wait_edges g')"
proof -
  have "flOpenID fl \<notin> set (conflictHolders lm h fl)" by (auto simp: set_conflictHolders)
  then show ?thesis
    using assms AddWaiter_acyclic_iff [OF assms(1), of "flOpenID fl" "conflictHolders lm h fl"]
    by (auto simp: park_def park_check_def park_register_def Let_def split: if_splits)
qed

lemma wfg_invariant: "wfg_reachable g \<Longrightarrow> wfg_ok g \<and> acyclic (wait_edges g)"
proof (induction rule: wfg_reachable.induct)
  case new
  then show ?case by (simp add: wfg_ok_def NewWaitForGraph_def wait_edges_def acyclic_def)
next
  case (park g lm h fl g')
  then have "wfg_ok g'"
    by (auto simp: park_def park_register_def Let_def wfg_ok_ops(1) split: if_splits)
  with park park_acyclic show ?case by blast
next
  case (wake g w)
  then show ?case using acyclic_subset [OF _ wait_edges_RemoveWaiter] wfg_ok_ops(2) by blast
next
  case (release g own)
  then have "wait_edges (RemoveOwner g own) \<subseteq> wait_edges g" by (auto simp: wait_edges_RemoveOwner)
  with release show ?case using acyclic_subset wfg_ok_ops(3) by blast
qed

section \<open>Properties\<close>


lemma acyclic_a_b: "acyclic (wait_edges [(''A'', [''B''])])"
proof -
  have "wait_edges [(''A'', [''B''])] = {(''A'', ''B'')}" by (auto simp: wait_edges_def split: if_splits)
  moreover have "acyclic {}" by (simp add: acyclic_def)
  ultimately show ?thesis by (simp add: acyclic_insert)
qed

lemma b_waits_a: "WouldCauseCycle [(''A'', [''B''])] ''B'' [''A'']"
  by (simp add: WouldCauseCycle_def canReach.simps)


text \<open>C6: Blocking locks never deadlock when parking is atomic: whatever the lock tables, requests
  that park, wake up and release leave a wait-for graph without cycles, with no empty wait set, in
  which the waiters reported for an owner are exactly those waiting for it.\<close>

theorem parked_locks_never_deadlock:
  assumes "wfg_reachable g"
  shows "acyclic (wait_edges g) \<and> set (GetWaitersFor g own) = {w. (w, own) \<in> wait_edges g}
    \<and> [] \<notin> snd ` set g"
  using wfg_invariant [OF assms] GetWaitersFor_iff by (auto simp: wfg_ok_def)

theorem parked_locks_never_deadlock_witness:
  "park NewWaitForGraph (one_smb True) ''f'' (smb_lock ''B'' True) = Some [(''B'', [''A''])]
   \<and> set (GetWaitersFor [(''B'', [''A''])] ''A'') = {w. (w, ''A'') \<in> wait_edges [(''B'', [''A''])]}"
proof -
  have "park NewWaitForGraph (one_smb True) ''f'' (smb_lock ''B'' True) = Some [(''B'', [''A''])]"
    by (simp add: park_def Let_def conflictHolders_def ListLocks_def one_smb_locks bucket_def smb_lock_def
        IsLockConflicting_def locksOverlap_def RangesOverlap_def rangeLast_def lockOwnerOf_eq lockOwnerID_def
        callerOwnerID_def park_check_def WouldCauseCycle_def canReach.simps NewWaitForGraph_def
        park_register_def AddWaiter_def)
  moreover from this have "wfg_reachable [(''B'', [''A''])]"
    by (rule wfg_reachable.park [OF wfg_reachable.new])
  ultimately show ?thesis using parked_locks_never_deadlock by blast
qed

section \<open>Where the check falls short\<close>

text \<open>A request that waits for itself is a cycle the check does not report.\<close>

lemma self_wait_not_detected:
  "\<not> WouldCauseCycle NewWaitForGraph ''A'' [''A'']
   \<and> \<not> acyclic (wait_edges (AddWaiter NewWaitForGraph ''A'' [''A'']))"
proof
  show "\<not> WouldCauseCycle NewWaitForGraph ''A'' [''A'']"
    by (simp add: WouldCauseCycle_def canReach.simps NewWaitForGraph_def)
  have "acyclic (wait_edges NewWaitForGraph)"
    by (simp add: NewWaitForGraph_def wait_edges_def acyclic_def)
  then show "\<not> acyclic (wait_edges (AddWaiter NewWaitForGraph ''A'' [''A'']))"
    by (simp add: AddWaiter_acyclic_iff)
qed

text \<open>\<open>parkLockOnConflict\<close> checks and registers in two critical sections.  Two requests that
  both check before either registers close a cycle.\<close>

lemma interleaved_parks_deadlock:
  "park_check NewWaitForGraph (smb_lock ''A'' True) [''B'']
   \<and> park_check NewWaitForGraph (smb_lock ''B'' True) [''A'']
   \<and> \<not> acyclic (wait_edges (park_register (park_register NewWaitForGraph (smb_lock ''A'' True) [''B''])
        (smb_lock ''B'' True) [''A'']))"
proof (intro conjI)
  show "park_check NewWaitForGraph (smb_lock ''A'' True) [''B'']"
    "park_check NewWaitForGraph (smb_lock ''B'' True) [''A'']"
    by (simp_all add: park_check_def WouldCauseCycle_def canReach.simps NewWaitForGraph_def)
  show "\<not> acyclic (wait_edges (park_register (park_register NewWaitForGraph (smb_lock ''A'' True) [''B''])
        (smb_lock ''B'' True) [''A'']))"
    using AddWaiter_acyclic_iff [OF acyclic_a_b, of "''B''" "[''A'']"] b_waits_a
    by (simp add: park_register_def smb_lock_def AddWaiter_def NewWaitForGraph_def)
qed

end
