(* ===== verification/Grace.thy ===== *)
theory Grace
  imports Lock_Store
begin

text \<open>
  The grace period after a restart (\<open>pkg/metadata/lock/grace.go\<close>): reclaims are let
  through and new locks refused until every expected client has reclaimed, the timer expires or the
  period is ended by hand.  Every method is a critical section.  The timer runs on its own
  goroutine: a timer that has been started is armed; when it expires its function is in flight until
  it gets the mutex; stopping a timer disarms it but cannot recall a function in flight.
\<close>

section \<open>The manager\<close>

datatype GraceState = GraceStateNormal | GraceStateActive

record Operation =
  opIsReclaim :: bool
  opIsTest :: bool
  opIsNew :: bool

text \<open>Times are nanoseconds, 0 the zero time; a timer is named by a number.  The Go sets of clients
  are lists without repetition.\<close>

record GracePeriodManager =
  gpState :: GraceState
  gpGraceEnd :: nat
  gpDuration :: nat
  gpExpected :: "string list"
  gpReclaimed :: "string list"
  gpTimer :: "nat option"

definition NewGracePeriodManager :: "nat \<Rightarrow> GracePeriodManager" where
  "NewGracePeriodManager duration = \<lparr>gpState = GraceStateNormal, gpGraceEnd = 0, gpDuration = duration,
     gpExpected = [], gpReclaimed = [], gpTimer = None\<rparr>"

text \<open>The boolean of a result says whether the end-of-grace callback is invoked.\<close>

definition EnterGracePeriod :: "nat \<Rightarrow> nat \<Rightarrow> string list \<Rightarrow> GracePeriodManager \<Rightarrow> GracePeriodManager" where
  "EnterGracePeriod timer now expectedClients gpm =
     (if gpState gpm = GraceStateActive then gpm
      else gpm\<lparr>gpState := GraceStateActive, gpGraceEnd := now + gpDuration gpm,
               gpExpected := remdups expectedClients, gpReclaimed := [], gpTimer := Some timer\<rparr>)"

definition ExitGracePeriod :: "GracePeriodManager \<Rightarrow> bool \<times> GracePeriodManager" where
  "ExitGracePeriod gpm =
     (if gpState gpm = GraceStateNormal then (False, gpm)
      else (True, gpm\<lparr>gpTimer := None, gpState := GraceStateNormal, gpGraceEnd := 0\<rparr>))"

definition exitGracePeriodInternal :: "GracePeriodManager \<Rightarrow> bool \<times> GracePeriodManager" where
  "exitGracePeriodInternal gpm =
     (if gpState gpm = GraceStateNormal then (False, gpm)
      else (True, gpm\<lparr>gpState := GraceStateNormal, gpGraceEnd := 0, gpTimer := None\<rparr>))"

text \<open>\<open>None\<close> is permission; otherwise the error carries the remaining whole seconds.\<close>

definition IsOperationAllowed :: "nat \<Rightarrow> GracePeriodManager \<Rightarrow> Operation \<Rightarrow> nat option" where
  "IsOperationAllowed now gpm op =
     (if gpState gpm = GraceStateNormal then None
      else if opIsReclaim op \<or> opIsTest op then None
      else Some ((gpGraceEnd gpm - now) div 1000000000))"

definition checkEarlyExitLocked :: "GracePeriodManager \<Rightarrow> bool" where
  "checkEarlyExitLocked gpm =
     (if gpExpected gpm = [] then False else list_all (\<lambda>c. c \<in> set (gpReclaimed gpm)) (gpExpected gpm))"

definition MarkReclaimed :: "string \<Rightarrow> GracePeriodManager \<Rightarrow> bool \<times> GracePeriodManager" where
  "MarkReclaimed clientID gpm =
     (if gpState gpm = GraceStateNormal then (False, gpm)
      else (let gpm = gpm\<lparr>gpReclaimed := List.insert clientID (gpReclaimed gpm)\<rparr>
            in if checkEarlyExitLocked gpm
               then (True, gpm\<lparr>gpTimer := None, gpState := GraceStateNormal, gpGraceEnd := 0\<rparr>)
               else (False, gpm)))"

definition GetState :: "GracePeriodManager \<Rightarrow> GraceState" where
  "GetState gpm = gpState gpm"

definition GetRemainingTime :: "nat \<Rightarrow> GracePeriodManager \<Rightarrow> nat" where
  "GetRemainingTime now gpm = (if gpState gpm = GraceStateNormal then 0 else gpGraceEnd gpm - now)"

definition GetExpectedClients :: "GracePeriodManager \<Rightarrow> string list" where
  "GetExpectedClients gpm = gpExpected gpm"

definition GetReclaimedClients :: "GracePeriodManager \<Rightarrow> string list" where
  "GetReclaimedClients gpm = gpReclaimed gpm"

definition GetDuration :: "GracePeriodManager \<Rightarrow> nat" where
  "GetDuration gpm = gpDuration gpm"

definition CloseGrace :: "GracePeriodManager \<Rightarrow> GracePeriodManager" where
  "CloseGrace gpm = gpm\<lparr>gpTimer := None, gpState := GraceStateNormal, gpExpected := [], gpReclaimed := []\<rparr>"

section \<open>Timers and interleavings\<close>

text \<open>The manager with its timers: armed, in flight, and how many periods began and callbacks ran.\<close>

record GraceWorld =
  gwM :: GracePeriodManager
  gwArmed :: "nat set"
  gwFired :: "nat set"
  gwPeriods :: nat
  gwCallbacks :: nat

datatype grace_event = Enter nat nat "string list" | Exit | Reclaim string | Fire nat | Run nat

text \<open>\<open>timer.Stop()\<close> on the manager's current timer.\<close>

definition stop_timer :: "GracePeriodManager \<Rightarrow> nat set \<Rightarrow> nat set" where
  "stop_timer gpm armed = (case gpTimer gpm of None \<Rightarrow> armed | Some t \<Rightarrow> armed - {t})"

definition count_cb :: "bool \<Rightarrow> nat" where
  "count_cb called = (if called then 1 else 0)"

inductive grace_step :: "GraceWorld \<Rightarrow> grace_event \<Rightarrow> GraceWorld \<Rightarrow> bool" where
  enter: "t \<notin> gwArmed w \<union> gwFired w \<Longrightarrow> gpState (gwM w) = GraceStateNormal \<Longrightarrow>
    grace_step w (Enter t now cs) (w\<lparr>gwM := EnterGracePeriod t now cs (gwM w),
      gwArmed := insert t (gwArmed w), gwPeriods := Suc (gwPeriods w)\<rparr>)"
| enter_again: "gpState (gwM w) = GraceStateActive \<Longrightarrow>
    grace_step w (Enter t now cs) (w\<lparr>gwM := EnterGracePeriod t now cs (gwM w)\<rparr>)"
| exit: "ExitGracePeriod (gwM w) = (cb, m) \<Longrightarrow>
    grace_step w Exit (w\<lparr>gwM := m, gwArmed := (if cb then stop_timer (gwM w) (gwArmed w) else gwArmed w),
      gwCallbacks := gwCallbacks w + count_cb cb\<rparr>)"
| reclaim: "MarkReclaimed c (gwM w) = (cb, m) \<Longrightarrow>
    grace_step w (Reclaim c) (w\<lparr>gwM := m, gwArmed := (if cb then stop_timer (gwM w) (gwArmed w) else gwArmed w),
      gwCallbacks := gwCallbacks w + count_cb cb\<rparr>)"
| fire: "t \<in> gwArmed w \<Longrightarrow>
    grace_step w (Fire t) (w\<lparr>gwArmed := gwArmed w - {t}, gwFired := insert t (gwFired w)\<rparr>)"
| run: "t \<in> gwFired w \<Longrightarrow> exitGracePeriodInternal (gwM w) = (cb, m) \<Longrightarrow>
    grace_step w (Run t) (w\<lparr>gwM := m, gwFired := gwFired w - {t},
      gwCallbacks := gwCallbacks w + count_cb cb\<rparr>)"

definition new_world :: "nat \<Rightarrow> GraceWorld" where
  "new_world duration = \<lparr>gwM = NewGracePeriodManager duration, gwArmed = {}, gwFired = {}, gwPeriods = 0,
     gwCallbacks = 0\<rparr>"

inductive grace_reachable :: "GraceWorld \<Rightarrow> bool" where
  new: "grace_reachable (new_world duration)"
| step: "grace_reachable w \<Longrightarrow> grace_step w ev w' \<Longrightarrow> grace_reachable w'"

section \<open>Invariants\<close>

definition outstanding :: "GracePeriodManager \<Rightarrow> bool" where
  "outstanding gpm \<longleftrightarrow> gpExpected gpm = [] \<or> \<not> set (gpExpected gpm) \<subseteq> set (gpReclaimed gpm)"

definition active :: "GracePeriodManager \<Rightarrow> bool" where
  "active gpm \<longleftrightarrow> gpState gpm = GraceStateActive"

lemma checkEarlyExit_iff: "checkEarlyExitLocked gpm \<longleftrightarrow> \<not> outstanding gpm"
  by (auto simp: checkEarlyExitLocked_def outstanding_def list_all_iff)

definition grace_ok :: "GraceWorld \<Rightarrow> bool" where
  "grace_ok w \<longleftrightarrow> gwCallbacks w + (if active (gwM w) then 1 else 0) = gwPeriods w
     \<and> (active (gwM w) \<longrightarrow> outstanding (gwM w) \<and> (\<exists>t. gpTimer (gwM w) = Some t \<and> t \<in> gwArmed w \<union> gwFired w))
     \<and> (\<not> active (gwM w) \<longrightarrow> gpTimer (gwM w) = None \<and> gpGraceEnd (gwM w) = 0)
     \<and> gwArmed w \<inter> gwFired w = {}"

lemma not_active: "\<not> active gpm \<longleftrightarrow> gpState gpm = GraceStateNormal"
  by (cases "gpState gpm") (simp_all add: active_def)

lemma not_normal [simp]: "gpState gpm \<noteq> GraceStateNormal \<longleftrightarrow> gpState gpm = GraceStateActive"
  by (cases "gpState gpm") simp_all

lemma grace_step_ok: "grace_step w ev w' \<Longrightarrow> grace_ok w \<Longrightarrow> grace_ok w'"
proof (induction rule: grace_step.induct)
  case (enter t w now cs)
  then show ?case
    by (auto simp: grace_ok_def active_def EnterGracePeriod_def outstanding_def)
next
  case (enter_again w t now cs)
  then show ?case by (simp add: grace_ok_def EnterGracePeriod_def)
next
  case (exit w cb m)
  then show ?case
    by (auto simp: grace_ok_def ExitGracePeriod_def count_cb_def stop_timer_def active_def split: if_splits option.splits)
next
  case (reclaim c w cb m)
  then show ?case
  proof (cases "active (gwM w)")
    case True
    with reclaim show ?thesis
      by (auto simp: grace_ok_def MarkReclaimed_def Let_def checkEarlyExit_iff count_cb_def stop_timer_def
          active_def split: if_splits option.splits)
  next
    case False
    with reclaim show ?thesis by (auto simp: grace_ok_def MarkReclaimed_def not_active count_cb_def)
  qed
next
  case (fire t w)
  then show ?case by (auto simp: grace_ok_def)
next
  case (run t w cb m)
  then show ?case
    by (auto simp: grace_ok_def exitGracePeriodInternal_def count_cb_def active_def split: if_splits)
qed

lemma grace_reachable_ok: "grace_reachable w \<Longrightarrow> grace_ok w"
proof (induction rule: grace_reachable.induct)
  case (new duration)
  then show ?case by (simp add: grace_ok_def new_world_def NewGracePeriodManager_def active_def)
qed (rule grace_step_ok)

text \<open>The admission rule over a whole run: what a period lets through.\<close>

lemma IsOperationAllowed_iff:
  "IsOperationAllowed now gpm op = None \<longleftrightarrow> active gpm \<longrightarrow> opIsReclaim op \<or> opIsTest op"
  by (auto simp: IsOperationAllowed_def not_active [symmetric])

section \<open>Properties\<close>


text \<open>One period with one client, who reclaims.\<close>

definition w_entered :: GraceWorld where
  "w_entered = (new_world 90)\<lparr>gwM := EnterGracePeriod 0 5 [''c1''] (NewGracePeriodManager 90),
     gwArmed := {0}, gwPeriods := 1\<rparr>"

lemma w_entered_reachable: "grace_reachable w_entered"
proof -
  have "grace_step (new_world 90) (Enter 0 5 [''c1'']) w_entered"
    using grace_step.enter [of 0 "new_world 90" 5 "[''c1'']"]
    by (simp add: new_world_def w_entered_def NewGracePeriodManager_def)
  then show ?thesis by (rule grace_reachable.step [OF grace_reachable.new])
qed



section \<open>A timer that outlives its period\<close>

text \<open>A timer function in flight when its period is ended by hand is not recalled, and it does not
  check whose period it ends: it closes the next one before any client has reclaimed and before its
  own timer has expired.\<close>

definition w_late :: GraceWorld where
  "w_late = \<lparr>gwM = EnterGracePeriod 1 9 [''c1''] ((gwM w_entered)\<lparr>gpTimer := None, gpState := GraceStateNormal,
     gpGraceEnd := 0\<rparr>), gwArmed = {1}, gwFired = {0}, gwPeriods = 2, gwCallbacks = 1\<rparr>"

lemma w_late_reachable: "grace_reachable w_late"
proof -
  let ?fired = "w_entered\<lparr>gwArmed := {}, gwFired := {0}\<rparr>"
  have "grace_step w_entered (Fire 0) ?fired"
    using grace_step.fire [of 0 w_entered] by (simp add: w_entered_def new_world_def)
  with w_entered_reachable have "grace_reachable ?fired" by (rule grace_reachable.step)
  moreover let ?left = "?fired\<lparr>gwM := (gwM w_entered)\<lparr>gpTimer := None, gpState := GraceStateNormal, gpGraceEnd := 0\<rparr>,
      gwCallbacks := 1\<rparr>"
  have "grace_step ?fired Exit ?left"
    using grace_step.exit [of ?fired True "(gwM w_entered)\<lparr>gpTimer := None, gpState := GraceStateNormal, gpGraceEnd := 0\<rparr>"]
    by (simp add: w_entered_def new_world_def ExitGracePeriod_def EnterGracePeriod_def NewGracePeriodManager_def
        count_cb_def stop_timer_def)
  ultimately have "grace_reachable ?left" by (rule grace_reachable.step)
  moreover have "grace_step ?left (Enter 1 9 [''c1'']) w_late"
    using grace_step.enter [of 1 ?left 9 "[''c1'']"] by (simp add: w_late_def w_entered_def new_world_def numeral_2_eq_2)
  ultimately show ?thesis by (rule grace_reachable.step)
qed

lemma stale_timer_ends_next_period:
  "grace_reachable w_late \<and> active (gwM w_late) \<and> gpReclaimed (gwM w_late) = [] \<and> gpTimer (gwM w_late) = Some 1
   \<and> 1 \<in> gwArmed w_late \<and> (\<exists>w. grace_step w_late (Run 0) w \<and> \<not> active (gwM w))"
proof -
  have "active (gwM w_late) \<and> gpReclaimed (gwM w_late) = [] \<and> gpTimer (gwM w_late) = Some 1
     \<and> 1 \<in> gwArmed w_late \<and> 0 \<in> gwFired w_late"
    by (simp add: w_late_def active_def EnterGracePeriod_def)
  moreover have "\<not> active (snd (exitGracePeriodInternal (gwM w_late)))"
    by (simp add: exitGracePeriodInternal_def active_def)
  ultimately show ?thesis
    using w_late_reachable grace_step.run [of 0 w_late, OF _ surjective_pairing] by fastforce
qed

end
