(* ===== verification/Replay_Guard.thy ===== *)
theory Replay_Guard
  imports Ditto_Prelude
begin

text \<open>
  What the sliding windows of the protocols share: bitmaps stored as slices of 64-bit words, and the
  contract of a replay guard.  A guard takes numbers out of circulation: whatever a step takes was
  not spent before, is spent afterwards and stays spent.  From that alone no run takes a number
  twice.  The RPCSEC_GSS window and the SMB2 command sequence window are instances.
\<close>

section \<open>Bitmaps\<close>

type_synonym bitmap = "u64 list"

definition ba_get :: "bitmap \<Rightarrow> nat \<Rightarrow> bool" where
  "ba_get bm i = (if i div 64 < length bm then (bm ! (i div 64)) AND push_bit (i mod 64) 1 \<noteq> 0 else False)"

definition ba_set :: "bitmap \<Rightarrow> nat \<Rightarrow> bitmap" where
  "ba_set bm i = (if i div 64 < length bm
     then bm[i div 64 := (bm ! (i div 64)) OR push_bit (i mod 64) 1] else bm)"

definition ba_clear :: "bitmap \<Rightarrow> nat \<Rightarrow> bitmap" where
  "ba_clear bm i = (if i div 64 < length bm
     then bm[i div 64 := (bm ! (i div 64)) AND NOT (push_bit (i mod 64) 1)] else bm)"

lemma ba_length [simp]: "length (ba_set bm i) = length bm" "length (ba_clear bm i) = length bm"
  by (simp_all add: ba_set_def ba_clear_def)

lemma bit_push_1: "bit (2 ^ k :: u64) n \<longleftrightarrow> n = k \<and> n < 64"
  by (auto simp: bit_exp_iff)

lemma ba_get_iff: "ba_get bm i \<longleftrightarrow> i div 64 < length bm \<and> bit (bm ! (i div 64)) (i mod 64)"
proof -
  have "(w AND push_bit k 1 \<noteq> 0) = bit w k" for w :: u64 and k
    using and_pow_eq_0 [of w k] by (simp add: push_bit_eq_mult)
  then show ?thesis by (simp add: ba_get_def)
qed

lemma index_eq_iff: "i = j \<longleftrightarrow> i div 64 = j div 64 \<and> i mod 64 = j mod (64 :: nat)"
  by (metis mult_div_mod_eq)

lemma ba_get_set: "ba_get (ba_set bm i) j \<longleftrightarrow> ba_get bm j \<or> (j = i \<and> i div 64 < length bm)"
  by (auto simp: ba_get_iff ba_set_def nth_list_update bit_or_iff bit_push_1 index_eq_iff [of j i])

lemma ba_get_clear: "ba_get (ba_clear bm i) j \<longleftrightarrow> ba_get bm j \<and> j \<noteq> i"
  by (auto simp: ba_get_iff ba_clear_def nth_list_update bit_and_iff bit_not_iff bit_push_1
      index_eq_iff [of j i])

lemma ba_get_zero [simp]: "\<not> ba_get (replicate n 0) j"
  by (auto simp: ba_get_iff)

lemma ba_get_fold_clear: "ba_get (fold (\<lambda>i bm. ba_clear bm (f i)) is bm) j \<longleftrightarrow> ba_get bm j \<and> j \<notin> f ` set is"
  by (induction "is" arbitrary: bm) (auto simp: ba_get_clear)

lemma length_fold_clear [simp]: "length (fold (\<lambda>i bm. ba_clear bm (f i)) is bm) = length bm"
  by (induction "is" arbitrary: bm) auto

lemma ba_get_fold_set:
  "\<forall>i \<in> set is. f i div 64 < length bm \<Longrightarrow>
   ba_get (fold (\<lambda>i bm. ba_set bm (f i)) is bm) j \<longleftrightarrow> ba_get bm j \<or> j \<in> f ` set is"
  by (induction "is" arbitrary: bm) (auto simp: ba_get_set)

lemma length_fold_set [simp]: "length (fold (\<lambda>i bm. ba_set bm (f i)) is bm) = length bm"
  by (induction "is" arbitrary: bm) auto

lemma ba_get_append_zero: "ba_get (bm @ replicate n 0) j = ba_get bm j"
  by (auto simp: ba_get_iff nth_append)

section \<open>Replay guards\<close>

text \<open>A run of steps, collecting what each step takes, and the side conditions of its calls.\<close>

fun run_steps :: "('s \<Rightarrow> 'op \<Rightarrow> nat list \<times> 's) \<Rightarrow> 's \<Rightarrow> 'op list \<Rightarrow> nat list \<times> 's" where
  "run_steps step s [] = ([], s)"
| "run_steps step s (op # ops) =
     (let (taken, s) = step s op; (rest, s) = run_steps step s ops in (taken @ rest, s))"

fun steps_ok :: "('s \<Rightarrow> 'op \<Rightarrow> bool) \<Rightarrow> ('s \<Rightarrow> 'op \<Rightarrow> nat list \<times> 's) \<Rightarrow> 's \<Rightarrow> 'op list \<Rightarrow> bool" where
  "steps_ok ok step s [] = True"
| "steps_ok ok step s (op # ops) = (ok s op \<and> steps_ok ok step (snd (step s op)) ops)"

lemma run_steps_Cons [simp]:
  "fst (run_steps step s (op # ops)) = fst (step s op) @ fst (run_steps step (snd (step s op)) ops)"
  "snd (run_steps step s (op # ops)) = snd (run_steps step (snd (step s op)) ops)"
  by (simp_all add: Let_def case_prod_unfold)

declare run_steps.simps(2) [simp del]

locale replay_guard =
  fixes inv :: "'s \<Rightarrow> bool"
    and ok :: "'s \<Rightarrow> 'op \<Rightarrow> bool"
    and step :: "'s \<Rightarrow> 'op \<Rightarrow> nat list \<times> 's"
    and spent :: "'s \<Rightarrow> nat \<Rightarrow> bool"
  assumes inv_step: "inv s \<Longrightarrow> ok s op \<Longrightarrow> inv (snd (step s op))"
    and distinct_taken: "inv s \<Longrightarrow> ok s op \<Longrightarrow> distinct (fst (step s op))"
    and fresh: "inv s \<Longrightarrow> ok s op \<Longrightarrow> n \<in> set (fst (step s op)) \<Longrightarrow> \<not> spent s n"
    and now_spent: "inv s \<Longrightarrow> ok s op \<Longrightarrow> n \<in> set (fst (step s op)) \<Longrightarrow> spent (snd (step s op)) n"
    and stays_spent: "inv s \<Longrightarrow> ok s op \<Longrightarrow> spent s n \<Longrightarrow> spent (snd (step s op)) n"
begin

lemma run_fresh:
  "inv s \<Longrightarrow> steps_ok ok step s ops \<Longrightarrow> spent s n \<Longrightarrow> n \<notin> set (fst (run_steps step s ops))"
proof (induction ops arbitrary: s)
  case (Cons op ops)
  then have "n \<notin> set (fst (run_steps step (snd (step s op)) ops))"
    using inv_step stays_spent by simp
  then show ?case using Cons.prems fresh by auto
qed simp

lemma no_number_twice:
  "inv s \<Longrightarrow> steps_ok ok step s ops \<Longrightarrow> distinct (fst (run_steps step s ops))"
proof (induction ops arbitrary: s)
  case (Cons op ops)
  have "set (fst (step s op)) \<inter> set (fst (run_steps step (snd (step s op)) ops)) = {}"
    using Cons.prems run_fresh [of "snd (step s op)" ops] inv_step now_spent by auto
  then show ?case
    using Cons distinct_taken inv_step by simp
qed simp

lemma run_inv: "inv s \<Longrightarrow> steps_ok ok step s ops \<Longrightarrow> inv (snd (run_steps step s ops))"
proof (induction ops arbitrary: s)
  case (Cons op ops)
  then show ?case using inv_step by simp
qed simp

end

end
