(* ===== verification/GSS_Window.thy ===== *)
theory GSS_Window
  imports Replay_Guard
begin

text \<open>
  The RPCSEC_GSS sequence window (\<open>internal/adapter/nfs/rpc/gss/sequence.go\<close>): a bitmap
  indexed by sequence number modulo the window size and the highest number seen.  It is shown to
  decide exactly like a reference that remembers every number it ever accepted, and to be a replay
  guard.
\<close>

section \<open>The window\<close>

abbreviation (input) MAXSEQ :: u32 where "MAXSEQ \<equiv> 0x80000000"

record SeqWindow =
  swSize :: u32
  swHighest :: u32
  swBitmap :: bitmap

definition NewSeqWindow :: "u32 \<Rightarrow> SeqWindow" where
  "NewSeqWindow sz =
     (let sz = (if sz = 0 then 1 else sz);
          bitmapSize = (sz + 63) div 64
      in \<lparr>swSize = sz, swHighest = 0, swBitmap = replicate (unat bitmapSize) 0\<rparr>)"

definition setBit :: "u32 \<Rightarrow> SeqWindow \<Rightarrow> SeqWindow" where
  "setBit seqNum w = w\<lparr>swBitmap := ba_set (swBitmap w) (unat (seqNum mod swSize w))\<rparr>"

definition isBitSet :: "SeqWindow \<Rightarrow> u32 \<Rightarrow> bool" where
  "isBitSet w seqNum = ba_get (swBitmap w) (unat (seqNum mod swSize w))"

definition slideWindow :: "u32 \<Rightarrow> SeqWindow \<Rightarrow> SeqWindow" where
  "slideWindow shift w =
     (if shift \<ge> swSize w then w\<lparr>swBitmap := replicate (length (swBitmap w)) 0\<rparr>
      else w\<lparr>swBitmap := fold (\<lambda>i bm. ba_clear bm (unat ((swHighest w + 1 + of_nat i) mod swSize w)))
                          [0..<unat shift] (swBitmap w)\<rparr>)"

definition Accept :: "u32 \<Rightarrow> SeqWindow \<Rightarrow> bool \<times> SeqWindow" where
  "Accept seqNum w =
     (if seqNum > MAXSEQ then (False, w)
      else if seqNum = 0 then (False, w)
      else if swHighest w = 0 then (True, setBit seqNum (w\<lparr>swHighest := seqNum\<rparr>))
      else if swHighest w \<ge> swSize w \<and> seqNum < swHighest w - swSize w + 1 then (False, w)
      else if seqNum \<le> swHighest w then
        (if isBitSet w seqNum then (False, w) else (True, setBit seqNum w))
      else (let shift = seqNum - swHighest w;
                w = slideWindow shift w;
                w = w\<lparr>swHighest := seqNum\<rparr>
            in (True, setBit seqNum w)))"

definition Reset :: "SeqWindow \<Rightarrow> SeqWindow" where
  "Reset w = w\<lparr>swHighest := 0, swBitmap := replicate (length (swBitmap w)) 0\<rparr>"

section \<open>The reference\<close>

text \<open>The reference keeps the whole history and accepts a number that is in range, new, and less
  than a window behind the newest.\<close>

definition spec_accepts :: "nat \<Rightarrow> nat set \<Rightarrow> nat \<Rightarrow> bool" where
  "spec_accepts sz H s \<longleftrightarrow> 0 < s \<and> s \<le> 2 ^ 31 \<and> s \<notin> H \<and> (\<forall>h \<in> H. h < s + sz)"

fun spec_run :: "nat \<Rightarrow> nat set \<Rightarrow> nat list \<Rightarrow> bool list" where
  "spec_run sz H [] = []"
| "spec_run sz H (s # ss) =
     (if spec_accepts sz H s then True # spec_run sz (insert s H) ss else False # spec_run sz H ss)"

fun accept_run :: "SeqWindow \<Rightarrow> u32 list \<Rightarrow> bool list" where
  "accept_run w [] = []"
| "accept_run w (s # ss) = (let (ok, w) = Accept s w in ok # accept_run w ss)"

section \<open>Simulation\<close>

definition highest_of :: "nat set \<Rightarrow> nat" where
  "highest_of H = (if H = {} then 0 else Max H)"

definition window_sim :: "SeqWindow \<Rightarrow> nat set \<Rightarrow> bool" where
  "window_sim w H \<longleftrightarrow> 0 < unat (swSize w) \<and> unat (swSize w) \<le> 64 * length (swBitmap w)
     \<and> finite H \<and> H \<subseteq> {1..2 ^ 31} \<and> unat (swHighest w) = highest_of H
     \<and> (H = {} \<longrightarrow> (\<forall>p. \<not> ba_get (swBitmap w) p))
     \<and> (\<forall>s. 0 < s \<longrightarrow> s \<le> highest_of H \<longrightarrow> highest_of H < s + unat (swSize w) \<longrightarrow>
          (ba_get (swBitmap w) (s mod unat (swSize w)) \<longleftrightarrow> s \<in> H))"

lemma mod_inj_window:
  fixes x y n :: nat
  assumes "x mod n = y mod n" and "x < y + n" and "y < x + n"
  shows "x = y"
proof -
  have "a = b" if "a mod n = b mod n" "a \<le> b" "b < a + n" for a b :: nat
  proof -
    have "n dvd b - a" using that by (metis mod_eq_dvd_iff_nat)
    moreover have "b - a < n" using that by auto
    ultimately have "b - a = 0" using dvd_imp_le by (metis gr_zeroI not_le)
    with that show ?thesis by simp
  qed
  then show ?thesis using assms by (metis linear)
qed

lemma highest_of_insert:
  "finite H \<Longrightarrow> highest_of (insert s H) = max s (highest_of H)"
  by (auto simp: highest_of_def)

lemma highest_of_bound: "finite H \<Longrightarrow> h \<in> H \<Longrightarrow> h \<le> highest_of H"
  by (auto simp: highest_of_def)

lemma highest_of_in: "finite H \<Longrightarrow> H \<noteq> {} \<Longrightarrow> highest_of H \<in> H"
  by (simp add: highest_of_def)

lemma offset_in_bitmap:
  assumes "window_sim w H"
  shows "s mod unat (swSize w) div 64 < length (swBitmap w)"
proof -
  have "s mod unat (swSize w) < unat (swSize w)" "unat (swSize w) \<le> 64 * length (swBitmap w)"
    using assms by (auto simp: window_sim_def)
  then have "s mod unat (swSize w) < 64 * length (swBitmap w)" by linarith
  then show ?thesis by (simp add: div_less_iff_less_mult mult.commute)
qed

text \<open>Every position that a new highest number brings into the window has been cleared.\<close>

lemma ba_get_slide:
  assumes sim: "window_sim w H" and new: "swHighest w < s" "unat s \<le> 2 ^ 31" and H: "H \<noteq> {}"
    and t: "0 < t" "t \<le> unat s" "unat s < t + unat (swSize w)"
  shows "ba_get (swBitmap (slideWindow (s - swHighest w) w)) (t mod unat (swSize w)) \<longleftrightarrow> t \<in> H"
proof -
  let ?h = "unat (swHighest w)" and ?sz = "unat (swSize w)"
  have h: "?h = highest_of H" and fin: "finite H" using sim by (auto simp: window_sim_def)
  have lt: "?h < unat s" using new(1) by (simp add: word_less_nat_alt)
  have shift: "unat (s - swHighest w) = unat s - ?h" using new(1) by (intro unat_sub) simp
  have old: "ba_get (swBitmap w) (t mod ?sz) \<longleftrightarrow> t \<in> H" if "t \<le> ?h"
    using sim that t lt by (auto simp: window_sim_def)
  have notin: "t \<notin> H" if "?h < t" using highest_of_bound [OF fin] that h by fastforce
  show ?thesis
  proof (cases "swSize w \<le> s - swHighest w")
    case True
    then have "?sz \<le> unat s - ?h" using shift by (simp add: word_le_nat_alt)
    then have "?h < t" using t by linarith
    with True notin show ?thesis by (simp add: slideWindow_def)
  next
    case False
    have pos: "unat ((swHighest w + 1 + of_nat i) mod swSize w) = (?h + 1 + i) mod ?sz" if "i < unat s - ?h" for i
    proof -
      have "?h + 1 + i < 2 ^ 32" using that new(2) by auto
      moreover have "swHighest w + 1 + of_nat i = of_nat (?h + 1 + i)" by simp
      ultimately have "unat (swHighest w + 1 + of_nat i) = ?h + 1 + i" by (simp only: unat_of_nat) simp
      then show ?thesis by (simp add: unat_mod)
    qed
    have "ba_get (swBitmap (slideWindow (s - swHighest w) w)) (t mod ?sz) \<longleftrightarrow>
        ba_get (swBitmap w) (t mod ?sz) \<and> (\<forall>i < unat s - ?h. t mod ?sz \<noteq> (?h + 1 + i) mod ?sz)"
      using False pos by (auto simp: slideWindow_def ba_get_fold_clear shift image_iff)
    moreover have "(\<forall>i < unat s - ?h. t mod ?sz \<noteq> (?h + 1 + i) mod ?sz) \<longleftrightarrow> t \<le> ?h"
    proof
      assume none: "\<forall>i < unat s - ?h. t mod ?sz \<noteq> (?h + 1 + i) mod ?sz"
      show "t \<le> ?h"
      proof (rule ccontr)
        assume "\<not> t \<le> ?h"
        then have "t - ?h - 1 < unat s - ?h" "?h + 1 + (t - ?h - 1) = t" using t by auto
        with none show False by metis
      qed
    next
      assume le: "t \<le> ?h"
      show "\<forall>i < unat s - ?h. t mod ?sz \<noteq> (?h + 1 + i) mod ?sz"
      proof (intro allI impI notI)
        fix i assume "i < unat s - ?h" and eq: "t mod ?sz = (?h + 1 + i) mod ?sz"
        then have "t = ?h + 1 + i" using t le by (intro mod_inj_window [OF eq]) auto
        with le show False by simp
      qed
    qed
    ultimately show ?thesis using old notin by (cases "t \<le> ?h") auto
  qed
qed

lemma window_simD:
  assumes "window_sim w H"
  shows "finite H" and "unat (swHighest w) = highest_of H" and "0 < unat (swSize w)"
    and "swHighest w = 0 \<longleftrightarrow> H = {}" and "H \<subseteq> {1..2 ^ 31}"
proof -
  show fin: "finite H" and h: "unat (swHighest w) = highest_of H" and "0 < unat (swSize w)" and sub: "H \<subseteq> {1..2 ^ 31}"
    using assms by (auto simp: window_sim_def)
  show "swHighest w = 0 \<longleftrightarrow> H = {}"
  proof
    assume "swHighest w = 0"
    with h have "highest_of H = 0" by simp
    with highest_of_in [OF fin] sub show "H = {}" by force
  next
    assume "H = {}"
    with h show "swHighest w = 0" by (simp add: highest_of_def unat_eq_0)
  qed
qed

lemma in_window_iff:
  assumes "window_sim w H" and "H \<noteq> {}"
  shows "(\<forall>h \<in> H. h < s + unat (swSize w)) \<longleftrightarrow> unat (swHighest w) < s + unat (swSize w)"
  using window_simD [OF assms(1)] highest_of_in [OF _ assms(2)] highest_of_bound by (metis le_less_trans)

lemma below_window_iff:
  assumes "0 < unat (swSize w)" and "s \<noteq> 0"
  shows "(swHighest w \<ge> swSize w \<and> s < swHighest w - swSize w + 1) \<longleftrightarrow> unat s + unat (swSize w) \<le> unat (swHighest w)"
proof (cases "swSize w \<le> swHighest w")
  case True
  have sub: "unat (swHighest w - swSize w) = unat (swHighest w) - unat (swSize w)"
    using True by (rule unat_sub)
  moreover have "unat (swHighest w) < 2 ^ 32" using unat_less_2p [of "swHighest w"] by simp
  ultimately have "unat (swHighest w - swSize w + 1) = unat (swHighest w) - unat (swSize w) + 1"
    using assms(1) by (simp add: unat_plus_if')
  with True show ?thesis by (auto simp: word_less_nat_alt word_le_nat_alt)
next
  case False
  then show ?thesis by (auto simp: word_le_nat_alt)
qed

text \<open>Recording a number that lies in the window whose top is \<open>top\<close>.\<close>

lemma window_sim_record:
  assumes sim: "window_sim w0 H" and "swSize w = swSize w0" and len: "length (swBitmap w) = length (swBitmap w0)"
    and s: "0 < unat s" "unat s \<le> 2 ^ 31" "unat s \<le> unat (swHighest w)" "unat (swHighest w) < unat s + unat (swSize w)"
    and top: "unat (swHighest w) = highest_of (insert (unat s) H)"
    and bits: "\<And>t. 0 < t \<Longrightarrow> t \<le> unat (swHighest w) \<Longrightarrow> unat (swHighest w) < t + unat (swSize w) \<Longrightarrow>
      ba_get (swBitmap w) (t mod unat (swSize w)) \<longleftrightarrow> t \<in> H"
  shows "window_sim (setBit s w) (insert (unat s) H)"
proof -
  have "ba_get (swBitmap (setBit s w)) (t mod unat (swSize w)) \<longleftrightarrow> t \<in> insert (unat s) H"
    if "0 < t" "t \<le> unat (swHighest w)" "unat (swHighest w) < t + unat (swSize w)" for t
  proof -
    have "t mod unat (swSize w) = unat s mod unat (swSize w) \<longleftrightarrow> t = unat s"
      using mod_inj_window [of t "unat (swSize w)" "unat s"] that s by auto
    then show ?thesis
      using bits [OF that] offset_in_bitmap [OF sim, of "unat s"] assms(2) len
      by (auto simp: setBit_def ba_get_set unat_mod)
  qed
  then show ?thesis
    using sim assms(2) len s top by (auto simp: window_sim_def setBit_def)
qed

lemma Accept_sim:
  assumes sim: "window_sim w H" and acc: "Accept s w = (ok, w')"
  shows "ok = spec_accepts (unat (swSize w)) H (unat s)"
    and "window_sim w' (if ok then insert (unat s) H else H)" and "swSize w' = swSize w"
proof -
  note D = window_simD [OF sim]
  let ?h = "unat (swHighest w)" and ?sz = "unat (swSize w)"
  have "ok = spec_accepts ?sz H (unat s) \<and> window_sim w' (if ok then insert (unat s) H else H) \<and> swSize w' = swSize w"
  proof (cases "s > MAXSEQ \<or> s = 0")
    case True
    then have "ok = False" "w' = w" using acc by (auto simp: Accept_def)
    moreover have "\<not> spec_accepts ?sz H (unat s)"
      using True by (auto simp: spec_accepts_def word_less_nat_alt)
    ultimately show ?thesis using sim by simp
  next
    case False
    then have s: "0 < unat s" "unat s \<le> 2 ^ 31" "s \<noteq> 0" by (auto simp: word_less_nat_alt unat_gt_0)
    show ?thesis
    proof (cases "H = {}")
      case True
      then have w': "ok = True" "w' = setBit s (w\<lparr>swHighest := s\<rparr>)"
        using acc False D(4) by (auto simp: Accept_def)
      have "window_sim (setBit s (w\<lparr>swHighest := s\<rparr>)) (insert (unat s) H)"
        by (rule window_sim_record [OF sim]) (use s D(3) True sim in \<open>auto simp: highest_of_def window_sim_def\<close>)
      moreover have "spec_accepts ?sz H (unat s)" using True s by (simp add: spec_accepts_def)
      ultimately show ?thesis using w' by (simp add: setBit_def)
    next
      case nonempty: False
      have pos: "swHighest w \<noteq> 0" using D(4) nonempty by simp
      note below = below_window_iff [OF D(3) s(3)] and inw = in_window_iff [OF sim nonempty, of "unat s"]
      consider (low) "unat s + ?sz \<le> ?h" | (seen) "?h < unat s + ?sz" "unat s \<le> ?h" "isBitSet w s"
        | (gap) "?h < unat s + ?sz" "unat s \<le> ?h" "\<not> isBitSet w s" | (new) "?h < unat s"
        by linarith
      then show ?thesis
      proof cases
        case low
        then have "ok = False" "w' = w" using acc False pos below by (auto simp: Accept_def)
        with low inw sim show ?thesis by (auto simp: spec_accepts_def)
      next
        case seen
        then have "unat s \<in> H"
          using sim D(2) s by (auto simp: window_sim_def isBitSet_def unat_mod)
        moreover have "ok = False" "w' = w"
          using acc False pos below seen by (auto simp: Accept_def word_le_nat_alt)
        ultimately show ?thesis using sim by (simp add: spec_accepts_def)
      next
        case gap
        then have "unat s \<notin> H"
          using sim D(2) s by (auto simp: window_sim_def isBitSet_def unat_mod)
        moreover have w': "ok = True" "w' = setBit s w"
          using acc False pos below gap by (auto simp: Accept_def word_le_nat_alt)
        moreover have "window_sim (setBit s w) (insert (unat s) H)"
          by (rule window_sim_record [OF sim])
            (use s gap D sim in \<open>auto simp: highest_of_insert window_sim_def\<close>)
        ultimately show ?thesis using inw gap s by (simp add: spec_accepts_def setBit_def)
      next
        case new
        let ?w1 = "(slideWindow (s - swHighest w) w)\<lparr>swHighest := s\<rparr>"
        have w': "ok = True" "w' = setBit s ?w1"
          using acc False pos below new by (auto simp: Accept_def word_le_nat_alt Let_def)
        have "unat s \<notin> H" using highest_of_bound [OF D(1)] D(2) new by fastforce
        moreover have "window_sim (setBit s ?w1) (insert (unat s) H)"
        proof (rule window_sim_record [OF sim])
          show "ba_get (swBitmap ?w1) (t mod unat (swSize ?w1)) \<longleftrightarrow> t \<in> H"
            if "0 < t" "t \<le> unat (swHighest ?w1)" "unat (swHighest ?w1) < t + unat (swSize ?w1)" for t
            using ba_get_slide [OF sim _ s(2) nonempty, of t] that new
            by (auto simp: word_less_nat_alt slideWindow_def)
        qed (use s new D in \<open>auto simp: slideWindow_def highest_of_insert\<close>)
        ultimately show ?thesis using w' inw new s by (simp add: spec_accepts_def setBit_def slideWindow_def)
      qed
    qed
  qed
  then show "ok = spec_accepts ?sz H (unat s)" "window_sim w' (if ok then insert (unat s) H else H)"
    "swSize w' = swSize w" by auto
qed

lemma NewSeqWindow_sim:
  assumes "unat sz \<le> 2 ^ 32 - 64"
  shows "window_sim (NewSeqWindow sz) {}"
proof -
  let ?sz = "if sz = 0 then 1 else sz"
  have le: "unat ?sz \<le> 2 ^ 32 - 64" "0 < unat ?sz" using assms by (auto simp: unat_gt_0)
  then have "unat (?sz + 63) = unat ?sz + 63" by (simp add: unat_plus_if')
  then have "unat ((?sz + 63) div 64) = (unat ?sz + 63) div 64" by (simp add: unat_div)
  then show ?thesis using le by (simp add: window_sim_def NewSeqWindow_def Let_def highest_of_def)
qed

lemma accept_run_sim:
  "window_sim w H \<Longrightarrow> accept_run w ss = spec_run (unat (swSize w)) H (map unat ss)"
proof (induction ss arbitrary: w H)
  case (Cons s ss)
  obtain ok w' where acc: "Accept s w = (ok, w')" by force
  show ?case
    using Accept_sim [OF Cons.prems acc] Cons.IH [of w'] acc by (auto split: if_splits)
qed simp

section \<open>The window as a replay guard\<close>

lemma steps_ok_True: "steps_ok (\<lambda>s op. True) step s ops"
  by (induction ops arbitrary: s) simp_all

definition gss_step :: "SeqWindow \<Rightarrow> u32 \<Rightarrow> nat list \<times> SeqWindow" where
  "gss_step w s = (case Accept s w of (ok, w') \<Rightarrow> (if ok then [unat s] else [], w'))"

text \<open>A number is spent once it was accepted or fell out of the window.\<close>

definition gss_spent :: "SeqWindow \<Rightarrow> nat \<Rightarrow> bool" where
  "gss_spent w n \<longleftrightarrow> 0 < n \<and> n \<le> unat (swHighest w) \<and>
     (n + unat (swSize w) \<le> unat (swHighest w) \<or> ba_get (swBitmap w) (n mod unat (swSize w)))"

definition gss_inv :: "SeqWindow \<Rightarrow> bool" where
  "gss_inv w \<longleftrightarrow> (\<exists>H. window_sim w H)"

lemma gss_spent_iff:
  assumes "window_sim w H"
  shows "gss_spent w n \<longleftrightarrow> 0 < n \<and> n \<le> highest_of H \<and> (n + unat (swSize w) \<le> highest_of H \<or> n \<in> H)"
proof (cases "highest_of H < n + unat (swSize w)")
  case True
  then show ?thesis using assms window_simD(2) [OF assms] by (auto simp: gss_spent_def window_sim_def)
next
  case False
  then show ?thesis using window_simD(2) [OF assms] by (auto simp: gss_spent_def)
qed

lemma gss_step_cases:
  assumes "window_sim w H"
  obtains (accept) w' where "gss_step w s = ([unat s], w')" "spec_accepts (unat (swSize w)) H (unat s)"
      "window_sim w' (insert (unat s) H)" "swSize w' = swSize w"
  | (reject) w' where "gss_step w s = ([], w')" "window_sim w' H" "swSize w' = swSize w"
proof -
  obtain ok w' where acc: "Accept s w = (ok, w')" by force
  note sim = Accept_sim [OF assms acc]
  show ?thesis
    using sim acc that by (cases ok) (auto simp: gss_step_def)
qed

lemma gss_stays:
  assumes "window_sim w H" and "window_sim w' H'" and "swSize w' = swSize w" and "H \<subseteq> H'" and "gss_spent w n"
  shows "gss_spent w' n"
proof -
  have "highest_of H \<le> highest_of H'"
    using assms(4) window_simD(1) [OF assms(2)] highest_of_bound [of H'] highest_of_in [of H] window_simD(1) [OF assms(1)]
    by (cases "H = {}") (auto simp: highest_of_def)
  with assms show ?thesis
    by (auto simp: gss_spent_iff [OF assms(1)] gss_spent_iff [OF assms(2)])
qed

interpretation gss: replay_guard gss_inv "\<lambda>w s. True" gss_step gss_spent
proof unfold_locales
  fix w s n
  assume "gss_inv w"
  then obtain H where sim: "window_sim w H" by (auto simp: gss_inv_def)
  show "gss_inv (snd (gss_step w s))"
    using sim by (cases rule: gss_step_cases [of w H s]) (auto simp: gss_inv_def)
  show "distinct (fst (gss_step w s))"
    using sim by (cases rule: gss_step_cases [of w H s]) auto
  show "\<not> gss_spent w n" if "n \<in> set (fst (gss_step w s))"
    using sim
  proof (cases rule: gss_step_cases [of w H s])
    case (accept w')
    with that have n: "n = unat s" by simp
    have "highest_of H < unat s + unat (swSize w)"
      using accept(2) highest_of_in [OF window_simD(1) [OF sim]] in_window_iff [OF sim] window_simD(2) [OF sim]
      by (cases "H = {}") (auto simp: spec_accepts_def highest_of_def)
    with accept(2) show ?thesis by (auto simp: gss_spent_iff [OF sim] n spec_accepts_def)
  qed (use that in auto)
  show "gss_spent (snd (gss_step w s)) n" if "n \<in> set (fst (gss_step w s))"
    using sim
  proof (cases rule: gss_step_cases [of w H s])
    case (accept w')
    with that have n: "n = unat s" by simp
    have "unat s \<le> highest_of (insert (unat s) H)"
      using highest_of_bound [of "insert (unat s) H"] window_simD(1) [OF sim] by simp
    with accept show ?thesis by (auto simp: gss_spent_iff [OF accept(3)] n spec_accepts_def)
  qed (use that in auto)
  show "gss_spent (snd (gss_step w s)) n" if "gss_spent w n"
    using sim
  proof (cases rule: gss_step_cases [of w H s])
    case (accept w')
    then show ?thesis using gss_stays [OF sim accept(3,4) _ that] by auto
  next
    case (reject w')
    then show ?thesis using gss_stays [OF sim reject(2,3) _ that] by auto
  qed
qed

section \<open>Properties\<close>

text \<open>C16: For every stream of sequence numbers, the bitmap window gives the same verdicts as a
  reference that remembers everything: a number is accepted exactly when it is between 1 and
  \<open>MAXSEQ\<close>, was never accepted before and is less than a window size behind the highest one
  accepted.  The window size must leave room for rounding up to whole words.\<close>

theorem gss_window_exact:
  assumes "unat sz \<le> 2 ^ 32 - 64"
  shows "accept_run (NewSeqWindow sz) ss = spec_run (max 1 (unat sz)) {} (map unat ss)"
proof -
  have "unat (swSize (NewSeqWindow sz)) = max 1 (unat sz)"
    using unat_gt_0 [of sz] by (auto simp: NewSeqWindow_def Let_def max_def)
  with accept_run_sim [OF NewSeqWindow_sim [OF assms]] show ?thesis by simp
qed

theorem gss_window_exact_witness:
  "accept_run (NewSeqWindow 2) [1, 3, 1, 2, 2, 3] = [True, True, False, True, False, False]"
proof -
  have "unat (2 :: u32) \<le> 2 ^ 32 - 64" by simp
  then show ?thesis using gss_window_exact [of 2 "[1, 3, 1, 2, 2, 3]"] by (simp add: spec_accepts_def)
qed

text \<open>C8: No replay: in no stream is a sequence number accepted twice within the life of a
  context.\<close>

theorem gss_no_replay:
  assumes "unat sz \<le> 2 ^ 32 - 64"
  shows "distinct (fst (run_steps gss_step (NewSeqWindow sz) ss))"
proof (rule gss.no_number_twice)
  show "gss_inv (NewSeqWindow sz)" using NewSeqWindow_sim [OF assms] by (auto simp: gss_inv_def)
  show "steps_ok (\<lambda>w s. True) gss_step (NewSeqWindow sz) ss"
    by (rule steps_ok_True)
qed

theorem gss_no_replay_witness:
  "fst (run_steps gss_step (NewSeqWindow 128) [5, 5, 4, 5]) = [5, 4]
   \<and> distinct (fst (run_steps gss_step (NewSeqWindow 128) [5, 5, 4, 5]))"
proof
  have "unat (128 :: u32) \<le> 2 ^ 32 - 64" by simp
  then show "distinct (fst (run_steps gss_step (NewSeqWindow 128) [5, 5, 4, 5]))"
    by (rule gss_no_replay)
  show "fst (run_steps gss_step (NewSeqWindow 128) [5, 5, 4, 5]) = [5, 4]"
    by (simp add: gss_step_def NewSeqWindow_def Accept_def setBit_def isBitSet_def ba_set_def ba_get_def bit_simps)
qed

section \<open>Oversized windows\<close>

text \<open>The number of bitmap words is computed in 32 bits: for a window of \<open>2^32 - 63\<close> numbers
  it wraps to zero words, nothing is recorded and every replay is accepted.\<close>

lemma oversized_window_accepts_replays:
  "accept_run (NewSeqWindow 0xFFFFFFC1) [7, 7] = [True, True]"
  by (simp add: NewSeqWindow_def Accept_def setBit_def isBitSet_def ba_set_def ba_get_def Let_def)

end
