(* ===== verification/SMB_Window.thy ===== *)
theory SMB_Window
  imports Replay_Guard
begin

text \<open>
  The SMB2 command sequence window (\<open>internal/adapter/smb/session/sequence_window.go\<close>): the
  message ids a client may use, as a bitmap above a low watermark, and the credit balance the server
  keeps beside it.  All arithmetic is on 64-bit words.  The window is shown to refine a set of usable
  ids with an unbounded counter, and to be a replay guard.
\<close>

section \<open>The window\<close>

record CommandSequenceWindow =
  cwLow :: u64
  cwHigh :: u64
  cwBitmap :: bitmap
  cwMaxSize :: u64
  cwAvailable :: u64

definition NewCommandSequenceWindow :: "u64 \<Rightarrow> CommandSequenceWindow" where
  "NewCommandSequenceWindow maxSize =
     \<lparr>cwLow = 0, cwHigh = 2, cwBitmap = [3], cwMaxSize = maxSize, cwAvailable = 1\<rparr>"

fun advance_loop :: "u64 \<Rightarrow> u64 \<Rightarrow> bitmap \<Rightarrow> u64 \<times> bitmap" where
  "advance_loop high low [] = (low, [])"
| "advance_loop high low (b # bs) =
     (if b = 0 then
        (let nextLow = low + 64 in
         if nextLow > high then (low, b # bs) else advance_loop high nextLow bs)
      else (low, b # bs))"

definition advanceLow :: "CommandSequenceWindow \<Rightarrow> CommandSequenceWindow" where
  "advanceLow w = (case advance_loop (cwHigh w) (cwLow w) (cwBitmap w) of
     (low, bm) \<Rightarrow> w\<lparr>cwLow := low, cwBitmap := bm\<rparr>)"

definition Consume :: "u64 \<Rightarrow> u16 \<Rightarrow> CommandSequenceWindow \<Rightarrow> bool \<times> CommandSequenceWindow" where
  "Consume messageId creditCharge w =
     (let charge = (ucast creditCharge :: u64);
          charge = (if charge = 0 then 1 else charge);
          offset = (\<lambda>i. unat (messageId + of_nat i - cwLow w))
      in if messageId < cwLow w \<or> messageId + charge > cwHigh w then (False, w)
         else if \<not> list_all (\<lambda>i. ba_get (cwBitmap w) (offset i)) [0..<unat charge] then (False, w)
         else (True, advanceLow (w
           \<lparr>cwBitmap := fold (\<lambda>i bm. ba_clear bm (offset i)) [0..<unat charge] (cwBitmap w),
            cwAvailable := (if charge > cwAvailable w then 0 else cwAvailable w - charge)\<rparr>)))"

definition extend_window :: "u64 \<Rightarrow> CommandSequenceWindow \<Rightarrow> CommandSequenceWindow" where
  "extend_window g w =
     (let newHigh = cwHigh w + g;
          totalSpan = newHigh - cwLow w;
          neededWords = (totalSpan + 63) div 64;
          bm = cwBitmap w @ replicate (unat neededWords - length (cwBitmap w)) 0
      in w\<lparr>cwBitmap := fold (\<lambda>s bm. ba_set bm (unat (of_nat s - cwLow w))) [unat (cwHigh w)..<unat newHigh] bm,
           cwHigh := newHigh,
           cwAvailable := cwAvailable w + g\<rparr>)"

definition Grant :: "u16 \<Rightarrow> CommandSequenceWindow \<Rightarrow> u16 \<times> CommandSequenceWindow" where
  "Grant count w =
     (let g = (ucast count :: u64) in
      if cwAvailable w + g > cwMaxSize w then
        (if cwAvailable w \<ge> cwMaxSize w then (0, w)
         else (let g = cwMaxSize w - cwAvailable w in (ucast g, extend_window g w)))
      else (ucast g, extend_window g w))"

definition Reclaim :: "u16 \<Rightarrow> CommandSequenceWindow \<Rightarrow> CommandSequenceWindow" where
  "Reclaim n w =
     (let r = (ucast n :: u64);
          r = (if r > cwAvailable w then cwAvailable w else r)
      in w\<lparr>cwAvailable := cwAvailable w - r\<rparr>)"

definition window_Size :: "CommandSequenceWindow \<Rightarrow> u64" where
  "window_Size w = cwHigh w - cwLow w"

definition Available :: "CommandSequenceWindow \<Rightarrow> u64" where
  "Available w = cwAvailable w"

definition MaxSize :: "CommandSequenceWindow \<Rightarrow> u64" where
  "MaxSize w = cwMaxSize w"

definition Remaining :: "CommandSequenceWindow \<Rightarrow> u64" where
  "Remaining w = (if cwAvailable w \<ge> cwMaxSize w then 0 else cwMaxSize w - cwAvailable w)"

section \<open>The specification\<close>

text \<open>What the window promises: a set of usable ids, the next id to hand out and a balance, all
  unbounded.\<close>

record credit_spec =
  csIds :: "nat set"
  csNext :: nat
  csMax :: nat
  csBalance :: nat

datatype window_op = OpConsume u64 u16 | OpGrant u16 | OpReclaim u16

definition eff_charge :: "u16 \<Rightarrow> nat" where
  "eff_charge c = max 1 (unat c)"

fun spec_op :: "window_op \<Rightarrow> credit_spec \<Rightarrow> nat \<times> credit_spec" where
  "spec_op (OpConsume m c) s =
     (let r = {unat m..<unat m + eff_charge c} in
      if r \<subseteq> csIds s then (1, s\<lparr>csIds := csIds s - r, csBalance := csBalance s - eff_charge c\<rparr>) else (0, s))"
| "spec_op (OpGrant n) s =
     (let g = min (unat n) (csMax s - csBalance s) in
      (g, s\<lparr>csIds := csIds s \<union> {csNext s..<csNext s + g}, csNext := csNext s + g, csBalance := csBalance s + g\<rparr>))"
| "spec_op (OpReclaim n) s = (0, s\<lparr>csBalance := csBalance s - unat n\<rparr>)"

fun window_step :: "window_op \<Rightarrow> CommandSequenceWindow \<Rightarrow> nat \<times> CommandSequenceWindow" where
  "window_step (OpConsume m c) w = (case Consume m c w of (ok, w) \<Rightarrow> (if ok then 1 else 0, w))"
| "window_step (OpGrant n) w = (case Grant n w of (g, w) \<Rightarrow> (unat g, w))"
| "window_step (OpReclaim n) w = (0, Reclaim n w)"

fun spec_ops :: "window_op list \<Rightarrow> credit_spec \<Rightarrow> nat list \<times> credit_spec" where
  "spec_ops [] s = ([], s)"
| "spec_ops (op # ops) s = (let (r, s) = spec_op op s; (rs, s) = spec_ops ops s in (r # rs, s))"

fun window_ops :: "window_op list \<Rightarrow> CommandSequenceWindow \<Rightarrow> nat list \<times> CommandSequenceWindow" where
  "window_ops [] w = ([], w)"
| "window_ops (op # ops) w = (let (r, w) = window_step op w; (rs, w) = window_ops ops w in (r # rs, w))"

definition usable :: "CommandSequenceWindow \<Rightarrow> nat set" where
  "usable w = {n. unat (cwLow w) \<le> n \<and> ba_get (cwBitmap w) (n - unat (cwLow w))}"

definition window_abs :: "CommandSequenceWindow \<Rightarrow> credit_spec" where
  "window_abs w = \<lparr>csIds = usable w, csNext = unat (cwHigh w), csMax = unat (cwMaxSize w),
     csBalance = unat (cwAvailable w)\<rparr>"

text \<open>The invariant: the bitmap has exactly the words its span needs, nothing is usable at or above
  the next id, and the balance is covered by usable ids and stays below the cap.\<close>

definition window_inv :: "CommandSequenceWindow \<Rightarrow> bool" where
  "window_inv w \<longleftrightarrow> unat (cwLow w) \<le> unat (cwHigh w)
     \<and> length (cwBitmap w) = (unat (cwHigh w) - unat (cwLow w) + 63) div 64
     \<and> usable w \<subseteq> {..<unat (cwHigh w)}
     \<and> unat (cwMaxSize w) < 2 ^ 63
     \<and> unat (cwAvailable w) \<le> max 1 (unat (cwMaxSize w))
     \<and> unat (cwAvailable w) \<le> card (usable w)"

text \<open>The ids have not run out: more than one grant and one word are left below \<open>2 ^ 64\<close>.\<close>

definition room :: "CommandSequenceWindow \<Rightarrow> bool" where
  "room w \<longleftrightarrow> unat (cwHigh w) + 2 ^ 17 \<le> 2 ^ 64"

section \<open>The low watermark\<close>

lemma ba_get_Cons: "ba_get (b # bs) i \<longleftrightarrow> (if i < 64 then bit b i else ba_get bs (i - 64))"
proof (cases "i < 64")
  case False
  then obtain k where i: "i = 64 + k" using le_Suc_ex not_less by blast
  then have "i div 64 = Suc (k div 64)" "i mod 64 = k mod 64" by simp_all
  then show ?thesis using i by (simp add: ba_get_iff)
qed (simp add: ba_get_iff)

lemma usable_Nil [simp]: "cwBitmap w = [] \<Longrightarrow> usable w = {}"
  by (simp add: usable_def ba_get_iff)

lemma advance_loop_facts:
  assumes "advance_loop high low bm = (low', bm')" and "unat low \<le> unat high" and "unat high + 64 < 2 ^ 64"
    and "length bm = (unat high - unat low + 63) div 64"
  shows "unat low' \<le> unat high \<and> length bm' = (unat high - unat low' + 63) div 64
    \<and> {n. unat low' \<le> n \<and> ba_get bm' (n - unat low')} = {n. unat low \<le> n \<and> ba_get bm (n - unat low)}"
  using assms
proof (induction high low bm rule: advance_loop.induct)
  case (2 high low b bs)
  show ?case
  proof (cases "b = 0 \<and> \<not> low + 64 > high")
    case True
    have add: "unat (low + 64) = unat low + 64"
      using "2.prems"(2,3) by (simp add: unat_plus_if')
    then have le: "unat low + 64 \<le> unat high" using True by (simp add: word_less_nat_alt)
    have len: "length bs = (unat high - unat (low + 64) + 63) div 64"
      using "2.prems"(4) le add by simp
    have bits: "unat low + 64 \<le> n \<and> ba_get bs (n - (unat low + 64)) \<longleftrightarrow> unat low \<le> n \<and> ba_get (b # bs) (n - unat low)" for n
    proof (cases "n - unat low < 64")
      case False
      then have "n - unat low - 64 = n - (unat low + 64)" by simp
      with False show ?thesis by (auto simp only: ba_get_Cons if_False)
    qed (use True in \<open>auto simp: ba_get_Cons\<close>)
    have adv: "advance_loop high (low + 64) bs = (low', bm')"
      using "2.prems"(1) True by (simp add: Let_def)
    have le': "unat (low + 64) \<le> unat high" using le add by simp
    have "b = 0" "\<not> low + 64 > high" using True by auto
    from "2.IH" [OF this(1) refl this(2) adv le' "2.prems"(3) len] show ?thesis
      by (simp only: add bits)
  next
    case False
    then have "low' = low" "bm' = b # bs" using "2.prems"(1) by (auto simp: Let_def split: if_splits)
    then show ?thesis using "2.prems" by blast
  qed
qed simp

lemma advanceLow_facts:
  assumes "unat (cwLow w) \<le> unat (cwHigh w)" and "unat (cwHigh w) + 64 < 2 ^ 64"
    and "length (cwBitmap w) = (unat (cwHigh w) - unat (cwLow w) + 63) div 64"
  shows "unat (cwLow (advanceLow w)) \<le> unat (cwHigh w)"
    and "length (cwBitmap (advanceLow w)) = (unat (cwHigh w) - unat (cwLow (advanceLow w)) + 63) div 64"
    and "usable (advanceLow w) = usable w"
    and "cwHigh (advanceLow w) = cwHigh w" and "cwMaxSize (advanceLow w) = cwMaxSize w"
    and "cwAvailable (advanceLow w) = cwAvailable w"
proof -
  obtain low bm where adv: "advance_loop (cwHigh w) (cwLow w) (cwBitmap w) = (low, bm)" by force
  note facts = advance_loop_facts [OF adv assms]
  show "unat (cwLow (advanceLow w)) \<le> unat (cwHigh w)" "usable (advanceLow w) = usable w"
    "length (cwBitmap (advanceLow w)) = (unat (cwHigh w) - unat (cwLow (advanceLow w)) + 63) div 64"
    "cwHigh (advanceLow w) = cwHigh w" "cwMaxSize (advanceLow w) = cwMaxSize w" "cwAvailable (advanceLow w) = cwAvailable w"
    using facts by (simp_all add: advanceLow_def adv usable_def)
qed

section \<open>Consuming ids\<close>

lemma window_invD:
  assumes "window_inv w"
  shows "unat (cwLow w) \<le> unat (cwHigh w)" "finite (usable w)" "n \<in> usable w \<Longrightarrow> n < unat (cwHigh w)"
    "length (cwBitmap w) = (unat (cwHigh w) - unat (cwLow w) + 63) div 64"
  using assms finite_subset [of "usable w" "{..<unat (cwHigh w)}"] by (auto simp: window_inv_def)

definition charge_word :: "u16 \<Rightarrow> u64" where
  "charge_word c = (if (ucast c :: u64) = 0 then 1 else ucast c)"

lemma unat_ucast16 [simp]: "unat (ucast (c :: u16) :: u64) = unat c"
  using unat_less_2p [of c] by (simp add: unsigned_ucast_eq take_bit_nat_eq_self)

lemma charge_word [simp]: "unat (charge_word c) = eff_charge c"
proof (cases "c = 0")
  case False
  then have "unat (ucast c :: u64) \<noteq> 0" by (simp add: unat_eq_0)
  then have "(ucast c :: u64) \<noteq> 0" by (metis unat_0)
  moreover have "0 < unat c" using False by (simp add: unat_gt_0)
  ultimately show ?thesis by (simp add: charge_word_def eff_charge_def)
qed (simp add: charge_word_def eff_charge_def)

lemma eff_charge_bounds: "1 \<le> eff_charge c" "eff_charge c < 2 ^ 16"
  using unat_less_2p [of c] by (auto simp: eff_charge_def)

text \<open>As long as ids are left, the offsets of a request do not wrap; a request whose last id would
  wrap starts above every usable id.\<close>

lemma offset_word:
  fixes m low :: u64
  assumes "unat low \<le> unat m" and "unat m + i < 2 ^ 64"
  shows "unat (m + of_nat i - low) = unat m + i - unat low"
proof -
  have "unat (m + of_nat i) = unat m + i"
    using assms(2) by (simp add: unat_plus_if' unat_of_nat take_bit_nat_eq_self)
  moreover have "low \<le> m + of_nat i" using calculation assms(1) by (simp add: word_le_nat_alt)
  ultimately show ?thesis by (simp add: unat_sub)
qed

lemma Consume_check:
  assumes inv: "window_inv w" and room: "room w"
  shows "(\<not> (m < cwLow w \<or> m + charge_word c > cwHigh w)
      \<and> list_all (\<lambda>i. ba_get (cwBitmap w) (unat (m + of_nat i - cwLow w))) [0..<eff_charge c])
    \<longleftrightarrow> {unat m..<unat m + eff_charge c} \<subseteq> usable w" (is "?check \<longleftrightarrow> ?sub")
proof (cases "unat m < unat (cwLow w) \<or> unat (cwHigh w) \<le> unat m")
  case True
  have pos: "0 \<in> set [0..<eff_charge c]" "unat m \<in> {unat m..<unat m + eff_charge c}"
    using eff_charge_bounds [of c] by auto
  have out: "unat m \<notin> usable w" using True window_invD(3) [OF inv, of "unat m"] by (auto simp: usable_def)
  have "unat m \<in> usable w" if ?check
  proof -
    have "\<not> m < cwLow w" using that by simp
    moreover have "ba_get (cwBitmap w) (unat (m + of_nat 0 - cwLow w))"
      using that [THEN conjunct2, unfolded list_all_iff] pos(1) by (rule bspec)
    ultimately show ?thesis by (simp add: usable_def word_less_nat_alt unat_sub word_le_nat_alt)
  qed
  with out have "\<not> ?check" by (rule contrapos_nn)
  moreover have "\<not> ?sub" using pos(2) out by (metis subsetD)
  ultimately show ?thesis by (simp only:)
next
  case False
  then have small: "unat m + eff_charge c < 2 ^ 64" and le: "unat (cwLow w) \<le> unat m"
    using room eff_charge_bounds [of c] by (auto simp: room_def)
  have "unat (m + charge_word c) = unat m + eff_charge c"
    using small by (simp add: unat_plus_if')
  then have guard: "(m < cwLow w \<or> m + charge_word c > cwHigh w) \<longleftrightarrow> unat (cwHigh w) < unat m + eff_charge c"
    using False by (auto simp: word_less_nat_alt)
  have bits: "list_all (\<lambda>i. ba_get (cwBitmap w) (unat (m + of_nat i - cwLow w))) [0..<eff_charge c] \<longleftrightarrow> ?sub"
  proof -
    have "ba_get (cwBitmap w) (unat (m + of_nat i - cwLow w)) \<longleftrightarrow> unat m + i \<in> usable w" if "i < eff_charge c" for i
      using offset_word [OF le, of i] that small le by (simp add: usable_def)
    moreover have "?sub \<longleftrightarrow> (\<forall>i < eff_charge c. unat m + i \<in> usable w)"
      by (auto simp: subset_eq) (metis le_add_diff_inverse nat_add_left_cancel_less)
    ultimately show ?thesis by (simp add: list_all_iff Ball_def)
  qed
  have "unat m + eff_charge c \<le> unat (cwHigh w)" if ?sub
  proof -
    have "unat m + eff_charge c - 1 \<in> usable w" using eff_charge_bounds(1) [of c] by (intro subsetD [OF that]) auto
    then show ?thesis using window_invD(3) [OF inv] by fastforce
  qed
  then show ?thesis unfolding guard bits by (metis leD)
qed

lemma usable_clear:
  assumes "{unat m..<unat m + k} \<subseteq> usable w" and "unat m + k < 2 ^ 64" and "unat (cwLow w) \<le> unat m"
  shows "usable (w\<lparr>cwBitmap := fold (\<lambda>i bm. ba_clear bm (unat (m + of_nat i - cwLow w))) [0..<k] (cwBitmap w), cwAvailable := a\<rparr>)
     = usable w - {unat m..<unat m + k}"
proof -
  have "(n - unat (cwLow w) \<in> (\<lambda>i. unat (m + of_nat i - cwLow w)) ` set [0..<k]) \<longleftrightarrow> n \<in> {unat m..<unat m + k}"
    if "unat (cwLow w) \<le> n" for n
  proof -
    have "(\<lambda>i. unat (m + of_nat i - cwLow w)) ` set [0..<k] = (\<lambda>i. unat m + i - unat (cwLow w)) ` {0..<k}"
      using offset_word [OF assms(3)] assms(2) by (intro image_cong) auto
    moreover have "n - unat (cwLow w) \<in> (\<lambda>i. unat m + i - unat (cwLow w)) ` {0..<k} \<longleftrightarrow> n \<in> {unat m..<unat m + k}"
    proof
      assume "n \<in> {unat m..<unat m + k}"
      then have "n - unat m \<in> {0..<k}" "n - unat (cwLow w) = unat m + (n - unat m) - unat (cwLow w)" by auto
      then show "n - unat (cwLow w) \<in> (\<lambda>i. unat m + i - unat (cwLow w)) ` {0..<k}" by blast
    qed (use that assms(3) in auto)
    ultimately show ?thesis by simp
  qed
  then show ?thesis
    by (simp add: usable_def ba_get_fold_clear set_diff_eq conj_assoc del: set_upt cong: conj_cong)
qed

lemma Consume_refused:
  assumes "window_inv w" and "room w" and "\<not> {unat m..<unat m + eff_charge c} \<subseteq> usable w"
  shows "Consume m c w = (False, w)"
  using Consume_check [OF assms(1,2), of m c] assms(3)
  unfolding Consume_def Let_def charge_word_def [symmetric] charge_word by (simp only: if_splits) metis

lemma Consume_accepted:
  assumes inv: "window_inv w" and room: "room w" and sub: "{unat m..<unat m + eff_charge c} \<subseteq> usable w"
  obtains w' where "Consume m c w = (True, w')" and "usable w' = usable w - {unat m..<unat m + eff_charge c}"
    and "cwHigh w' = cwHigh w" and "cwMaxSize w' = cwMaxSize w"
    and "unat (cwAvailable w') = unat (cwAvailable w) - eff_charge c" and "window_inv w'"
proof -
  let ?w1 = "w\<lparr>cwBitmap := fold (\<lambda>i bm. ba_clear bm (unat (m + of_nat i - cwLow w))) [0..<eff_charge c] (cwBitmap w),
    cwAvailable := (if charge_word c > cwAvailable w then 0 else cwAvailable w - charge_word c)\<rparr>"
  have eq: "Consume m c w = (True, advanceLow ?w1)"
    using Consume_check [OF inv room, of m c] sub
    unfolding Consume_def Let_def charge_word_def [symmetric] charge_word by (simp only: if_splits) metis
  have m: "unat m \<in> usable w" using sub eff_charge_bounds(1) [of c] by (intro subsetD [OF sub]) auto
  then have lt: "unat m < unat (cwHigh w)" and le: "unat (cwLow w) \<le> unat m"
    using window_invD(3) [OF inv] by (auto simp: usable_def)
  have us: "usable ?w1 = usable w - {unat m..<unat m + eff_charge c}"
    using usable_clear [OF sub _ le] lt room eff_charge_bounds(2) [of c] by (simp add: room_def)
  have av: "unat (cwAvailable ?w1) = unat (cwAvailable w) - eff_charge c"
    by (simp add: word_less_nat_alt unat_sub word_le_nat_alt)
  note adv = advanceLow_facts [of ?w1]
  have base: "unat (cwLow ?w1) \<le> unat (cwHigh ?w1)" "unat (cwHigh ?w1) + 64 < 2 ^ 64"
    "length (cwBitmap ?w1) = (unat (cwHigh ?w1) - unat (cwLow ?w1) + 63) div 64"
    using window_invD(1,4) [OF inv] room by (simp_all add: room_def)
  have "card (usable w - {unat m..<unat m + eff_charge c}) = card (usable w) - eff_charge c"
    using sub by (simp add: card_Diff_subset)
  then have "window_inv (advanceLow ?w1)"
    using inv adv [OF base] us av window_invD(3) [OF inv] unfolding window_inv_def by auto
  then show thesis using that eq adv [OF base] us av by simp
qed

section \<open>Granting and reclaiming credits\<close>

lemma extend_window_facts:
  assumes inv: "window_inv w" and room: "room w" and g: "unat g \<le> 2 ^ 16"
    and fits: "unat (cwAvailable w) + unat g < 2 ^ 64"
  shows "usable (extend_window g w) = usable w \<union> {unat (cwHigh w)..<unat (cwHigh w) + unat g}"
    and "unat (cwHigh (extend_window g w)) = unat (cwHigh w) + unat g"
    and "unat (cwAvailable (extend_window g w)) = unat (cwAvailable w) + unat g"
    and "length (cwBitmap (extend_window g w)) = (unat (cwHigh w) + unat g - unat (cwLow w) + 63) div 64"
    and "cwLow (extend_window g w) = cwLow w" and "cwMaxSize (extend_window g w) = cwMaxSize w"
proof -
  let ?low = "unat (cwLow w)" and ?high = "unat (cwHigh w)"
  let ?words = "(?high + unat g - ?low + 63) div 64"
  let ?bm = "cwBitmap w @ replicate (?words - length (cwBitmap w)) 0"
  note D = window_invD [OF inv]
  have high: "unat (cwHigh w + g) = ?high + unat g"
    using room g by (simp add: room_def unat_plus_if')
  then have span: "unat (cwHigh w + g - cwLow w) = ?high + unat g - ?low"
    using D(1) by (simp add: unat_sub word_le_nat_alt)
  then have "unat (cwHigh w + g - cwLow w + 63) = ?high + unat g - ?low + 63"
    using room g by (simp add: room_def unat_plus_if')
  then have words: "unat ((cwHigh w + g - cwLow w + 63) div 64) = ?words" by (simp add: unat_div)
  have len: "length ?bm = ?words" using D(4) by (simp add: div_le_mono)
  have off: "unat (of_nat n - cwLow w) = n - ?low" if "?high \<le> n" "n < ?high + unat g" for n
  proof -
    have "unat (of_nat n :: u64) = n" using that room g by (simp add: room_def unat_of_nat)
    then show ?thesis using that D(1) by (simp add: unat_sub word_le_nat_alt)
  qed
  have in_bm: "\<forall>n \<in> set [?high..<?high + unat g]. unat (of_nat n - cwLow w) div 64 < length ?bm"
    using off len D(1) by (auto simp: less_eq_div_iff_mult_less_eq Suc_le_eq [symmetric])
  have img: "(\<lambda>n. unat (of_nat n - cwLow w)) ` set [?high..<?high + unat g] = (\<lambda>n. n - ?low) ` {?high..<?high + unat g}"
    using off by (intro image_cong) auto
  have shift: "n - ?low \<in> (\<lambda>n. n - ?low) ` {?high..<?high + unat g} \<longleftrightarrow> n \<in> {?high..<?high + unat g}" if "?low \<le> n" for n
    using that D(1) by (auto simp: image_iff)
  have bits: "ba_get (cwBitmap (extend_window g w)) p
      \<longleftrightarrow> ba_get (cwBitmap w) p \<or> p \<in> (\<lambda>n. n - ?low) ` {?high..<?high + unat g}" for p
    using ba_get_fold_set [OF in_bm, of p] img
    by (simp add: extend_window_def Let_def high words ba_get_append_zero)
  show low: "cwLow (extend_window g w) = cwLow w" and "cwMaxSize (extend_window g w) = cwMaxSize w"
    by (simp_all add: extend_window_def Let_def)
  show "usable (extend_window g w) = usable w \<union> {?high..<?high + unat g}"
    using shift D(1) unfolding usable_def low bits by auto
  show "unat (cwHigh (extend_window g w)) = ?high + unat g"
    "unat (cwAvailable (extend_window g w)) = unat (cwAvailable w) + unat g"
    using high fits by (simp_all add: extend_window_def Let_def unat_plus_if')
  show "length (cwBitmap (extend_window g w)) = ?words"
    using len by (simp add: extend_window_def Let_def words)
qed

lemma extend_window_0: "window_inv w \<Longrightarrow> extend_window 0 w = w"
proof -
  assume inv: "window_inv w"
  let ?span = "cwHigh w - cwLow w"
  have "unat ((?span + 63) div 64) \<le> length (cwBitmap w)"
  proof -
    have "unat (?span + 63) \<le> unat ?span + 63" by (auto simp: unat_plus_if')
    then have "unat ((?span + 63) div 64) \<le> (unat ?span + 63) div 64" by (simp add: unat_div div_le_mono)
    then show ?thesis using window_invD(1,4) [OF inv] by (simp add: unat_sub word_le_nat_alt)
  qed
  then show ?thesis by (simp add: extend_window_def Let_def)
qed

lemma Grant_extends:
  assumes inv: "window_inv w"
  obtains g where "Grant n w = (ucast g, extend_window g w)"
    and "unat g = min (unat n) (unat (cwMaxSize w) - unat (cwAvailable w))"
proof -
  let ?g = "ucast n :: u64" and ?max = "cwMaxSize w" and ?av = "cwAvailable w"
  have small: "unat ?av + unat ?g < 2 ^ 64" using inv unat_less_2p [of n] by (auto simp: window_inv_def)
  then have sum: "unat (?av + ?g) = unat ?av + unat n" by (simp add: unat_plus_if')
  consider (full) "unat ?max < unat ?av + unat n" "unat ?max \<le> unat ?av"
    | (part) "unat ?max < unat ?av + unat n" "unat ?av < unat ?max" | (all) "unat ?av + unat n \<le> unat ?max"
    by linarith
  then show thesis
  proof cases
    case full
    then have "Grant n w = (0, w)" using sum by (simp add: Grant_def Let_def word_less_nat_alt word_le_nat_alt)
    then show thesis using full that [of 0] extend_window_0 [OF inv] by simp
  next
    case part
    then have "Grant n w = (ucast (?max - ?av), extend_window (?max - ?av) w)"
      using sum by (simp add: Grant_def Let_def word_less_nat_alt word_le_nat_alt)
    moreover have "unat (?max - ?av) = unat ?max - unat ?av" using part by (simp add: unat_sub word_le_nat_alt)
    ultimately show thesis using part that by simp
  next
    case all
    then have "Grant n w = (ucast ?g, extend_window ?g w)" using sum by (simp add: Grant_def Let_def word_less_nat_alt)
    then show thesis using all that [of ?g] by simp
  qed
qed

lemma Grant_facts:
  assumes inv: "window_inv w" and room: "room w"
  obtains g w' where "Grant n w = (g, w')" and "unat g = min (unat n) (unat (cwMaxSize w) - unat (cwAvailable w))"
    and "usable w' = usable w \<union> {unat (cwHigh w)..<unat (cwHigh w) + unat g}"
    and "unat (cwHigh w') = unat (cwHigh w) + unat g" and "cwMaxSize w' = cwMaxSize w"
    and "unat (cwAvailable w') = unat (cwAvailable w) + unat g" and "window_inv w'"
proof -
  obtain g where eq: "Grant n w = (ucast g, extend_window g w)"
    and g: "unat g = min (unat n) (unat (cwMaxSize w) - unat (cwAvailable w))"
    using Grant_extends [OF inv] .
  have g16: "unat g < 2 ^ 16" using g unat_less_2p [of n] by auto
  have fits: "unat (cwAvailable w) + unat g < 2 ^ 64" using inv g16 by (auto simp: window_inv_def)
  note facts = extend_window_facts [OF inv room less_imp_le [OF g16] fits]
  have g': "unat (ucast g :: u16) = unat g" using g16 by (simp add: unsigned_ucast_eq take_bit_nat_eq_self)
  have "usable w \<inter> {unat (cwHigh w)..<unat (cwHigh w) + unat g} = {}"
    using window_invD(3) [OF inv] by (meson atLeastLessThan_iff disjoint_iff leD)
  then have "card (usable w \<union> {unat (cwHigh w)..<unat (cwHigh w) + unat g}) = card (usable w) + unat g"
    using window_invD(2) [OF inv] by (simp add: card_Un_disjoint)
  moreover have "unat (cwAvailable w) + unat g \<le> max 1 (unat (cwMaxSize w))"
    using inv g by (auto simp: window_inv_def)
  ultimately have "window_inv (extend_window g w)"
    using inv unfolding window_inv_def facts by auto
  then show thesis using that [OF eq] g g' facts by simp
qed

lemma Reclaim_facts:
  "unat (cwAvailable (Reclaim n w)) = unat (cwAvailable w) - unat n" "usable (Reclaim n w) = usable w"
  "cwHigh (Reclaim n w) = cwHigh w" "cwMaxSize (Reclaim n w) = cwMaxSize w"
  "window_inv w \<Longrightarrow> window_inv (Reclaim n w)"
proof -
  show av: "unat (cwAvailable (Reclaim n w)) = unat (cwAvailable w) - unat n"
    by (auto simp: Reclaim_def Let_def word_less_nat_alt unat_sub word_le_nat_alt)
  show us: "usable (Reclaim n w) = usable w" and "cwHigh (Reclaim n w) = cwHigh w" and "cwMaxSize (Reclaim n w) = cwMaxSize w"
    by (simp_all add: Reclaim_def Let_def usable_def)
  show "window_inv (Reclaim n w)" if "window_inv w"
    using that av us by (auto simp: window_inv_def Reclaim_def Let_def)
qed

section \<open>Refinement\<close>

lemma window_step_refines:
  assumes inv: "window_inv w" and room: "room w" and step: "window_step op w = (r, w')"
  shows "spec_op op (window_abs w) = (r, window_abs w')" and "window_inv w'"
    and "unat (cwHigh w') \<le> unat (cwHigh w) + 2 ^ 16"
proof -
  have "spec_op op (window_abs w) = (r, window_abs w') \<and> window_inv w' \<and> unat (cwHigh w') \<le> unat (cwHigh w) + 2 ^ 16"
  proof (cases op)
    case (OpConsume m c)
    show ?thesis
    proof (cases "{unat m..<unat m + eff_charge c} \<subseteq> usable w")
      case True
      then show ?thesis
        by (rule Consume_accepted [OF inv room]) (use step True in \<open>auto simp: OpConsume window_abs_def Let_def\<close>)
    next
      case False
      then show ?thesis
        using Consume_refused [OF inv room] step inv by (simp add: OpConsume window_abs_def)
    qed
  next
    case (OpGrant n)
    obtain g w'' where "Grant n w = (g, w'')" "unat g = min (unat n) (unat (cwMaxSize w) - unat (cwAvailable w))"
      "usable w'' = usable w \<union> {unat (cwHigh w)..<unat (cwHigh w) + unat g}"
      "unat (cwHigh w'') = unat (cwHigh w) + unat g" "cwMaxSize w'' = cwMaxSize w"
      "unat (cwAvailable w'') = unat (cwAvailable w) + unat g" "window_inv w''"
      using Grant_facts [OF inv room, of n] .
    then show ?thesis using step unat_less_2p [of n] by (auto simp: OpGrant window_abs_def Let_def)
  next
    case (OpReclaim n)
    then show ?thesis using step inv by (auto simp: window_abs_def Reclaim_facts)
  qed
  then show "spec_op op (window_abs w) = (r, window_abs w')" "window_inv w'" "unat (cwHigh w') \<le> unat (cwHigh w) + 2 ^ 16"
    by auto
qed

lemma window_ops_refines:
  assumes "window_inv w" and "unat (cwHigh w) + 2 ^ 16 * (length ops + 1) \<le> 2 ^ 64" and "window_ops ops w = (rs, w')"
  shows "spec_ops ops (window_abs w) = (rs, window_abs w') \<and> window_inv w'
    \<and> unat (cwHigh w') \<le> unat (cwHigh w) + 2 ^ 16 * length ops"
  using assms
proof (induction ops arbitrary: w rs)
  case (Cons op ops)
  obtain r w1 where step: "window_step op w = (r, w1)" by force
  obtain rs1 where run: "window_ops ops w1 = (rs1, w')" and rs: "rs = r # rs1"
    using Cons.prems(3) step by (auto simp: Let_def split: prod.splits)
  have "room w" using Cons.prems(2) by (simp add: room_def)
  note ref = window_step_refines [OF Cons.prems(1) this step]
  have "unat (cwHigh w1) + 2 ^ 16 * (length ops + 1) \<le> 2 ^ 64" using ref(3) Cons.prems(2) by simp
  from Cons.IH [OF ref(2) this run] show ?case using ref rs by simp
qed simp

lemma window_step_room:
  "window_inv w \<Longrightarrow> room w \<Longrightarrow> unat (cwHigh (snd (window_step op w))) \<le> unat (cwHigh w) + 2 ^ 16"
  using window_step_refines(3) [of w op "fst (window_step op w)" "snd (window_step op w)"] by simp

lemma NewCommandSequenceWindow_usable: "usable (NewCommandSequenceWindow maxSize) = {0, 1}"
proof -
  have "ba_get [3] n \<longleftrightarrow> n = 0 \<or> n = 1" for n
  proof -
    have "bit (3 :: u64) n \<longleftrightarrow> n = 0 \<or> n = 1"
      by (cases n; cases "n - 1") (auto simp: bit_Suc numeral_3_eq_3)
    moreover have "\<not> ba_get [] k" for k by (simp add: ba_get_iff)
    ultimately show ?thesis by (auto simp: ba_get_Cons)
  qed
  then show ?thesis by (auto simp: usable_def NewCommandSequenceWindow_def)
qed

lemma NewCommandSequenceWindow_inv:
  "unat maxSize < 2 ^ 63 \<Longrightarrow> window_inv (NewCommandSequenceWindow maxSize)"
  unfolding window_inv_def NewCommandSequenceWindow_usable by (simp add: NewCommandSequenceWindow_def)

lemma window_abs_new: "window_abs (NewCommandSequenceWindow maxSize) = \<lparr>csIds = {0, 1}, csNext = 2, csMax = unat maxSize, csBalance = 1\<rparr>"
  using NewCommandSequenceWindow_usable [of maxSize] by (simp add: window_abs_def NewCommandSequenceWindow_def)

text \<open>C15: The bitmap window refines its specification: over any run of up to \<open>2 ^ 40\<close> calls
  every acceptance and every grant is the one computed on the set of usable ids with unbounded
  numbers, wrap-around of message ids near \<open>2 ^ 64\<close> included, and the state reached is the
  specification's.\<close>

theorem smb_window_refines:
  assumes "unat maxSize < 2 ^ 63" and "length ops \<le> 2 ^ 40"
    and "window_ops ops (NewCommandSequenceWindow maxSize) = (rs, w)"
  shows "spec_ops ops \<lparr>csIds = {0, 1}, csNext = 2, csMax = unat maxSize, csBalance = 1\<rparr> = (rs, window_abs w)"
proof -
  have "unat (cwHigh (NewCommandSequenceWindow maxSize)) = 2" by (simp add: NewCommandSequenceWindow_def)
  then have "unat (cwHigh (NewCommandSequenceWindow maxSize)) + 2 ^ 16 * (length ops + 1) \<le> 2 ^ 64" using assms(2) by simp
  from window_ops_refines [OF NewCommandSequenceWindow_inv [OF assms(1)] this assms(3)]
  show ?thesis by (simp add: window_abs_new)
qed

text \<open>C39: The balance is honest: after any run of up to \<open>2 ^ 40\<close> calls the server never
  counts more credits than the configured cap (or the initial one), always has a usable message id for every
  credit it counts, and keeps no more bitmap words than the span between its watermarks needs.\<close>

theorem smb_credits_bounded:
  assumes "unat maxSize < 2 ^ 63" and "length ops \<le> 2 ^ 40"
    and "window_ops ops (NewCommandSequenceWindow maxSize) = (rs, w)"
  shows "unat (Available w) \<le> max 1 (unat maxSize) \<and> unat (Available w) \<le> card (usable w)
    \<and> 64 * length (cwBitmap w) < unat (window_Size w) + 64"
proof -
  have "unat (cwHigh (NewCommandSequenceWindow maxSize)) = 2" by (simp add: NewCommandSequenceWindow_def)
  then have "unat (cwHigh (NewCommandSequenceWindow maxSize)) + 2 ^ 16 * (length ops + 1) \<le> 2 ^ 64" using assms(2) by simp
  note ref = window_ops_refines [OF NewCommandSequenceWindow_inv [OF assms(1)] this assms(3)]
  have "csMax (snd (spec_op op s)) = csMax s" for op s
    by (cases op) (auto simp: Let_def)
  then have "csMax (snd (spec_ops ops s)) = csMax s" for ops s
    by (induction ops arbitrary: s) (auto simp: Let_def case_prod_unfold)
  then have "unat (cwMaxSize w) = unat maxSize"
    using ref by (metis (no_types) credit_spec.select_convs(3) snd_conv window_abs_def window_abs_new)
  then show ?thesis using ref by (auto simp: window_inv_def Available_def window_Size_def unat_sub word_le_nat_alt)
qed

definition demo_ops :: "window_op list" where
  "demo_ops = [OpConsume 0 1, OpGrant 4, OpConsume 2 2, OpConsume 2 1, OpConsume 18446744073709551615 2]"

lemmas window_eval = Consume_def Grant_def extend_window_def advanceLow_def NewCommandSequenceWindow_def
  Let_def ba_get_def ba_set_def ba_clear_def upt_conv_Cons upt_conv_Nil

lemma demo_steps:
  "Consume 0 1 (NewCommandSequenceWindow 8192) = (True, \<lparr>cwLow = 0, cwHigh = 2, cwBitmap = [2], cwMaxSize = 8192, cwAvailable = 0\<rparr>)"
  "Grant 4 \<lparr>cwLow = 0, cwHigh = 2, cwBitmap = [2], cwMaxSize = 8192, cwAvailable = 0\<rparr> = (4, \<lparr>cwLow = 0, cwHigh = 6, cwBitmap = [62], cwMaxSize = 8192, cwAvailable = 4\<rparr>)"
  "Consume 2 2 \<lparr>cwLow = 0, cwHigh = 6, cwBitmap = [62], cwMaxSize = 8192, cwAvailable = 4\<rparr> = (True, \<lparr>cwLow = 0, cwHigh = 6, cwBitmap = [50], cwMaxSize = 8192, cwAvailable = 2\<rparr>)"
  "Consume 2 1 \<lparr>cwLow = 0, cwHigh = 6, cwBitmap = [50], cwMaxSize = 8192, cwAvailable = 2\<rparr> = (False, \<lparr>cwLow = 0, cwHigh = 6, cwBitmap = [50], cwMaxSize = 8192, cwAvailable = 2\<rparr>)"
  "Consume 18446744073709551615 2 \<lparr>cwLow = 0, cwHigh = 6, cwBitmap = [50], cwMaxSize = 8192, cwAvailable = 2\<rparr> = (False, \<lparr>cwLow = 0, cwHigh = 6, cwBitmap = [50], cwMaxSize = 8192, cwAvailable = 2\<rparr>)"
  by (simp_all add: window_eval)

lemma demo_run:
  "window_ops demo_ops (NewCommandSequenceWindow 8192) = ([1, 4, 1, 0, 0], \<lparr>cwLow = 0, cwHigh = 6, cwBitmap = [50], cwMaxSize = 8192, cwAvailable = 2\<rparr>)"
  by (simp add: demo_ops_def demo_steps)

theorem smb_window_refines_witness:
  "fst (spec_ops demo_ops \<lparr>csIds = {0, 1}, csNext = 2, csMax = 8192, csBalance = 1\<rparr>) = [1, 4, 1, 0, 0]"
  using smb_window_refines [OF _ _ demo_run] by (simp add: demo_ops_def)

theorem smb_credits_bounded_witness:
  "2 \<le> card (usable \<lparr>cwLow = 0, cwHigh = 6, cwBitmap = [50], cwMaxSize = 8192, cwAvailable = 2\<rparr>)"
  using smb_credits_bounded [OF _ _ demo_run] by (simp add: demo_ops_def Available_def)

section \<open>The window as a replay guard\<close>

fun smb_step :: "CommandSequenceWindow \<Rightarrow> window_op \<Rightarrow> nat list \<times> CommandSequenceWindow" where
  "smb_step w (OpConsume m c) =
     (case Consume m c w of (ok, w') \<Rightarrow> (if ok then [unat m..<unat m + eff_charge c] else [], w'))"
| "smb_step w op = ([], snd (window_step op w))"

text \<open>An id is spent once it was handed out and is no longer usable.\<close>

definition smb_spent :: "CommandSequenceWindow \<Rightarrow> nat \<Rightarrow> bool" where
  "smb_spent w n \<longleftrightarrow> n < unat (cwHigh w) \<and> n \<notin> usable w"

lemma smb_step_snd: "snd (smb_step w op) = snd (window_step op w)"
  by (cases op) (auto split: prod.splits)

lemma smb_step_cases:
  assumes inv: "window_inv w" and room: "room w"
  obtains (take) m c where "op = OpConsume m c" "fst (smb_step w op) = [unat m..<unat m + eff_charge c]"
      "{unat m..<unat m + eff_charge c} \<subseteq> usable w" "cwHigh (snd (smb_step w op)) = cwHigh w"
      "usable (snd (smb_step w op)) = usable w - {unat m..<unat m + eff_charge c}"
  | (skip) g where "fst (smb_step w op) = []" "unat (cwHigh (snd (smb_step w op))) = unat (cwHigh w) + g"
      "usable (snd (smb_step w op)) = usable w \<union> {unat (cwHigh w)..<unat (cwHigh w) + g}"
proof (cases op)
  case (OpConsume m c)
  show thesis
  proof (cases "{unat m..<unat m + eff_charge c} \<subseteq> usable w")
    case True
    then show thesis
      by (rule Consume_accepted [OF inv room]) (use take [of m c] True in \<open>simp add: OpConsume\<close>)
  next
    case False
    then show thesis using Consume_refused [OF inv room] skip [of 0] by (simp add: OpConsume)
  qed
next
  case (OpGrant n)
  show thesis
    by (rule Grant_facts [OF inv room, of n]) (use skip in \<open>simp add: OpGrant\<close>)
next
  case (OpReclaim n)
  then show thesis using skip [of 0] by (simp add: Reclaim_facts)
qed

interpretation smb: replay_guard window_inv "\<lambda>w op. room w" smb_step smb_spent
proof unfold_locales
  fix w op n
  assume inv: "window_inv w" and room: "room w"
  show "window_inv (snd (smb_step w op))"
    using window_step_refines(2) [OF inv room, of op] by (metis smb_step_snd prod.collapse)
  note cases = smb_step_cases [OF inv room, of op]
  show "distinct (fst (smb_step w op))" by (cases rule: cases) auto
  show "\<not> smb_spent w n" if "n \<in> set (fst (smb_step w op))"
    using that by (cases rule: cases) (auto simp: smb_spent_def)
  show "smb_spent (snd (smb_step w op)) n" if "n \<in> set (fst (smb_step w op))"
    using that window_invD(3) [OF inv] by (cases rule: cases) (auto simp: smb_spent_def subset_eq)
  show "smb_spent (snd (smb_step w op)) n" if "smb_spent w n"
    using that by (cases rule: cases) (auto simp: smb_spent_def)
qed

lemma smb_steps_ok:
  "window_inv w \<Longrightarrow> unat (cwHigh w) + 2 ^ 16 * (length ops + 1) \<le> 2 ^ 64 \<Longrightarrow> steps_ok (\<lambda>w op. room w) smb_step w ops"
proof (induction ops arbitrary: w)
  case (Cons op ops)
  have room: "room w" using Cons.prems(2) by (simp add: room_def)
  have "unat (cwHigh (snd (smb_step w op))) + 2 ^ 16 * (length ops + 1) \<le> 2 ^ 64"
    using window_step_room [OF Cons.prems(1) room, of op] Cons.prems(2) by (simp add: smb_step_snd)
  then show ?case using Cons.IH smb.inv_step [OF Cons.prems(1) room] room by simp
qed simp

text \<open>C11: No SMB2 message id is consumed twice: over any run of up to \<open>2 ^ 40\<close> calls, in
  any order and with any charges, the ids the accepted requests took are all different.\<close>

theorem smb_no_message_id_twice:
  assumes "unat maxSize < 2 ^ 63" and "length ops \<le> 2 ^ 40"
  shows "distinct (fst (run_steps smb_step (NewCommandSequenceWindow maxSize) ops))"
proof (rule smb.no_number_twice [OF NewCommandSequenceWindow_inv [OF assms(1)] smb_steps_ok])
  show "unat (cwHigh (NewCommandSequenceWindow maxSize)) + 2 ^ 16 * (length ops + 1) \<le> 2 ^ 64"
    using assms(2) by (simp add: NewCommandSequenceWindow_def)
qed (rule NewCommandSequenceWindow_inv [OF assms(1)])

theorem smb_no_message_id_twice_witness:
  "distinct (fst (run_steps smb_step (NewCommandSequenceWindow 8192) demo_ops))
   \<and> fst (run_steps smb_step (NewCommandSequenceWindow 8192) demo_ops) = [0, 2, 3]"
proof
  show "distinct (fst (run_steps smb_step (NewCommandSequenceWindow 8192) demo_ops))"
    by (rule smb_no_message_id_twice) (simp_all add: demo_ops_def)
  show "fst (run_steps smb_step (NewCommandSequenceWindow 8192) demo_ops) = [0, 2, 3]"
    by (simp add: demo_ops_def demo_steps eff_charge_def upt_conv_Cons upt_conv_Nil)
qed

text \<open>An id the client never uses pins the low watermark, so the bitmap grows with every word of ids
  granted after it, whatever the cap.\<close>

lemma unused_id_pins_window:
  assumes "window_inv w" and "n \<in> usable w"
  shows "unat (cwLow w) \<le> n \<and> 64 * length (cwBitmap w) \<ge> unat (cwHigh w) - n"
  using assms by (auto simp: usable_def window_inv_def)

end
