(* ===== verification/SMB_Credits.thy ===== *)
theory SMB_Credits
  imports SMB_Window Complex_Main "HOL-Library.Log_Nat"
begin

text \<open>
  SMB2 credit accounting: the credit configuration and charges (\<open>credits.go\<close>), the validation of
  a request's charge (\<open>credit_validation.go\<close>), the session manager and its grant strategies
  (\<open>manager.go\<close>, \<open>session.go\<close>), all in \<open>internal/adapter/smb/session\<close>, and
  how a connection composes them with its sequence window (\<open>internal/adapter/smb/response.go\<close>).
  Sessions keep the identity and credit fields; activity timestamps, key material and channels are left out.
\<close>

section \<open>Configuration and charges\<close>

abbreviation (input) MinimumCreditGrant :: u16 where "MinimumCreditGrant \<equiv> 1"
abbreviation (input) MaximumCreditGrant :: u16 where "MaximumCreditGrant \<equiv> 8192"
abbreviation (input) DefaultInitialCredits :: u16 where "DefaultInitialCredits \<equiv> 1"
abbreviation (input) CreditUnitSize :: u64 where "CreditUnitSize \<equiv> 65536"

datatype CreditStrategy = StrategyFixed | StrategyEcho | StrategyAdaptive | StrategyUnknown nat

record CreditConfig =
  ccMinGrant :: u16
  ccMaxGrant :: u16
  ccInitialGrant :: u16
  ccMaxSessionCredits :: u32
  ccLoadThresholdHigh :: int
  ccLoadThresholdLow :: int
  ccAggressiveClientThreshold :: int

definition DefaultCreditConfig :: CreditConfig where
  "DefaultCreditConfig = \<lparr>ccMinGrant = 1, ccMaxGrant = MaximumCreditGrant, ccInitialGrant = DefaultInitialCredits,
     ccMaxSessionCredits = 8192, ccLoadThresholdHigh = 1000, ccLoadThresholdLow = 100,
     ccAggressiveClientThreshold = 256\<rparr>"

definition CalculateCreditCharge :: "u32 \<Rightarrow> u16" where
  "CalculateCreditCharge bytes =
     (if bytes = 0 then 1 else ucast ((ucast bytes + CreditUnitSize - 1) div CreditUnitSize))"

section \<open>Validating a charge\<close>

type_synonym Command = u16

abbreviation (input) CommandNegotiate :: Command where "CommandNegotiate \<equiv> 0x0000"
abbreviation (input) CommandSessionSetup :: Command where "CommandSessionSetup \<equiv> 0x0001"
abbreviation (input) CommandRead :: Command where "CommandRead \<equiv> 0x0008"
abbreviation (input) CommandWrite :: Command where "CommandWrite \<equiv> 0x0009"
abbreviation (input) CommandIoctl :: Command where "CommandIoctl \<equiv> 0x000B"
abbreviation (input) CommandCancel :: Command where "CommandCancel \<equiv> 0x000C"
abbreviation (input) CommandQueryDirectory :: Command where "CommandQueryDirectory \<equiv> 0x000E"

definition IsCreditExempt :: "Command \<Rightarrow> u64 \<Rightarrow> bool" where
  "IsCreditExempt command sessionID =
     (if command = CommandCancel then True
      else if sessionID = 0 then command = CommandNegotiate \<or> command = CommandSessionSetup
      else False)"

definition EffectiveCreditCharge :: "u16 \<Rightarrow> u16" where
  "EffectiveCreditCharge creditCharge = (if creditCharge = 0 then 1 else creditCharge)"

definition LittleEndian_Uint32 :: "u8 list \<Rightarrow> u32" where
  "LittleEndian_Uint32 b = ucast (b ! 0) OR push_bit 8 (ucast (b ! 1)) OR push_bit 16 (ucast (b ! 2))
     OR push_bit 24 (ucast (b ! 3))"

definition extractPayloadSize :: "Command \<Rightarrow> u8 list \<Rightarrow> u32 option" where
  "extractPayloadSize command body =
     (if command = CommandRead then
        (if length body < 8 then None else Some (LittleEndian_Uint32 (take 4 (drop 4 body))))
      else if command = CommandWrite then
        (if length body < 8 then None else Some (LittleEndian_Uint32 (take 4 (drop 4 body))))
      else if command = CommandIoctl then
        (if length body < 32 then None else Some (LittleEndian_Uint32 (take 4 (drop 28 body))))
      else if command = CommandQueryDirectory then
        (if length body < 8 then None else Some (LittleEndian_Uint32 (take 4 (drop 4 body))))
      else None)"

text \<open>The error carries what the message formats: the effective charge, the required one and the
  payload size.\<close>

datatype charge_error = InsufficientCreditCharge u16 u16 u32

definition ValidateCreditCharge :: "Command \<Rightarrow> u16 \<Rightarrow> u8 list \<Rightarrow> charge_error option" where
  "ValidateCreditCharge command creditCharge body =
     (case extractPayloadSize command body of
        None \<Rightarrow> None
      | Some payloadSize \<Rightarrow>
          (let effectiveCharge = EffectiveCreditCharge creditCharge;
               requiredCharge = CalculateCreditCharge payloadSize
           in if requiredCharge > effectiveCharge
              then Some (InsufficientCreditCharge effectiveCharge requiredCharge payloadSize) else None))"

section \<open>Double precision arithmetic\<close>

text \<open>The adaptive strategy computes in \<open>float64\<close>.  A finite double is a rational here and
  every operation is rounded to the nearest double, ties to even; the quantities involved stay far
  from the subnormal range and from overflow.  A quotient by zero, which the code always replaces by
  a lower bound because its numerator is then negative, is zero.\<close>

definition pow2 :: "int \<Rightarrow> rat" where
  "pow2 k = (if 0 \<le> k then 2 ^ nat k else 1 / 2 ^ nat (- k))"

definition round_even :: "rat \<Rightarrow> int" where
  "round_even x = (let f = \<lfloor>x\<rfloor>; d = x - of_int f in
     if d < 1 / 2 then f else if d > 1 / 2 then f + 1 else if even f then f else f + 1)"

definition exponent :: "rat \<Rightarrow> int" where
  "exponent x = (case quotient_of x of (p, q) \<Rightarrow>
     (let k = bitlen p - bitlen q in if pow2 k \<le> x then k else k - 1))"

definition float64 :: "rat \<Rightarrow> rat" where
  "float64 x = (if x = 0 then 0
     else let e = exponent \<bar>x\<bar> - 52; m = pow2 e * of_int (round_even (\<bar>x\<bar> / pow2 e))
          in if x < 0 then - m else m)"

definition f64_div :: "rat \<Rightarrow> rat \<Rightarrow> rat" where
  "f64_div x y = float64 (x / y)"

definition f64_mult :: "rat \<Rightarrow> rat \<Rightarrow> rat" where
  "f64_mult x y = float64 (x * y)"

text \<open>Conversion to \<open>uint16\<close> truncates; a value out of range keeps its low 16 bits, as the
  compilers for 64-bit targets do.\<close>

definition f64_to_uint16 :: "rat \<Rightarrow> u16" where
  "f64_to_uint16 x = of_int (if 0 \<le> x then \<lfloor>x\<rfloor> else \<lceil>x\<rceil>)"

section \<open>Sessions\<close>

record Credits =
  crGranted :: u32
  crConsumed :: u32
  crOutstanding :: "32 word"
  crOutstandingRequests :: int
  crTotalRequests :: u64
  crHighWaterMark :: u32

record Session =
  ssSessionID :: u64
  ssIsGuest :: bool
  ssIsNull :: bool
  ssClientAddr :: string
  ssUsername :: string
  ssDomain :: string
  ssCredits :: Credits

definition NewSession :: "u64 \<Rightarrow> string \<Rightarrow> bool \<Rightarrow> string \<Rightarrow> string \<Rightarrow> Session" where
  "NewSession sessionID clientAddr isGuest username domain =
     \<lparr>ssSessionID = sessionID, ssIsGuest = isGuest, ssIsNull = (username = [] \<and> \<not> isGuest),
      ssClientAddr = clientAddr, ssUsername = username, ssDomain = domain,
      ssCredits = \<lparr>crGranted = 0, crConsumed = 0, crOutstanding = 0, crOutstandingRequests = 0,
        crTotalRequests = 0, crHighWaterMark = 0\<rparr>\<rparr>"

definition session_RequestStarted :: "Session \<Rightarrow> Session" where
  "session_RequestStarted s = (let c = ssCredits s in
     s\<lparr>ssCredits := c\<lparr>crOutstandingRequests := crOutstandingRequests c + 1, crTotalRequests := crTotalRequests c + 1\<rparr>\<rparr>)"

definition session_RequestCompleted :: "Session \<Rightarrow> Session" where
  "session_RequestCompleted s = (let c = ssCredits s in
     s\<lparr>ssCredits := c\<lparr>crOutstandingRequests := crOutstandingRequests c - 1\<rparr>\<rparr>)"

definition ConsumeCredits :: "u16 \<Rightarrow> Session \<Rightarrow> Session" where
  "ConsumeCredits charge s = (let c = ssCredits s in
     s\<lparr>ssCredits := c\<lparr>crConsumed := crConsumed c + ucast charge, crOutstanding := crOutstanding c - ucast charge\<rparr>\<rparr>)"

definition session_GrantCredits :: "u16 \<Rightarrow> Session \<Rightarrow> Session" where
  "session_GrantCredits g s =
     (let c = ssCredits s;
          c = c\<lparr>crGranted := crGranted c + ucast g, crOutstanding := crOutstanding c + ucast g\<rparr>;
          c = (if 0 <s crOutstanding c \<and> crOutstanding c > crHighWaterMark c
               then c\<lparr>crHighWaterMark := crOutstanding c\<rparr> else c)
      in s\<lparr>ssCredits := c\<rparr>)"

definition GetOutstanding :: "Session \<Rightarrow> int" where
  "GetOutstanding s = sint (crOutstanding (ssCredits s))"

section \<open>The session manager\<close>

record SessionManager =
  smSessions :: "u64 \<rightharpoonup> Session"
  smNextSessionID :: u64
  smConfig :: CreditConfig
  smStrategy :: CreditStrategy
  smActiveRequests :: int
  smTotalGrants :: u64
  smTotalOperations :: u64

definition NewManagerWithStrategy :: "CreditStrategy \<Rightarrow> CreditConfig \<Rightarrow> SessionManager" where
  "NewManagerWithStrategy strategy config =
     \<lparr>smSessions = [0 \<mapsto> NewSession 0 [] False [] []], smNextSessionID = 1, smConfig = config, smStrategy = strategy,
      smActiveRequests = 0, smTotalGrants = 0, smTotalOperations = 0\<rparr>"

definition CreateSession :: "string \<Rightarrow> bool \<Rightarrow> string \<Rightarrow> string \<Rightarrow> SessionManager \<Rightarrow> Session \<times> SessionManager" where
  "CreateSession clientAddr isGuest username domain m =
     (let sessionID = smNextSessionID m + 1;
          session = NewSession sessionID clientAddr isGuest username domain
      in (session, m\<lparr>smNextSessionID := sessionID, smSessions := (smSessions m)(sessionID \<mapsto> session)\<rparr>))"

definition GetSession :: "u64 \<Rightarrow> SessionManager \<Rightarrow> Session option" where
  "GetSession sessionID m = smSessions m sessionID"

definition DeleteSession :: "u64 \<Rightarrow> SessionManager \<Rightarrow> SessionManager" where
  "DeleteSession sessionID m =
     (if sessionID = 0 then m else m\<lparr>smSessions := (smSessions m)(sessionID := None)\<rparr>)"

definition StoreSession :: "Session \<Rightarrow> SessionManager \<Rightarrow> SessionManager" where
  "StoreSession session m = m\<lparr>smSessions := (smSessions m)(ssSessionID session \<mapsto> session)\<rparr>"

definition GenerateSessionID :: "SessionManager \<Rightarrow> u64 \<times> SessionManager" where
  "GenerateSessionID m = (smNextSessionID m + 1, m\<lparr>smNextSessionID := smNextSessionID m + 1\<rparr>)"

definition update_session :: "u64 \<Rightarrow> (Session \<Rightarrow> Session) \<Rightarrow> SessionManager \<Rightarrow> SessionManager" where
  "update_session sessionID f m = (case GetSession sessionID m of
     None \<Rightarrow> m | Some s \<Rightarrow> m\<lparr>smSessions := (smSessions m)(sessionID \<mapsto> f s)\<rparr>)"

definition RequestStarted :: "u64 \<Rightarrow> SessionManager \<Rightarrow> SessionManager" where
  "RequestStarted sessionID m =
     update_session sessionID session_RequestStarted (m\<lparr>smActiveRequests := smActiveRequests m + 1\<rparr>)"

definition RequestCompleted :: "u64 \<Rightarrow> SessionManager \<Rightarrow> SessionManager" where
  "RequestCompleted sessionID m =
     update_session sessionID session_RequestCompleted (m\<lparr>smActiveRequests := smActiveRequests m - 1\<rparr>)"

text \<open>The anonymous session 0 is stored by the constructor and never deleted, so looking it up again
  and asserting its type cannot fail.\<close>

definition GetOrCreateSession :: "u64 \<Rightarrow> SessionManager \<Rightarrow> Session \<times> SessionManager" where
  "GetOrCreateSession sessionID m =
     (case GetSession sessionID m of
        Some session \<Rightarrow> (session, m)
      | None \<Rightarrow> (let session = NewSession sessionID [] False [] [] in (session, StoreSession session m)))"

definition grantFixed :: "CreditConfig \<Rightarrow> u16" where
  "grantFixed cfg = ccInitialGrant cfg"

definition grantEcho :: "CreditConfig \<Rightarrow> u16 \<Rightarrow> u16" where
  "grantEcho cfg requested =
     (if requested = 0 then ccInitialGrant cfg
      else if requested < ccMinGrant cfg then ccMinGrant cfg
      else if requested > ccMaxGrant cfg then ccMaxGrant cfg
      else requested)"

definition load_scaled :: "CreditConfig \<Rightarrow> int \<Rightarrow> rat \<Rightarrow> rat" where
  "load_scaled cfg activeReqs baseGrant =
     (if activeReqs > ccLoadThresholdHigh cfg then
        (let loadFactor = f64_div (float64 (of_int (ccLoadThresholdHigh cfg))) (float64 (of_int activeReqs));
             loadFactor = (if loadFactor < 1 / 4 then 1 / 4 else loadFactor)
         in f64_mult baseGrant loadFactor)
      else if activeReqs < ccLoadThresholdLow cfg then f64_mult baseGrant (3 / 2)
      else baseGrant)"

definition client_scaled :: "CreditConfig \<Rightarrow> int \<Rightarrow> rat \<Rightarrow> rat" where
  "client_scaled cfg clientOutstanding baseGrant =
     (if clientOutstanding > ccAggressiveClientThreshold cfg then
        (let clientFactor = f64_div (float64 (of_int (ccAggressiveClientThreshold cfg))) (float64 (of_int clientOutstanding));
             clientFactor = (if clientFactor < 1 / 2 then 1 / 2 else clientFactor)
         in f64_mult baseGrant clientFactor)
      else baseGrant)"

definition session_scaled :: "CreditConfig \<Rightarrow> 32 word \<Rightarrow> rat \<Rightarrow> rat" where
  "session_scaled cfg currentOutstanding baseGrant =
     (if 0 <s currentOutstanding \<and> currentOutstanding > ccMaxSessionCredits cfg div 2 then
        (let sessionFactor = f64_div (float64 (of_nat (unat (ccMaxSessionCredits cfg))))
                               (float64 (of_int (sint (currentOutstanding * 2))));
             sessionFactor = (if sessionFactor < 1 / 2 then 1 / 2 else sessionFactor)
         in f64_mult baseGrant sessionFactor)
      else baseGrant)"

definition clampGrant :: "CreditConfig \<Rightarrow> u16 \<Rightarrow> u16 \<Rightarrow> u16" where
  "clampGrant cfg requested g =
     (let g = (if g < ccMinGrant cfg then ccMinGrant cfg else g);
          g = (if g > ccMaxGrant cfg then ccMaxGrant cfg else g)
      in if requested > 0 \<and> requested < g
         then (let g = requested in if g < ccMinGrant cfg then ccMinGrant cfg else g) else g)"

definition grantAdaptive :: "SessionManager \<Rightarrow> Session \<Rightarrow> u16 \<Rightarrow> u16" where
  "grantAdaptive m session requested =
     (let cfg = smConfig m;
          baseGrant = load_scaled cfg (smActiveRequests m) (float64 (of_nat (unat (ccInitialGrant cfg))));
          baseGrant = client_scaled cfg (crOutstandingRequests (ssCredits session)) baseGrant;
          baseGrant = session_scaled cfg (crOutstanding (ssCredits session)) baseGrant
      in clampGrant cfg requested (f64_to_uint16 baseGrant))"

definition strategyGrant :: "SessionManager \<Rightarrow> Session \<Rightarrow> u16 \<Rightarrow> u16" where
  "strategyGrant m session requested = (case smStrategy m of
     StrategyFixed \<Rightarrow> grantFixed (smConfig m)
   | StrategyEcho \<Rightarrow> grantEcho (smConfig m) requested
   | StrategyAdaptive \<Rightarrow> grantAdaptive m session requested
   | StrategyUnknown _ \<Rightarrow> grantFixed (smConfig m))"

definition GrantCredits :: "u64 \<Rightarrow> u16 \<Rightarrow> u16 \<Rightarrow> SessionManager \<Rightarrow> u16 \<times> SessionManager" where
  "GrantCredits sessionID requested creditCharge m =
     (if GetSession sessionID m = None \<and> sessionID \<noteq> 0 then (1, m)
      else (let (session, m) = GetOrCreateSession sessionID m;
                session = ConsumeCredits creditCharge session;
                g = strategyGrant m session requested;
                g = (if g < MinimumCreditGrant then MinimumCreditGrant else g);
                session = session_GrantCredits g session
            in (g, m\<lparr>smSessions := (smSessions m)(sessionID \<mapsto> session),
                     smTotalGrants := smTotalGrants m + ucast g,
                     smTotalOperations := smTotalOperations m + 1\<rparr>)))"

section \<open>A connection\<close>

record RequestHeader =
  rhCommand :: Command
  rhSessionID :: u64
  rhMessageID :: u64
  rhCredits :: u16
  rhCreditCharge :: u16

definition NewSequenceWindowForConnection :: "SessionManager option \<Rightarrow> CommandSequenceWindow" where
  "NewSequenceWindowForConnection mgr =
     NewCommandSequenceWindow (case mgr of None \<Rightarrow> 8192 | Some m \<Rightarrow> ucast (ccMaxSessionCredits (smConfig m)))"

definition grantConnectionCredits ::
  "u64 \<Rightarrow> u16 \<Rightarrow> u16 \<Rightarrow> SessionManager \<Rightarrow> CommandSequenceWindow option
     \<Rightarrow> u16 \<times> SessionManager \<times> CommandSequenceWindow option" where
  "grantConnectionCredits sessionID requested creditCharge m wo =
     (let (credits, m) = GrantCredits sessionID requested creditCharge m;
          credits = (if credits < creditCharge then creditCharge else credits)
      in case wo of None \<Rightarrow> (credits, m, None)
         | Some w \<Rightarrow> (let (credits, w) = Grant credits w in (credits, m, Some w)))"

text \<open>The gate a single request passes before it is dispatched: \<open>None\<close> is the reply
  \<open>STATUS_INVALID_PARAMETER\<close>, otherwise the window after consuming the request's ids.\<close>

definition admitRequest ::
  "bool \<Rightarrow> RequestHeader \<Rightarrow> u8 list \<Rightarrow> CommandSequenceWindow option \<Rightarrow> CommandSequenceWindow option option" where
  "admitRequest supportsMultiCredit req body wo =
     (let exempt = IsCreditExempt (rhCommand req) (rhSessionID req) in
      if \<not> exempt \<and> supportsMultiCredit
         \<and> ValidateCreditCharge (rhCommand req) (rhCreditCharge req) body \<noteq> None then None
      else case wo of None \<Rightarrow> Some None
        | Some w \<Rightarrow>
            (if rhCommand req = CommandCancel then Some (Some w)
             else (case Consume (rhMessageID req) (EffectiveCreditCharge (rhCreditCharge req)) w of
               (ok, w) \<Rightarrow> if ok then Some (Some w) else None)))"

section \<open>Grants\<close>

lemma GrantCredits_pos: "1 \<le> unat (fst (GrantCredits sid req c m))"
proof -
  have "1 \<le> unat (if g < 1 then 1 else g :: u16)" for g
    by (auto simp: word_less_nat_alt)
  then show ?thesis by (simp add: GrantCredits_def Let_def split: prod.split)
qed

lemma clampGrant_bounds:
  assumes "ccMinGrant cfg \<le> ccMaxGrant cfg"
  shows "ccMinGrant cfg \<le> clampGrant cfg requested g" and "clampGrant cfg requested g \<le> ccMaxGrant cfg"
  using assms by (auto simp: clampGrant_def Let_def)

lemma grant_modest:
  assumes "ccMinGrant cfg \<le> ccMaxGrant cfg" and "0 < requested"
  shows "clampGrant cfg requested g \<le> max requested (ccMinGrant cfg)"
    and "grantEcho cfg requested \<le> max requested (ccMinGrant cfg)"
    and "ccMinGrant cfg \<le> grantEcho cfg requested" and "grantEcho cfg requested \<le> ccMaxGrant cfg"
  using assms by (auto simp: clampGrant_def grantEcho_def Let_def max_def)

lemma strategyGrant_bounds:
  assumes "ccMinGrant (smConfig m) \<le> ccMaxGrant (smConfig m)" and "0 < requested"
    and "smStrategy m \<in> {StrategyEcho, StrategyAdaptive}"
  shows "ccMinGrant (smConfig m) \<le> strategyGrant m s requested" "strategyGrant m s requested \<le> ccMaxGrant (smConfig m)"
    "strategyGrant m s requested \<le> max requested (ccMinGrant (smConfig m))"
  using assms grant_modest [OF assms(1,2)] clampGrant_bounds [OF assms(1)]
  by (auto simp: strategyGrant_def grantAdaptive_def Let_def)

lemma GrantCredits_eq:
  assumes "GetSession sid m = Some s"
  shows "fst (GrantCredits sid requested charge m) = max 1 (strategyGrant m (ConsumeCredits charge s) requested)"
proof -
  have "(if g < 1 then 1 else g) = max 1 (g :: u16)" for g by (simp add: max_def not_less [symmetric])
  then show ?thesis using assms by (simp add: GrantCredits_def GetOrCreateSession_def Let_def)
qed

text \<open>What a session is granted stays within the configuration whatever the server load and
  the floating-point scaling: at least one credit and the configured minimum, at most the configured
  maximum, and never more than a modest client asked for.\<close>

lemma GrantCredits_within_config:
  assumes "ccMinGrant (smConfig m) \<le> ccMaxGrant (smConfig m)" and "0 < requested"
    and "smStrategy m \<in> {StrategyEcho, StrategyAdaptive}" and "GetSession sid m = Some s"
  shows "max 1 (ccMinGrant (smConfig m)) \<le> fst (GrantCredits sid requested charge m)
    \<and> fst (GrantCredits sid requested charge m) \<le> max 1 (ccMaxGrant (smConfig m))
    \<and> fst (GrantCredits sid requested charge m) \<le> max requested (max 1 (ccMinGrant (smConfig m)))"
  unfolding GrantCredits_eq [OF assms(4)]
  using strategyGrant_bounds [OF assms(1,2,3), of "ConsumeCredits charge s"]
  by (auto simp: max_def split: if_splits)

section \<open>Charges\<close>

lemma unat_ucast32 [simp]: "unat (ucast (b :: u32) :: u64) = unat b"
  using unat_less_2p [of b] by (simp add: unsigned_ucast_eq take_bit_nat_eq_self)

lemma CalculateCreditCharge_unat:
  "unat (CalculateCreditCharge b) = (if b = 0 then 1 else (unat b + 65535) div 65536 mod 65536)"
proof -
  have b: "unat b < 2 ^ 32" using unat_less_2p [of b] by simp
  have "ucast b + CreditUnitSize - 1 = (ucast b :: u64) + 65535" by simp
  moreover have "unat ((ucast b :: u64) + 65535) = unat b + 65535" using b by (simp add: unat_plus_if')
  ultimately have "unat ((ucast b + CreditUnitSize - 1) div CreditUnitSize :: u64) = (unat b + 65535) div 65536"
    by (simp only: unat_div) simp
  then show ?thesis by (simp add: CalculateCreditCharge_def unsigned_ucast_eq take_bit_eq_mod)
qed

lemma CalculateCreditCharge_le:
  assumes "unat b \<le> 0xFFFF0000" and "1 \<le> n"
  shows "unat (CalculateCreditCharge b) \<le> n \<longleftrightarrow> unat b \<le> 65536 * n"
proof (cases "b = 0")
  case False
  have "(unat b + 65535) div 65536 < 65536" using assms(1) by (simp add: div_less_iff_less_mult)
  then have "unat (CalculateCreditCharge b) = (unat b + 65535) div 65536" using False by (simp add: CalculateCreditCharge_unat)
  moreover have "(unat b + 65535) div 65536 \<le> n \<longleftrightarrow> unat b + 65535 < (n + 1) * 65536"
    by (subst div_less_iff_less_mult [symmetric]) auto
  ultimately show ?thesis by auto
qed (use assms in \<open>simp add: CalculateCreditCharge_def\<close>)

lemma EffectiveCreditCharge_unat: "unat (EffectiveCreditCharge c) = eff_charge c"
proof (cases "c = 0")
  case False
  then have "0 < unat c" by (simp add: unat_gt_0)
  with False show ?thesis by (simp add: EffectiveCreditCharge_def eff_charge_def)
qed (simp add: EffectiveCreditCharge_def eff_charge_def)


lemma read_129K: "extractPayloadSize CommandRead [49, 0, 0, 0, 0, 4, 2, 0] = Some 132096"
  by (simp add: extractPayloadSize_def LittleEndian_Uint32_def)


text \<open>Above \<open>0xFFFF0000\<close> bytes the required charge, 65536, does not fit its 16 bits: it
  becomes 0 and any request passes.\<close>

lemma huge_payload_needs_no_credits:
  "extractPayloadSize CommandRead [49, 0, 0, 0, 255, 255, 255, 255] = Some 0xFFFFFFFF
   \<and> CalculateCreditCharge 0xFFFFFFFF = 0
   \<and> ValidateCreditCharge CommandRead 1 [49, 0, 0, 0, 255, 255, 255, 255] = None"
proof -
  have size: "extractPayloadSize CommandRead [49, 0, 0, 0, 255, 255, 255, 255] = Some 0xFFFFFFFF"
    by (simp add: extractPayloadSize_def LittleEndian_Uint32_def)
  have charge: "CalculateCreditCharge 0xFFFFFFFF = 0"
    by (simp add: word_unat_eq_iff CalculateCreditCharge_unat)
  show ?thesis using size charge by (simp add: ValidateCreditCharge_def EffectiveCreditCharge_def)
qed

section \<open>Session ids\<close>

datatype session_op = OpCreate string bool string string | OpGenerate | OpStore Session | OpDelete u64
  | OpCredits u64 u16 u16 | OpStarted u64 | OpCompleted u64

text \<open>A step of the manager and the session ids it issues.\<close>

fun session_step :: "SessionManager \<Rightarrow> session_op \<Rightarrow> nat list \<times> SessionManager" where
  "session_step m (OpCreate a g u d) = (case CreateSession a g u d m of (s, m) \<Rightarrow> ([unat (ssSessionID s)], m))"
| "session_step m OpGenerate = (case GenerateSessionID m of (i, m) \<Rightarrow> ([unat i], m))"
| "session_step m (OpStore s) = ([], StoreSession s m)"
| "session_step m (OpDelete i) = ([], DeleteSession i m)"
| "session_step m (OpCredits i r c) = ([], snd (GrantCredits i r c m))"
| "session_step m (OpStarted i) = ([], RequestStarted i m)"
| "session_step m (OpCompleted i) = ([], RequestCompleted i m)"

text \<open>Sessions are stored only under ids the manager issued, and ids have not run out.\<close>

definition session_ok :: "SessionManager \<Rightarrow> session_op \<Rightarrow> bool" where
  "session_ok m op \<longleftrightarrow> unat (smNextSessionID m) + 1 < 2 ^ 64
     \<and> (\<forall>s. op = OpStore s \<longrightarrow> ssSessionID s \<le> smNextSessionID m)"

definition session_inv :: "SessionManager \<Rightarrow> bool" where
  "session_inv m \<longleftrightarrow> 1 \<le> unat (smNextSessionID m) \<and> 0 \<in> dom (smSessions m)
     \<and> (\<forall>i \<in> dom (smSessions m). i \<le> smNextSessionID m)"

definition id_issued :: "SessionManager \<Rightarrow> nat \<Rightarrow> bool" where
  "id_issued m n \<longleftrightarrow> n \<le> unat (smNextSessionID m)"

lemma update_session_frame [simp]:
  "smNextSessionID (update_session i f m) = smNextSessionID m" "dom (smSessions (update_session i f m)) = dom (smSessions m)"
  by (auto simp: update_session_def GetSession_def split: option.split)

lemma GrantCredits_frame:
  assumes "0 \<in> dom (smSessions m)"
  shows "smNextSessionID (snd (GrantCredits i r c m)) = smNextSessionID m"
    and "dom (smSessions (snd (GrantCredits i r c m))) = dom (smSessions m)"
  using assms by (auto simp: GrantCredits_def GetOrCreateSession_def GetSession_def StoreSession_def Let_def split: option.split)

lemma next_id: "unat (smNextSessionID m) + 1 < 2 ^ 64 \<Longrightarrow> unat (smNextSessionID m + 1) = unat (smNextSessionID m) + 1"
  by (simp add: unat_plus_if')

lemma session_step_next:
  assumes "session_inv m" and "session_ok m op"
  shows "fst (session_step m op) = [unat (smNextSessionID m) + 1]
      \<and> unat (smNextSessionID (snd (session_step m op))) = unat (smNextSessionID m) + 1
    \<or> fst (session_step m op) = [] \<and> smNextSessionID (snd (session_step m op)) = smNextSessionID m"
  using assms next_id [of m]
  by (cases op) (auto simp: CreateSession_def GenerateSessionID_def StoreSession_def DeleteSession_def NewSession_def
      RequestStarted_def RequestCompleted_def GrantCredits_frame session_inv_def session_ok_def Let_def)

lemma session_step_inv:
  assumes inv: "session_inv m" and ok: "session_ok m op"
  shows "session_inv (snd (session_step m op))"
proof -
  have le: "i \<le> smNextSessionID m + 1" if "i \<le> smNextSessionID m" for i
    using that ok next_id [of m] by (simp add: word_le_nat_alt session_ok_def)
  show ?thesis
    using inv ok next_id [of m] le
    by (cases op) (auto simp: CreateSession_def GenerateSessionID_def StoreSession_def DeleteSession_def NewSession_def
        RequestStarted_def RequestCompleted_def GrantCredits_frame session_inv_def session_ok_def Let_def)
qed

interpretation sid: replay_guard session_inv session_ok session_step id_issued
proof unfold_locales
  fix m op n
  assume inv: "session_inv m" and ok: "session_ok m op"
  note nxt = session_step_next [OF inv ok]
  show "session_inv (snd (session_step m op))" using session_step_inv [OF inv ok] .
  show "distinct (fst (session_step m op))" using nxt by auto
  show "\<not> id_issued m n" if "n \<in> set (fst (session_step m op))" using nxt that by (auto simp: id_issued_def)
  show "id_issued (snd (session_step m op)) n" if "n \<in> set (fst (session_step m op))"
    using nxt that by (auto simp: id_issued_def)
  show "id_issued (snd (session_step m op)) n" if "id_issued m n" using nxt that by (auto simp: id_issued_def)
qed

lemma NewManager_inv: "session_inv (NewManagerWithStrategy strategy cfg)"
  by (simp add: session_inv_def NewManagerWithStrategy_def)

text \<open>Session ids are never reused: as long as callers store sessions only under ids they were
  given, over any interleaving of creation, deletion and credit traffic the ids issued are all
  different and differ from every live session's, so no session is ever replaced by a new one.\<close>

lemma session_ids_never_reused:
  assumes "steps_ok session_ok session_step (NewManagerWithStrategy strategy cfg) ops"
  shows "distinct (fst (run_steps session_step (NewManagerWithStrategy strategy cfg) ops))
    \<and> (let m = snd (run_steps session_step (NewManagerWithStrategy strategy cfg) ops) in
        unat (smNextSessionID m) + 1 < 2 ^ 64 \<longrightarrow> GetSession (fst (GenerateSessionID m)) m = None)"
proof -
  let ?m = "snd (run_steps session_step (NewManagerWithStrategy strategy cfg) ops)"
  have inv: "session_inv ?m" by (rule sid.run_inv [OF NewManager_inv assms])
  have "GetSession (fst (GenerateSessionID ?m)) ?m = None" if "unat (smNextSessionID ?m) + 1 < 2 ^ 64"
  proof (rule ccontr)
    assume "GetSession (fst (GenerateSessionID ?m)) ?m \<noteq> None"
    then have "smNextSessionID ?m + 1 \<le> smNextSessionID ?m"
      using inv by (auto simp: session_inv_def GetSession_def GenerateSessionID_def)
    with next_id [OF that] show False by (simp add: word_le_nat_alt)
  qed
  then show ?thesis using sid.no_number_twice [OF NewManager_inv assms] by (simp add: Let_def)
qed

section \<open>Flow control of a connection\<close>

text \<open>A connection, its requests accepted and not yet answered, and what can happen to it, in any
  order: requests of any kind arrive and pass or fail the gate, replies leave in any order, extra
  credits go out with asynchronous replies, and other connections change the shared session manager.\<close>

record Conn =
  cnWindow :: CommandSequenceWindow
  cnMgr :: SessionManager
  cnPending :: "RequestHeader list"

inductive conn_step :: "Conn \<Rightarrow> Conn \<Rightarrow> bool" where
  accept: "admitRequest multi req body (Some (cnWindow c)) = Some (Some w) \<Longrightarrow> rhCommand req \<noteq> CommandCancel \<Longrightarrow>
    conn_step c (c\<lparr>cnWindow := w, cnPending := req # cnPending c\<rparr>)"
| refuse: "admitRequest multi req body (Some (cnWindow c)) = None \<Longrightarrow>
    grantConnectionCredits sid (rhCredits req) (rhCreditCharge req) (cnMgr c) (Some (cnWindow c)) = (g, m, Some w) \<Longrightarrow>
    conn_step c (c\<lparr>cnWindow := w, cnMgr := m\<rparr>)"
| reply: "req \<in> set (cnPending c) \<Longrightarrow>
    grantConnectionCredits sid (rhCredits req) (rhCreditCharge req) (cnMgr c) (Some (cnWindow c)) = (g, m, Some w) \<Longrightarrow>
    conn_step c (c\<lparr>cnWindow := w, cnMgr := m, cnPending := remove1 req (cnPending c)\<rparr>)"
| async: "Grant n (cnWindow c) = (g, w) \<Longrightarrow> conn_step c (c\<lparr>cnWindow := w\<rparr>)"
| others: "conn_step c (c\<lparr>cnMgr := m\<rparr>)"

inductive conn_reach :: "SessionManager \<Rightarrow> nat \<Rightarrow> Conn \<Rightarrow> bool" for m0 where
  start: "conn_reach m0 0 \<lparr>cnWindow = NewSequenceWindowForConnection (Some m0), cnMgr = m0, cnPending = []\<rparr>"
| step: "conn_reach m0 n c \<Longrightarrow> conn_step c c' \<Longrightarrow> conn_reach m0 (Suc n) c'"

definition pending_charge :: "RequestHeader list \<Rightarrow> nat" where
  "pending_charge reqs = (\<Sum>r \<leftarrow> reqs. eff_charge (rhCreditCharge r))"

lemma pending_charge_Cons: "pending_charge (r # rs) = eff_charge (rhCreditCharge r) + pending_charge rs"
  by (simp add: pending_charge_def)

lemma pending_charge_remove1:
  "r \<in> set rs \<Longrightarrow> pending_charge rs = eff_charge (rhCreditCharge r) + pending_charge (remove1 r rs)"
  by (simp add: pending_charge_def sum_list_map_remove1)

lemma eff_charge_Effective [simp]: "eff_charge (EffectiveCreditCharge c) = eff_charge c"
  by (metis EffectiveCreditCharge_def EffectiveCreditCharge_unat eff_charge_def max.left_idem)

text \<open>A reply offers at least the charge its request paid, so the balance falls short of what it was
  before the request only at the cap.\<close>

lemma Grant_balance:
  assumes "window_inv w" and "room w" and "Grant n w = (g, w')"
  shows "window_inv w'" "cwMaxSize w' = cwMaxSize w" "unat (cwHigh w') \<le> unat (cwHigh w) + 2 ^ 16"
    and "min (unat (cwAvailable w) + unat n) (unat (cwMaxSize w)) \<le> unat (cwAvailable w')"
    and "unat (cwAvailable w) \<le> unat (cwAvailable w')"
proof -
  have "window_inv w' \<and> cwMaxSize w' = cwMaxSize w \<and> unat (cwHigh w') \<le> unat (cwHigh w) + 2 ^ 16
    \<and> min (unat (cwAvailable w) + unat n) (unat (cwMaxSize w)) \<le> unat (cwAvailable w') \<and> unat (cwAvailable w) \<le> unat (cwAvailable w')"
    using assms(3) unat_less_2p [of n] by (rule_tac Grant_facts [OF assms(1,2), of n]) auto
  then show "window_inv w'" "cwMaxSize w' = cwMaxSize w" "unat (cwHigh w') \<le> unat (cwHigh w) + 2 ^ 16"
    "min (unat (cwAvailable w) + unat n) (unat (cwMaxSize w)) \<le> unat (cwAvailable w')"
    "unat (cwAvailable w) \<le> unat (cwAvailable w')" by auto
qed

lemma grantConnectionCredits_grants:
  assumes "grantConnectionCredits sid r c m (Some w) = (g, m', Some w')"
  obtains n where "Grant n w = (g, w')" and "eff_charge c \<le> unat n"
proof -
  obtain k m1 where k: "GrantCredits sid r c m = (k, m1)" by force
  let ?n = "if k < c then c else k"
  have "1 \<le> unat k" using GrantCredits_pos [of sid r c m] k by simp
  then have "eff_charge c \<le> unat ?n" by (auto simp: eff_charge_def word_less_nat_alt)
  moreover have "Grant ?n w = (g, w')" using assms k by (auto simp: grantConnectionCredits_def Let_def split: prod.splits)
  ultimately show thesis using that by blast
qed

lemma admitRequest_consumes:
  assumes "admitRequest multi req body (Some w) = Some (Some w')" and "rhCommand req \<noteq> CommandCancel"
  shows "Consume (rhMessageID req) (EffectiveCreditCharge (rhCreditCharge req)) w = (True, w')"
  using assms by (auto simp: admitRequest_def Let_def split: if_splits prod.splits)

lemma Consume_true_cases:
  assumes "window_inv w" and "room w" and "Consume m c w = (True, w')"
  shows "window_inv w'" "cwHigh w' = cwHigh w" "cwMaxSize w' = cwMaxSize w"
    "unat (cwAvailable w') = unat (cwAvailable w) - eff_charge c"
proof -
  have sub: "{unat m..<unat m + eff_charge c} \<subseteq> usable w"
    using Consume_refused [OF assms(1,2), of m c] assms(3) by auto
  show "window_inv w'" "cwHigh w' = cwHigh w" "cwMaxSize w' = cwMaxSize w"
    "unat (cwAvailable w') = unat (cwAvailable w) - eff_charge c"
    using assms(3) by (rule_tac Consume_accepted [OF assms(1,2) sub], simp)+
qed

definition conn_inv :: "Conn \<Rightarrow> bool" where
  "conn_inv c \<longleftrightarrow> window_inv (cnWindow c) \<and> 1 \<le> unat (cwMaxSize (cnWindow c))
     \<and> 1 \<le> unat (cwAvailable (cnWindow c)) + pending_charge (cnPending c)"

lemma conn_step_inv:
  assumes "conn_step c c'" and inv: "conn_inv c" and room: "room (cnWindow c)"
  shows "conn_inv c' \<and> unat (cwHigh (cnWindow c')) \<le> unat (cwHigh (cnWindow c)) + 2 ^ 16"
  using assms(1)
proof (cases rule: conn_step.cases)
  case (accept multi req body w)
  note win = Consume_true_cases [OF _ room admitRequest_consumes [OF accept(2,3)]]
  show ?thesis
    using inv win accept(1) eff_charge_bounds(1) [of "rhCreditCharge req"]
    by (auto simp: conn_inv_def pending_charge_Cons)
next
  case (refuse multi req body sid g m w)
  obtain n where "Grant n (cnWindow c) = (g, w)" using grantConnectionCredits_grants [OF refuse(3)] .
  from Grant_balance [OF _ room this] inv refuse(1) show ?thesis by (auto simp: conn_inv_def)
next
  case (reply req sid g m w)
  obtain n where gr: "Grant n (cnWindow c) = (g, w)" and n: "eff_charge (rhCreditCharge req) \<le> unat n"
    using grantConnectionCredits_grants [OF reply(3)] .
  have winv: "window_inv (cnWindow c)" using inv by (simp add: conn_inv_def)
  show ?thesis
    using Grant_balance [OF winv room gr] inv n reply(1) pending_charge_remove1 [OF reply(2)]
    by (auto simp: conn_inv_def)
next
  case (async n g w)
  from Grant_balance [OF _ room async(2)] inv async(1) show ?thesis by (auto simp: conn_inv_def)
next
  case (others m)
  with inv show ?thesis by (simp add: conn_inv_def)
qed

lemma conn_reach_inv:
  assumes "conn_reach m0 n c" and "1 \<le> unat (ccMaxSessionCredits (smConfig m0))" and "n \<le> 2 ^ 40"
  shows "conn_inv c \<and> unat (cwHigh (cnWindow c)) \<le> 2 + 2 ^ 16 * n"
  using assms(1,3)
proof induction
  case start
  have "unat (ucast (ccMaxSessionCredits (smConfig m0)) :: u64) < 2 ^ 63"
    using unat_less_2p [of "ccMaxSessionCredits (smConfig m0)"] by simp
  then show ?case
    using assms(2) NewCommandSequenceWindow_inv
    by (simp add: conn_inv_def NewSequenceWindowForConnection_def NewCommandSequenceWindow_def)
next
  case (step n c c')
  then have "conn_inv c" "unat (cwHigh (cnWindow c)) \<le> 2 + 2 ^ 16 * n" by auto
  moreover from this have "room (cnWindow c)" using step.prems by (simp add: room_def)
  ultimately show ?case using conn_step_inv [OF step.hyps(2)] by simp
qed



text \<open>The boost for a lightly loaded server can leave the 16 bits of a grant: from an initial grant
  of 43692 credits it computes 65538, which converts to 2.\<close>

lemma boost_exceeds_uint16:
  "f64_to_uint16 (load_scaled (DefaultCreditConfig\<lparr>ccInitialGrant := 43692\<rparr>) 0 (float64 43692)) = 2"
  by code_simp

end
