(* ===== verification/Slot_Table.thy ===== *)
theory Slot_Table
  imports Ditto_Prelude
begin

text \<open>
  The NFSv4.1 slot table (\<open>internal/adapter/nfs/v4/state/slot_table.go\<close>) and how a COMPOUND
  that starts with SEQUENCE uses it (\<open>v41/handlers/sequence.go\<close>, \<open>handlers/compound.go\<close>).
  Sequence ids are 32-bit words that wrap.  The slot table is what gives a client exactly-once
  execution over retransmissions; the server is a step relation in which arbitrary requests arrive
  and complete in any order.
\<close>

section \<open>Slots\<close>

type_synonym bytes = "u8 list"

abbreviation (input) DefaultMaxSlots :: u32 where "DefaultMaxSlots \<equiv> 64"
abbreviation (input) MinSlots :: u32 where "MinSlots \<equiv> 1"

datatype SequenceValidation = SeqNew | SeqRetry | SeqMisordered

datatype nfs4_status = NFS4ERR_BADSLOT | NFS4ERR_DELAY | NFS4ERR_SEQ_FALSE_RETRY
  | NFS4ERR_RETRY_UNCACHED_REP | NFS4ERR_SEQ_MISORDERED | NFS4ERR_SERVERFAULT

record Slot =
  slSeqID :: u32
  slInUse :: bool
  slCachedReply :: "bytes option"
  slRequestDigest :: bytes

record SlotTable =
  stSlots :: "Slot list"
  stHighestSlotID :: u32
  stTargetHighestSlotID :: u32
  stMaxSlots :: u32

definition empty_slot :: Slot where
  "empty_slot = \<lparr>slSeqID = 0, slInUse = False, slCachedReply = None, slRequestDigest = []\<rparr>"

definition NewSlotTable :: "u32 \<Rightarrow> SlotTable" where
  "NewSlotTable numSlots =
     (let numSlots = (if numSlots < MinSlots then MinSlots else numSlots);
          numSlots = (if numSlots > DefaultMaxSlots then DefaultMaxSlots else numSlots)
      in \<lparr>stSlots = replicate (unat numSlots) empty_slot, stHighestSlotID = numSlots - 1,
          stTargetHighestSlotID = numSlots - 1, stMaxSlots = numSlots\<rparr>)"

definition raise_highest :: "u32 \<Rightarrow> SlotTable \<Rightarrow> SlotTable" where
  "raise_highest slotID st = (if slotID > stHighestSlotID st then st\<lparr>stHighestSlotID := slotID\<rparr> else st)"

definition ValidateSequence ::
  "u32 \<Rightarrow> u32 \<Rightarrow> bytes \<Rightarrow> SlotTable \<Rightarrow> (SequenceValidation \<times> Slot option \<times> nfs4_status option) \<times> SlotTable" where
  "ValidateSequence slotID seqID requestDigest st =
     (if slotID \<ge> stMaxSlots st then ((SeqMisordered, None, Some NFS4ERR_BADSLOT), st)
      else
        (let slot = stSlots st ! unat slotID;
             expectedSeqID = slSeqID slot + 1
         in if seqID = expectedSeqID then
              (if slInUse slot then ((SeqMisordered, None, Some NFS4ERR_DELAY), st)
               else (let slot = slot\<lparr>slInUse := True\<rparr>
                     in ((SeqNew, Some slot, None),
                         raise_highest slotID (st\<lparr>stSlots := (stSlots st)[unat slotID := slot]\<rparr>))))
            else if seqID = slSeqID slot then
              (if slInUse slot then ((SeqMisordered, None, Some NFS4ERR_DELAY), st)
               else if length (slRequestDigest slot) > 0 \<and> length requestDigest > 0
                       \<and> slRequestDigest slot \<noteq> requestDigest
               then ((SeqMisordered, None, Some NFS4ERR_SEQ_FALSE_RETRY), st)
               else if slCachedReply slot = None
               then ((SeqMisordered, None, Some NFS4ERR_RETRY_UNCACHED_REP), st)
               else ((SeqRetry, Some slot, None), st))
            else ((SeqMisordered, None, Some NFS4ERR_SEQ_MISORDERED), st)))"

definition CompleteSlotRequest :: "u32 \<Rightarrow> u32 \<Rightarrow> bool \<Rightarrow> bytes option \<Rightarrow> bytes \<Rightarrow> SlotTable \<Rightarrow> SlotTable" where
  "CompleteSlotRequest slotID seqID cacheThis reply requestDigest st =
     (if slotID \<ge> stMaxSlots st then st
      else
        (let slot = (stSlots st ! unat slotID)
               \<lparr>slSeqID := seqID, slInUse := False,
                slRequestDigest := (if length requestDigest > 0 then requestDigest else []),
                slCachedReply := (if cacheThis \<and> reply \<noteq> None then reply else None)\<rparr>
         in raise_highest slotID (st\<lparr>stSlots := (stSlots st)[unat slotID := slot]\<rparr>)))"

definition SetTargetHighestSlotID :: "u32 \<Rightarrow> SlotTable \<Rightarrow> SlotTable" where
  "SetTargetHighestSlotID target st =
     st\<lparr>stTargetHighestSlotID := (if target \<ge> stMaxSlots st then stMaxSlots st - 1 else target)\<rparr>"

definition GetHighestSlotID :: "SlotTable \<Rightarrow> u32" where
  "GetHighestSlotID st = stHighestSlotID st"

definition GetTargetHighestSlotID :: "SlotTable \<Rightarrow> u32" where
  "GetTargetHighestSlotID st = stTargetHighestSlotID st"

definition MaxSlots :: "SlotTable \<Rightarrow> u32" where
  "MaxSlots st = stMaxSlots st"

definition SlotsInUse :: "SlotTable \<Rightarrow> nat" where
  "SlotsInUse st = length (filter (\<lambda>i. slInUse (stSlots st ! i)) [0..<unat (stMaxSlots st)])"

definition HasInFlightRequests :: "SlotTable \<Rightarrow> bool" where
  "HasInFlightRequests st = list_ex (\<lambda>i. slInUse (stSlots st ! i)) [0..<unat (stMaxSlots st)]"

section \<open>A COMPOUND with SEQUENCE\<close>

record V41RequestContext =
  vcSlotID :: u32
  vcSequenceID :: u32
  vcCacheThis :: bool
  vcRequestDigest :: bytes

text \<open>What SEQUENCE makes of a request: the cached reply, an error reply, or a context to run the
  remaining operations in.\<close>

datatype seq_outcome = Replay bytes | SeqError nfs4_status | Proceed V41RequestContext

definition HandleSequenceOp :: "u32 \<Rightarrow> u32 \<Rightarrow> bool \<Rightarrow> bytes \<Rightarrow> SlotTable \<Rightarrow> seq_outcome \<times> SlotTable" where
  "HandleSequenceOp slotID seqID cacheThis digest st =
     (case ValidateSequence slotID seqID digest st of
        ((SeqRetry, slot, _), st) \<Rightarrow>
          (case slot of
             None \<Rightarrow> (SeqError NFS4ERR_SERVERFAULT, st)
           | Some s \<Rightarrow> (case slCachedReply s of None \<Rightarrow> (SeqError NFS4ERR_SERVERFAULT, st) | Some r \<Rightarrow> (Replay r, st)))
      | ((SeqMisordered, _, e), st) \<Rightarrow>
          (SeqError (case e of None \<Rightarrow> NFS4ERR_SEQ_MISORDERED | Some status \<Rightarrow> status), st)
      | ((SeqNew, _, _), st) \<Rightarrow>
          (Proceed \<lparr>vcSlotID = slotID, vcSequenceID = seqID, vcCacheThis = cacheThis, vcRequestDigest = digest\<rparr>, st))"

text \<open>The deferred completion of \<open>dispatchV41\<close>; the reply is absent when it could not be
  encoded.\<close>

definition finish_compound :: "V41RequestContext \<Rightarrow> bytes option \<Rightarrow> SlotTable \<Rightarrow> SlotTable" where
  "finish_compound ctx reply = CompleteSlotRequest (vcSlotID ctx) (vcSequenceID ctx) (vcCacheThis ctx) reply (vcRequestDigest ctx)"

section \<open>The server\<close>

text \<open>The table with its history: the requests running, all requests ever started, and the completed
  ones with their replies, the latest first.  Any request may arrive at any time.\<close>

record SlotServer =
  svTable :: SlotTable
  svRunning :: "V41RequestContext list"
  svStarted :: "V41RequestContext list"
  svDone :: "(V41RequestContext \<times> bytes option) list"

inductive slot_step :: "SlotServer \<Rightarrow> SlotServer \<Rightarrow> bool" where
  start: "HandleSequenceOp s q c d (svTable sv) = (Proceed ctx, t) \<Longrightarrow>
    slot_step sv (sv\<lparr>svTable := t, svRunning := ctx # svRunning sv, svStarted := svStarted sv @ [ctx]\<rparr>)"
| answer: "HandleSequenceOp s q c d (svTable sv) = (out, t) \<Longrightarrow> (\<And>ctx. out \<noteq> Proceed ctx) \<Longrightarrow>
    slot_step sv (sv\<lparr>svTable := t\<rparr>)"
| finish: "ctx \<in> set (svRunning sv) \<Longrightarrow>
    slot_step sv (sv\<lparr>svTable := finish_compound ctx reply (svTable sv), svRunning := remove1 ctx (svRunning sv),
      svDone := (ctx, reply) # svDone sv\<rparr>)"
| target: "slot_step sv (sv\<lparr>svTable := SetTargetHighestSlotID n (svTable sv)\<rparr>)"

inductive slot_reach :: "SlotServer \<Rightarrow> bool" where
  new: "slot_reach \<lparr>svTable = NewSlotTable n, svRunning = [], svStarted = [], svDone = []\<rparr>"
| step: "slot_reach sv \<Longrightarrow> slot_step sv sv' \<Longrightarrow> slot_reach sv'"

definition on_slot :: "u32 \<Rightarrow> V41RequestContext list \<Rightarrow> V41RequestContext list" where
  "on_slot i = filter (\<lambda>c. vcSlotID c = i)"

definition done_on :: "u32 \<Rightarrow> (V41RequestContext \<times> bytes option) list \<Rightarrow> (V41RequestContext \<times> bytes option) list" where
  "done_on i = filter (\<lambda>(c, r). vcSlotID c = i)"

text \<open>What a slot knows of its history: its sequence id counts the completed requests, it is in use
  exactly while the latest started request runs, and it holds the digest and, if asked for, the reply
  of the latest completed one.\<close>

fun latest_reply :: "(V41RequestContext \<times> bytes option) list \<Rightarrow> bytes option" where
  "latest_reply [] = None"
| "latest_reply ((c, r) # _) = (if vcCacheThis c then r else None)"

fun latest_digest :: "(V41RequestContext \<times> bytes option) list \<Rightarrow> bytes" where
  "latest_digest [] = []"
| "latest_digest ((c, r) # _) = vcRequestDigest c"

definition slot_ok :: "Slot \<Rightarrow> V41RequestContext list \<Rightarrow> V41RequestContext list
    \<Rightarrow> (V41RequestContext \<times> bytes option) list \<Rightarrow> bool" where
  "slot_ok sl running started dones \<longleftrightarrow>
     (\<forall>j < length started. vcSequenceID (started ! j) = of_nat (Suc j))
     \<and> slSeqID sl = of_nat (length dones)
     \<and> started = rev (map fst dones) @ running
     \<and> length running = (if slInUse sl then 1 else 0)
     \<and> slCachedReply sl = latest_reply dones \<and> slRequestDigest sl = latest_digest dones"

definition server_ok :: "SlotServer \<Rightarrow> bool" where
  "server_ok sv \<longleftrightarrow>
     (let st = svTable sv in
      length (stSlots st) = unat (stMaxSlots st) \<and> 0 < stMaxSlots st
      \<and> (\<forall>c \<in> set (svRunning sv). vcSlotID c < stMaxSlots st)
      \<and> (\<forall>i < stMaxSlots st. slot_ok (stSlots st ! unat i) (on_slot i (svRunning sv)) (on_slot i (svStarted sv)) (done_on i (svDone sv))))"

lemma on_slot_simps [simp]:
  "on_slot i [] = []" "on_slot i (c # cs) = (if vcSlotID c = i then c # on_slot i cs else on_slot i cs)"
  "on_slot i (xs @ ys) = on_slot i xs @ on_slot i ys"
  by (simp_all add: on_slot_def)

lemma done_on_simps [simp]:
  "done_on i [] = []" "done_on i ((c, r) # ds) = (if vcSlotID c = i then (c, r) # done_on i ds else done_on i ds)"
  by (simp_all add: done_on_def)

lemma on_slot_remove1: "on_slot i (remove1 c cs) = (if vcSlotID c = i then remove1 c (on_slot i cs) else on_slot i cs)"
  by (induction cs) auto

lemma raise_highest_frame [simp]:
  "stSlots (raise_highest i st) = stSlots st" "stMaxSlots (raise_highest i st) = stMaxSlots st"
  by (simp_all add: raise_highest_def)

section \<open>What SEQUENCE decides\<close>

text \<open>The outcomes that leave the table alone, and the one that reserves the slot.\<close>

lemma HandleSequenceOp_cases:
  obtains (proceed) ctx where "HandleSequenceOp s q c d st =
        (Proceed ctx, raise_highest s (st\<lparr>stSlots := (stSlots st)[unat s := (stSlots st ! unat s)\<lparr>slInUse := True\<rparr>]\<rparr>))"
      "ctx = \<lparr>vcSlotID = s, vcSequenceID = q, vcCacheThis = c, vcRequestDigest = d\<rparr>"
      "s < stMaxSlots st" "q = slSeqID (stSlots st ! unat s) + 1" "\<not> slInUse (stSlots st ! unat s)"
  | (replay) r where "HandleSequenceOp s q c d st = (Replay r, st)" "s < stMaxSlots st" "q = slSeqID (stSlots st ! unat s)"
      "\<not> slInUse (stSlots st ! unat s)" "slCachedReply (stSlots st ! unat s) = Some r"
      "slRequestDigest (stSlots st ! unat s) = [] \<or> d = [] \<or> slRequestDigest (stSlots st ! unat s) = d"
  | (error) e where "HandleSequenceOp s q c d st = (SeqError e, st)"
proof -
  let ?sl = "stSlots st ! unat s"
  have range: "s < stMaxSlots st \<longleftrightarrow> \<not> stMaxSlots st \<le> s" by (simp add: not_le)
  note defs = HandleSequenceOp_def ValidateSequence_def Let_def
  consider (bad) "stMaxSlots st \<le> s" | (fresh) "\<not> stMaxSlots st \<le> s" "q = slSeqID ?sl + 1" "\<not> slInUse ?sl"
    | (busy) "\<not> stMaxSlots st \<le> s" "q = slSeqID ?sl + 1" "slInUse ?sl"
    | (old) "\<not> stMaxSlots st \<le> s" "q \<noteq> slSeqID ?sl + 1" "q = slSeqID ?sl"
    | (gap) "\<not> stMaxSlots st \<le> s" "q \<noteq> slSeqID ?sl + 1" "q \<noteq> slSeqID ?sl" by blast
  then show thesis
  proof cases
    case bad
    then have "HandleSequenceOp s q c d st = (SeqError NFS4ERR_BADSLOT, st)" by (simp add: defs)
    then show thesis by (rule error)
  next
    case fresh
    then show thesis using range by (intro proceed) (simp_all add: defs)
  next
    case busy
    then have "HandleSequenceOp s q c d st = (SeqError NFS4ERR_DELAY, st)" by (simp add: defs)
    then show thesis by (rule error)
  next
    case old
    consider (use) "slInUse ?sl" | (false) "\<not> slInUse ?sl" "slRequestDigest ?sl \<noteq> []" "d \<noteq> []" "slRequestDigest ?sl \<noteq> d"
      | (none) "\<not> slInUse ?sl" "slRequestDigest ?sl = [] \<or> d = [] \<or> slRequestDigest ?sl = d" "slCachedReply ?sl = None"
      | (hit) r where "\<not> slInUse ?sl" "slRequestDigest ?sl = [] \<or> d = [] \<or> slRequestDigest ?sl = d" "slCachedReply ?sl = Some r"
      by (cases "slCachedReply ?sl") blast+
    then show thesis
    proof cases
      case use
      with old have "HandleSequenceOp s q c d st = (SeqError NFS4ERR_DELAY, st)" by (simp add: defs)
      then show thesis by (rule error)
    next
      case false
      with old have "HandleSequenceOp s q c d st = (SeqError NFS4ERR_SEQ_FALSE_RETRY, st)" by (simp add: defs)
      then show thesis by (rule error)
    next
      case none
      with old have "HandleSequenceOp s q c d st = (SeqError NFS4ERR_RETRY_UNCACHED_REP, st)" by (auto simp: defs)
      then show thesis by (rule error)
    next
      case hit
      with old have "HandleSequenceOp s q c d st = (Replay r, st)" by (auto simp: defs)
      then show thesis using old hit range by (intro replay) auto
    qed
  next
    case gap
    then have "HandleSequenceOp s q c d st = (SeqError NFS4ERR_SEQ_MISORDERED, st)" by (simp add: defs)
    then show thesis by (rule error)
  qed
qed

section \<open>The history invariant\<close>

lemma slot_ok_start:
  assumes ok: "slot_ok sl running started dones" and idle: "\<not> slInUse sl" and q: "vcSequenceID ctx = slSeqID sl + 1"
  shows "slot_ok (sl\<lparr>slInUse := True\<rparr>) (ctx # running) (started @ [ctx]) dones"
proof -
  have "running = []" "length started = length dones" using ok idle by (auto simp: slot_ok_def)
  moreover from this have "vcSequenceID ((started @ [ctx]) ! j) = of_nat (Suc j)" if "j < Suc (length started)" for j
    using that ok q by (cases "j = length started") (auto simp: slot_ok_def nth_append)
  ultimately show ?thesis using ok by (simp add: slot_ok_def)
qed

lemma slot_ok_running:
  assumes ok: "slot_ok sl running started dones" and run: "ctx \<in> set running"
  shows "running = [ctx]" and "vcSequenceID ctx = of_nat (Suc (length dones))" and "started = rev (map fst dones) @ [ctx]"
proof -
  show one: "running = [ctx]"
    using ok run by (cases running) (auto simp: slot_ok_def split: if_splits)
  then show st: "started = rev (map fst dones) @ [ctx]" using ok by (simp add: slot_ok_def)
  have "started ! length dones = ctx" by (simp add: st nth_append)
  moreover have "length dones < length started" by (simp add: st)
  ultimately show "vcSequenceID ctx = of_nat (Suc (length dones))" using ok unfolding slot_ok_def by metis
qed

lemma slot_ok_finish:
  assumes ok: "slot_ok sl running started dones" and run: "ctx \<in> set running"
  shows "slot_ok (sl\<lparr>slSeqID := vcSequenceID ctx, slInUse := False,
      slRequestDigest := (if length (vcRequestDigest ctx) > 0 then vcRequestDigest ctx else []),
      slCachedReply := (if vcCacheThis ctx \<and> reply \<noteq> None then reply else None)\<rparr>)
    (remove1 ctx running) started ((ctx, reply) # dones)"
proof -
  note r = slot_ok_running [OF ok run]
  have "\<forall>j < length started. vcSequenceID (started ! j) = of_nat (Suc j)"
    by (rule conjunct1 [OF ok [unfolded slot_ok_def]])
  then show ?thesis unfolding slot_ok_def by (intro conjI) (simp_all add: r(1,2,3))
qed

lemma server_okD:
  assumes "server_ok sv"
  shows "length (stSlots (svTable sv)) = unat (stMaxSlots (svTable sv))"
    and "i < stMaxSlots (svTable sv) \<Longrightarrow> slot_ok (stSlots (svTable sv) ! unat i) (on_slot i (svRunning sv))
      (on_slot i (svStarted sv)) (done_on i (svDone sv))"
    and "c \<in> set (svRunning sv) \<Longrightarrow> vcSlotID c < stMaxSlots (svTable sv)"
  using assms by (auto simp: server_ok_def Let_def)

lemma server_ok_update:
  assumes ok: "server_ok sv" and s: "s < stMaxSlots (svTable sv)"
    and table: "stSlots (svTable sv') = (stSlots (svTable sv))[unat s := sl]" "stMaxSlots (svTable sv') = stMaxSlots (svTable sv)"
    and slot: "slot_ok sl (on_slot s (svRunning sv')) (on_slot s (svStarted sv')) (done_on s (svDone sv'))"
    and others: "\<And>i. i \<noteq> s \<Longrightarrow> on_slot i (svRunning sv') = on_slot i (svRunning sv) \<and> on_slot i (svStarted sv') = on_slot i (svStarted sv)
      \<and> done_on i (svDone sv') = done_on i (svDone sv)"
    and running: "\<forall>c \<in> set (svRunning sv'). vcSlotID c < stMaxSlots (svTable sv)"
  shows "server_ok sv'"
proof -
  have "slot_ok ((stSlots (svTable sv))[unat s := sl] ! unat i) (on_slot i (svRunning sv')) (on_slot i (svStarted sv')) (done_on i (svDone sv'))"
    if "i < stMaxSlots (svTable sv)" for i
  proof (cases "i = s")
    case True
    then show ?thesis using slot s server_okD(1) [OF ok] by (simp add: word_less_nat_alt)
  next
    case False
    then have "unat i \<noteq> unat s" by (simp add: word_unat_eq_iff)
    then show ?thesis using server_okD(2) [OF ok that] others [OF False] by simp
  qed
  then show ?thesis using ok table running by (simp add: server_ok_def Let_def)
qed

lemma slot_step_ok:
  assumes "slot_step sv sv'" and ok: "server_ok sv"
  shows "server_ok sv'"
  using assms(1)
proof (cases rule: slot_step.cases)
  case (start s q c d ctx t)
  show ?thesis
  proof (cases rule: HandleSequenceOp_cases [of s q c d "svTable sv"])
    case (proceed ctx')
    let ?sl = "stSlots (svTable sv) ! unat s"
    have ctx: "ctx = ctx'" "vcSlotID ctx = s" "vcSequenceID ctx = q" using start(2) proceed(1,2) by auto
    show ?thesis
    proof (rule server_ok_update [OF ok proceed(3)])
      show "stSlots (svTable sv') = (stSlots (svTable sv))[unat s := ?sl\<lparr>slInUse := True\<rparr>]"
        "stMaxSlots (svTable sv') = stMaxSlots (svTable sv)" using start proceed(1) by auto
      show "slot_ok (?sl\<lparr>slInUse := True\<rparr>) (on_slot s (svRunning sv')) (on_slot s (svStarted sv')) (done_on s (svDone sv'))"
        using slot_ok_start [OF server_okD(2) [OF ok proceed(3)] proceed(5), of ctx] ctx proceed(4) start(1) by simp
    qed (use start(1) ctx server_okD(3) [OF ok] proceed(3) in auto)
  qed (use start(2) in auto)
next
  case (answer s q c d out t)
  have "t = svTable sv"
    by (cases rule: HandleSequenceOp_cases [of s q c d "svTable sv"]) (use answer(2,3) in auto)
  with answer(1) ok show ?thesis by simp
next
  case (finish ctx reply)
  let ?s = "vcSlotID ctx" and ?sl = "stSlots (svTable sv) ! unat (vcSlotID ctx)"
  have s: "?s < stMaxSlots (svTable sv)" using server_okD(3) [OF ok finish(2)] .
  have run: "ctx \<in> set (on_slot ?s (svRunning sv))" using finish(2) by (simp add: on_slot_def)
  have table: "svTable sv' = finish_compound ctx reply (svTable sv)" using finish(1) by simp
  show ?thesis
  proof (rule server_ok_update [OF ok s])
    show "slot_ok (?sl\<lparr>slSeqID := vcSequenceID ctx, slInUse := False,
        slRequestDigest := (if length (vcRequestDigest ctx) > 0 then vcRequestDigest ctx else []),
        slCachedReply := (if vcCacheThis ctx \<and> reply \<noteq> None then reply else None)\<rparr>)
        (on_slot ?s (svRunning sv')) (on_slot ?s (svStarted sv')) (done_on ?s (svDone sv'))"
      using slot_ok_finish [OF server_okD(2) [OF ok s] run, of reply] finish(1) by (simp add: on_slot_remove1)
  qed (use s finish(1) server_okD(3) [OF ok] in \<open>auto simp: table finish_compound_def CompleteSlotRequest_def Let_def
      on_slot_remove1 dest: notin_set_remove1 set_remove1_subset [THEN subsetD]\<close>)
next
  case (target n)
  with ok show ?thesis by (simp add: server_ok_def SetTargetHighestSlotID_def Let_def)
qed

lemma NewSlotTable_size: "unat (stMaxSlots (NewSlotTable n)) = length (stSlots (NewSlotTable n))" "0 < stMaxSlots (NewSlotTable n)"
  by (auto simp: NewSlotTable_def Let_def word_less_nat_alt)

lemma slot_reach_ok: "slot_reach sv \<Longrightarrow> server_ok sv"
proof (induction rule: slot_reach.induct)
  case (new n)
  have "stSlots (NewSlotTable n) ! unat i = empty_slot" if "i < stMaxSlots (NewSlotTable n)" for i
    using that by (auto simp: NewSlotTable_def Let_def word_less_nat_alt)
  then show ?case using NewSlotTable_size [of n] by (simp add: server_ok_def Let_def slot_ok_def empty_slot_def)
next
  case (step sv sv')
  then show ?case using slot_step_ok by blast
qed

section \<open>Exactly once\<close>

text \<open>C9: Every request runs at most once and in order, whatever clients send: in every reachable
  state the requests started on a slot carry the sequence ids 1, 2, 3, \<dots> (modulo \<open>2 ^ 32\<close>)
  without gap or repetition, at most one of them is running, and a replayed reply is the reply of the
  latest completed request on the slot, which had this sequence id, had asked for caching, and was the
  same request wherever both fingerprints are known.\<close>

theorem slots_exactly_once:
  assumes "slot_reach sv" and "s < stMaxSlots (svTable sv)"
  shows "map vcSequenceID (on_slot s (svStarted sv)) = map of_nat [1..<Suc (length (on_slot s (svStarted sv)))]
    \<and> length (on_slot s (svRunning sv)) \<le> 1
    \<and> (\<forall>r t. HandleSequenceOp s q c d (svTable sv) = (Replay r, t) \<longrightarrow>
         (\<exists>ctx rest. done_on s (svDone sv) = (ctx, Some r) # rest \<and> vcSequenceID ctx = q \<and> vcCacheThis ctx
            \<and> (vcRequestDigest ctx = [] \<or> d = [] \<or> vcRequestDigest ctx = d) \<and> t = svTable sv))"
proof -
  have ok: "slot_ok (stSlots (svTable sv) ! unat s) (on_slot s (svRunning sv)) (on_slot s (svStarted sv)) (done_on s (svDone sv))"
    using server_okD(2) [OF slot_reach_ok [OF assms(1)] assms(2)] .
  have seqs: "map vcSequenceID (on_slot s (svStarted sv)) = map of_nat [1..<Suc (length (on_slot s (svStarted sv)))]"
    using conjunct1 [OF ok [unfolded slot_ok_def]] by (intro nth_equalityI) (simp_all del: upt_Suc)
  have one: "length (on_slot s (svRunning sv)) \<le> 1" using ok by (simp add: slot_ok_def)
  have "\<exists>ctx rest. done_on s (svDone sv) = (ctx, Some r) # rest \<and> vcSequenceID ctx = q \<and> vcCacheThis ctx
      \<and> (vcRequestDigest ctx = [] \<or> d = [] \<or> vcRequestDigest ctx = d) \<and> t = svTable sv"
    if h: "HandleSequenceOp s q c d (svTable sv) = (Replay r, t)" for r t
  proof (cases rule: HandleSequenceOp_cases [of s q c d "svTable sv"])
    case (replay r')
    then have r: "latest_reply (done_on s (svDone sv)) = Some r" "q = of_nat (length (done_on s (svDone sv)))" "t = svTable sv"
      using h ok by (auto simp: slot_ok_def)
    then obtain ctx rest where dn: "done_on s (svDone sv) = (ctx, Some r) # rest" "vcCacheThis ctx"
      by (cases "done_on s (svDone sv)" rule: latest_reply.cases) (auto split: if_splits)
    have "vcSequenceID ctx = of_nat (Suc (length rest))"
    proof -
      have "on_slot s (svStarted sv) ! length rest = ctx" "length rest < length (on_slot s (svStarted sv))"
        using ok by (auto simp: slot_ok_def dn(1) nth_append)
      then show ?thesis using ok unfolding slot_ok_def by metis
    qed
    then show ?thesis using dn r replay(6) ok by (simp add: slot_ok_def)
  qed (use h in auto)
  with seqs one show ?thesis by blast
qed

text \<open>One slot, one request that ran and was cached.\<close>

definition demo_ctx :: V41RequestContext where
  "demo_ctx = \<lparr>vcSlotID = 0, vcSequenceID = 1, vcCacheThis = True, vcRequestDigest = [7]\<rparr>"

definition demo_server :: SlotServer where
  "demo_server = \<lparr>svTable = \<lparr>stSlots = [\<lparr>slSeqID = 1, slInUse = False, slCachedReply = Some [9], slRequestDigest = [7]\<rparr>],
       stHighestSlotID = 0, stTargetHighestSlotID = 0, stMaxSlots = 1\<rparr>,
     svRunning = [], svStarted = [demo_ctx], svDone = [(demo_ctx, Some [9])]\<rparr>"

lemma demo_server_reach: "slot_reach demo_server"
proof -
  let ?s0 = "\<lparr>svTable = NewSlotTable 1, svRunning = [], svStarted = [], svDone = []\<rparr> :: SlotServer"
  let ?t1 = "\<lparr>stSlots = [empty_slot\<lparr>slInUse := True\<rparr>], stHighestSlotID = 0, stTargetHighestSlotID = 0, stMaxSlots = 1\<rparr>"
  let ?s1 = "\<lparr>svTable = ?t1, svRunning = [demo_ctx], svStarted = [demo_ctx], svDone = []\<rparr> :: SlotServer"
  have "HandleSequenceOp 0 1 True [7] (svTable ?s0) = (Proceed demo_ctx, ?t1)"
    by (simp add: HandleSequenceOp_def ValidateSequence_def NewSlotTable_def raise_highest_def empty_slot_def demo_ctx_def Let_def)
  from slot_step.start [OF this] have "slot_reach ?s1" using slot_reach.step [OF slot_reach.new [of 1]] by simp
  moreover have "slot_step ?s1 demo_server"
    using slot_step.finish [of demo_ctx ?s1 "Some [9]"]
    by (simp add: demo_server_def demo_ctx_def finish_compound_def CompleteSlotRequest_def raise_highest_def empty_slot_def)
  ultimately show ?thesis by (rule slot_reach.step)
qed

theorem slots_exactly_once_witness:
  "map vcSequenceID (on_slot 0 (svStarted demo_server)) = [1] \<and> length (on_slot 0 (svRunning demo_server)) \<le> 1"
proof -
  have "map vcSequenceID (on_slot 0 (svStarted demo_server))
      = map of_nat [1..<Suc (length (on_slot 0 (svStarted demo_server)))]"
    "length (on_slot 0 (svRunning demo_server)) \<le> 1"
    using slots_exactly_once [OF demo_server_reach, of 0] by (auto simp: demo_server_def)
  then show ?thesis by (simp add: demo_server_def demo_ctx_def)
qed

text \<open>C17: The slot table never gets stuck and never loses a reply: on a slot with no request running,
  the next sequence id is always admitted, and a faithful retransmission of the latest completed
  request that asked for caching gets the very reply that was sent.\<close>

theorem slots_progress_and_replay:
  assumes "slot_reach sv" and "s < stMaxSlots (svTable sv)" and "on_slot s (svRunning sv) = []"
  shows "fst (HandleSequenceOp s (of_nat (Suc (length (on_slot s (svStarted sv))))) c d (svTable sv))
      = Proceed \<lparr>vcSlotID = s, vcSequenceID = of_nat (Suc (length (on_slot s (svStarted sv)))), vcCacheThis = c, vcRequestDigest = d\<rparr>
    \<and> (\<forall>ctx r rest. done_on s (svDone sv) = (ctx, Some r) # rest \<and> vcCacheThis ctx \<longrightarrow>
         HandleSequenceOp s (vcSequenceID ctx) c' (vcRequestDigest ctx) (svTable sv) = (Replay r, svTable sv))"
proof -
  let ?sl = "stSlots (svTable sv) ! unat s"
  have ok: "slot_ok ?sl [] (on_slot s (svStarted sv)) (done_on s (svDone sv))"
    using server_okD(2) [OF slot_reach_ok [OF assms(1)] assms(2)] assms(3) by simp
  then have idle: "\<not> slInUse ?sl" and len: "length (on_slot s (svStarted sv)) = length (done_on s (svDone sv))"
    and seq: "slSeqID ?sl = of_nat (length (done_on s (svDone sv)))" by (auto simp: slot_ok_def split: if_splits)
  have range: "\<not> stMaxSlots (svTable sv) \<le> s" using assms(2) by simp
  note defs = HandleSequenceOp_def ValidateSequence_def Let_def
  have fresh: "fst (HandleSequenceOp s (of_nat (Suc (length (on_slot s (svStarted sv))))) c d (svTable sv))
      = Proceed \<lparr>vcSlotID = s, vcSequenceID = of_nat (Suc (length (on_slot s (svStarted sv)))), vcCacheThis = c, vcRequestDigest = d\<rparr>"
    using range idle seq by (simp add: defs len add.commute)
  have "HandleSequenceOp s (vcSequenceID ctx) c' (vcRequestDigest ctx) (svTable sv) = (Replay r, svTable sv)"
    if dn: "done_on s (svDone sv) = (ctx, Some r) # rest" and cache: "vcCacheThis ctx" for ctx r rest
  proof -
    have "on_slot s (svStarted sv) ! length rest = ctx" "length rest < length (on_slot s (svStarted sv))"
      using ok by (auto simp: slot_ok_def dn nth_append)
    then have "vcSequenceID ctx = slSeqID ?sl" using ok seq dn unfolding slot_ok_def by (metis length_Cons)
    moreover have "slCachedReply ?sl = Some r" "slRequestDigest ?sl = vcRequestDigest ctx"
      using ok dn cache by (auto simp: slot_ok_def)
    ultimately show ?thesis using range idle by (simp add: defs)
  qed
  with fresh show ?thesis by blast
qed

theorem slots_progress_and_replay_witness:
  "HandleSequenceOp 0 1 False [7] (svTable demo_server) = (Replay [9], svTable demo_server)"
proof -
  have "0 < stMaxSlots (svTable demo_server)" "on_slot 0 (svRunning demo_server) = []"
    "done_on 0 (svDone demo_server) = [(demo_ctx, Some [9])]" by (simp_all add: demo_server_def demo_ctx_def)
  with slots_progress_and_replay [OF demo_server_reach, of 0 _ _ False] show ?thesis by (simp add: demo_ctx_def)
qed

end
