(* ===== verification/NFS4_Grace.thy ===== *)
theory NFS4_Grace
  imports Ditto_Prelude
begin

text \<open>
  The NFSv4 grace period after a server restart (\<open>internal/adapter/nfs/v4/state/grace.go\<close>).
  Go's maps to \<open>bool\<close> are sets.  An operation that can end the period also returns whether
  it ran the end-of-grace callback.  The timer is an event that may fire while it is armed.
\<close>

record GracePeriodState =
  gpActive :: bool
  gpDuration :: int
  gpStartedAt :: int
  gpTimer :: bool
  gpExpectedClients :: "u64 set"
  gpReclaimedClients :: "u64 set"
  gpExpectedClientStrings :: "string set"
  gpReclaimedClientStrings :: "string set"
  gpReclaimCompleted :: "u64 set"

record GraceStatusInfo =
  gsActive :: bool
  gsRemaining :: int
  gsTotalDuration :: int
  gsExpectedClients :: nat
  gsReclaimedClients :: nat
  gsStartedAt :: int

definition NewGracePeriodState :: "int \<Rightarrow> GracePeriodState" where
  "NewGracePeriodState duration =
     \<lparr>gpActive = False, gpDuration = duration, gpStartedAt = 0, gpTimer = False,
      gpExpectedClients = {}, gpReclaimedClients = {}, gpExpectedClientStrings = {},
      gpReclaimedClientStrings = {}, gpReclaimCompleted = {}\<rparr>"

definition startGrace :: "int \<Rightarrow> u64 list \<Rightarrow> string list \<Rightarrow> GracePeriodState \<Rightarrow> GracePeriodState" where
  "startGrace now expectedClientIDs expectedClientStrings g =
     (if gpActive g then g
      else if expectedClientIDs = [] \<and> expectedClientStrings = [] then g
      else g\<lparr>gpActive := True, gpStartedAt := now, gpExpectedClients := set expectedClientIDs,
             gpReclaimedClients := {}, gpReclaimCompleted := {},
             gpExpectedClientStrings := set expectedClientStrings, gpReclaimedClientStrings := {},
             gpTimer := True\<rparr>)"

definition StartGrace :: "int \<Rightarrow> u64 list \<Rightarrow> GracePeriodState \<Rightarrow> GracePeriodState" where
  "StartGrace now expectedClientIDs = startGrace now expectedClientIDs []"

definition StartGraceWithRoster :: "int \<Rightarrow> u64 list \<Rightarrow> string list \<Rightarrow> GracePeriodState \<Rightarrow> GracePeriodState" where
  "StartGraceWithRoster = startGrace"

definition allReclaimedLocked :: "GracePeriodState \<Rightarrow> bool" where
  "allReclaimedLocked g =
     (if card (gpReclaimedClients g) < card (gpExpectedClients g) then False
      else if card (gpReclaimedClientStrings g) < card (gpExpectedClientStrings g) then False
      else True)"

definition IsInGrace :: "GracePeriodState \<Rightarrow> bool" where
  "IsInGrace g = gpActive g"

definition maybeEndEarlyLocked :: "GracePeriodState \<Rightarrow> bool \<times> GracePeriodState" where
  "maybeEndEarlyLocked g =
     (if \<not> allReclaimedLocked g then (False, g)
      else (True, g\<lparr>gpTimer := False, gpActive := False\<rparr>))"

definition ClientReclaimed :: "u64 \<Rightarrow> GracePeriodState \<Rightarrow> bool \<times> GracePeriodState" where
  "ClientReclaimed clientID g =
     (if \<not> gpActive g then (False, g)
      else if clientID \<notin> gpExpectedClients g then (False, g)
      else maybeEndEarlyLocked (g\<lparr>gpReclaimedClients := insert clientID (gpReclaimedClients g)\<rparr>))"

definition ClientReclaimedByString :: "string \<Rightarrow> GracePeriodState \<Rightarrow> bool \<times> GracePeriodState" where
  "ClientReclaimedByString clientIDString g =
     (if \<not> gpActive g then (False, g)
      else if clientIDString \<notin> gpExpectedClientStrings g then (False, g)
      else maybeEndEarlyLocked (g\<lparr>gpReclaimedClientStrings := insert clientIDString (gpReclaimedClientStrings g)\<rparr>))"

definition grace_Stop :: "GracePeriodState \<Rightarrow> GracePeriodState" where
  "grace_Stop g = g\<lparr>gpActive := False, gpTimer := False\<rparr>"

definition Status :: "int \<Rightarrow> GracePeriodState \<Rightarrow> GraceStatusInfo" where
  "Status now g =
     \<lparr>gsActive = gpActive g,
      gsRemaining = (if gpActive g then
                       (let remaining = gpDuration g - (now - gpStartedAt g) in if remaining < 0 then 0 else remaining)
                     else 0),
      gsTotalDuration = gpDuration g,
      gsExpectedClients = card (gpExpectedClients g),
      gsReclaimedClients = card (gpReclaimedClients g),
      gsStartedAt = gpStartedAt g\<rparr>"

definition endGraceWithReason :: "GracePeriodState \<Rightarrow> bool \<times> GracePeriodState" where
  "endGraceWithReason g = (if \<not> gpActive g then (False, g) else (True, g\<lparr>gpActive := False, gpTimer := False\<rparr>))"

definition ForceEnd :: "GracePeriodState \<Rightarrow> bool \<times> GracePeriodState" where
  "ForceEnd = endGraceWithReason"

text \<open>The result of RECLAIM_COMPLETE: refused as a repetition, or accepted.\<close>

datatype reclaim_result = CompleteAlready | ReclaimDone

definition ReclaimComplete :: "u64 \<Rightarrow> GracePeriodState \<Rightarrow> reclaim_result \<times> bool \<times> GracePeriodState" where
  "ReclaimComplete clientID g =
     (if clientID \<in> gpReclaimCompleted g then (CompleteAlready, False, g)
      else let g = g\<lparr>gpReclaimCompleted := insert clientID (gpReclaimCompleted g)\<rparr>
           in if gpActive g then (ReclaimDone, ClientReclaimed clientID g) else (ReclaimDone, False, g))"

section \<open>Runs of a grace period\<close>

datatype grace_event = EvReclaim u64 | EvReclaimString string | EvComplete u64 | EvTimer | EvForce | EvStop

fun grace_event_step :: "grace_event \<Rightarrow> GracePeriodState \<Rightarrow> bool \<times> GracePeriodState" where
  "grace_event_step (EvReclaim c) g = ClientReclaimed c g"
| "grace_event_step (EvReclaimString s) g = ClientReclaimedByString s g"
| "grace_event_step (EvComplete c) g = snd (ReclaimComplete c g)"
| "grace_event_step EvTimer g = (if gpTimer g then endGraceWithReason g else (False, g))"
| "grace_event_step EvForce g = ForceEnd g"
| "grace_event_step EvStop g = (False, grace_Stop g)"

text \<open>How often the callback ran, and the state after all events.\<close>

fun grace_run :: "grace_event list \<Rightarrow> GracePeriodState \<Rightarrow> nat \<times> GracePeriodState" where
  "grace_run [] g = (0, g)"
| "grace_run (e # es) g =
     (let (ended, g) = grace_event_step e g; (n, g) = grace_run es g in ((if ended then 1 else 0) + n, g))"

text \<open>What a list of events reclaims, read off the events alone.\<close>

fun reclaims_id :: "grace_event \<Rightarrow> u64 set" where
  "reclaims_id (EvReclaim c) = {c}"
| "reclaims_id (EvComplete c) = {c}"
| "reclaims_id _ = {}"

fun reclaims_string :: "grace_event \<Rightarrow> string set" where
  "reclaims_string (EvReclaimString s) = {s}"
| "reclaims_string _ = {}"

fun cuts_grace :: "grace_event \<Rightarrow> bool" where
  "cuts_grace EvTimer = True" | "cuts_grace EvForce = True" | "cuts_grace EvStop = True" | "cuts_grace _ = False"

text \<open>The period is still on after events that reclaimed \<open>ids\<close> and \<open>strs\<close>.\<close>

definition grace_on :: "u64 set \<Rightarrow> string set \<Rightarrow> u64 set \<Rightarrow> string set \<Rightarrow> bool" where
  "grace_on expected expectedStrings ids strs \<longleftrightarrow> \<not> (expected \<subseteq> ids \<and> expectedStrings \<subseteq> strs)"

text \<open>The running period agrees with what was reclaimed so far.\<close>

definition grace_sync :: "u64 set \<Rightarrow> string set \<Rightarrow> GracePeriodState \<Rightarrow> bool" where
  "grace_sync ids strs g \<longleftrightarrow> gpActive g \<and> gpTimer g
     \<and> finite (gpExpectedClients g) \<and> finite (gpExpectedClientStrings g)
     \<and> gpReclaimedClients g = gpExpectedClients g \<inter> ids
     \<and> gpReclaimedClientStrings g = gpExpectedClientStrings g \<inter> strs
     \<and> gpReclaimCompleted g \<subseteq> ids
     \<and> grace_on (gpExpectedClients g) (gpExpectedClientStrings g) ids strs"

lemma card_inter_less: "finite A \<Longrightarrow> card (A \<inter> B) < card A \<longleftrightarrow> \<not> A \<subseteq> B"
  by (metis Int_lower1 inf.absorb_iff1 less_irrefl psubsetI psubset_card_mono)

lemma allReclaimed_iff:
  assumes "finite (gpExpectedClients g)" "finite (gpExpectedClientStrings g)"
    and "gpReclaimedClients g = gpExpectedClients g \<inter> ids" "gpReclaimedClientStrings g = gpExpectedClientStrings g \<inter> strs"
  shows "allReclaimedLocked g \<longleftrightarrow> \<not> grace_on (gpExpectedClients g) (gpExpectedClientStrings g) ids strs"
  using assms by (simp add: allReclaimedLocked_def card_inter_less grace_on_def)

lemma reclaim_steps:
  assumes sync: "grace_sync ids strs g"
  shows "ClientReclaimed c g = (ended, g') \<Longrightarrow>
      (if grace_on (gpExpectedClients g) (gpExpectedClientStrings g) (insert c ids) strs
       then \<not> ended \<and> grace_sync (insert c ids) strs g' \<and> gpExpectedClients g' = gpExpectedClients g
         \<and> gpExpectedClientStrings g' = gpExpectedClientStrings g
       else ended \<and> \<not> gpActive g')" (is "?id \<Longrightarrow> ?idres")
    and "ClientReclaimedByString s g = (ended, g') \<Longrightarrow>
      (if grace_on (gpExpectedClients g) (gpExpectedClientStrings g) ids (insert s strs)
       then \<not> ended \<and> grace_sync ids (insert s strs) g' \<and> gpExpectedClients g' = gpExpectedClients g
         \<and> gpExpectedClientStrings g' = gpExpectedClientStrings g
       else ended \<and> \<not> gpActive g')" (is "?str \<Longrightarrow> ?strres")
proof -
  let ?g = "g\<lparr>gpReclaimedClients := insert c (gpReclaimedClients g)\<rparr>"
  let ?h = "g\<lparr>gpReclaimedClientStrings := insert s (gpReclaimedClientStrings g)\<rparr>"
  show ?idres if ?id
  proof (cases "c \<in> gpExpectedClients g")
    case True
    then have "allReclaimedLocked ?g \<longleftrightarrow> \<not> grace_on (gpExpectedClients g) (gpExpectedClientStrings g) (insert c ids) strs"
      using sync allReclaimed_iff [of ?g "insert c ids" strs] by (simp add: grace_sync_def)
    then show ?thesis using that True sync
      by (auto simp: ClientReclaimed_def maybeEndEarlyLocked_def grace_sync_def split: if_splits)
  next
    case False
    then show ?thesis using that sync by (auto simp: ClientReclaimed_def grace_sync_def grace_on_def split: if_splits)
  qed
  show ?strres if ?str
  proof (cases "s \<in> gpExpectedClientStrings g")
    case True
    then have "allReclaimedLocked ?h \<longleftrightarrow> \<not> grace_on (gpExpectedClients g) (gpExpectedClientStrings g) ids (insert s strs)"
      using sync allReclaimed_iff [of ?h ids "insert s strs"] by (simp add: grace_sync_def)
    then show ?thesis using that True sync
      by (auto simp: ClientReclaimedByString_def maybeEndEarlyLocked_def grace_sync_def split: if_splits)
  next
    case False
    then show ?thesis using that sync by (auto simp: ClientReclaimedByString_def grace_sync_def grace_on_def split: if_splits)
  qed
qed

lemma complete_step:
  assumes sync: "grace_sync ids strs g" and step: "snd (ReclaimComplete c g) = (ended, g')"
  shows "if grace_on (gpExpectedClients g) (gpExpectedClientStrings g) (insert c ids) strs
       then \<not> ended \<and> grace_sync (insert c ids) strs g' \<and> gpExpectedClients g' = gpExpectedClients g
         \<and> gpExpectedClientStrings g' = gpExpectedClientStrings g
       else ended \<and> \<not> gpActive g'"
proof (cases "c \<in> gpReclaimCompleted g")
  case True
  then have "insert c ids = ids" using sync by (auto simp: grace_sync_def)
  then show ?thesis using step True sync by (auto simp: ReclaimComplete_def grace_sync_def)
next
  case False
  let ?g = "g\<lparr>gpReclaimCompleted := insert c (gpReclaimCompleted g)\<rparr>"
  let ?old = "g'\<lparr>gpReclaimCompleted := gpReclaimCompleted g\<rparr>"
  have step': "ClientReclaimed c ?g = (ended, g')"
    using step False sync by (simp add: ReclaimComplete_def Let_def grace_sync_def)
  then have "ClientReclaimed c g = (ended, ?old)"
    by (auto simp: ClientReclaimed_def maybeEndEarlyLocked_def allReclaimedLocked_def split: if_splits)
  note base = reclaim_steps(1) [OF sync this]
  have "gpReclaimCompleted g' = insert c (gpReclaimCompleted g)"
    using step' by (auto simp: ClientReclaimed_def maybeEndEarlyLocked_def split: if_splits)
  moreover have "gpReclaimCompleted g \<subseteq> ids" using sync by (simp add: grace_sync_def)
  ultimately show ?thesis using base by (auto simp: grace_sync_def split: if_splits)
qed

lemma grace_step:
  assumes sync: "grace_sync ids strs g" and step: "grace_event_step e g = (ended, g')"
  shows "if \<not> cuts_grace e \<and> grace_on (gpExpectedClients g) (gpExpectedClientStrings g) (reclaims_id e \<union> ids) (reclaims_string e \<union> strs)
       then \<not> ended \<and> grace_sync (reclaims_id e \<union> ids) (reclaims_string e \<union> strs) g' \<and> gpExpectedClients g' = gpExpectedClients g
         \<and> gpExpectedClientStrings g' = gpExpectedClientStrings g
       else ended = (e \<noteq> EvStop) \<and> \<not> gpActive g'"
proof (cases e)
  case (EvReclaim c)
  then show ?thesis using reclaim_steps(1) [OF sync, of c ended g'] step by simp
next
  case (EvReclaimString t)
  then show ?thesis using reclaim_steps(2) [OF sync, of t ended g'] step by simp
next
  case (EvComplete c)
  then show ?thesis using complete_step [OF sync, of c ended g'] step by simp
qed (use step sync in \<open>auto simp: endGraceWithReason_def ForceEnd_def grace_Stop_def grace_sync_def\<close>)

lemma grace_over: "\<not> gpActive g \<Longrightarrow> fst (grace_run es g) = 0 \<and> \<not> gpActive (snd (grace_run es g))"
proof (induction es arbitrary: g)
  case (Cons e es)
  obtain ended g' where step: "grace_event_step e g = (ended, g')" by fastforce
  have "\<not> ended \<and> \<not> gpActive g'" using step Cons.prems
    by (cases e) (auto simp: ClientReclaimed_def ClientReclaimedByString_def ReclaimComplete_def Let_def
      endGraceWithReason_def ForceEnd_def grace_Stop_def split: if_splits)
  then show ?case using Cons.IH [of g'] by (simp add: step split: prod.splits)
qed simp

lemma grace_run_sync:
  assumes "grace_sync ids strs g"
  shows "(gpActive (snd (grace_run es g)) \<longleftrightarrow> \<not> list_ex cuts_grace es
      \<and> grace_on (gpExpectedClients g) (gpExpectedClientStrings g) (ids \<union> \<Union> (reclaims_id ` set es)) (strs \<union> \<Union> (reclaims_string ` set es)))
    \<and> fst (grace_run es g) \<le> 1
    \<and> (EvStop \<notin> set es \<longrightarrow> fst (grace_run es g) = (if gpActive (snd (grace_run es g)) then 0 else 1))"
  using assms
proof (induction es arbitrary: g ids strs)
  case Nil
  then show ?case by (simp add: grace_sync_def)
next
  case (Cons e es)
  obtain ended g' where step: "grace_event_step e g = (ended, g')" by fastforce
  note st = grace_step [OF Cons.prems step]
  have run: "grace_run (e # es) g = ((if ended then 1 else 0) + fst (grace_run es g'), snd (grace_run es g'))"
    by (simp add: step split: prod.splits)
  show ?case
  proof (cases "\<not> cuts_grace e \<and> grace_on (gpExpectedClients g) (gpExpectedClientStrings g) (reclaims_id e \<union> ids) (reclaims_string e \<union> strs)")
    case True
    then have g': "\<not> ended" "grace_sync (reclaims_id e \<union> ids) (reclaims_string e \<union> strs) g'"
      "gpExpectedClients g' = gpExpectedClients g" "gpExpectedClientStrings g' = gpExpectedClientStrings g"
      using st by simp_all
    show ?thesis unfolding run using Cons.IH [OF g'(2)] True g'(1,3,4) by (auto simp: Un_ac)
  next
    case False
    then have g': "ended = (e \<noteq> EvStop)" "\<not> gpActive g'" using st by (auto split: if_splits)
    have "list_ex cuts_grace (e # es) \<or> \<not> grace_on (gpExpectedClients g) (gpExpectedClientStrings g)
        (ids \<union> \<Union> (reclaims_id ` set (e # es))) (strs \<union> \<Union> (reclaims_string ` set (e # es)))"
      using False by (auto simp: grace_on_def)
    then show ?thesis unfolding run using grace_over [OF g'(2), of es] g'(1) by auto
  qed
qed

text \<open>C38: a grace period started with a non-empty roster is on exactly as long as no timer, forced
  end or shutdown cut it and some expected client, by number or by name, has not reclaimed,
  whatever else happens in between; the end is reported at most once, and exactly once when it
  is not a shutdown that ends it.\<close>

theorem grace_roster_exact:
  assumes "ids \<noteq> [] \<or> strs \<noteq> []"
    and "grace_run evs (StartGraceWithRoster now ids strs (NewGracePeriodState d)) = (n, g)"
  shows "(IsInGrace g \<longleftrightarrow> \<not> list_ex cuts_grace evs
      \<and> \<not> (set ids \<subseteq> \<Union> (reclaims_id ` set evs) \<and> set strs \<subseteq> \<Union> (reclaims_string ` set evs)))
    \<and> n \<le> 1 \<and> (EvStop \<notin> set evs \<longrightarrow> n = (if IsInGrace g then 0 else 1))"
proof -
  let ?g = "StartGraceWithRoster now ids strs (NewGracePeriodState d)"
  have "grace_sync {} {} ?g" "gpExpectedClients ?g = set ids" "gpExpectedClientStrings ?g = set strs"
    using assms(1) by (auto simp: StartGraceWithRoster_def startGrace_def NewGracePeriodState_def grace_sync_def grace_on_def)
  from grace_run_sync [OF this(1), of evs] this(2,3) show ?thesis
    by (simp add: assms(2) IsInGrace_def grace_on_def)
qed

theorem grace_roster_exact_witness:
  "let (n, g) = grace_run [EvReclaim 7, EvComplete 7, EvReclaimString ''b'']
      (StartGraceWithRoster 0 [7] [''a'', ''b''] (NewGracePeriodState 90)) in IsInGrace g \<and> n = 0"
proof -
  let ?r = "grace_run [EvReclaim 7, EvComplete 7, EvReclaimString ''b''] (StartGraceWithRoster 0 [7] [''a'', ''b''] (NewGracePeriodState 90))"
  have "IsInGrace (snd ?r) \<and> fst ?r = 0"
    using grace_roster_exact [of "[7]" "[''a'', ''b'']" "[EvReclaim 7, EvComplete 7, EvReclaimString ''b'']" 0 90 "fst ?r" "snd ?r"]
    by auto
  then show ?thesis by (simp add: case_prod_beta)
qed

end
