(* ===== verification/NFS4_State.thy ===== *)
theory NFS4_State
  imports Lock_Manager Slot_Table NFS4_Grace "HOL-Library.AList"
begin

text \<open>
  The objects and tables of the NFSv4 state manager (\<open>internal/adapter/nfs/v4/state\<close>):
  client records with their leases, open-owners and opens, lock-owners and lock states,
  delegations, and the state ids that name them.

  Objects are shared by pointer in the code, so each kind has a heap from pointers to records, and
  the tables hold pointers; a new object gets the next unused pointer.  Byte slices used as map keys
  (file handles, owner names) are strings.  An eight-byte verifier is a 64-bit word.  The state
  manager's mutex makes each operation a function on the state; clocks are arguments.
\<close>

section \<open>State ids\<close>

type_synonym ptr = nat
type_synonym other = "u8 list"

record Stateid4 =
  siSeqid :: u32
  siOther :: other

definition isAnonymous :: "Stateid4 \<Rightarrow> bool" where
  "isAnonymous s = (if siSeqid s \<noteq> 0 then False else list_all (\<lambda>b. b = 0) (siOther s))"

definition isReadBypass :: "Stateid4 \<Rightarrow> bool" where
  "isReadBypass s = (if siSeqid s \<noteq> 0xFFFFFFFF then False else list_all (\<lambda>b. b = 0xFF) (siOther s))"

definition IsSpecialStateid :: "Stateid4 \<Rightarrow> bool" where
  "IsSpecialStateid s = (isAnonymous s \<or> isReadBypass s)"

definition isSpecialOther :: "other \<Rightarrow> bool" where
  "isSpecialOther oth = (list_all (\<lambda>b. b = 0) oth \<or> list_all (\<lambda>b. b = 0xFF) oth)"

abbreviation (input) StateTypeOpen :: u8 where "StateTypeOpen \<equiv> 0x01"
abbreviation (input) StateTypeLock :: u8 where "StateTypeLock \<equiv> 0x02"
abbreviation (input) StateTypeDeleg :: u8 where "StateTypeDeleg \<equiv> 0x03"

text \<open>The errors of the state package; each constructor stands for the status it carries.  A replay
  carries the cached status and reply.\<close>

datatype state_error = ErrBadStateid | ErrOldStateid | ErrStaleStateid | ErrExpired | ErrBadSeqid
  | ErrShareDenied | ErrGrace | ErrNoGrace | ErrStaleClientID | ErrClientIDInUse | ErrLocksHeld
  | ErrInval | ErrOpenMode | ErrServerFault | ErrCompleteAlready | ErrClientIDBusy | ErrBadSession
  | ErrDelay | ErrTooManySessions | ErrSeqMisordered | ErrResource | ErrNotFound | ErrNoLockManager
  | ErrCancelled | ReplayError u32 bytes

section \<open>Sequence ids of owners\<close>

datatype SeqIDValidation = SeqIDOK | SeqIDReplay | SeqIDBad

definition nextSeqID :: "u32 \<Rightarrow> u32" where
  "nextSeqID current = (if current = 0xFFFFFFFF then 1 else current + 1)"

definition validate_seqid :: "u32 \<Rightarrow> u32 \<Rightarrow> SeqIDValidation" where
  "validate_seqid lastSeqID seqid =
     (let expected = nextSeqID lastSeqID in
      if seqid = expected then SeqIDOK
      else if seqid = lastSeqID then SeqIDReplay
      else SeqIDBad)"

section \<open>Leases\<close>

record LeaseState =
  lsClientID :: u64
  lsDuration :: time
  lsLastRenew :: time
  lsStopped :: bool

definition NewLeaseState :: "time \<Rightarrow> u64 \<Rightarrow> time \<Rightarrow> LeaseState" where
  "NewLeaseState now clientID duration =
     \<lparr>lsClientID = clientID, lsDuration = duration, lsLastRenew = now, lsStopped = False\<rparr>"

text \<open>Whether the timer function calls \<open>onExpire\<close> when the timer fires at \<open>now\<close>.\<close>

definition lease_fires :: "time \<Rightarrow> LeaseState \<Rightarrow> bool" where
  "lease_fires now ls = (if lsStopped ls \<or> now - lsLastRenew ls < lsDuration ls then False else True)"

definition lease_Renew :: "time \<Rightarrow> LeaseState \<Rightarrow> LeaseState" where
  "lease_Renew now ls = (if lsStopped ls then ls else ls\<lparr>lsLastRenew := now\<rparr>)"

definition lease_IsExpired :: "time \<Rightarrow> LeaseState \<Rightarrow> bool" where
  "lease_IsExpired now ls = (now - lsLastRenew ls > lsDuration ls)"

definition lease_Stop :: "LeaseState \<Rightarrow> LeaseState" where
  "lease_Stop ls = ls\<lparr>lsStopped := True\<rparr>"

definition RemainingTime :: "time \<Rightarrow> LeaseState \<Rightarrow> time" where
  "RemainingTime now ls =
     (let elapsed = now - lsLastRenew ls in if elapsed \<ge> lsDuration ls then 0 else lsDuration ls - elapsed)"

section \<open>Objects\<close>

record CallbackInfo =
  cbProgram :: u32
  cbNetID :: string
  cbAddr :: string

record ClientRecord =
  crClientID :: u64
  crClientIDString :: string
  crVerifier :: u64
  crConfirmVerifier :: u64
  crConfirmed :: bool
  crCallback :: CallbackInfo
  crClientAddr :: string
  crPrincipal :: string
  crCreatedAt :: time
  crLastRenewal :: time
  crLease :: "LeaseState option"
  crOpenOwners :: "(string \<times> ptr) list"
  crCBPathUp :: bool

record OpenOwner =
  ooClientID :: u64
  ooOwnerData :: string
  ooLastSeqID :: u32
  ooLastResult :: "(u32 \<times> bytes) option"
  ooConfirmed :: bool
  ooOpenStates :: "ptr list"
  ooClientRecord :: "ptr option"
  ooKey :: string

record OpenState =
  osStateid :: Stateid4
  osOwner :: ptr
  osFileHandle :: string
  osShareAccess :: u32
  osShareDeny :: u32
  osConfirmed :: bool
  osLockStates :: "ptr list"

record NFS4LockOwner =
  nlClientID :: u64
  nlOwnerData :: string
  nlLastSeqID :: u32
  nlLastResult :: "(u32 \<times> bytes) option"
  nlClientRecord :: "ptr option"
  nlKey :: string

record LockState =
  ksStateid :: Stateid4
  ksLockOwner :: ptr
  ksOpenState :: ptr
  ksFileHandle :: string

record DelegationState =
  dsStateid :: Stateid4
  dsClientID :: u64
  dsFileHandle :: string
  dsDelegType :: u32
  dsRecallSent :: bool
  dsRecallTime :: time
  dsRevoked :: bool
  dsRecallTimer :: bool
  dsLockManagerDelegID :: string

record V4ClientRecoveryRecord =
  rrClientID :: u64
  rrClientIDString :: string
  rrBootVerifier :: u64
  rrPrincipal :: string
  rrConfirmedAt :: time
  rrServerEpoch :: u64
  rrReclaimComplete :: bool

section \<open>The tables\<close>

text \<open>Tables the code only looks up are maps; those it ranges over are association lists, whose order
  stands for the order of the iteration.  A file without opens or delegations reads as the empty
  list.  Lock managers are per share: \<open>smResolve\<close> is the injected resolver from handles to
  shares.\<close>

record StateManager =
  smClientsByID :: "u64 \<rightharpoonup> ptr"
  smClientsByName :: "(string \<times> ptr) list"
  smUnconfirmedByName :: "string \<rightharpoonup> ptr"
  smOpenStateByOther :: "other \<rightharpoonup> ptr"
  smOpenStateByFile :: "string \<Rightarrow> ptr list"
  smOpenOwners :: "string \<rightharpoonup> ptr"
  smClosedOwnerByOther :: "(other \<times> ptr) list"
  smLockOwners :: "string \<rightharpoonup> ptr"
  smLockStateByOther :: "(other \<times> ptr) list"
  smDelegByOther :: "(other \<times> ptr) list"
  smDelegByFile :: "string \<Rightarrow> ptr list"
  smRevokedDelegCount :: "u64 \<Rightarrow> nat"
  smDelegStateidMap :: "string \<rightharpoonup> Stateid4"
  smRecentlyRecalled :: "string \<rightharpoonup> time"
  smRecentlyRecalledTTL :: time
  smDelegationsEnabled :: bool
  smMaxDelegations :: nat
  smResolve :: "string \<Rightarrow> nat option"
  smLockManagers :: "nat \<Rightarrow> Manager"
  smBootEpoch :: u32
  smNextClientSeq :: u32
  smNextStateSeq :: u64
  smLeaseDuration :: time
  smGracePeriod :: "GracePeriodState option"
  smGraceDuration :: int
  smRecoveryStore :: "(string \<times> V4ClientRecoveryRecord) list option"
  smServerEpoch :: u64
  smBootRecoveryVerifiers :: "string \<rightharpoonup> u64"
  hClient :: "ptr \<Rightarrow> ClientRecord"
  hOwner :: "ptr \<Rightarrow> OpenOwner"
  hOpen :: "ptr \<Rightarrow> OpenState"
  hLockOwner :: "ptr \<Rightarrow> NFS4LockOwner"
  hLock :: "ptr \<Rightarrow> LockState"
  hDeleg :: "ptr \<Rightarrow> DelegationState"
  smNextPtr :: ptr

section \<open>Keys and fresh names\<close>

definition hex_digit :: "nat \<Rightarrow> char" where
  "hex_digit d = ''0123456789abcdef'' ! d"

definition hex_EncodeToString :: "string \<Rightarrow> string" where
  "hex_EncodeToString src = concat (map (\<lambda>c. [hex_digit (of_char c div 16), hex_digit (of_char c mod 16)]) src)"

definition makeOwnerKey :: "u64 \<Rightarrow> string \<Rightarrow> string" where
  "makeOwnerKey clientID ownerData = show_nat (unat clientID) @ CHR '':'' # hex_EncodeToString ownerData"

definition makeLockOwnerKey :: "u64 \<Rightarrow> string \<Rightarrow> string" where
  "makeLockOwnerKey clientID ownerData = show_nat (unat clientID) @ CHR '':'' # hex_EncodeToString ownerData"

definition oo_Key :: "OpenOwner \<Rightarrow> string" where
  "oo_Key oo = (if ooKey oo = [] then makeOwnerKey (ooClientID oo) (ooOwnerData oo) else ooKey oo)"

definition nl_Key :: "NFS4LockOwner \<Rightarrow> string" where
  "nl_Key nl = (if nlKey nl = [] then makeLockOwnerKey (nlClientID nl) (nlOwnerData nl) else nlKey nl)"

definition oo_ValidateSeqID :: "OpenOwner \<Rightarrow> u32 \<Rightarrow> SeqIDValidation" where
  "oo_ValidateSeqID oo seqid = validate_seqid (ooLastSeqID oo) seqid"

definition nl_ValidateSeqID :: "NFS4LockOwner \<Rightarrow> u32 \<Rightarrow> SeqIDValidation" where
  "nl_ValidateSeqID nl seqid = validate_seqid (nlLastSeqID nl) seqid"

text \<open>The twelve bytes of a state id: type tag, three bytes of the boot epoch, eight of the counter.\<close>

definition other_bytes :: "u8 \<Rightarrow> u32 \<Rightarrow> u64 \<Rightarrow> other" where
  "other_bytes stateType epoch seq =
     [stateType, ucast (drop_bit 16 epoch), ucast (drop_bit 8 epoch), ucast epoch,
      ucast (drop_bit 56 seq), ucast (drop_bit 48 seq), ucast (drop_bit 40 seq), ucast (drop_bit 32 seq),
      ucast (drop_bit 24 seq), ucast (drop_bit 16 seq), ucast (drop_bit 8 seq), ucast seq]"

definition generateStateidOther :: "u8 \<Rightarrow> StateManager \<Rightarrow> other \<times> StateManager" where
  "generateStateidOther stateType sm =
     (let seq = smNextStateSeq sm + 1 in (other_bytes stateType (smBootEpoch sm) seq, sm\<lparr>smNextStateSeq := seq\<rparr>))"

definition isCurrentEpoch :: "StateManager \<Rightarrow> other \<Rightarrow> bool" where
  "isCurrentEpoch sm oth =
     (oth ! 1 = ucast (drop_bit 16 (smBootEpoch sm)) \<and> oth ! 2 = ucast (drop_bit 8 (smBootEpoch sm))
      \<and> oth ! 3 = ucast (smBootEpoch sm))"

definition generateClientID :: "StateManager \<Rightarrow> u64 \<times> StateManager" where
  "generateClientID sm =
     (let seq = smNextClientSeq sm + 1
      in (push_bit 32 (ucast (smBootEpoch sm)) OR ucast seq, sm\<lparr>smNextClientSeq := seq\<rparr>))"

definition alloc :: "StateManager \<Rightarrow> ptr \<times> StateManager" where
  "alloc sm = (smNextPtr sm, sm\<lparr>smNextPtr := Suc (smNextPtr sm)\<rparr>)"

text \<open>Writing through a pointer.\<close>

definition upd_client :: "ptr \<Rightarrow> (ClientRecord \<Rightarrow> ClientRecord) \<Rightarrow> StateManager \<Rightarrow> StateManager" where
  "upd_client p f sm = sm\<lparr>hClient := (hClient sm)(p := f (hClient sm p))\<rparr>"

definition upd_owner :: "ptr \<Rightarrow> (OpenOwner \<Rightarrow> OpenOwner) \<Rightarrow> StateManager \<Rightarrow> StateManager" where
  "upd_owner p f sm = sm\<lparr>hOwner := (hOwner sm)(p := f (hOwner sm p))\<rparr>"

definition upd_open :: "ptr \<Rightarrow> (OpenState \<Rightarrow> OpenState) \<Rightarrow> StateManager \<Rightarrow> StateManager" where
  "upd_open p f sm = sm\<lparr>hOpen := (hOpen sm)(p := f (hOpen sm p))\<rparr>"

definition upd_lockowner :: "ptr \<Rightarrow> (NFS4LockOwner \<Rightarrow> NFS4LockOwner) \<Rightarrow> StateManager \<Rightarrow> StateManager" where
  "upd_lockowner p f sm = sm\<lparr>hLockOwner := (hLockOwner sm)(p := f (hLockOwner sm p))\<rparr>"

definition upd_lock :: "ptr \<Rightarrow> (LockState \<Rightarrow> LockState) \<Rightarrow> StateManager \<Rightarrow> StateManager" where
  "upd_lock p f sm = sm\<lparr>hLock := (hLock sm)(p := f (hLock sm p))\<rparr>"

definition upd_deleg :: "ptr \<Rightarrow> (DelegationState \<Rightarrow> DelegationState) \<Rightarrow> StateManager \<Rightarrow> StateManager" where
  "upd_deleg p f sm = sm\<lparr>hDeleg := (hDeleg sm)(p := f (hDeleg sm p))\<rparr>"

definition lockManagerFor :: "StateManager \<Rightarrow> string \<Rightarrow> Manager option" where
  "lockManagerFor sm handle = map_option (smLockManagers sm) (smResolve sm handle)"

definition set_lockManagerFor :: "string \<Rightarrow> Manager \<Rightarrow> StateManager \<Rightarrow> StateManager" where
  "set_lockManagerFor handle lm sm =
     (case smResolve sm handle of
        None \<Rightarrow> sm
      | Some share \<Rightarrow> sm\<lparr>smLockManagers := (smLockManagers sm)(share := lm)\<rparr>)"

definition sm_IsInGrace :: "StateManager \<Rightarrow> bool" where
  "sm_IsInGrace sm = (case smGracePeriod sm of None \<Rightarrow> False | Some gp \<Rightarrow> IsInGrace gp)"

definition CheckGraceForNewState :: "StateManager \<Rightarrow> state_error option" where
  "CheckGraceForNewState sm = (if sm_IsInGrace sm then Some ErrGrace else None)"

section \<open>A new state manager\<close>

text \<open>Durations are nanoseconds.  The boot epoch is the time of the start in seconds, cut to 32 bits; the
  lock managers and their resolver are injected.  Maps of Go start empty and so do the heaps.\<close>

abbreviation (input) DefaultLeaseDuration :: int where "DefaultLeaseDuration \<equiv> 90000000000"
abbreviation (input) RecentlyRecalledTTL :: time where "RecentlyRecalledTTL \<equiv> 30000000000"

definition NewStateManager :: "u32 \<Rightarrow> int \<Rightarrow> int option \<Rightarrow> (string \<Rightarrow> nat option) \<Rightarrow> (nat \<Rightarrow> Manager) \<Rightarrow> StateManager" where
  "NewStateManager epoch leaseDuration graceDuration resolver managers =
     (let leaseDuration = (if leaseDuration \<le> 0 then DefaultLeaseDuration else leaseDuration);
          gd = (case graceDuration of None \<Rightarrow> leaseDuration | Some d \<Rightarrow> if d > 0 then d else leaseDuration)
      in \<lparr>smClientsByID = Map.empty, smClientsByName = [], smUnconfirmedByName = Map.empty,
          smOpenStateByOther = Map.empty, smOpenStateByFile = (\<lambda>_. []), smOpenOwners = Map.empty,
          smClosedOwnerByOther = [], smLockOwners = Map.empty, smLockStateByOther = [],
          smDelegByOther = [], smDelegByFile = (\<lambda>_. []), smRevokedDelegCount = (\<lambda>_. 0),
          smDelegStateidMap = Map.empty, smRecentlyRecalled = Map.empty, smRecentlyRecalledTTL = RecentlyRecalledTTL,
          smDelegationsEnabled = True, smMaxDelegations = 0, smResolve = resolver, smLockManagers = managers,
          smBootEpoch = epoch, smNextClientSeq = 0, smNextStateSeq = 0, smLeaseDuration = nat leaseDuration,
          smGracePeriod = None, smGraceDuration = gd, smRecoveryStore = None, smServerEpoch = 0,
          smBootRecoveryVerifiers = Map.empty, hClient = (\<lambda>_. undefined), hOwner = (\<lambda>_. undefined),
          hOpen = (\<lambda>_. undefined), hLockOwner = (\<lambda>_. undefined), hLock = (\<lambda>_. undefined),
          hDeleg = (\<lambda>_. undefined), smNextPtr = 0\<rparr>)"

definition SetDelegationsEnabled :: "bool \<Rightarrow> StateManager \<Rightarrow> StateManager" where
  "SetDelegationsEnabled enabled sm = sm\<lparr>smDelegationsEnabled := enabled\<rparr>"

definition SetLeaseTime :: "int \<Rightarrow> StateManager \<Rightarrow> StateManager" where
  "SetLeaseTime d sm = (if d > 0 then sm\<lparr>smLeaseDuration := nat d\<rparr> else sm)"

definition SetGracePeriodDuration :: "int \<Rightarrow> StateManager \<Rightarrow> StateManager" where
  "SetGracePeriodDuration d sm = (if d > 0 then sm\<lparr>smGraceDuration := d\<rparr> else sm)"

section \<open>Names are unique\<close>

lemma hex_digit_inject: "a < 16 \<Longrightarrow> b < 16 \<Longrightarrow> hex_digit a = hex_digit b \<longleftrightarrow> a = b"
  unfolding hex_digit_def by (rule nth_eq_iff_index_eq) simp_all

lemma hex_inject: "hex_EncodeToString s = hex_EncodeToString t \<longleftrightarrow> s = t"
proof (induction s arbitrary: t)
  case Nil
  show ?case by (cases t) (simp_all add: hex_EncodeToString_def)
next
  case (Cons c s)
  show ?case
  proof (cases t)
    case Nil
    then show ?thesis by (simp add: hex_EncodeToString_def)
  next
    case t: (Cons d t')
    have small: "(of_char x :: nat) div 16 < 16" for x :: char
      using nat_of_char_less_256 [of x] by (intro less_mult_imp_div_less) simp
    have "(of_char c :: nat) = of_char d" if "(of_char c :: nat) div 16 = of_char d div 16" "(of_char c :: nat) mod 16 = of_char d mod 16"
      using that by (metis div_mult_mod_eq)
    moreover have "hex_EncodeToString (x # xs) = hex_digit (of_char x div 16) # hex_digit (of_char x mod 16) # hex_EncodeToString xs" for x xs
      by (simp add: hex_EncodeToString_def)
    ultimately show ?thesis using Cons.IH [of t'] by (auto simp: t hex_digit_inject small)
  qed
qed

lemma makeOwnerKey_inject: "makeOwnerKey c o1 = makeOwnerKey c' o2 \<longleftrightarrow> c = c' \<and> o1 = o2"
proof
  assume eq: "makeOwnerKey c o1 = makeOwnerKey c' o2"
  have colon: "CHR '':'' \<notin> set (show_nat n)" for n
    using show_nat_digits [of n] by (auto simp: list_all_iff is_digit_def)
  have "split_on CHR '':'' (makeOwnerKey c x) = show_nat (unat c) # split_on CHR '':'' (hex_EncodeToString x)" for c x
    by (simp add: makeOwnerKey_def split_on_word colon)
  from this [of c o1] this [of c' o2] have "show_nat (unat c) = show_nat (unat c')" unfolding eq by simp
  then have "c = c'" by (simp add: show_nat_inject word_unat_eq_iff)
  then show "c = c' \<and> o1 = o2" using eq by (simp add: makeOwnerKey_def hex_inject)
qed simp

lemma makeOwnerKey_nonempty [simp]: "makeOwnerKey c d \<noteq> []"
  by (simp add: makeOwnerKey_def)

lemma bytes_of_u64:
  fixes v w :: u64
  assumes "\<And>k. k \<in> {0, 8, 16, 24, 32, 40, 48, 56} \<Longrightarrow> (ucast (drop_bit k v) :: u8) = ucast (drop_bit k w)"
  shows "v = w"
proof (rule bit_word_eqI)
  fix n assume "n < LENGTH(64)"
  then have n: "n < 64" by simp
  let ?k = "8 * (n div 8)"
  have "n div 8 < 8" using n by simp
  then have "n div 8 = 0 \<or> n div 8 = 1 \<or> n div 8 = 2 \<or> n div 8 = 3 \<or> n div 8 = 4 \<or> n div 8 = 5 \<or> n div 8 = 6 \<or> n div 8 = 7"
    by linarith
  then have "?k \<in> {0, 8, 16, 24, 32, 40, 48, 56}" by (elim disjE) simp_all
  from assms [OF this] have "bit (ucast (drop_bit ?k v) :: u8) (n mod 8) = bit (ucast (drop_bit ?k w) :: u8) (n mod 8)" by simp
  moreover have "?k + n mod 8 = n" by simp
  ultimately show "bit v n = bit w n" by (simp add: bit_simps)
qed

lemma other_bytes_inject:
  "other_bytes t e v = other_bytes t' e w \<longleftrightarrow> t = t' \<and> v = w"
proof
  assume "other_bytes t e v = other_bytes t' e w"
  then have "t = t'" and "\<And>k. k \<in> {0, 8, 16, 24, 32, 40, 48, 56} \<Longrightarrow> (ucast (drop_bit k v) :: u8) = ucast (drop_bit k w)"
    by (auto simp: other_bytes_def)
  then show "t = t' \<and> v = w" using bytes_of_u64 by blast
qed simp

end
