(* ===== verification/NFS4_Opens.thy ===== *)
theory NFS4_Opens
  imports NFS4_State
begin

text \<open>
  OPEN, OPEN_CONFIRM, OPEN_DOWNGRADE, CLOSE and the checking of state ids in the NFSv4 state manager
  (\<open>manager.go\<close>, \<open>stateid.go\<close>, \<open>client_recovery.go\<close> of
  \<open>internal/adapter/nfs/v4/state\<close>), with the share reservations they enforce and the replies
  they replay.
\<close>

section \<open>The record of recoverable clients\<close>

text \<open>The in-memory client recovery store: one record per client name.\<close>

definition RecordReclaimComplete :: "string \<Rightarrow> (string \<times> V4ClientRecoveryRecord) list \<Rightarrow> (string \<times> V4ClientRecoveryRecord) list" where
  "RecordReclaimComplete clientIDString records =
     map (\<lambda>(k, rec). if k = clientIDString then (k, rec\<lparr>rrReclaimComplete := True\<rparr>) else (k, rec)) records"

definition recordReclaimCompleteLocked :: "string \<Rightarrow> StateManager \<Rightarrow> StateManager" where
  "recordReclaimCompleteLocked clientIDString sm =
     (case smRecoveryStore sm of
        None \<Rightarrow> sm
      | Some records \<Rightarrow> sm\<lparr>smRecoveryStore := Some (RecordReclaimComplete clientIDString records)\<rparr>)"

definition validateReclaimVerifier :: "StateManager \<Rightarrow> string \<Rightarrow> u64 \<Rightarrow> state_error option" where
  "validateReclaimVerifier sm clientIDString bootVerifier =
     (case smBootRecoveryVerifiers sm clientIDString of
        None \<Rightarrow> None
      | Some want \<Rightarrow> if want = bootVerifier then None else Some ErrNoGrace)"

section \<open>OPEN\<close>

abbreviation (input) CLAIM_NULL :: u32 where "CLAIM_NULL \<equiv> 0"
abbreviation (input) CLAIM_PREVIOUS :: u32 where "CLAIM_PREVIOUS \<equiv> 1"
abbreviation (input) OPEN4_RESULT_CONFIRM :: u32 where "OPEN4_RESULT_CONFIRM \<equiv> 0x02"
abbreviation (input) OPEN4_RESULT_LOCKTYPE_POSIX :: u32 where "OPEN4_RESULT_LOCKTYPE_POSIX \<equiv> 0x04"
abbreviation (input) OPEN4_SHARE_ACCESS_READ :: u32 where "OPEN4_SHARE_ACCESS_READ \<equiv> 0x01"
abbreviation (input) OPEN4_SHARE_ACCESS_WRITE :: u32 where "OPEN4_SHARE_ACCESS_WRITE \<equiv> 0x02"

record OpenFileResult =
  orStateid :: Stateid4
  orRFlags :: u32
  orIsReplay :: bool
  orCachedStatus :: u32
  orCachedData :: bytes

record OpenSeqResult =
  qrStateid :: Stateid4
  qrOwnerClientID :: u64
  qrOwnerData :: "string option"

definition zero_stateid :: Stateid4 where
  "zero_stateid = \<lparr>siSeqid = 0, siOther = replicate 12 0\<rparr>"

text \<open>The grace-period rules at the top of \<open>OpenFile\<close>: an error, or the state to go on in.\<close>

definition claim_gate :: "u64 \<Rightarrow> u32 \<Rightarrow> StateManager \<Rightarrow> state_error + StateManager" where
  "claim_gate clientID claimType sm =
     (if claimType = CLAIM_NULL then (if sm_IsInGrace sm then Inl ErrGrace else Inr sm)
      else if claimType = CLAIM_PREVIOUS then
        (if \<not> sm_IsInGrace sm then Inl ErrNoGrace
         else
           (let rec = map_option (hClient sm) (smClientsByID sm clientID)
            in case (case rec of None \<Rightarrow> None | Some r \<Rightarrow> validateReclaimVerifier sm (crClientIDString r) (crVerifier r)) of
                 Some err \<Rightarrow> Inl err
               | None \<Rightarrow>
                   (let gp = map_option (snd \<circ> ClientReclaimed clientID) (smGracePeriod sm);
                        gp = (case rec of None \<Rightarrow> gp | Some r \<Rightarrow> map_option (snd \<circ> ClientReclaimedByString (crClientIDString r)) gp);
                        sm = sm\<lparr>smGracePeriod := gp\<rparr>
                    in Inr (case rec of None \<Rightarrow> sm | Some r \<Rightarrow> recordReclaimCompleteLocked (crClientIDString r) sm))))
      else Inr sm)"

definition new_open_owner :: "u64 \<Rightarrow> string \<Rightarrow> StateManager \<Rightarrow> ptr \<times> StateManager" where
  "new_open_owner clientID ownerData sm =
     (let ownerKey = makeOwnerKey clientID ownerData;
          clientRecord = smClientsByID sm clientID;
          (p, sm) = alloc sm;
          sm = sm\<lparr>hOwner := (hOwner sm)(p := \<lparr>ooClientID = clientID, ooOwnerData = ownerData, ooLastSeqID = 0,
                 ooLastResult = None, ooConfirmed = False, ooOpenStates = [], ooClientRecord = clientRecord, ooKey = ownerKey\<rparr>),
               smOpenOwners := (smOpenOwners sm)(ownerKey \<mapsto> p)\<rparr>
      in (p, case clientRecord of
               None \<Rightarrow> sm
             | Some c \<Rightarrow> upd_client c (\<lambda>r. r\<lparr>crOpenOwners := AList.update ownerData p (crOpenOwners r)\<rparr>) sm))"

definition shareConflictLocked :: "StateManager \<Rightarrow> string \<Rightarrow> string \<Rightarrow> u32 \<Rightarrow> u32 \<Rightarrow> bool" where
  "shareConflictLocked sm ownerKey fileHandle reqAccess reqDeny =
     list_ex (\<lambda>p. let os = hOpen sm p in
         oo_Key (hOwner sm (osOwner os)) \<noteq> ownerKey
         \<and> (reqAccess AND osShareDeny os \<noteq> 0 \<or> reqDeny AND osShareAccess os \<noteq> 0))
       (smOpenStateByFile sm fileHandle)"

definition addOpenStateToFileLocked :: "ptr \<Rightarrow> StateManager \<Rightarrow> StateManager" where
  "addOpenStateToFileLocked p sm =
     (let fhKey = osFileHandle (hOpen sm p)
      in sm\<lparr>smOpenStateByFile := (smOpenStateByFile sm)(fhKey := smOpenStateByFile sm fhKey @ [p])\<rparr>)"

definition removeOpenStateFromFileLocked :: "ptr \<Rightarrow> StateManager \<Rightarrow> StateManager" where
  "removeOpenStateFromFileLocked p sm =
     (let fhKey = osFileHandle (hOpen sm p)
      in sm\<lparr>smOpenStateByFile := (smOpenStateByFile sm)(fhKey := remove1 p (smOpenStateByFile sm fhKey))\<rparr>)"

definition bump_stateid :: "OpenState \<Rightarrow> OpenState" where
  "bump_stateid os = os\<lparr>osStateid := (osStateid os)\<lparr>siSeqid := nextSeqID (siSeqid (osStateid os))\<rparr>\<rparr>"

text \<open>A second OPEN of a file by its owner widens the open; a first one creates it.\<close>

definition widen_open :: "ptr \<Rightarrow> u32 \<Rightarrow> u32 \<Rightarrow> StateManager \<Rightarrow> StateManager" where
  "widen_open p shareAccess shareDeny =
     upd_open p (\<lambda>os. bump_stateid (os\<lparr>osShareAccess := osShareAccess os OR shareAccess, osShareDeny := osShareDeny os OR shareDeny\<rparr>))"

definition create_open :: "ptr \<Rightarrow> string \<Rightarrow> u32 \<Rightarrow> u32 \<Rightarrow> StateManager \<Rightarrow> ptr \<times> StateManager" where
  "create_open owner fileHandle shareAccess shareDeny sm =
     (let (oth, sm) = generateStateidOther StateTypeOpen sm;
          (p, sm) = alloc sm;
          sm = sm\<lparr>hOpen := (hOpen sm)(p := \<lparr>osStateid = \<lparr>siSeqid = 1, siOther = oth\<rparr>, osOwner = owner, osFileHandle = fileHandle,
                 osShareAccess = shareAccess, osShareDeny = shareDeny, osConfirmed = ooConfirmed (hOwner sm owner), osLockStates = []\<rparr>)\<rparr>;
          sm = upd_owner owner (\<lambda>oo. oo\<lparr>ooOpenStates := ooOpenStates oo @ [p]\<rparr>) sm;
          sm = sm\<lparr>smOpenStateByOther := (smOpenStateByOther sm)(oth \<mapsto> p)\<rparr>
      in (p, addOpenStateToFileLocked p sm))"

definition open_with :: "ptr \<Rightarrow> string \<Rightarrow> u32 \<Rightarrow> string \<Rightarrow> u32 \<Rightarrow> u32 \<Rightarrow> u32 \<Rightarrow> StateManager
    \<Rightarrow> (state_error + OpenFileResult) \<times> StateManager" where
  "open_with owner ownerKey seqid fileHandle shareAccess shareDeny claimType sm =
     (if claimType \<noteq> CLAIM_PREVIOUS \<and> shareConflictLocked sm ownerKey fileHandle shareAccess shareDeny
      then (Inl ErrShareDenied, sm)
      else
        (let (p, sm) = (case find (\<lambda>q. osFileHandle (hOpen sm q) = fileHandle) (ooOpenStates (hOwner sm owner)) of
                 Some q \<Rightarrow> (q, widen_open q shareAccess shareDeny sm)
               | None \<Rightarrow> create_open owner fileHandle shareAccess shareDeny sm);
             rflags = OPEN4_RESULT_LOCKTYPE_POSIX OR (if ooConfirmed (hOwner sm owner) then 0 else OPEN4_RESULT_CONFIRM);
             sm = upd_owner owner (\<lambda>oo. oo\<lparr>ooLastSeqID := seqid\<rparr>) sm
         in (Inr \<lparr>orStateid = osStateid (hOpen sm p), orRFlags = rflags, orIsReplay = False, orCachedStatus = 0, orCachedData = []\<rparr>, sm)))"

definition OpenFile :: "u64 \<Rightarrow> string \<Rightarrow> u32 \<Rightarrow> string \<Rightarrow> u32 \<Rightarrow> u32 \<Rightarrow> u32 \<Rightarrow> StateManager
    \<Rightarrow> (state_error + OpenFileResult) \<times> StateManager" where
  "OpenFile clientID ownerData seqid fileHandle shareAccess shareDeny claimType sm =
     (case claim_gate clientID claimType sm of
        Inl err \<Rightarrow> (Inl err, sm)
      | Inr sm \<Rightarrow>
          (let ownerKey = makeOwnerKey clientID ownerData
           in case smOpenOwners sm ownerKey of
                Some owner \<Rightarrow>
                  (if seqid \<noteq> 0 then
                     (case oo_ValidateSeqID (hOwner sm owner) seqid of
                        SeqIDReplay \<Rightarrow>
                          (case ooLastResult (hOwner sm owner) of
                             Some (status, data) \<Rightarrow>
                               (Inr \<lparr>orStateid = zero_stateid, orRFlags = 0, orIsReplay = True, orCachedStatus = status, orCachedData = data\<rparr>, sm)
                           | None \<Rightarrow> (Inl ErrBadSeqid, sm))
                      | SeqIDBad \<Rightarrow> (Inl ErrBadSeqid, sm)
                      | SeqIDOK \<Rightarrow> open_with owner ownerKey seqid fileHandle shareAccess shareDeny claimType sm)
                   else open_with owner ownerKey seqid fileHandle shareAccess shareDeny claimType sm)
              | None \<Rightarrow>
                  (let (owner, sm) = new_open_owner clientID ownerData sm
                   in open_with owner ownerKey seqid fileHandle shareAccess shareDeny claimType sm)))"

section \<open>The other operations on opens\<close>

text \<open>The sequence-id check of OPEN_CONFIRM, CLOSE and OPEN_DOWNGRADE: an error, the replay of the cached
  reply, or nothing.  A sequence id of 0 is the NFSv4.1 bypass.\<close>

definition seqid_gate :: "OpenOwner \<Rightarrow> u32 \<Rightarrow> state_error option" where
  "seqid_gate owner seqid =
     (if seqid \<noteq> 0 then
        (case oo_ValidateSeqID owner seqid of
           SeqIDReplay \<Rightarrow> (case ooLastResult owner of
               Some (status, data) \<Rightarrow> Some (ReplayError status data) | None \<Rightarrow> Some ErrBadSeqid)
         | SeqIDBad \<Rightarrow> Some ErrBadSeqid
         | SeqIDOK \<Rightarrow> None)
      else None)"

definition seq_result :: "Stateid4 \<Rightarrow> OpenOwner \<Rightarrow> OpenSeqResult" where
  "seq_result stateid owner = \<lparr>qrStateid = stateid, qrOwnerClientID = ooClientID owner, qrOwnerData = Some (ooOwnerData owner)\<rparr>"

text \<open>In \<open>CacheOpenOwnerResult\<close> the closed owners are ranged over, so the first entry of the list
  stands for whichever the iteration meets first.\<close>

definition CacheOpenOwnerResult :: "u64 \<Rightarrow> string \<Rightarrow> u32 \<Rightarrow> bytes \<Rightarrow> StateManager \<Rightarrow> StateManager" where
  "CacheOpenOwnerResult clientID ownerData status data sm =
     (case smOpenOwners sm (makeOwnerKey clientID ownerData) of
        Some owner \<Rightarrow> upd_owner owner (\<lambda>oo. oo\<lparr>ooLastResult := Some (status, data)\<rparr>) sm
      | None \<Rightarrow>
          (case find (\<lambda>(_, owner). ooClientID (hOwner sm owner) = clientID \<and> ooOwnerData (hOwner sm owner) = ownerData)
                 (smClosedOwnerByOther sm) of
             Some (_, owner) \<Rightarrow> upd_owner owner (\<lambda>oo. oo\<lparr>ooLastResult := Some (status, data)\<rparr>) sm
           | None \<Rightarrow> sm))"

definition ConfirmOpen :: "Stateid4 \<Rightarrow> u32 \<Rightarrow> StateManager \<Rightarrow> (state_error + OpenSeqResult) \<times> StateManager" where
  "ConfirmOpen stateid seqid sm =
     (case smOpenStateByOther sm (siOther stateid) of
        None \<Rightarrow> (Inl ErrBadStateid, sm)
      | Some p \<Rightarrow>
          (let owner = osOwner (hOpen sm p)
           in case seqid_gate (hOwner sm owner) seqid of
                Some err \<Rightarrow> (Inl err, sm)
              | None \<Rightarrow>
                  (let sm = upd_open p (\<lambda>os. bump_stateid (os\<lparr>osConfirmed := True\<rparr>)) sm;
                       sm = upd_owner owner (\<lambda>oo. oo\<lparr>ooConfirmed := True, ooLastSeqID := seqid\<rparr>) sm
                   in (Inr (seq_result (osStateid (hOpen sm p)) (hOwner sm owner)), sm))))"

definition ConfirmOpenV41 :: "Stateid4 \<Rightarrow> StateManager \<Rightarrow> state_error option \<times> StateManager" where
  "ConfirmOpenV41 stateid sm =
     (case smOpenStateByOther sm (siOther stateid) of
        None \<Rightarrow> (Some ErrBadStateid, sm)
      | Some p \<Rightarrow> (None, upd_owner (osOwner (hOpen sm p)) (\<lambda>oo. oo\<lparr>ooConfirmed := True\<rparr>)
                           (upd_open p (\<lambda>os. os\<lparr>osConfirmed := True\<rparr>) sm)))"

definition drop_owner :: "ptr \<Rightarrow> StateManager \<Rightarrow> StateManager" where
  "drop_owner owner sm =
     (let oo = hOwner sm owner;
          sm = sm\<lparr>smOpenOwners := (smOpenOwners sm)(oo_Key oo := None)\<rparr>
      in case ooClientRecord oo of
           None \<Rightarrow> sm
         | Some c \<Rightarrow> upd_client c (\<lambda>r. r\<lparr>crOpenOwners := AList.delete (ooOwnerData oo) (crOpenOwners r)\<rparr>) sm)"

definition CloseFile :: "Stateid4 \<Rightarrow> u32 \<Rightarrow> StateManager \<Rightarrow> (state_error + OpenSeqResult) \<times> StateManager" where
  "CloseFile stateid seqid sm =
     (if IsSpecialStateid stateid then (Inr \<lparr>qrStateid = zero_stateid, qrOwnerClientID = 0, qrOwnerData = None\<rparr>, sm)
      else
        (case smOpenStateByOther sm (siOther stateid) of
           None \<Rightarrow>
             (case map_of (smClosedOwnerByOther sm) (siOther stateid) of
                Some owner \<Rightarrow>
                  (if seqid \<noteq> 0 \<and> oo_ValidateSeqID (hOwner sm owner) seqid = SeqIDReplay then
                     (case ooLastResult (hOwner sm owner) of
                        Some (status, data) \<Rightarrow> (Inl (ReplayError status data), sm)
                      | None \<Rightarrow> (Inl ErrBadStateid, sm))
                   else (Inl ErrBadStateid, sm))
              | None \<Rightarrow> (Inl ErrBadStateid, sm))
         | Some p \<Rightarrow>
             (let owner = osOwner (hOpen sm p)
              in case seqid_gate (hOwner sm owner) seqid of
                   Some err \<Rightarrow> (Inl err, sm)
                 | None \<Rightarrow>
                     if osLockStates (hOpen sm p) \<noteq> [] then (Inl ErrLocksHeld, sm)
                     else
                       (let sm = sm\<lparr>smOpenStateByOther := (smOpenStateByOther sm)(siOther stateid := None)\<rparr>;
                            sm = removeOpenStateFromFileLocked p sm;
                            sm = sm\<lparr>smClosedOwnerByOther := AList.update (siOther stateid) owner (smClosedOwnerByOther sm)\<rparr>;
                            sm = upd_owner owner (\<lambda>oo. oo\<lparr>ooOpenStates := remove1 p (ooOpenStates oo), ooLastSeqID := seqid\<rparr>) sm;
                            sm = (if ooOpenStates (hOwner sm owner) = [] then drop_owner owner sm else sm)
                        in (Inr (seq_result zero_stateid (hOwner sm owner)), sm)))))"

definition DowngradeOpen :: "Stateid4 \<Rightarrow> u32 \<Rightarrow> u32 \<Rightarrow> u32 \<Rightarrow> StateManager \<Rightarrow> (state_error + OpenSeqResult) \<times> StateManager" where
  "DowngradeOpen stateid seqid newShareAccess newShareDeny sm =
     (case smOpenStateByOther sm (siOther stateid) of
        None \<Rightarrow> (Inl ErrBadStateid, sm)
      | Some p \<Rightarrow>
          (let owner = osOwner (hOpen sm p); os = hOpen sm p
           in case seqid_gate (hOwner sm owner) seqid of
                Some err \<Rightarrow> (Inl err, sm)
              | None \<Rightarrow>
                  if newShareAccess AND NOT (osShareAccess os) \<noteq> 0 then (Inl ErrInval, sm)
                  else if newShareDeny AND NOT (osShareDeny os) \<noteq> 0 then (Inl ErrInval, sm)
                  else if newShareAccess = 0 then (Inl ErrInval, sm)
                  else
                    (let sm = upd_open p (\<lambda>os. bump_stateid (os\<lparr>osShareAccess := newShareAccess, osShareDeny := newShareDeny\<rparr>)) sm;
                         sm = upd_owner owner (\<lambda>oo. oo\<lparr>ooLastSeqID := seqid\<rparr>) sm
                     in (Inr (seq_result (osStateid (hOpen sm p)) (hOwner sm owner)), sm))))"

definition GetOpenState :: "StateManager \<Rightarrow> other \<Rightarrow> OpenState option" where
  "GetOpenState sm oth = map_option (hOpen sm) (smOpenStateByOther sm oth)"

definition freeOpenStateidLocked :: "u64 \<Rightarrow> Stateid4 \<Rightarrow> StateManager \<Rightarrow> state_error option \<times> StateManager" where
  "freeOpenStateidLocked clientID stateid sm =
     (case smOpenStateByOther sm (siOther stateid) of
        None \<Rightarrow> (Some ErrBadStateid, sm)
      | Some p \<Rightarrow>
          (let owner = osOwner (hOpen sm p)
           in if ooClientID (hOwner sm owner) \<noteq> clientID then (Some ErrBadStateid, sm)
              else if osLockStates (hOpen sm p) \<noteq> [] then (Some ErrLocksHeld, sm)
              else
                (let sm = sm\<lparr>smOpenStateByOther := (smOpenStateByOther sm)(siOther stateid := None)\<rparr>;
                     sm = removeOpenStateFromFileLocked p sm;
                     sm = upd_owner owner (\<lambda>oo. oo\<lparr>ooOpenStates := remove1 p (ooOpenStates oo)\<rparr>) sm
                 in (None, if ooOpenStates (hOwner sm owner) = []
                           then sm\<lparr>smOpenOwners := (smOpenOwners sm)(oo_Key (hOwner sm owner) := None)\<rparr>
                           else sm))))"

section \<open>Checking state ids\<close>

datatype StateidOp = StateidOpRead | StateidOpWrite

text \<open>The comparison of sequence ids and of file handles, shared by the three kinds of state id.\<close>

definition check_seqid_and_fh :: "Stateid4 \<Rightarrow> string \<Rightarrow> u32 \<Rightarrow> string \<Rightarrow> state_error option" where
  "check_seqid_and_fh stateid currentFH seqid fileHandle =
     (if siSeqid stateid \<noteq> 0 \<and> siSeqid stateid < seqid then Some ErrOldStateid
      else if siSeqid stateid \<noteq> 0 \<and> siSeqid stateid > seqid then Some ErrBadStateid
      else if currentFH \<noteq> [] \<and> fileHandle \<noteq> [] \<and> currentFH \<noteq> fileHandle then Some ErrBadStateid
      else None)"

text \<open>Implicit renewal: an expired lease is an error, a live one is renewed.\<close>

definition renew_client :: "time \<Rightarrow> ptr option \<Rightarrow> StateManager \<Rightarrow> state_error option \<times> StateManager" where
  "renew_client now c sm =
     (case c of
        None \<Rightarrow> (None, sm)
      | Some c \<Rightarrow>
          (case crLease (hClient sm c) of
             None \<Rightarrow> (None, sm)
           | Some lease \<Rightarrow>
               if lease_IsExpired now lease then (Some ErrExpired, sm)
               else (None, upd_client c (\<lambda>r. r\<lparr>crLease := Some (lease_Renew now lease)\<rparr>) sm)))"

definition stale_or_bad :: "StateManager \<Rightarrow> other \<Rightarrow> state_error" where
  "stale_or_bad sm oth = (if isCurrentEpoch sm oth then ErrBadStateid else ErrStaleStateid)"

definition validateDelegStateid :: "time \<Rightarrow> Stateid4 \<Rightarrow> string \<Rightarrow> StateManager \<Rightarrow> (state_error + ptr option) \<times> StateManager" where
  "validateDelegStateid now stateid currentFH sm =
     (case map_of (smDelegByOther sm) (siOther stateid) of
        None \<Rightarrow> (Inl (stale_or_bad sm (siOther stateid)), sm)
      | Some d \<Rightarrow>
          (let deleg = hDeleg sm d
           in if dsRevoked deleg then (Inl ErrBadStateid, sm)
              else case check_seqid_and_fh stateid currentFH (siSeqid (dsStateid deleg)) (dsFileHandle deleg) of
                     Some err \<Rightarrow> (Inl err, sm)
                   | None \<Rightarrow>
                       (case renew_client now (smClientsByID sm (dsClientID deleg)) sm of
                          (Some err, sm) \<Rightarrow> (Inl err, sm)
                        | (None, sm) \<Rightarrow> (Inr None, sm))))"

definition validateLockStateid :: "time \<Rightarrow> Stateid4 \<Rightarrow> string \<Rightarrow> StateManager \<Rightarrow> (state_error + ptr option) \<times> StateManager" where
  "validateLockStateid now stateid currentFH sm =
     (case map_of (smLockStateByOther sm) (siOther stateid) of
        None \<Rightarrow> (Inl (stale_or_bad sm (siOther stateid)), sm)
      | Some k \<Rightarrow>
          (let ls = hLock sm k
           in case check_seqid_and_fh stateid currentFH (siSeqid (ksStateid ls)) (ksFileHandle ls) of
                Some err \<Rightarrow> (Inl err, sm)
              | None \<Rightarrow>
                  (case renew_client now (ooClientRecord (hOwner sm (osOwner (hOpen sm (ksOpenState ls))))) sm of
                     (Some err, sm) \<Rightarrow> (Inl err, sm)
                   | (None, sm) \<Rightarrow> (Inr (Some (ksOpenState ls)), sm))))"

definition ValidateStateid :: "time \<Rightarrow> Stateid4 \<Rightarrow> string \<Rightarrow> StateidOp \<Rightarrow> StateManager \<Rightarrow> (state_error + ptr option) \<times> StateManager" where
  "ValidateStateid now stateid currentFH opr sm =
     (if isReadBypass stateid then ((if opr \<noteq> StateidOpRead then Inl ErrBadStateid else Inr None), sm)
      else if isAnonymous stateid then (Inr None, sm)
      else if siOther stateid ! 0 = StateTypeDeleg then validateDelegStateid now stateid currentFH sm
      else if siOther stateid ! 0 = StateTypeLock then validateLockStateid now stateid currentFH sm
      else
        (case smOpenStateByOther sm (siOther stateid) of
           None \<Rightarrow> (Inl (stale_or_bad sm (siOther stateid)), sm)
         | Some p \<Rightarrow>
             (let os = hOpen sm p
              in case check_seqid_and_fh stateid currentFH (siSeqid (osStateid os)) (osFileHandle os) of
                   Some err \<Rightarrow> (Inl err, sm)
                 | None \<Rightarrow>
                     (case renew_client now (ooClientRecord (hOwner sm (osOwner os))) sm of
                        (Some err, sm) \<Rightarrow> (Inl err, sm)
                      | (None, sm) \<Rightarrow> (Inr (Some p), sm)))))"

definition RenewLease :: "time \<Rightarrow> u64 \<Rightarrow> StateManager \<Rightarrow> state_error option \<times> StateManager" where
  "RenewLease now clientID sm =
     (case smClientsByID sm clientID of
        None \<Rightarrow> (Some ErrStaleClientID, sm)
      | Some c \<Rightarrow>
          (let r = hClient sm c
           in if \<not> crConfirmed r then (Some ErrStaleClientID, sm)
              else if (case crLease r of None \<Rightarrow> False | Some lease \<Rightarrow> lease_IsExpired now lease) then (Some ErrExpired, sm)
              else (None, upd_client c (\<lambda>r. r\<lparr>crLease := map_option (lease_Renew now) (crLease r), crLastRenewal := now\<rparr>) sm)))"

text \<open>TEST_STATEID: the verdict on each state id, without renewing a lease; \<open>None\<close> is NFS4_OK.\<close>

definition test_seqid :: "Stateid4 \<Rightarrow> u32 \<Rightarrow> state_error option" where
  "test_seqid stateid seqid =
     (if siSeqid stateid \<noteq> 0 \<and> siSeqid stateid < seqid then Some ErrOldStateid
      else if siSeqid stateid \<noteq> 0 \<and> siSeqid stateid > seqid then Some ErrBadStateid
      else None)"

definition testOpenStateid :: "time \<Rightarrow> StateManager \<Rightarrow> Stateid4 \<Rightarrow> state_error option" where
  "testOpenStateid now sm stateid =
     (case smOpenStateByOther sm (siOther stateid) of
        None \<Rightarrow> Some ErrBadStateid
      | Some p \<Rightarrow>
          (case test_seqid stateid (siSeqid (osStateid (hOpen sm p))) of
             Some err \<Rightarrow> Some err
           | None \<Rightarrow>
               (case ooClientRecord (hOwner sm (osOwner (hOpen sm p))) of
                  None \<Rightarrow> None
                | Some c \<Rightarrow> (case crLease (hClient sm c) of
                    None \<Rightarrow> None | Some lease \<Rightarrow> if lease_IsExpired now lease then Some ErrExpired else None))))"

definition testLockStateid :: "StateManager \<Rightarrow> Stateid4 \<Rightarrow> state_error option" where
  "testLockStateid sm stateid =
     (case map_of (smLockStateByOther sm) (siOther stateid) of
        None \<Rightarrow> Some ErrBadStateid
      | Some k \<Rightarrow> test_seqid stateid (siSeqid (ksStateid (hLock sm k))))"

definition testDelegStateid :: "StateManager \<Rightarrow> Stateid4 \<Rightarrow> state_error option" where
  "testDelegStateid sm stateid =
     (case map_of (smDelegByOther sm) (siOther stateid) of
        None \<Rightarrow> Some ErrBadStateid
      | Some d \<Rightarrow> if dsRevoked (hDeleg sm d) then Some ErrBadStateid
                  else test_seqid stateid (siSeqid (dsStateid (hDeleg sm d))))"

definition testSingleStateid :: "time \<Rightarrow> StateManager \<Rightarrow> Stateid4 \<Rightarrow> state_error option" where
  "testSingleStateid now sm stateid =
     (if IsSpecialStateid stateid then None
      else if \<not> isCurrentEpoch sm (siOther stateid) then Some ErrStaleStateid
      else if siOther stateid ! 0 = StateTypeOpen then testOpenStateid now sm stateid
      else if siOther stateid ! 0 = StateTypeLock then testLockStateid sm stateid
      else if siOther stateid ! 0 = StateTypeDeleg then testDelegStateid sm stateid
      else Some ErrBadStateid)"

definition TestStateids :: "time \<Rightarrow> StateManager \<Rightarrow> Stateid4 list \<Rightarrow> state_error option list" where
  "TestStateids now sm stateids = map (testSingleStateid now sm) stateids"

section \<open>The tables of opens agree\<close>

definition open_key :: "StateManager \<Rightarrow> ptr \<Rightarrow> string" where
  "open_key sm p = oo_Key (hOwner sm (osOwner (hOpen sm p)))"

text \<open>Every open found by its state id is listed once under its file and conversely; the owner table is
  keyed by the owners' keys and its owners list their own opens; state ids come from the counter.\<close>

definition open_index :: "StateManager \<Rightarrow> bool" where
  "open_index sm \<longleftrightarrow>
     (\<forall>oth p. smOpenStateByOther sm oth = Some p \<longrightarrow> siOther (osStateid (hOpen sm p)) = oth
        \<and> p \<in> set (smOpenStateByFile sm (osFileHandle (hOpen sm p)))
        \<and> (\<exists>n. 0 < n \<and> n \<le> unat (smNextStateSeq sm) \<and> oth = other_bytes StateTypeOpen (smBootEpoch sm) (of_nat n)))
   \<and> (\<forall>f p. p \<in> set (smOpenStateByFile sm f) \<longrightarrow> osFileHandle (hOpen sm p) = f
        \<and> smOpenStateByOther sm (siOther (osStateid (hOpen sm p))) = Some p
        \<and> p < smNextPtr sm \<and> osOwner (hOpen sm p) < smNextPtr sm)
   \<and> (\<forall>f. distinct (smOpenStateByFile sm f))
   \<and> (\<forall>K own. smOpenOwners sm K = Some own \<longrightarrow> own < smNextPtr sm \<and> oo_Key (hOwner sm own) = K
        \<and> (\<forall>q \<in> set (ooOpenStates (hOwner sm own)). osOwner (hOpen sm q) = own \<and> q < smNextPtr sm))"

text \<open>No open holds an access that another owner's open of the file denies.\<close>

definition shares_ok :: "StateManager \<Rightarrow> bool" where
  "shares_ok sm \<longleftrightarrow>
     (\<forall>f. \<forall>p \<in> set (smOpenStateByFile sm f). \<forall>q \<in> set (smOpenStateByFile sm f).
        open_key sm p \<noteq> open_key sm q \<longrightarrow> osShareAccess (hOpen sm p) AND osShareDeny (hOpen sm q) = 0)"

lemma open_indexD:
  assumes "open_index sm"
  shows "smOpenStateByOther sm oth = Some p \<Longrightarrow> siOther (osStateid (hOpen sm p)) = oth"
    and "smOpenStateByOther sm oth = Some p \<Longrightarrow> p \<in> set (smOpenStateByFile sm (osFileHandle (hOpen sm p)))"
    and "smOpenStateByOther sm oth = Some p \<Longrightarrow>
      \<exists>n. 0 < n \<and> n \<le> unat (smNextStateSeq sm) \<and> oth = other_bytes StateTypeOpen (smBootEpoch sm) (of_nat n)"
    and "p \<in> set (smOpenStateByFile sm f) \<Longrightarrow> osFileHandle (hOpen sm p) = f"
    and "p \<in> set (smOpenStateByFile sm f) \<Longrightarrow> smOpenStateByOther sm (siOther (osStateid (hOpen sm p))) = Some p"
    and "p \<in> set (smOpenStateByFile sm f) \<Longrightarrow> p < smNextPtr sm \<and> osOwner (hOpen sm p) < smNextPtr sm"
    and "distinct (smOpenStateByFile sm f)"
    and "smOpenOwners sm K = Some own \<Longrightarrow> own < smNextPtr sm \<and> oo_Key (hOwner sm own) = K"
    and "smOpenOwners sm K = Some own \<Longrightarrow> q \<in> set (ooOpenStates (hOwner sm own)) \<Longrightarrow>
      osOwner (hOpen sm q) = own \<and> q < smNextPtr sm"
  using assms unfolding open_index_def by blast+

text \<open>Operations that change neither the tables of opens nor what they record keep both invariants.\<close>

definition same_opens :: "StateManager \<Rightarrow> StateManager \<Rightarrow> bool" where
  "same_opens sm sm' \<longleftrightarrow>
     smOpenStateByOther sm' = smOpenStateByOther sm \<and> smOpenStateByFile sm' = smOpenStateByFile sm
   \<and> smOpenOwners sm' = smOpenOwners sm \<and> smBootEpoch sm' = smBootEpoch sm
   \<and> smNextPtr sm \<le> smNextPtr sm' \<and> smNextStateSeq sm \<le> smNextStateSeq sm'
   \<and> (\<forall>p. osOwner (hOpen sm' p) = osOwner (hOpen sm p) \<and> osFileHandle (hOpen sm' p) = osFileHandle (hOpen sm p)
        \<and> siOther (osStateid (hOpen sm' p)) = siOther (osStateid (hOpen sm p)))
   \<and> (\<forall>own. oo_Key (hOwner sm' own) = oo_Key (hOwner sm own) \<and> ooOpenStates (hOwner sm' own) = ooOpenStates (hOwner sm own))"

lemma same_opens_refl [simp]: "same_opens sm sm"
  by (simp add: same_opens_def)

lemma same_opens_trans: "same_opens a b \<Longrightarrow> same_opens b c \<Longrightarrow> same_opens a c"
  by (auto simp: same_opens_def)

lemma same_opens_index: 
  assumes "same_opens sm sm'" and inv: "open_index sm"
  shows "open_index sm'"
proof -
  have "unat (smNextStateSeq sm) \<le> unat (smNextStateSeq sm')" using assms(1) by (simp add: same_opens_def word_le_nat_alt)
  then have seq: "n \<le> unat (smNextStateSeq sm) \<Longrightarrow> n \<le> unat (smNextStateSeq sm')" for n by simp
  have nxt: "p < smNextPtr sm \<Longrightarrow> p < smNextPtr sm'" for p using assms(1) by (simp add: same_opens_def)
  note inv' = inv [unfolded open_index_def]
  show ?thesis using assms(1) inv' seq nxt unfolding open_index_def same_opens_def by (simp, meson)
qed

lemma same_opens_shares:
  assumes "same_opens sm sm'" and "shares_ok sm"
    and "\<And>p. osShareAccess (hOpen sm' p) = osShareAccess (hOpen sm p) \<and> osShareDeny (hOpen sm' p) = osShareDeny (hOpen sm p)"
  shows "shares_ok sm'"
  using assms by (simp add: same_opens_def shares_ok_def open_key_def)

lemma same_opens_upd [intro]:
  "same_opens sm (upd_client c fc sm)"
  "(\<And>oo. oo_Key (fo oo) = oo_Key oo \<and> ooOpenStates (fo oo) = ooOpenStates oo) \<Longrightarrow> same_opens sm (upd_owner own fo sm)"
  "(\<And>os. osOwner (fs os) = osOwner os \<and> osFileHandle (fs os) = osFileHandle os \<and> siOther (osStateid (fs os)) = siOther (osStateid os))
    \<Longrightarrow> same_opens sm (upd_open p fs sm)"
  by (auto simp: same_opens_def upd_client_def upd_owner_def upd_open_def)

lemma upd_shares [simp]:
  "hOpen (upd_client c fc sm) = hOpen sm" "hOpen (upd_owner own fo sm) = hOpen sm"
  "hOwner (upd_client c fc sm) = hOwner sm" "hOwner (upd_open p fs sm) = hOwner sm"
  "hClient (upd_owner own fo sm) = hClient sm" "hClient (upd_open p fs sm) = hClient sm"
  by (simp_all add: upd_client_def upd_owner_def upd_open_def)

lemma upd_tables [simp]:
  "smOpenStateByFile (upd_client c fc sm) = smOpenStateByFile sm" "smOpenStateByFile (upd_owner own fo sm) = smOpenStateByFile sm"
  "smOpenStateByFile (upd_open p fs sm) = smOpenStateByFile sm"
  "smOpenStateByOther (upd_client c fc sm) = smOpenStateByOther sm" "smOpenStateByOther (upd_owner own fo sm) = smOpenStateByOther sm"
  "smOpenStateByOther (upd_open p fs sm) = smOpenStateByOther sm"
  "smOpenOwners (upd_client c fc sm) = smOpenOwners sm" "smOpenOwners (upd_owner own fo sm) = smOpenOwners sm"
  "smOpenOwners (upd_open p fs sm) = smOpenOwners sm"
  "smNextPtr (upd_client c fc sm) = smNextPtr sm" "smNextPtr (upd_owner own fo sm) = smNextPtr sm" "smNextPtr (upd_open p fs sm) = smNextPtr sm"
  "smNextStateSeq (upd_client c fc sm) = smNextStateSeq sm" "smNextStateSeq (upd_owner own fo sm) = smNextStateSeq sm"
  "smNextStateSeq (upd_open p fs sm) = smNextStateSeq sm"
  "smBootEpoch (upd_client c fc sm) = smBootEpoch sm" "smBootEpoch (upd_owner own fo sm) = smBootEpoch sm" "smBootEpoch (upd_open p fs sm) = smBootEpoch sm"
  by (simp_all add: upd_client_def upd_owner_def upd_open_def)

lemma claim_gate_same: "claim_gate clientID claimType sm = Inr sm' \<Longrightarrow> same_opens sm sm' \<and> hOpen sm' = hOpen sm"
  by (auto simp: claim_gate_def same_opens_def recordReclaimCompleteLocked_def Let_def split: if_splits option.splits)

lemma new_open_owner_simps:
  assumes "new_open_owner clientID ownerData sm = (own, sm')"
  shows "own = smNextPtr sm" "smNextPtr sm' = Suc (smNextPtr sm)" "hOpen sm' = hOpen sm"
    "smOpenStateByFile sm' = smOpenStateByFile sm" "smOpenStateByOther sm' = smOpenStateByOther sm"
    "smOpenOwners sm' = (smOpenOwners sm)(makeOwnerKey clientID ownerData \<mapsto> own)"
    "smNextStateSeq sm' = smNextStateSeq sm" "smBootEpoch sm' = smBootEpoch sm"
    "q \<noteq> own \<Longrightarrow> hOwner sm' q = hOwner sm q"
    "oo_Key (hOwner sm' own) = makeOwnerKey clientID ownerData" "ooOpenStates (hOwner sm' own) = []"
    "ooLastSeqID (hOwner sm' own) = 0"
  using assms by (auto simp: new_open_owner_def alloc_def Let_def oo_Key_def split: option.splits)

lemma new_open_owner_inv:
  assumes new: "new_open_owner clientID ownerData sm = (own, sm')" and inv: "open_index sm"
  shows "open_index sm'" and "shares_ok sm \<Longrightarrow> shares_ok sm'"
proof -
  note n = new_open_owner_simps [OF new]
  note D = open_indexD [OF inv]
  have old: "hOwner sm' (osOwner (hOpen sm p)) = hOwner sm (osOwner (hOpen sm p))" if "p \<in> set (smOpenStateByFile sm f)" for p f
    using D(6) [OF that] n(1,9) by auto
  show "open_index sm'"
    unfolding open_index_def n(2-8)
  proof (intro conjI allI impI)
    fix K own' assume K: "((smOpenOwners sm)(makeOwnerKey clientID ownerData \<mapsto> own)) K = Some own'"
    show "own' < Suc (smNextPtr sm)" using K D(8) [of K own'] n(1) by (auto split: if_splits intro: less_SucI)
    show "oo_Key (hOwner sm' own') = K"
      using K D(8) [of K own'] n(1,9,10) by (cases "own' = own") (auto split: if_splits)
    show "\<forall>q \<in> set (ooOpenStates (hOwner sm' own')). osOwner (hOpen sm q) = own' \<and> q < Suc (smNextPtr sm)"
      using K D(8,9) [of K own'] n(1,9,11) by (cases "own' = own") (auto split: if_splits intro: less_SucI)
  qed (use D in \<open>auto intro: less_SucI\<close>)
  show "shares_ok sm \<Longrightarrow> shares_ok sm'"
    unfolding shares_ok_def open_key_def n(3,4) using old by metis
qed

lemma create_open_simps:
  assumes "create_open own f acc dny sm = (p, sm')"
  shows "p = smNextPtr sm" "smNextPtr sm' = Suc (smNextPtr sm)" "smNextStateSeq sm' = smNextStateSeq sm + 1"
    "smBootEpoch sm' = smBootEpoch sm" "smOpenOwners sm' = smOpenOwners sm"
    "hOpen sm' = (hOpen sm)(p := \<lparr>osStateid = \<lparr>siSeqid = 1, siOther = other_bytes StateTypeOpen (smBootEpoch sm) (smNextStateSeq sm + 1)\<rparr>,
        osOwner = own, osFileHandle = f, osShareAccess = acc, osShareDeny = dny, osConfirmed = ooConfirmed (hOwner sm own), osLockStates = []\<rparr>)"
    "hOwner sm' = (hOwner sm)(own := (hOwner sm own)\<lparr>ooOpenStates := ooOpenStates (hOwner sm own) @ [p]\<rparr>)"
    "smOpenStateByOther sm' = (smOpenStateByOther sm)(other_bytes StateTypeOpen (smBootEpoch sm) (smNextStateSeq sm + 1) \<mapsto> p)"
    "smOpenStateByFile sm' = (smOpenStateByFile sm)(f := smOpenStateByFile sm f @ [p])"
  using assms
  by (auto simp: create_open_def generateStateidOther_def alloc_def upd_owner_def addOpenStateToFileLocked_def Let_def)

lemma fresh_other:
  assumes inv: "open_index sm" and wrap: "smNextStateSeq sm + 1 \<noteq> 0"
  shows "smOpenStateByOther sm (other_bytes StateTypeOpen (smBootEpoch sm) (smNextStateSeq sm + 1)) = None"
    and "unat (smNextStateSeq sm + 1) = Suc (unat (smNextStateSeq sm))"
proof -
  show u: "unat (smNextStateSeq sm + 1) = Suc (unat (smNextStateSeq sm))"
    using wrap by (simp add: unatSuc add.commute)
  show "smOpenStateByOther sm (other_bytes StateTypeOpen (smBootEpoch sm) (smNextStateSeq sm + 1)) = None"
  proof (rule ccontr)
    assume "smOpenStateByOther sm (other_bytes StateTypeOpen (smBootEpoch sm) (smNextStateSeq sm + 1)) \<noteq> None"
    then obtain p where "smOpenStateByOther sm (other_bytes StateTypeOpen (smBootEpoch sm) (smNextStateSeq sm + 1)) = Some p" by blast
    from open_indexD(3) [OF inv this] obtain n where n: "n \<le> unat (smNextStateSeq sm)" "smNextStateSeq sm + 1 = of_nat n"
      by (auto simp: other_bytes_inject)
    have "n < 2 ^ 64" using n(1) unat_less_2p [of "smNextStateSeq sm"] by simp
    then have "unat (of_nat n :: u64) = n" by (simp add: unat_of_nat take_bit_nat_eq_self)
    then show False using n u by simp
  qed
qed

lemma create_open_index:
  assumes cr: "create_open own f acc dny sm = (p, sm')" and inv: "open_index sm"
    and own: "smOpenOwners sm K = Some own" and wrap: "smNextStateSeq sm + 1 \<noteq> 0"
  shows "open_index sm'"
proof -
  note c = create_open_simps [OF cr]
  note D = open_indexD [OF inv]
  note fresh = fresh_other [OF inv wrap]
  have new: "q \<in> set (smOpenStateByFile sm g) \<Longrightarrow> q \<noteq> p" for q g using D(6) [of q g] c(1) by auto
  have newo: "smOpenStateByOther sm oth = Some q \<Longrightarrow> q \<noteq> p" for q oth using D(2) [of oth q] new by blast
  have ownp: "own < smNextPtr sm" "oo_Key (hOwner sm own) = K" using D(8) [OF own] by simp_all
  let ?n = "Suc (unat (smNextStateSeq sm))"
  have gen: "(of_nat ?n :: u64) = smNextStateSeq sm + 1" by (simp add: add.commute)
  have key: "oo_Key (hOwner sm' x) = oo_Key (hOwner sm x)" for x by (simp add: c(7) oo_Key_def)
  show ?thesis
    unfolding open_index_def c(2,4,5)
  proof (intro conjI allI impI)
    fix oth q assume q: "smOpenStateByOther sm' oth = Some q"
    show "siOther (osStateid (hOpen sm' q)) = oth" using q D(1) [of oth q] newo [of oth q] by (auto simp: c(6,8) split: if_splits)
    show "q \<in> set (smOpenStateByFile sm' (osFileHandle (hOpen sm' q)))"
      using q D(2) [of oth q] newo [of oth q] by (auto simp: c(6,8,9) split: if_splits)
    show "\<exists>n. 0 < n \<and> n \<le> unat (smNextStateSeq sm') \<and> oth = other_bytes StateTypeOpen (smBootEpoch sm) (of_nat n)"
    proof (cases "smOpenStateByOther sm oth = Some q")
      case True
      from D(3) [OF this] show ?thesis using fresh(2) by (auto simp: c(3) intro: le_SucI)
    next
      case False
      then have "oth = other_bytes StateTypeOpen (smBootEpoch sm) (of_nat ?n)"
        unfolding gen using q by (auto simp: c(8) split: if_splits)
      then show ?thesis using fresh(2) by (intro exI [of _ ?n]) (simp add: c(3))
    qed
  next
    fix g q assume q: "q \<in> set (smOpenStateByFile sm' g)"
    show "osFileHandle (hOpen sm' q) = g" using q D(4) [of q g] new [of q g] by (auto simp: c(6,9) split: if_splits)
    show "smOpenStateByOther sm' (siOther (osStateid (hOpen sm' q))) = Some q"
      using q D(5) [of q g] new [of q g] fresh(1) by (auto simp: c(6,8,9) split: if_splits)
    show "q < Suc (smNextPtr sm)" "osOwner (hOpen sm' q) < Suc (smNextPtr sm)"
      using q D(6) [of q g] new [of q g] c(1) ownp(1) by (auto simp: c(6,9) split: if_splits)
  next
    fix g show "distinct (smOpenStateByFile sm' g)" using D(7) [of g] new [of p g] by (auto simp: c(9))
  next
    fix K' own' assume K': "smOpenOwners sm K' = Some own'"
    show "own' < Suc (smNextPtr sm)" "oo_Key (hOwner sm' own') = K'" using D(8) [OF K'] by (simp_all add: key)
    have "ooOpenStates (hOwner sm' own') = ooOpenStates (hOwner sm own') @ (if own' = own then [p] else [])" by (simp add: c(7))
    then show "\<forall>q \<in> set (ooOpenStates (hOwner sm' own')). osOwner (hOpen sm' q) = own' \<and> q < Suc (smNextPtr sm)"
      using D(9) [OF K'] c(1) by (auto simp: c(6) less_Suc_eq)
  qed
qed

lemma create_open_shares:
  assumes cr: "create_open own f acc dny sm = (p, sm')" and inv: "open_index sm" and ok: "shares_ok sm"
    and own: "smOpenOwners sm K = Some own" and free: "\<not> shareConflictLocked sm K f acc dny"
  shows "shares_ok sm'"
proof -
  note c = create_open_simps [OF cr]
  note D = open_indexD [OF inv]
  have new: "q \<in> set (smOpenStateByFile sm g) \<Longrightarrow> q \<noteq> p" for q g using D(6) [of q g] c(1) by auto
  have key: "oo_Key (hOwner sm' x) = oo_Key (hOwner sm x)" for x by (simp add: c(7) oo_Key_def)
  have K: "open_key sm' p = K" using D(8) [OF own] by (simp add: open_key_def key) (simp add: c(6))
  have same: "open_key sm' q = open_key sm q" if "q \<in> set (smOpenStateByFile sm g)" for q g
    using new [OF that] by (simp add: open_key_def key) (simp add: c(6))
  have free': "acc AND osShareDeny (hOpen sm q) = 0 \<and> osShareAccess (hOpen sm q) AND dny = 0"
    if "q \<in> set (smOpenStateByFile sm f)" "open_key sm q \<noteq> K" for q
    using free that by (auto simp: shareConflictLocked_def list_ex_iff open_key_def Let_def and.commute)
  show ?thesis
    unfolding shares_ok_def
  proof (intro allI ballI impI)
    fix g q r assume q: "q \<in> set (smOpenStateByFile sm' g)" and r: "r \<in> set (smOpenStateByFile sm' g)"
      and ne: "open_key sm' q \<noteq> open_key sm' r"
    consider "q \<in> set (smOpenStateByFile sm g)" "r \<in> set (smOpenStateByFile sm g)"
      | "q = p" "r \<in> set (smOpenStateByFile sm f)" | "r = p" "q \<in> set (smOpenStateByFile sm f)" | "q = p" "r = p"
      using q r by (auto simp: c(9) split: if_splits)
    then show "osShareAccess (hOpen sm' q) AND osShareDeny (hOpen sm' r) = 0"
    proof cases
      case 1
      then show ?thesis using ok ne new same by (simp add: shares_ok_def c(6))
    next
      case 2
      then show ?thesis using free' [of r] ne K same [of r f] new [of r f] by (simp add: c(6))
    next
      case 3
      then show ?thesis using free' [of q] ne K same [of q f] new [of q f] by (simp add: c(6))
    qed (use ne in simp)
  qed
qed

lemma widen_open_shares:
  assumes inv: "open_index sm" and ok: "shares_ok sm" and own: "smOpenOwners sm K = Some own"
    and q: "q \<in> set (ooOpenStates (hOwner sm own))" "osFileHandle (hOpen sm q) = f"
    and free: "\<not> shareConflictLocked sm K f acc dny"
  shows "shares_ok (widen_open q acc dny sm)"
proof -
  let ?sm = "widen_open q acc dny sm"
  note D = open_indexD [OF inv]
  have q': "osOwner (hOpen sm q) = own" using D(9) [OF own q(1)] by simp
  have K: "open_key sm q = K" using D(8) [OF own] q' by (simp add: open_key_def)
  have h: "hOpen ?sm p = (if p = q then bump_stateid ((hOpen sm q)\<lparr>osShareAccess := osShareAccess (hOpen sm q) OR acc,
      osShareDeny := osShareDeny (hOpen sm q) OR dny\<rparr>) else hOpen sm p)" for p
    by (simp add: widen_open_def upd_open_def)
  have key: "open_key ?sm p = open_key sm p" for p by (simp add: open_key_def h bump_stateid_def) (simp add: widen_open_def)
  have tab: "smOpenStateByFile ?sm = smOpenStateByFile sm" by (simp add: widen_open_def)
  have free': "acc AND osShareDeny (hOpen sm r) = 0 \<and> osShareAccess (hOpen sm r) AND dny = 0"
    if "r \<in> set (smOpenStateByFile sm f)" "open_key sm r \<noteq> K" for r
    using free that by (auto simp: shareConflictLocked_def list_ex_iff open_key_def Let_def and.commute)
  have ok': "osShareAccess (hOpen sm p) AND osShareDeny (hOpen sm r) = 0"
    if "p \<in> set (smOpenStateByFile sm g)" "r \<in> set (smOpenStateByFile sm g)" "open_key sm p \<noteq> open_key sm r" for p r g
    using ok that by (auto simp: shares_ok_def)
  show ?thesis
    unfolding shares_ok_def tab key
  proof (intro allI ballI impI)
    fix g p r assume pr: "p \<in> set (smOpenStateByFile sm g)" "r \<in> set (smOpenStateByFile sm g)" "open_key sm p \<noteq> open_key sm r"
    note base = ok' [OF pr]
    have g: "p = q \<or> r = q \<Longrightarrow> g = f" using D(4) [OF pr(1)] D(4) [OF pr(2)] q(2) by auto
    show "osShareAccess (hOpen ?sm p) AND osShareDeny (hOpen ?sm r) = 0"
      using base free' [of p] free' [of r] g pr K
      by (auto simp: h bump_stateid_def and.commute and.left_commute bit.conj_disj_distrib bit.conj_disj_distrib2)
  qed
qed

lemma widen_same: "same_opens sm (widen_open q acc dny sm)"
  unfolding widen_open_def by (rule same_opens_upd(3)) (simp add: bump_stateid_def)

lemma set_seqid_inv:
  "same_opens sm (upd_owner own (\<lambda>oo. oo\<lparr>ooLastSeqID := seqid\<rparr>) sm)"
  by (rule same_opens_upd(2)) (simp add: oo_Key_def)

lemma open_with_inv:
  assumes run: "open_with own K seqid f acc dny claim sm = (res, sm')" and inv: "open_index sm"
    and own: "smOpenOwners sm K = Some own" and wrap: "smNextStateSeq sm + 1 \<noteq> 0"
  shows "open_index sm'" and "shares_ok sm \<Longrightarrow> claim \<noteq> CLAIM_PREVIOUS \<Longrightarrow> shares_ok sm'"
proof -
  obtain p sm1 where r: "(case find (\<lambda>q. osFileHandle (hOpen sm q) = f) (ooOpenStates (hOwner sm own)) of
      Some q \<Rightarrow> (q, widen_open q acc dny sm) | None \<Rightarrow> create_open own f acc dny sm) = (p, sm1)"
    by (rule prod.exhaust)
  have sm': "sm' = (if claim \<noteq> CLAIM_PREVIOUS \<and> shareConflictLocked sm K f acc dny then sm
      else upd_owner own (\<lambda>oo. oo\<lparr>ooLastSeqID := seqid\<rparr>) sm1)"
    using run unfolding open_with_def r Let_def by (auto split: if_splits)
  have "open_index sm1"
  proof (cases "find (\<lambda>q. osFileHandle (hOpen sm q) = f) (ooOpenStates (hOwner sm own))")
    case None
    then have "create_open own f acc dny sm = (p, sm1)" using r by simp
    then show ?thesis by (rule create_open_index [OF _ inv own wrap])
  next
    case (Some q)
    then have "sm1 = widen_open q acc dny sm" using r by auto
    then show ?thesis using same_opens_index [OF widen_same inv] by simp
  qed
  then show "open_index sm'" using same_opens_index [OF set_seqid_inv] inv by (simp add: sm')
  assume ok: "shares_ok sm" and claim: "claim \<noteq> CLAIM_PREVIOUS"
  have "shares_ok sm1" if free: "\<not> shareConflictLocked sm K f acc dny"
  proof (cases "find (\<lambda>q. osFileHandle (hOpen sm q) = f) (ooOpenStates (hOwner sm own))")
    case None
    then have "create_open own f acc dny sm = (p, sm1)" using r by simp
    then show ?thesis by (rule create_open_shares [OF _ inv ok own free])
  next
    case (Some q)
    then have "sm1 = widen_open q acc dny sm" using r by auto
    then show ?thesis using widen_open_shares [OF inv ok own _ _ free, of q] find_Some_in_set [OF Some] by simp
  qed
  then show "shares_ok sm'" using same_opens_shares [OF set_seqid_inv] ok claim by (simp add: sm')
qed

lemma OpenFile_inv:
  assumes run: "OpenFile clientID ownerData seqid f acc dny claim sm = (res, sm')" and inv: "open_index sm"
    and wrap: "smNextStateSeq sm + 1 \<noteq> 0"
  shows "open_index sm'" and "shares_ok sm \<Longrightarrow> claim \<noteq> CLAIM_PREVIOUS \<Longrightarrow> shares_ok sm'"
proof -
  let ?K = "makeOwnerKey clientID ownerData"
  have both: "open_index sm' \<and> (shares_ok sm \<longrightarrow> claim \<noteq> CLAIM_PREVIOUS \<longrightarrow> shares_ok sm')"
  proof (cases "claim_gate clientID claim sm")
    case (Inl err)
    then show ?thesis using run inv by (simp add: OpenFile_def)
  next
    case (Inr sm1)
    have same: "same_opens sm sm1" "hOpen sm1 = hOpen sm" using claim_gate_same [OF Inr] by simp_all
    have inv1: "open_index sm1" by (rule same_opens_index [OF same(1) inv])
    have ok1: "shares_ok sm \<Longrightarrow> shares_ok sm1" using same_opens_shares [OF same(1)] same(2) by simp
    have seq1: "smNextStateSeq sm1 = smNextStateSeq sm"
      using Inr by (auto simp: claim_gate_def recordReclaimCompleteLocked_def Let_def split: if_splits option.splits)
    show ?thesis
    proof (cases "smOpenOwners sm1 ?K")
      case None
      obtain own sm2 where new: "new_open_owner clientID ownerData sm1 = (own, sm2)" by fastforce
      have ow: "open_with own ?K seqid f acc dny claim sm2 = (res, sm')" using run Inr None new by (simp add: OpenFile_def)
      have "smNextStateSeq sm2 + 1 \<noteq> 0" "smOpenOwners sm2 ?K = Some own"
        using wrap seq1 new_open_owner_simps [OF new] by simp_all
      then show ?thesis
        using open_with_inv [OF ow new_open_owner_inv(1) [OF new inv1]] new_open_owner_inv(2) [OF new inv1] ok1 by blast
    next
      case (Some own)
      have "sm' = sm1 \<or> open_with own ?K seqid f acc dny claim sm1 = (res, sm')"
        using run Inr Some by (auto simp: OpenFile_def Let_def split: if_splits SeqIDValidation.splits option.splits)
      then show ?thesis using open_with_inv [OF _ inv1 Some] inv1 ok1 wrap seq1 by metis
    qed
  qed
  then show "open_index sm'" and "shares_ok sm \<Longrightarrow> claim \<noteq> CLAIM_PREVIOUS \<Longrightarrow> shares_ok sm'" by blast+
qed

text \<open>Taking an open out of both tables.\<close>

lemma unlink_inv:
  assumes inv: "open_index sm" and p: "smOpenStateByOther sm oth = Some p"
    and sm': "sm' = removeOpenStateFromFileLocked p (sm\<lparr>smOpenStateByOther := (smOpenStateByOther sm)(oth := None)\<rparr>)"
  shows "open_index sm'" and "shares_ok sm \<Longrightarrow> shares_ok sm'"
proof -
  note D = open_indexD [OF inv]
  have oth: "siOther (osStateid (hOpen sm p)) = oth" by (rule D(1) [OF p])
  have tab: "smOpenStateByFile sm' g = (if g = osFileHandle (hOpen sm p) then remove1 p (smOpenStateByFile sm g) else smOpenStateByFile sm g)"
    "smOpenStateByOther sm' = (smOpenStateByOther sm)(oth := None)" "hOpen sm' = hOpen sm" "hOwner sm' = hOwner sm"
    "smOpenOwners sm' = smOpenOwners sm" "smNextPtr sm' = smNextPtr sm" "smNextStateSeq sm' = smNextStateSeq sm" "smBootEpoch sm' = smBootEpoch sm" for g
    by (simp_all add: sm' removeOpenStateFromFileLocked_def Let_def)
  have mem: "q \<in> set (smOpenStateByFile sm' g) \<longleftrightarrow> q \<in> set (smOpenStateByFile sm g) \<and> q \<noteq> p" for q g
    using D(7) [of g] D(4) [of p g] by (auto simp: tab(1))
  show "open_index sm'"
    unfolding open_index_def tab(2-)
  proof (intro conjI allI impI)
    fix oth' q assume q: "((smOpenStateByOther sm)(oth := None)) oth' = Some q"
    then have q': "smOpenStateByOther sm oth' = Some q" "oth' \<noteq> oth" by (auto split: if_splits)
    then show "siOther (osStateid (hOpen sm q)) = oth'"
      "\<exists>n. 0 < n \<and> n \<le> unat (smNextStateSeq sm) \<and> oth' = other_bytes StateTypeOpen (smBootEpoch sm) (of_nat n)"
      using D(1,3) by blast+
    show "q \<in> set (smOpenStateByFile sm' (osFileHandle (hOpen sm q)))" using q' D(1,2) [of oth' q] oth by (auto simp: mem)
  next
    fix g q assume q: "q \<in> set (smOpenStateByFile sm' g)"
    then have q': "q \<in> set (smOpenStateByFile sm g)" "q \<noteq> p" by (simp_all add: mem)
    show "osFileHandle (hOpen sm q) = g" "q < smNextPtr sm" "osOwner (hOpen sm q) < smNextPtr sm" using D(4,6) [OF q'(1)] by auto
    show "((smOpenStateByOther sm)(oth := None)) (siOther (osStateid (hOpen sm q))) = Some q" using D(5) [OF q'(1)] q'(2) p by auto
  qed (use D in \<open>auto simp: tab(1)\<close>)
  show "shares_ok sm \<Longrightarrow> shares_ok sm'" unfolding shares_ok_def open_key_def tab(3,4) Ball_def mem by blast
qed

lemma open_index_owners:
  assumes "open_index sm" and "hOpen sm' = hOpen sm" "smOpenStateByFile sm' = smOpenStateByFile sm"
    "smOpenStateByOther sm' = smOpenStateByOther sm" "smNextPtr sm' = smNextPtr sm" "smNextStateSeq sm' = smNextStateSeq sm"
    "smBootEpoch sm' = smBootEpoch sm"
    and "\<And>own. oo_Key (hOwner sm' own) = oo_Key (hOwner sm own) \<and> set (ooOpenStates (hOwner sm' own)) \<subseteq> set (ooOpenStates (hOwner sm own))"
    and "\<And>K own. smOpenOwners sm' K = Some own \<Longrightarrow> smOpenOwners sm K = Some own"
  shows "open_index sm'" and "shares_ok sm \<Longrightarrow> shares_ok sm'"
proof -
  note D = open_indexD [OF assms(1)]
  show "open_index sm'"
    unfolding open_index_def assms(2-7)
  proof (intro conjI allI impI)
    fix K own assume "smOpenOwners sm' K = Some own"
    then have K: "smOpenOwners sm K = Some own" by (rule assms(9))
    show "own < smNextPtr sm" "oo_Key (hOwner sm' own) = K" using D(8) [OF K] assms(8) [of own] by auto
    show "\<forall>q \<in> set (ooOpenStates (hOwner sm' own)). osOwner (hOpen sm q) = own \<and> q < smNextPtr sm"
      using D(9) [OF K] assms(8) [of own] by blast
  qed (use D in auto)
  show "shares_ok sm \<Longrightarrow> shares_ok sm'" using assms(8) by (simp add: shares_ok_def open_key_def assms(2,3))
qed

lemma drop_owner_simps:
  "hOpen (drop_owner own sm) = hOpen sm" "smOpenStateByFile (drop_owner own sm) = smOpenStateByFile sm"
  "smOpenStateByOther (drop_owner own sm) = smOpenStateByOther sm" "smNextPtr (drop_owner own sm) = smNextPtr sm"
  "smNextStateSeq (drop_owner own sm) = smNextStateSeq sm" "smBootEpoch (drop_owner own sm) = smBootEpoch sm"
  "hOwner (drop_owner own sm) = hOwner sm" "smOpenOwners (drop_owner own sm) = (smOpenOwners sm)(oo_Key (hOwner sm own) := None)"
  by (simp_all add: drop_owner_def Let_def split: option.splits)

lemma remove_simps:
  "hOpen (removeOpenStateFromFileLocked p sm) = hOpen sm" "hOwner (removeOpenStateFromFileLocked p sm) = hOwner sm"
  "smOpenStateByOther (removeOpenStateFromFileLocked p sm) = smOpenStateByOther sm" "smNextPtr (removeOpenStateFromFileLocked p sm) = smNextPtr sm"
  "smNextStateSeq (removeOpenStateFromFileLocked p sm) = smNextStateSeq sm" "smBootEpoch (removeOpenStateFromFileLocked p sm) = smBootEpoch sm"
  "smOpenOwners (removeOpenStateFromFileLocked p sm) = smOpenOwners sm"
  by (simp_all add: removeOpenStateFromFileLocked_def Let_def)

lemma CloseFile_inv:
  assumes run: "CloseFile stateid seqid sm = (res, sm')" and inv: "open_index sm"
  shows "open_index sm'" and "shares_ok sm \<Longrightarrow> shares_ok sm'"
proof -
  consider "sm' = sm" | p where "smOpenStateByOther sm (siOther stateid) = Some p"
    "let sm1 = removeOpenStateFromFileLocked p (sm\<lparr>smOpenStateByOther := (smOpenStateByOther sm)(siOther stateid := None)\<rparr>);
         own = osOwner (hOpen sm p);
         sm2 = sm1\<lparr>smClosedOwnerByOther := AList.update (siOther stateid) own (smClosedOwnerByOther sm1)\<rparr>;
         sm3 = upd_owner own (\<lambda>oo. oo\<lparr>ooOpenStates := remove1 p (ooOpenStates oo), ooLastSeqID := seqid\<rparr>) sm2
     in sm' = sm3 \<or> sm' = drop_owner own sm3"
    using run by (auto simp: CloseFile_def Let_def split: if_splits option.splits)
  then have "open_index sm' \<and> (shares_ok sm \<longrightarrow> shares_ok sm')"
  proof cases
    case (2 p)
    define sm1 where "sm1 = removeOpenStateFromFileLocked p (sm\<lparr>smOpenStateByOther := (smOpenStateByOther sm)(siOther stateid := None)\<rparr>)"
    note u = unlink_inv [OF inv 2(1) sm1_def]
    let ?sm = "upd_owner (osOwner (hOpen sm p)) (\<lambda>oo. oo\<lparr>ooOpenStates := remove1 p (ooOpenStates oo), ooLastSeqID := seqid\<rparr>)
        (sm1\<lparr>smClosedOwnerByOther := AList.update (siOther stateid) (osOwner (hOpen sm p)) (smClosedOwnerByOther sm1)\<rparr>)"
    have sm': "sm' = ?sm \<or> sm' = drop_owner (osOwner (hOpen sm p)) ?sm" using 2(2) unfolding sm1_def [symmetric] Let_def .
    have own: "oo_Key (hOwner ?sm own) = oo_Key (hOwner sm1 own) \<and> set (ooOpenStates (hOwner ?sm own)) \<subseteq> set (ooOpenStates (hOwner sm1 own))" for own
      by (simp add: upd_owner_def oo_Key_def set_remove1_subset)
    have "open_index sm' \<and> (shares_ok sm1 \<longrightarrow> shares_ok sm')"
      using sm'
    proof
      assume "sm' = ?sm"
      with open_index_owners [OF u(1), of ?sm, OF _ _ _ _ _ _ own] show ?thesis by simp
    next
      let ?sm' = "drop_owner (osOwner (hOpen sm p)) ?sm"
      assume eq: "sm' = ?sm'"
      have own': "oo_Key (hOwner ?sm' own) = oo_Key (hOwner sm1 own) \<and> set (ooOpenStates (hOwner ?sm' own)) \<subseteq> set (ooOpenStates (hOwner sm1 own))" for own
        using own by (simp add: drop_owner_simps)
      have tab: "smOpenOwners ?sm' K = Some own \<Longrightarrow> smOpenOwners sm1 K = Some own" for K own
        by (simp add: drop_owner_simps split: if_splits)
      from open_index_owners [OF u(1) _ _ _ _ _ _ own' tab] eq show ?thesis by (simp add: drop_owner_simps)
    qed
    then show ?thesis using u(2) by blast
  qed (use inv in simp)
  then show "open_index sm'" and "shares_ok sm \<Longrightarrow> shares_ok sm'" by blast+
qed

lemma mask_shrink:
  fixes a a' d d' :: u32
  assumes "a' AND NOT a = 0" "d' AND NOT d = 0" "a AND d = 0"
  shows "a' AND d' = 0"
proof (rule bit_word_eqI)
  fix n assume "n < LENGTH(32)"
  moreover have "bit (a' AND NOT a) n = bit (0 :: u32) n" "bit (d' AND NOT d) n = bit (0 :: u32) n" "bit (a AND d) n = bit (0 :: u32) n"
    by (simp_all only: assms)
  ultimately show "bit (a' AND d') n = bit 0 n" by (auto simp: bit_simps)
qed

lemma shrink_shares:
  assumes "same_opens sm sm'" and "shares_ok sm"
    and "\<And>p. osShareAccess (hOpen sm' p) AND NOT (osShareAccess (hOpen sm p)) = 0 \<and> osShareDeny (hOpen sm' p) AND NOT (osShareDeny (hOpen sm p)) = 0"
  shows "shares_ok sm'"
proof -
  have "open_key sm' p = open_key sm p" for p using assms(1) by (simp add: same_opens_def open_key_def)
  moreover have "smOpenStateByFile sm' = smOpenStateByFile sm" using assms(1) by (simp add: same_opens_def)
  ultimately show ?thesis using assms(2,3) mask_shrink unfolding shares_ok_def by metis
qed

lemma ConfirmOpen_inv:
  assumes run: "ConfirmOpen stateid seqid sm = (res, sm')"
  shows "open_index sm \<Longrightarrow> open_index sm'" and "shares_ok sm \<Longrightarrow> shares_ok sm'"
proof -
  have "same_opens sm sm' \<and> (\<forall>p. osShareAccess (hOpen sm' p) = osShareAccess (hOpen sm p) \<and> osShareDeny (hOpen sm' p) = osShareDeny (hOpen sm p))"
    using run by (auto simp: ConfirmOpen_def Let_def same_opens_def upd_open_def upd_owner_def bump_stateid_def oo_Key_def split: option.splits)
  then show "open_index sm \<Longrightarrow> open_index sm'" and "shares_ok sm \<Longrightarrow> shares_ok sm'"
    using same_opens_index same_opens_shares by blast+
qed

lemma ConfirmOpenV41_inv:
  assumes run: "ConfirmOpenV41 stateid sm = (res, sm')"
  shows "open_index sm \<Longrightarrow> open_index sm'" and "shares_ok sm \<Longrightarrow> shares_ok sm'"
proof -
  have "same_opens sm sm' \<and> (\<forall>p. osShareAccess (hOpen sm' p) = osShareAccess (hOpen sm p) \<and> osShareDeny (hOpen sm' p) = osShareDeny (hOpen sm p))"
    using run by (auto simp: ConfirmOpenV41_def same_opens_def upd_open_def upd_owner_def oo_Key_def split: option.splits)
  then show "open_index sm \<Longrightarrow> open_index sm'" and "shares_ok sm \<Longrightarrow> shares_ok sm'"
    using same_opens_index same_opens_shares by blast+
qed

lemma DowngradeOpen_inv:
  assumes run: "DowngradeOpen stateid seqid acc dny sm = (res, sm')"
  shows "open_index sm \<Longrightarrow> open_index sm'" and "shares_ok sm \<Longrightarrow> shares_ok sm'"
proof -
  have "same_opens sm sm' \<and> (\<forall>p. osShareAccess (hOpen sm' p) AND NOT (osShareAccess (hOpen sm p)) = 0 \<and> osShareDeny (hOpen sm' p) AND NOT (osShareDeny (hOpen sm p)) = 0)"
    using run by (auto simp: DowngradeOpen_def Let_def same_opens_def upd_open_def upd_owner_def bump_stateid_def oo_Key_def split: option.splits if_splits)
  then show "open_index sm \<Longrightarrow> open_index sm'" and "shares_ok sm \<Longrightarrow> shares_ok sm'"
    using same_opens_index shrink_shares by blast+
qed

lemma CacheOpenOwnerResult_inv:
  shows "open_index sm \<Longrightarrow> open_index (CacheOpenOwnerResult clientID ownerData status data sm)"
    and "shares_ok sm \<Longrightarrow> shares_ok (CacheOpenOwnerResult clientID ownerData status data sm)"
proof -
  have "same_opens sm (CacheOpenOwnerResult clientID ownerData status data sm)
      \<and> hOpen (CacheOpenOwnerResult clientID ownerData status data sm) = hOpen sm"
    by (auto simp: CacheOpenOwnerResult_def same_opens_def upd_owner_def oo_Key_def split: option.splits)
  then show "open_index sm \<Longrightarrow> open_index (CacheOpenOwnerResult clientID ownerData status data sm)"
    and "shares_ok sm \<Longrightarrow> shares_ok (CacheOpenOwnerResult clientID ownerData status data sm)"
    using same_opens_index same_opens_shares by fastforce+
qed

lemma freeOpenStateid_inv:
  assumes run: "freeOpenStateidLocked clientID stateid sm = (res, sm')" and inv: "open_index sm"
  shows "open_index sm'" and "shares_ok sm \<Longrightarrow> shares_ok sm'"
proof -
  consider "sm' = sm" | p where "smOpenStateByOther sm (siOther stateid) = Some p"
    "let sm1 = removeOpenStateFromFileLocked p (sm\<lparr>smOpenStateByOther := (smOpenStateByOther sm)(siOther stateid := None)\<rparr>);
         sm2 = upd_owner (osOwner (hOpen sm p)) (\<lambda>oo. oo\<lparr>ooOpenStates := remove1 p (ooOpenStates oo)\<rparr>) sm1
     in sm' = sm2 \<or> sm' = sm2\<lparr>smOpenOwners := (smOpenOwners sm2)(oo_Key (hOwner sm2 (osOwner (hOpen sm p))) := None)\<rparr>"
    using run by (auto simp: freeOpenStateidLocked_def Let_def split: if_splits option.splits)
  then have "open_index sm' \<and> (shares_ok sm \<longrightarrow> shares_ok sm')"
  proof cases
    case (2 p)
    define sm1 where "sm1 = removeOpenStateFromFileLocked p (sm\<lparr>smOpenStateByOther := (smOpenStateByOther sm)(siOther stateid := None)\<rparr>)"
    note u = unlink_inv [OF inv 2(1) sm1_def]
    let ?sm = "upd_owner (osOwner (hOpen sm p)) (\<lambda>oo. oo\<lparr>ooOpenStates := remove1 p (ooOpenStates oo)\<rparr>) sm1"
    have own: "oo_Key (hOwner ?sm own) = oo_Key (hOwner sm1 own) \<and> set (ooOpenStates (hOwner ?sm own)) \<subseteq> set (ooOpenStates (hOwner sm1 own))" for own
      by (simp add: upd_owner_def oo_Key_def set_remove1_subset)
    have sm': "hOwner sm' = hOwner ?sm" "hOpen sm' = hOpen sm1" "smOpenStateByFile sm' = smOpenStateByFile sm1" "smOpenStateByOther sm' = smOpenStateByOther sm1"
      "smNextPtr sm' = smNextPtr sm1" "smNextStateSeq sm' = smNextStateSeq sm1" "smBootEpoch sm' = smBootEpoch sm1"
      "smOpenOwners sm' K = Some x \<Longrightarrow> smOpenOwners sm1 K = Some x" for K x
      using 2(2) unfolding sm1_def [symmetric] Let_def by (auto split: if_splits)
    show ?thesis using open_index_owners [OF u(1) sm'(2-7) own [folded sm'(1)] sm'(8)] u(2) by blast
  qed (use inv in simp)
  then show "open_index sm'" and "shares_ok sm \<Longrightarrow> shares_ok sm'" by blast+
qed

section \<open>Share reservations\<close>

text \<open>Runs of the operations on opens.  The counter behind the state ids must not wrap: it has 64 bits.
  Reclaim opens are left out, since the code grants them without a share check.\<close>

inductive open_run :: "StateManager \<Rightarrow> StateManager \<Rightarrow> bool" where
  start: "open_run sm sm"
| OpenFile: "open_run sm0 sm \<Longrightarrow> smNextStateSeq sm + 1 \<noteq> 0 \<Longrightarrow> claim \<noteq> CLAIM_PREVIOUS
    \<Longrightarrow> open_run sm0 (snd (OpenFile clientID ownerData seqid f acc dny claim sm))"
| ConfirmOpen: "open_run sm0 sm \<Longrightarrow> open_run sm0 (snd (ConfirmOpen stateid seqid sm))"
| ConfirmOpenV41: "open_run sm0 sm \<Longrightarrow> open_run sm0 (snd (ConfirmOpenV41 stateid sm))"
| DowngradeOpen: "open_run sm0 sm \<Longrightarrow> open_run sm0 (snd (DowngradeOpen stateid seqid acc dny sm))"
| CloseFile: "open_run sm0 sm \<Longrightarrow> open_run sm0 (snd (CloseFile stateid seqid sm))"
| Cache: "open_run sm0 sm \<Longrightarrow> open_run sm0 (CacheOpenOwnerResult clientID ownerData status data sm)"
| FreeStateid: "open_run sm0 sm \<Longrightarrow> open_run sm0 (snd (freeOpenStateidLocked clientID stateid sm))"

lemma NewStateManager_inv:
  "open_index (NewStateManager epoch ld gd resolver managers)" "shares_ok (NewStateManager epoch ld gd resolver managers)"
  by (simp_all add: NewStateManager_def open_index_def shares_ok_def Let_def)

lemma open_run_inv:
  "open_run sm0 sm \<Longrightarrow> open_index sm0 \<Longrightarrow> shares_ok sm0 \<Longrightarrow> open_index sm \<and> shares_ok sm"
proof (induction rule: open_run.induct)
  case (OpenFile sm0 sm claim clientID ownerData seqid f acc dny)
  then show ?case using OpenFile_inv [OF prod.collapse [symmetric]] by metis
next
  case (ConfirmOpen sm0 sm stateid seqid)
  then show ?case using ConfirmOpen_inv [OF prod.collapse [symmetric]] by metis
next
  case (ConfirmOpenV41 sm0 sm stateid)
  then show ?case using ConfirmOpenV41_inv [OF prod.collapse [symmetric]] by metis
next
  case (DowngradeOpen sm0 sm stateid seqid acc dny)
  then show ?case using DowngradeOpen_inv [OF prod.collapse [symmetric]] by metis
next
  case (CloseFile sm0 sm stateid seqid)
  then show ?case using CloseFile_inv [OF prod.collapse [symmetric]] by metis
next
  case (Cache sm0 sm clientID ownerData status data)
  then show ?case using CacheOpenOwnerResult_inv by metis
next
  case (FreeStateid sm0 sm clientID stateid)
  then show ?case using freeOpenStateid_inv [OF prod.collapse [symmetric]] by metis
qed simp

text \<open>C10: Share reservations hold at all times.  Whatever OPEN, OPEN_CONFIRM, OPEN_DOWNGRADE, CLOSE and
  FREE_STATEID calls a new server has handled (reclaim opens apart), two opens of one file by
  different owners, each found by its state id, never hold an access the other denies; and every open
  found by a state id carries that state id and is listed under its file.\<close>

theorem share_reservations_hold:
  assumes "open_run (NewStateManager epoch ld gd resolver managers) sm"
    and "GetOpenState sm o1 = Some os1" "GetOpenState sm o2 = Some os2"
  shows "(osFileHandle os1 = osFileHandle os2 \<and> oo_Key (hOwner sm (osOwner os1)) \<noteq> oo_Key (hOwner sm (osOwner os2))
      \<longrightarrow> osShareAccess os1 AND osShareDeny os2 = 0)
    \<and> siOther (osStateid os1) = o1
    \<and> list_ex (\<lambda>p. hOpen sm p = os1) (smOpenStateByFile sm (osFileHandle os1))"
proof -
  have inv: "open_index sm" "shares_ok sm" using open_run_inv [OF assms(1)] NewStateManager_inv by blast+
  obtain p q where pq: "smOpenStateByOther sm o1 = Some p" "os1 = hOpen sm p" "smOpenStateByOther sm o2 = Some q" "os2 = hOpen sm q"
    using assms(2,3) by (auto simp: GetOpenState_def)
  note D = open_indexD [OF inv(1)]
  have "siOther (osStateid os1) = o1" "list_ex (\<lambda>p. hOpen sm p = os1) (smOpenStateByFile sm (osFileHandle os1))"
    using D(1,2) [OF pq(1)] pq(2) by (auto simp: list_ex_iff)
  moreover have "osShareAccess os1 AND osShareDeny os2 = 0"
    if "osFileHandle os1 = osFileHandle os2" "oo_Key (hOwner sm (osOwner os1)) \<noteq> oo_Key (hOwner sm (osOwner os2))"
    using that inv(2) D(2) [OF pq(1)] D(2) [OF pq(3)] unfolding shares_ok_def open_key_def pq(2,4) by metis
  ultimately show ?thesis by blast
qed

text \<open>Two owners read one file; the first denies writing.\<close>

definition two_opens :: StateManager where
  "two_opens = snd (OpenFile 7 ''b'' 1 ''f'' 1 0 0 (snd (OpenFile 7 ''a'' 1 ''f'' 1 2 0
     (NewStateManager 5 0 None (\<lambda>_. None) (\<lambda>_. newBaseManager)))))"

lemmas open_eval = OpenFile_def claim_gate_def sm_IsInGrace_def new_open_owner_def open_with_def shareConflictLocked_def
  create_open_def generateStateidOther_def alloc_def addOpenStateToFileLocked_def upd_owner_def upd_client_def oo_Key_def
  widen_open_def upd_open_def NewStateManager_def Let_def

lemma two_opens_run: "open_run (NewStateManager 5 0 None (\<lambda>_. None) (\<lambda>_. newBaseManager)) two_opens"
  unfolding two_opens_def by (intro open_run.OpenFile open_run.start) (simp_all add: open_eval makeOwnerKey_inject)

lemma two_opens_found:
  "GetOpenState two_opens (other_bytes StateTypeOpen 5 1) = Some (hOpen two_opens 1)"
  "GetOpenState two_opens (other_bytes StateTypeOpen 5 2) = Some (hOpen two_opens 3)"
  "osFileHandle (hOpen two_opens 1) = osFileHandle (hOpen two_opens 3)"
  "oo_Key (hOwner two_opens (osOwner (hOpen two_opens 1))) \<noteq> oo_Key (hOwner two_opens (osOwner (hOpen two_opens 3)))"
  "osShareDeny (hOpen two_opens 1) = 2" "osShareAccess (hOpen two_opens 3) = 1"
  by (simp_all add: GetOpenState_def two_opens_def open_eval makeOwnerKey_inject other_bytes_inject)

theorem share_reservations_hold_witness:
  "osShareAccess (hOpen two_opens 3) AND osShareDeny (hOpen two_opens 1) = 0
   \<and> osShareDeny (hOpen two_opens 1) = 2 \<and> osShareAccess (hOpen two_opens 3) = 1"
  using share_reservations_hold [OF two_opens_run two_opens_found(2,1)] two_opens_found(3-) by metis

end
