(* ===== verification/XDR_Core.thy ===== *)
theory XDR_Core
  imports Ditto_Prelude
begin

text \<open>
  XDR encoding and decoding (\<open>internal/adapter/nfs/xdr/core\<close>) and the NFSv4 attribute bitmaps
  built on it (\<open>internal/adapter/nfs/v4/attrs/bitmap.go\<close>).  A reader is the list of bytes that
  are left; a decoder returns an error or a value and the rest.  The locale \<open>codec\<close> is the
  contract of an encoder and a decoder that belong together; every pair of the package is an instance.
\<close>

section \<open>Byte order\<close>

type_synonym octets = "u8 list"

fun le_bytes :: "nat \<Rightarrow> 'a::len word \<Rightarrow> octets" where
  "le_bytes 0 w = []"
| "le_bytes (Suc n) w = ucast w # le_bytes n (drop_bit 8 w)"

fun le_value :: "octets \<Rightarrow> 'a::len word" where
  "le_value [] = 0"
| "le_value (b # bs) = ucast b OR push_bit 8 (le_value bs)"

definition be_bytes :: "nat \<Rightarrow> 'a::len word \<Rightarrow> octets" where
  "be_bytes n w = rev (le_bytes n w)"

definition be_value :: "octets \<Rightarrow> 'a::len word" where
  "be_value bs = le_value (rev bs)"

lemma length_le_bytes [simp]: "length (le_bytes n w) = n"
  by (induction n arbitrary: w) auto

lemma length_be_bytes [simp]: "length (be_bytes n w) = n"
  by (simp add: be_bytes_def)

lemma le_value_bytes: "le_value (le_bytes n w) = take_bit (8 * n) (w :: 'a::len word)"
proof (induction n arbitrary: w)
  case (Suc n)
  have "ucast (ucast w :: u8) OR push_bit 8 (take_bit (8 * n) (drop_bit 8 w)) = take_bit (8 + 8 * n) w"
    by (rule bit_eqI)
      (auto simp: bit_or_iff bit_ucast_iff bit_push_bit_iff bit_take_bit_iff bit_drop_bit_eq dest: bit_imp_le_length)
  then show ?case by (simp add: Suc)
qed simp

lemma be_value_bytes [simp]:
  "be_value (be_bytes 4 (w :: u32)) = w" "be_value (be_bytes 8 (v :: u64)) = v"
  by (simp_all add: be_value_def be_bytes_def le_value_bytes take_bit_word_eq_self)

section \<open>Readers\<close>

datatype io_error = EOF | ErrUnexpectedEOF

datatype xdr_error = ReadError string io_error | OpaqueTooLong u32 | BitmapTooLarge u32
  | InvalidDiscriminator string u32 | HandleTooLong nat

type_synonym 'a decoder = "octets \<Rightarrow> xdr_error + 'a \<times> octets"

definition ReadFull :: "string \<Rightarrow> nat \<Rightarrow> octets decoder" where
  "ReadFull what n r =
     (if n = 0 then Inr ([], r)
      else if r = [] then Inl (ReadError what EOF)
      else if length r < n then Inl (ReadError what ErrUnexpectedEOF)
      else Inr (take n r, drop n r))"

definition dbind :: "'a decoder \<Rightarrow> ('a \<Rightarrow> 'b decoder) \<Rightarrow> 'b decoder" where
  "dbind d f r = (case d r of Inl e \<Rightarrow> Inl e | Inr (x, r) \<Rightarrow> f x r)"

definition dreturn :: "'a \<Rightarrow> 'a decoder" where
  "dreturn x r = Inr (x, r)"

definition dfail :: "xdr_error \<Rightarrow> 'a decoder" where
  "dfail e r = Inl e"

lemma dbind_simps [simp]:
  "d r = Inl e \<Longrightarrow> dbind d f r = Inl e" "d r = Inr (x, r') \<Longrightarrow> dbind d f r = f x r'"
  by (simp_all add: dbind_def)

lemma dreturn_apply [simp]: "dreturn x r = Inr (x, r)" "dfail e r = Inl e"
  by (simp_all add: dreturn_def dfail_def)

lemma ReadFull_append: "n = length b \<Longrightarrow> ReadFull what n (b @ r) = Inr (b, r)"
  by (cases b) (auto simp: ReadFull_def)

lemma ReadFull_short: "length r < n \<Longrightarrow> \<exists>e. ReadFull what n r = Inl e"
  by (auto simp: ReadFull_def)

section \<open>Encoding and decoding\<close>

definition WriteUint32 :: "u32 \<Rightarrow> octets" where
  "WriteUint32 v = be_bytes 4 v"

definition WriteUint64 :: "u64 \<Rightarrow> octets" where
  "WriteUint64 v = be_bytes 8 v"

text \<open>Signed values are words read as two's complement, so their bytes are those of the word.\<close>

definition WriteInt32 :: "32 word \<Rightarrow> octets" where
  "WriteInt32 v = be_bytes 4 v"

definition WriteInt64 :: "64 word \<Rightarrow> octets" where
  "WriteInt64 v = be_bytes 8 v"

definition WriteBool :: "bool \<Rightarrow> octets" where
  "WriteBool v = WriteUint32 (if v then 1 else 0)"

definition WriteXDRPadding :: "u32 \<Rightarrow> octets" where
  "WriteXDRPadding dataLen = (let padding = (4 - (dataLen mod 4)) mod 4 in replicate (unat padding) 0)"

definition WriteXDROpaque :: "octets \<Rightarrow> octets" where
  "WriteXDROpaque data = (let len = of_nat (length data) in be_bytes 4 len @ data @ WriteXDRPadding len)"

definition string_bytes :: "string \<Rightarrow> octets" where
  "string_bytes s = map (\<lambda>c. of_nat (of_char c)) s"

definition WriteXDRString :: "string \<Rightarrow> octets" where
  "WriteXDRString s = (let len = of_nat (length s) in be_bytes 4 len @ string_bytes s @ WriteXDRPadding len)"

definition DecodeUint32 :: "u32 decoder" where
  "DecodeUint32 = dbind (ReadFull ''read uint32'' 4) (\<lambda>b. dreturn (be_value b))"

definition DecodeUint64 :: "u64 decoder" where
  "DecodeUint64 = dbind (ReadFull ''read uint64'' 8) (\<lambda>b. dreturn (be_value b))"

definition DecodeInt64 :: "64 word decoder" where
  "DecodeInt64 = dbind (ReadFull ''read int64'' 8) (\<lambda>b. dreturn (be_value b))"

definition DecodeInt32 :: "32 word decoder" where
  "DecodeInt32 = dbind (ReadFull ''read int32'' 4) (\<lambda>b. dreturn (be_value b))"

definition DecodeBool :: "bool decoder" where
  "DecodeBool = dbind DecodeUint32 (\<lambda>v. dreturn (v \<noteq> 0))"

abbreviation (input) maxOpaqueLength :: u32 where "maxOpaqueLength \<equiv> 1048576"

definition DecodeOpaque :: "octets decoder" where
  "DecodeOpaque =
     dbind (ReadFull ''read length'' 4) (\<lambda>b.
       let len = be_value b :: u32 in
       if len > maxOpaqueLength then dfail (OpaqueTooLong len)
       else dbind (ReadFull ''read data'' (unat len)) (\<lambda>data.
         let padding = (4 - (len mod 4)) mod 4 in
         if padding > 0 then dbind (ReadFull ''skip padding'' (unat padding)) (\<lambda>_. dreturn data)
         else dreturn data))"

definition DecodeString :: "string decoder" where
  "DecodeString = dbind DecodeOpaque (\<lambda>data. dreturn (map (\<lambda>b. char_of (unat b)) data))"

text \<open>A loop that decodes a given number of items.\<close>

fun decode_many :: "'a decoder \<Rightarrow> nat \<Rightarrow> 'a list decoder" where
  "decode_many dec 0 = dreturn []"
| "decode_many dec (Suc n) = dbind dec (\<lambda>x. dbind (decode_many dec n) (\<lambda>xs. dreturn (x # xs)))"

section \<open>The contract of a codec\<close>

text \<open>What is written is read back and nothing more is consumed; a message that is cut off is never
  read as something else; everything written keeps the stream aligned to four bytes.\<close>

locale codec =
  fixes valid :: "'a \<Rightarrow> bool"
    and enc :: "'a \<Rightarrow> octets"
    and dec :: "'a decoder"
  assumes roundtrip: "valid x \<Longrightarrow> dec (enc x @ rest) = Inr (x, rest)"
    and truncated: "valid x \<Longrightarrow> n < length (enc x) \<Longrightarrow> \<exists>e. dec (take n (enc x)) = Inl e"
    and aligned: "valid x \<Longrightarrow> 4 dvd length (enc x)"
begin

lemma unique_parse:
  assumes "valid x" and "valid y" and "enc x @ r = enc y @ r'"
  shows "x = y \<and> r = r'"
  using roundtrip [OF assms(1), of r] roundtrip [OF assms(2), of r'] assms(3) by (metis Inr_inject prod.inject)

lemma many_roundtrip:
  "list_all valid xs \<Longrightarrow> decode_many dec (length xs) (concat (map enc xs) @ rest) = Inr (xs, rest)"
proof (induction xs arbitrary: rest)
  case (Cons x xs)
  have "dec (enc x @ concat (map enc xs) @ rest) = Inr (x, concat (map enc xs) @ rest)"
    using Cons.prems by (intro roundtrip) simp
  moreover have "decode_many dec (length xs) (concat (map enc xs) @ rest) = Inr (xs, rest)"
    using Cons.prems by (intro Cons.IH) simp
  ultimately show ?case by simp
qed simp

lemma many_truncated:
  "list_all valid xs \<Longrightarrow> n < length (concat (map enc xs)) \<Longrightarrow> \<exists>e. decode_many dec (length xs) (take n (concat (map enc xs))) = Inl e"
proof (induction xs arbitrary: n)
  case (Cons x xs)
  show ?case
  proof (cases "n < length (enc x)")
    case True
    moreover have "valid x" using Cons.prems(1) by simp
    ultimately obtain e where "dec (take n (enc x)) = Inl e" using truncated by blast
    then show ?thesis using True by simp
  next
    case False
    let ?n = "n - length (enc x)"
    have "dec (enc x @ take ?n (concat (map enc xs))) = Inr (x, take ?n (concat (map enc xs)))"
      using Cons.prems(1) by (intro roundtrip) simp
    moreover obtain e where "decode_many dec (length xs) (take ?n (concat (map enc xs))) = Inl e"
    proof -
      have "?n < length (concat (map enc xs))" using Cons.prems(2) False by simp
      then have "\<exists>e. decode_many dec (length xs) (take ?n (concat (map enc xs))) = Inl e"
        using Cons.prems(1) by (intro Cons.IH) simp_all
      then show ?thesis using that by blast
    qed
    ultimately show ?thesis using False by simp
  qed
qed simp

lemma many_aligned: "list_all valid xs \<Longrightarrow> 4 dvd length (concat (map enc xs))"
proof (induction xs)
  case (Cons x xs)
  then have "4 dvd length (enc x)" "4 dvd length (concat (map enc xs))" using aligned by simp_all
  then show ?case by (simp only: list.map concat.simps length_append dvd_add)
qed simp

end

section \<open>The codecs of the package\<close>

lemma fixed_codec:
  assumes "\<And>v. length (w v) = n" and "0 < n" and "4 dvd n" and "\<And>v. val (w v) = v"
  shows "codec (\<lambda>_. True) w (dbind (ReadFull what n) (\<lambda>b. dreturn (val b)))"
proof
  show "dbind (ReadFull what n) (\<lambda>b. dreturn (val b)) (w v @ rest) = Inr (v, rest)" for v rest
    using ReadFull_append [of n "w v" what rest] assms by simp
  show "\<exists>e. dbind (ReadFull what n) (\<lambda>b. dreturn (val b)) (take k (w v)) = Inl e" if "k < length (w v)" for v k
    using ReadFull_short [of "take k (w v)" n what] that assms(1) [of v] by auto
qed (simp add: assms)

interpretation xu32: codec "\<lambda>_. True" WriteUint32 DecodeUint32
  unfolding DecodeUint32_def by (rule fixed_codec) (simp_all add: WriteUint32_def)

interpretation xu64: codec "\<lambda>_. True" WriteUint64 DecodeUint64
  unfolding DecodeUint64_def by (rule fixed_codec) (simp_all add: WriteUint64_def)

interpretation xi32: codec "\<lambda>_. True" WriteInt32 DecodeInt32
  unfolding DecodeInt32_def by (rule fixed_codec) (simp_all add: WriteInt32_def)

interpretation xi64: codec "\<lambda>_. True" WriteInt64 DecodeInt64
  unfolding DecodeInt64_def by (rule fixed_codec) (simp_all add: WriteInt64_def)

interpretation xbool: codec "\<lambda>_. True" WriteBool DecodeBool
proof
  show "DecodeBool (WriteBool b @ rest) = Inr (b, rest)" for b rest
    using xu32.roundtrip [of "if b then 1 else 0" rest] by (simp add: DecodeBool_def WriteBool_def)
  show "\<exists>e. DecodeBool (take n (WriteBool b)) = Inl e" if "n < length (WriteBool b)" for n b
    using xu32.truncated [of n "if b then 1 else 0"] that by (auto simp: DecodeBool_def WriteBool_def)
  show "4 dvd length (WriteBool b)" for b by (simp add: WriteBool_def WriteUint32_def)
qed

lemma padding_unat: "unat ((4 - (len mod 4)) mod 4 :: u32) = (4 - unat len mod 4) mod 4"
proof -
  have "unat (len mod 4) = unat len mod 4" by (simp add: unat_mod)
  moreover from this have "len mod 4 \<le> 4" by (simp add: word_le_nat_alt)
  ultimately have "unat (4 - len mod 4) = 4 - unat len mod 4" by (simp add: unat_sub)
  then show ?thesis by (simp add: unat_mod)
qed

lemma padding_aligned: "4 dvd n + (4 - n mod 4) mod (4 :: nat)"
proof -
  have "n mod 4 < 4" by simp
  then consider "n mod 4 = 0" | "n mod 4 = 1" | "n mod 4 = 2" | "n mod 4 = 3" by linarith
  then have "4 dvd n mod 4 + (4 - n mod 4) mod 4" by cases simp_all
  moreover have "n + (4 - n mod 4) mod 4 = 4 * (n div 4) + (n mod 4 + (4 - n mod 4) mod 4)" by simp
  ultimately show ?thesis by (metis dvd_add dvd_triv_left)
qed

definition opaque_ok :: "octets \<Rightarrow> bool" where
  "opaque_ok data \<longleftrightarrow> length data \<le> 1048576"

lemma opaque_len:
  assumes "opaque_ok data"
  shows "unat (of_nat (length data) :: u32) = length data" and "\<not> (of_nat (length data) :: u32) > maxOpaqueLength"
    and "length (WriteXDRPadding (of_nat (length data))) = (4 - length data mod 4) mod 4"
proof -
  show len: "unat (of_nat (length data) :: u32) = length data"
    using assms by (simp add: opaque_ok_def unat_of_nat take_bit_nat_eq_self)
  show "\<not> (of_nat (length data) :: u32) > maxOpaqueLength" using assms len by (simp add: opaque_ok_def word_less_nat_alt)
  show "length (WriteXDRPadding (of_nat (length data))) = (4 - length data mod 4) mod 4"
    by (simp only: WriteXDRPadding_def Let_def length_replicate padding_unat len)
qed

text \<open>After the length word, what is left to read of an opaque item.\<close>

definition opaque_tail :: "u32 \<Rightarrow> octets decoder" where
  "opaque_tail len = dbind (ReadFull ''read data'' (unat len)) (\<lambda>data.
     let padding = (4 - (len mod 4)) mod 4 in
     if padding > 0 then dbind (ReadFull ''skip padding'' (unat padding)) (\<lambda>_. dreturn data) else dreturn data)"

lemma DecodeOpaque_tail:
  assumes "\<not> len > maxOpaqueLength"
  shows "DecodeOpaque (be_bytes 4 len @ r) = opaque_tail len r"
  using ReadFull_append [of 4 "be_bytes 4 len" "''read length''" r] assms
  by (simp add: DecodeOpaque_def opaque_tail_def Let_def)

lemma opaque_tail_full:
  assumes "unat len = length data" and "length pad = (4 - length data mod 4) mod 4"
  shows "opaque_tail len (data @ pad @ r) = Inr (data, r)"
proof -
  have p: "unat ((4 - (len mod 4)) mod 4 :: u32) = length pad" using padding_unat [of len] assms by simp
  have "((4 - (len mod 4)) mod 4 :: u32) > 0 \<longleftrightarrow> pad \<noteq> []" using p by (simp add: word_less_nat_alt)
  then show ?thesis
    using ReadFull_append [of "unat len" data "''read data''" "pad @ r"] ReadFull_append [of _ pad "''skip padding''" r] assms(1) p
    by (auto simp: opaque_tail_def Let_def)
qed

lemma opaque_tail_cut:
  assumes "unat len = length data" and "length pad = (4 - length data mod 4) mod 4" and "n < length (data @ pad)"
  shows "\<exists>e. opaque_tail len (take n (data @ pad)) = Inl e"
proof (cases "n < length data")
  case True
  then show ?thesis
    using ReadFull_short [of "take n (data @ pad)" "unat len" "''read data''"] assms(1) by (auto simp: opaque_tail_def)
next
  case False
  have p: "unat ((4 - (len mod 4)) mod 4 :: u32) = length pad" using padding_unat [of len] assms by simp
  moreover have "pad \<noteq> []" using False assms(3) by auto
  ultimately have pos: "((4 - (len mod 4)) mod 4 :: u32) > 0" by (simp add: word_less_nat_alt)
  obtain e where "ReadFull ''skip padding'' (length pad) (take (n - length data) pad) = Inl e"
  proof -
    have "length (take (n - length data) pad) < length pad" using False assms(3) by auto
    from ReadFull_short [OF this] that show ?thesis by blast
  qed
  moreover have "ReadFull ''read data'' (unat len) (take n (data @ pad)) = Inr (data, take (n - length data) pad)"
    using ReadFull_append [of "unat len" data] False assms(1) by simp
  ultimately show ?thesis using pos p by (simp add: opaque_tail_def Let_def)
qed

interpretation xopaque: codec opaque_ok WriteXDROpaque DecodeOpaque
proof
  fix data :: octets and rest n
  assume ok: "opaque_ok data"
  let ?len = "of_nat (length data) :: u32" and ?pad = "WriteXDRPadding (of_nat (length data))"
  note len = opaque_len [OF ok]
  have enc: "WriteXDROpaque data = be_bytes 4 ?len @ data @ ?pad" by (simp add: WriteXDROpaque_def Let_def)
  show "DecodeOpaque (WriteXDROpaque data @ rest) = Inr (data, rest)"
    using opaque_tail_full [OF len(1,3), of rest] DecodeOpaque_tail [OF len(2), of "data @ ?pad @ rest"] by (simp add: enc)
  show "4 dvd length (WriteXDROpaque data)"
    using padding_aligned [of "length data"] by (simp add: enc len(3))
  show "\<exists>e. DecodeOpaque (take n (WriteXDROpaque data)) = Inl e" if "n < length (WriteXDROpaque data)"
  proof (cases "n < 4")
    case True
    then have "length (take n (WriteXDROpaque data)) < 4" by simp
    from ReadFull_short [OF this] obtain e where "ReadFull ''read length'' 4 (take n (WriteXDROpaque data)) = Inl e" by blast
    then show ?thesis by (simp add: DecodeOpaque_def)
  next
    case False
    have "take n (WriteXDROpaque data) = be_bytes 4 ?len @ take (n - 4) (data @ ?pad)" using False by (simp add: enc)
    moreover have "n - 4 < length (data @ ?pad)" using that False by (simp add: enc)
    ultimately show ?thesis
      using opaque_tail_cut [OF len(1,3)] by (simp only: DecodeOpaque_tail [OF len(2)])
  qed
qed

text \<open>Codecs compose: through a bijection, and one after the other where the second may depend on
  what the first read.\<close>

lemma codec_image:
  assumes "codec v e d" and "\<And>x. v' x \<Longrightarrow> v (g x)" and "\<And>x. v' x \<Longrightarrow> f (g x) = x"
  shows "codec v' (\<lambda>x. e (g x)) (dbind d (\<lambda>y. dreturn (f y)))"
proof
  fix x rest n
  assume x: "v' x"
  note c = codec.roundtrip [OF assms(1)] codec.truncated [OF assms(1)] codec.aligned [OF assms(1)]
  show "dbind d (\<lambda>y. dreturn (f y)) (e (g x) @ rest) = Inr (x, rest)" using c(1) assms(2,3) x by simp
  show "\<exists>err. dbind d (\<lambda>y. dreturn (f y)) (take n (e (g x))) = Inl err" if "n < length (e (g x))"
    using c(2) [OF assms(2) [OF x] that] by auto
  show "4 dvd length (e (g x))" using c(3) assms(2) x by simp
qed

lemma codec_then:
  assumes c1: "codec v1 e1 d1" and c2: "\<And>a. v1 a \<Longrightarrow> codec (\<lambda>x. v x \<and> h x = a) e2 (d2 a)" and h: "\<And>x. v x \<Longrightarrow> v1 (h x)"
  shows "codec v (\<lambda>x. e1 (h x) @ e2 x) (dbind d1 d2)"
proof
  fix x rest n
  assume x: "v x"
  note c = codec.roundtrip [OF c1 h [OF x]] codec.truncated [OF c1 h [OF x]] codec.aligned [OF c1 h [OF x]]
  note c' = codec.roundtrip [OF c2 [OF h [OF x]]] codec.truncated [OF c2 [OF h [OF x]]] codec.aligned [OF c2 [OF h [OF x]]]
  show "dbind d1 d2 ((e1 (h x) @ e2 x) @ rest) = Inr (x, rest)" using c(1) [of "e2 x @ rest"] c'(1) [of x rest] x by simp
  show "4 dvd length (e1 (h x) @ e2 x)" using c(3) c'(3) [of x] x by (simp only: length_append dvd_add simp_thms)
  show "\<exists>err. dbind d1 d2 (take n (e1 (h x) @ e2 x)) = Inl err" if n: "n < length (e1 (h x) @ e2 x)"
  proof (cases "n < length (e1 (h x))")
    case True
    from c(2) [OF this] obtain err where "d1 (take n (e1 (h x))) = Inl err" by blast
    with True show ?thesis by simp
  next
    case False
    let ?k = "n - length (e1 (h x))"
    have "take n (e1 (h x) @ e2 x) = e1 (h x) @ take ?k (e2 x)" using False by simp
    moreover have "?k < length (e2 x)" using n False by simp
    moreover from this obtain err where "d2 (h x) (take ?k (e2 x)) = Inl err" using c'(2) [of x ?k] x by blast
    ultimately show ?thesis using c(1) [of "take ?k (e2 x)"] by simp
  qed
qed

definition string_ok :: "string \<Rightarrow> bool" where
  "string_ok s \<longleftrightarrow> length s \<le> 1048576"

lemma string_bytes_inverse: "map (\<lambda>b. char_of (unat b)) (string_bytes s) = s"
proof -
  have "char_of (unat (of_nat (of_char c) :: u8)) = c" for c :: char
  proof -
    have "(of_char c :: nat) < 256" by (rule nat_of_char_less_256)
    then show ?thesis by (simp add: unat_of_nat take_bit_nat_eq_self)
  qed
  then show ?thesis by (simp add: string_bytes_def map_idI)
qed

lemma WriteXDRString_opaque: "WriteXDRString s = WriteXDROpaque (string_bytes s)"
  by (simp add: WriteXDRString_def WriteXDROpaque_def string_bytes_def Let_def)

interpretation xstring: codec string_ok WriteXDRString DecodeString
proof -
  have "codec string_ok (\<lambda>s. WriteXDROpaque (string_bytes s)) DecodeString"
    unfolding DecodeString_def
    by (rule codec_image [OF xopaque.codec_axioms])
      (simp_all add: string_ok_def opaque_ok_def string_bytes_inverse, simp add: string_bytes_def)
  then show "codec string_ok WriteXDRString DecodeString" unfolding WriteXDRString_opaque [abs_def] .
qed

section \<open>Attribute bitmaps\<close>

definition EncodeBitmap4 :: "u32 list \<Rightarrow> octets" where
  "EncodeBitmap4 bitmap = WriteUint32 (of_nat (length bitmap)) @ concat (map WriteUint32 bitmap)"

definition DecodeBitmap4 :: "u32 list decoder" where
  "DecodeBitmap4 = dbind DecodeUint32 (\<lambda>numWords.
     if numWords > 8 then dfail (BitmapTooLarge numWords) else decode_many DecodeUint32 (unat numWords))"

definition IsBitSet :: "u32 list \<Rightarrow> u32 \<Rightarrow> bool" where
  "IsBitSet bitmap b = (let word = b div 32 in
     if unat word \<ge> length bitmap then False
     else (bitmap ! unat word) AND push_bit (unat (b mod 32)) 1 \<noteq> 0)"

definition SetBit :: "u32 list \<Rightarrow> u32 \<Rightarrow> u32 list" where
  "SetBit bitmap b =
     (let word = b div 32;
          bitmap = bitmap @ replicate (Suc (unat word) - length bitmap) 0
      in bitmap[unat word := (bitmap ! unat word) OR push_bit (unat (b mod 32)) 1])"

definition ClearBit :: "u32 list \<Rightarrow> u32 \<Rightarrow> u32 list" where
  "ClearBit bitmap b = (let word = b div 32 in
     if unat word \<ge> length bitmap then bitmap
     else bitmap[unat word := (bitmap ! unat word) AND NOT (push_bit (unat (b mod 32)) 1)])"

definition Intersect :: "u32 list \<Rightarrow> u32 list \<Rightarrow> u32 list" where
  "Intersect request supported =
     (let minLen = (if length supported < length request then length supported else length request)
      in map (\<lambda>i. request ! i AND supported ! i) [0..<minLen])"

definition bitmap_ok :: "u32 list \<Rightarrow> bool" where
  "bitmap_ok bm \<longleftrightarrow> length bm \<le> 8"

lemma u32_list_codec: "codec (\<lambda>xs. length xs = n) (\<lambda>xs. concat (map WriteUint32 xs)) (decode_many DecodeUint32 n)"
proof
  fix xs :: "u32 list" and rest k
  assume len: "length xs = n"
  have all: "list_all (\<lambda>_. True) xs" by (simp add: list_all_iff)
  show "decode_many DecodeUint32 n (concat (map WriteUint32 xs) @ rest) = Inr (xs, rest)"
    using xu32.many_roundtrip [OF all] len by simp
  show "\<exists>e. decode_many DecodeUint32 n (take k (concat (map WriteUint32 xs))) = Inl e" if "k < length (concat (map WriteUint32 xs))"
    using xu32.many_truncated [OF all that] by (simp only: len)
  show "4 dvd length (concat (map WriteUint32 xs))" by (rule xu32.many_aligned [OF all])
qed

lemma bitmap_len:
  assumes "bitmap_ok bm"
  shows "unat (of_nat (length bm) :: u32) = length bm" and "\<not> (of_nat (length bm) :: u32) > 8"
proof -
  show len: "unat (of_nat (length bm) :: u32) = length bm"
    using assms by (simp add: bitmap_ok_def unat_of_nat take_bit_nat_eq_self)
  show "\<not> (of_nat (length bm) :: u32) > 8" using assms len by (simp add: bitmap_ok_def word_less_nat_alt)
qed

lemma bitmap_words_codec:
  "codec (\<lambda>bm. bitmap_ok bm \<and> of_nat (length bm) = a) (\<lambda>xs. concat (map WriteUint32 xs))
     (if a > 8 then dfail (BitmapTooLarge a) else decode_many DecodeUint32 (unat a))" (is "codec ?v ?e ?d")
proof
  fix bm rest n
  assume "?v bm"
  then have d: "?d = decode_many DecodeUint32 (length bm)" using bitmap_len [of bm] by auto
  note c = u32_list_codec [of "length bm"]
  show "?d (?e bm @ rest) = Inr (bm, rest)" unfolding d by (rule codec.roundtrip [OF c refl])
  show "\<exists>e. ?d (take n (?e bm)) = Inl e" if "n < length (?e bm)" unfolding d by (rule codec.truncated [OF c refl that])
  show "4 dvd length (?e bm)" by (rule codec.aligned [OF c refl])
qed

interpretation xbitmap: codec bitmap_ok EncodeBitmap4 DecodeBitmap4
proof -
  have "codec bitmap_ok (\<lambda>bm. WriteUint32 (of_nat (length bm)) @ concat (map WriteUint32 bm)) DecodeBitmap4"
    unfolding DecodeBitmap4_def by (rule codec_then [OF xu32.codec_axioms bitmap_words_codec]) simp
  then show "codec bitmap_ok EncodeBitmap4 DecodeBitmap4" unfolding EncodeBitmap4_def [abs_def] .
qed

section \<open>Bitmaps as sets of attribute numbers\<close>

definition bitmap_bits :: "u32 list \<Rightarrow> u32 set" where
  "bitmap_bits bm = {b. IsBitSet bm b}"

lemma IsBitSet_bit:
  "IsBitSet bm b \<longleftrightarrow> unat (b div 32) < length bm \<and> bit (bm ! unat (b div 32)) (unat (b mod 32))"
  by (simp add: IsBitSet_def Let_def not_le push_bit_of_1 and_pow_eq_0)

lemma bit_number_unique: "unat b div 32 = unat c div 32 \<Longrightarrow> unat b mod 32 = unat c mod 32 \<Longrightarrow> b = (c :: u32)"
  by (metis div_mult_mod_eq word_unat_eq_iff)

text \<open>C33: attribute bitmaps are sets of attribute numbers: the empty bitmap has none, setting a bit
  adds exactly it, whatever the length of the bitmap was, clearing one removes exactly it,
  and intersecting two bitmaps of any lengths keeps exactly the numbers both have.\<close>

theorem bitmap4_set_operations:
  "bitmap_bits [] = {} \<and> bitmap_bits (SetBit bm b) = insert b (bitmap_bits bm)
   \<and> bitmap_bits (ClearBit bm b) = bitmap_bits bm - {b}
   \<and> bitmap_bits (Intersect bm bm') = bitmap_bits bm \<inter> bitmap_bits bm'"
proof (intro conjI)
  have small: "unat (c mod 32) < 32" for c :: u32 using word_mod_less_divisor [of 32 c] by (simp add: word_less_nat_alt)
  have same: "b = c \<longleftrightarrow> unat (b div 32) = unat (c div 32) \<and> unat (b mod 32) = unat (c mod 32)" for c
    using bit_number_unique [of b c] by (auto simp: unat_div unat_mod)
  show "bitmap_bits [] = {}" by (simp add: bitmap_bits_def IsBitSet_def)
  show "bitmap_bits (SetBit bm b) = insert b (bitmap_bits bm)"
  proof (rule set_eqI)
    fix c
    show "c \<in> bitmap_bits (SetBit bm b) \<longleftrightarrow> c \<in> insert b (bitmap_bits bm)"
      using small [of c] small [of b] same [of c]
      by (auto simp: bitmap_bits_def IsBitSet_bit SetBit_def Let_def nth_list_update nth_append bit_simps)
  qed
  show "bitmap_bits (ClearBit bm b) = bitmap_bits bm - {b}"
  proof (rule set_eqI)
    fix c
    show "c \<in> bitmap_bits (ClearBit bm b) \<longleftrightarrow> c \<in> bitmap_bits bm - {b}"
      using small [of c] small [of b] same [of c]
      by (auto simp: bitmap_bits_def IsBitSet_bit ClearBit_def Let_def nth_list_update bit_simps)
  qed
  show "bitmap_bits (Intersect bm bm') = bitmap_bits bm \<inter> bitmap_bits bm'"
    by (auto simp: bitmap_bits_def IsBitSet_bit Intersect_def Let_def bit_simps)
qed

end
