(* ===== verification/XDR_Messages.thy ===== *)
theory XDR_Messages
  imports XDR_Core
begin

text \<open>
  Messages as sequences of XDR items, and what the decoders do on bytes nobody wrote: the locale
  \<open>strict_codec\<close> extends \<open>codec\<close> with what a successful read says about arbitrary
  input.
\<close>

section \<open>Arbitrary input\<close>

text \<open>Whatever the bytes, a value that is read is within the limits of its kind and takes from the
  stream exactly as many bytes as writing it would.\<close>

locale strict_codec = codec +
  assumes sound: "dec r = Inr (x, rest) \<Longrightarrow> valid x \<and> (\<exists>p. r = p @ rest \<and> length p = length (enc x))"
begin

lemma consumed: "dec r = Inr (x, rest) \<Longrightarrow> length r = length (enc x) + length rest"
  using sound [of r x rest] by auto

lemma short_input_rejected:
  assumes "\<And>x. valid x \<Longrightarrow> length r < length (enc x)"
  shows "\<exists>e. dec r = Inl e"
proof (cases "dec r")
  case (Inr y)
  obtain x rest where y: "y = (x, rest)" by (cases y)
  from Inr consumed [of r x rest] sound [of r x rest] assms [of x] show ?thesis by (simp add: y)
qed simp

end

lemma ReadFull_sound: "ReadFull what n r = Inr (b, rest) \<Longrightarrow> r = b @ rest \<and> length b = n"
  by (auto simp: ReadFull_def split: if_splits)

lemma dbind_Inr: "dbind d f r = Inr y \<longleftrightarrow> (\<exists>x r'. d r = Inr (x, r') \<and> f x r' = Inr y)"
  by (auto simp: dbind_def split: sum.splits prod.splits)

lemma fixed_strict:
  assumes "codec (\<lambda>_. True) w (dbind (ReadFull what n) (\<lambda>b. dreturn (val b)))" and "\<And>v. length (w v) = n"
  shows "strict_codec (\<lambda>_. True) w (dbind (ReadFull what n) (\<lambda>b. dreturn (val b)))"
proof (rule strict_codec.intro [OF assms(1)], standard)
  fix r x rest
  assume "dbind (ReadFull what n) (\<lambda>b. dreturn (val b)) r = Inr (x, rest)"
  then obtain b where "ReadFull what n r = Inr (b, rest)" by (auto simp: dbind_Inr)
  from ReadFull_sound [OF this] show "True \<and> (\<exists>p. r = p @ rest \<and> length p = length (w x))" using assms(2) by auto
qed

interpretation su32: strict_codec "\<lambda>_. True" WriteUint32 DecodeUint32
  unfolding DecodeUint32_def by (rule fixed_strict [OF xu32.codec_axioms [unfolded DecodeUint32_def]]) (simp add: WriteUint32_def)

interpretation su64: strict_codec "\<lambda>_. True" WriteUint64 DecodeUint64
  unfolding DecodeUint64_def by (rule fixed_strict [OF xu64.codec_axioms [unfolded DecodeUint64_def]]) (simp add: WriteUint64_def)

interpretation si32: strict_codec "\<lambda>_. True" WriteInt32 DecodeInt32
  unfolding DecodeInt32_def by (rule fixed_strict [OF xi32.codec_axioms [unfolded DecodeInt32_def]]) (simp add: WriteInt32_def)

interpretation si64: strict_codec "\<lambda>_. True" WriteInt64 DecodeInt64
  unfolding DecodeInt64_def by (rule fixed_strict [OF xi64.codec_axioms [unfolded DecodeInt64_def]]) (simp add: WriteInt64_def)

lemma strict_image:
  assumes s: "strict_codec v e d" and c: "codec v' e' (dbind d (\<lambda>y. dreturn (f y)))"
    and ok: "\<And>y. v y \<Longrightarrow> v' (f y) \<and> length (e' (f y)) = length (e y)"
  shows "strict_codec v' e' (dbind d (\<lambda>y. dreturn (f y)))"
proof (rule strict_codec.intro [OF c], standard)
  fix r x rest
  assume "dbind d (\<lambda>y. dreturn (f y)) r = Inr (x, rest)"
  then obtain y where y: "d r = Inr (y, rest)" "x = f y" by (auto simp: dbind_Inr)
  from strict_codec.sound [OF s y(1)] show "v' x \<and> (\<exists>p. r = p @ rest \<and> length p = length (e' x))"
    using ok [of y] by (auto simp: y(2))
qed

interpretation sbool: strict_codec "\<lambda>_. True" WriteBool DecodeBool
  unfolding DecodeBool_def
  by (rule strict_image [OF su32.strict_codec_axioms xbool.codec_axioms [unfolded DecodeBool_def]])
    (simp add: WriteBool_def WriteUint32_def)

lemma opaque_tail_sound:
  assumes "opaque_tail len r = Inr (data, rest)"
  shows "length data = unat len \<and> (\<exists>pad. r = data @ pad @ rest \<and> length pad = (4 - unat len mod 4) mod 4)"
proof -
  obtain r' where data: "ReadFull ''read data'' (unat len) r = Inr (data, r')"
    and pad: "(if (4 - (len mod 4)) mod 4 > 0 then dbind (ReadFull ''skip padding'' (unat ((4 - (len mod 4)) mod 4))) (\<lambda>_. dreturn data) r'
       else dreturn data r') = Inr (data, rest)"
    using assms by (auto simp: opaque_tail_def dbind_Inr Let_def split: if_splits)
  have "\<exists>p. r' = p @ rest \<and> length p = unat ((4 - (len mod 4)) mod 4 :: u32)"
  proof (cases "(4 - (len mod 4)) mod 4 > 0")
    case True
    then obtain p where "ReadFull ''skip padding'' (unat ((4 - (len mod 4)) mod 4 :: u32)) r' = Inr (p, rest)"
      using pad by (auto simp: dbind_Inr)
    from ReadFull_sound [OF this] show ?thesis by blast
  next
    case False
    then show ?thesis using pad by (auto simp: word_less_nat_alt)
  qed
  then show ?thesis using ReadFull_sound [OF data] by (auto simp: padding_unat)
qed

interpretation sopaque: strict_codec opaque_ok WriteXDROpaque DecodeOpaque
proof
  fix r x rest
  assume "DecodeOpaque r = Inr (x, rest)"
  then obtain b r' where b: "ReadFull ''read length'' 4 r = Inr (b, r')"
    and len: "\<not> (be_value b :: u32) > maxOpaqueLength" and tail: "opaque_tail (be_value b) r' = Inr (x, rest)"
    unfolding DecodeOpaque_def dbind_Inr Let_def
    by (auto simp: opaque_tail_def Let_def split: if_splits)
  from opaque_tail_sound [OF tail] obtain pad where x: "length x = unat (be_value b :: u32)"
    and r': "r' = x @ pad @ rest" "length pad = (4 - length x mod 4) mod 4" by auto
  have ok: "opaque_ok x" using len x by (simp add: opaque_ok_def word_less_nat_alt)
  moreover have "r = (b @ x @ pad) @ rest" using ReadFull_sound [OF b] r'(1) by simp
  moreover have "length (b @ x @ pad) = length (WriteXDROpaque x)"
    using ReadFull_sound [OF b] r'(2) opaque_len(3) [OF ok] by (simp add: WriteXDROpaque_def Let_def)
  ultimately show "opaque_ok x \<and> (\<exists>p. r = p @ rest \<and> length p = length (WriteXDROpaque x))" by blast
qed

interpretation sstring: strict_codec string_ok WriteXDRString DecodeString
  unfolding DecodeString_def
proof (rule strict_image [OF sopaque.strict_codec_axioms xstring.codec_axioms [unfolded DecodeString_def]])
  fix y assume "opaque_ok y"
  then show "string_ok (map (\<lambda>b. char_of (unat b)) y) \<and> length (WriteXDRString (map (\<lambda>b. char_of (unat b)) y)) = length (WriteXDROpaque y)"
    by (simp add: string_ok_def opaque_ok_def WriteXDRString_def WriteXDROpaque_def string_bytes_def Let_def)
qed

lemma strict_then:
  assumes s: "strict_codec v1 e1 d1" and c: "codec v e (dbind d1 d2)"
    and tail: "\<And>a r x rest. v1 a \<Longrightarrow> d2 a r = Inr (x, rest) \<Longrightarrow>
      v x \<and> (\<exists>p. r = p @ rest \<and> length (e1 a) + length p = length (e x))"
  shows "strict_codec v e (dbind d1 d2)"
proof (rule strict_codec.intro [OF c], standard)
  fix r x rest
  assume "dbind d1 d2 r = Inr (x, rest)"
  then obtain a r' where a: "d1 r = Inr (a, r')" and x: "d2 a r' = Inr (x, rest)" by (auto simp: dbind_Inr)
  from strict_codec.sound [OF s a] obtain p where p: "v1 a" "r = p @ r'" "length p = length (e1 a)" by blast
  from tail [OF p(1) x] obtain q where "v x" "r' = q @ rest" "length (e1 a) + length q = length (e x)" by blast
  then show "v x \<and> (\<exists>p. r = p @ rest \<and> length p = length (e x))" using p by (intro conjI exI [of _ "p @ q"]) auto
qed

lemma decode_many_u32_sound:
  "decode_many DecodeUint32 n r = Inr (xs, rest) \<Longrightarrow> length xs = n \<and> (\<exists>p. r = p @ rest \<and> length p = 4 * n)"
proof (induction n arbitrary: r xs)
  case (Suc n)
  then obtain x r' ys where x: "DecodeUint32 r = Inr (x, r')" and ys: "decode_many DecodeUint32 n r' = Inr (ys, rest)" "xs = x # ys"
    by (auto simp: dbind_Inr)
  from su32.sound [OF x] obtain p where "r = p @ r'" "length p = 4" by (auto simp: WriteUint32_def)
  moreover from Suc.IH [OF ys(1)] obtain q where "length ys = n" "r' = q @ rest" "length q = 4 * n" by blast
  ultimately show ?case using ys(2) by (intro conjI exI [of _ "p @ q"]) auto
qed simp

interpretation sbitmap: strict_codec bitmap_ok EncodeBitmap4 DecodeBitmap4
  unfolding DecodeBitmap4_def
proof (rule strict_then [OF su32.strict_codec_axioms xbitmap.codec_axioms [unfolded DecodeBitmap4_def]])
  fix a :: u32 and r x rest
  assume "(if a > 8 then dfail (BitmapTooLarge a) else decode_many DecodeUint32 (unat a)) r = Inr (x, rest)"
  then have small: "\<not> a > 8" and many: "decode_many DecodeUint32 (unat a) r = Inr (x, rest)" by (auto split: if_splits)
  have "length (EncodeBitmap4 x) = 4 + 4 * length x" for x
    by (induction x) (simp_all add: EncodeBitmap4_def WriteUint32_def)
  then show "bitmap_ok x \<and> (\<exists>p. r = p @ rest \<and> length (WriteUint32 a) + length p = length (EncodeBitmap4 x))"
    using decode_many_u32_sound [OF many] small by (auto simp: bitmap_ok_def WriteUint32_def word_less_nat_alt)
qed

section \<open>Messages\<close>

text \<open>A message is a sequence of items; its reader knows their kinds.\<close>

datatype xdr_item = XUint32 u32 | XUint64 u64 | XInt32 "32 word" | XInt64 "64 word" | XBool bool
  | XOpaque octets | XString string | XBitmap "u32 list"

datatype xdr_kind = KUint32 | KUint64 | KInt32 | KInt64 | KBool | KOpaque | KString | KBitmap

fun kind_of :: "xdr_item \<Rightarrow> xdr_kind" where
  "kind_of (XUint32 _) = KUint32" | "kind_of (XUint64 _) = KUint64" | "kind_of (XInt32 _) = KInt32"
| "kind_of (XInt64 _) = KInt64" | "kind_of (XBool _) = KBool" | "kind_of (XOpaque _) = KOpaque"
| "kind_of (XString _) = KString" | "kind_of (XBitmap _) = KBitmap"

fun write_item :: "xdr_item \<Rightarrow> octets" where
  "write_item (XUint32 v) = WriteUint32 v" | "write_item (XUint64 v) = WriteUint64 v"
| "write_item (XInt32 v) = WriteInt32 v" | "write_item (XInt64 v) = WriteInt64 v"
| "write_item (XBool v) = WriteBool v" | "write_item (XOpaque v) = WriteXDROpaque v"
| "write_item (XString v) = WriteXDRString v" | "write_item (XBitmap v) = EncodeBitmap4 v"

definition dmap :: "('a \<Rightarrow> 'b) \<Rightarrow> 'a decoder \<Rightarrow> 'b decoder" where
  "dmap f d = dbind d (\<lambda>x. dreturn (f x))"

fun read_item :: "xdr_kind \<Rightarrow> xdr_item decoder" where
  "read_item KUint32 = dmap XUint32 DecodeUint32" | "read_item KUint64 = dmap XUint64 DecodeUint64"
| "read_item KInt32 = dmap XInt32 DecodeInt32" | "read_item KInt64 = dmap XInt64 DecodeInt64"
| "read_item KBool = dmap XBool DecodeBool" | "read_item KOpaque = dmap XOpaque DecodeOpaque"
| "read_item KString = dmap XString DecodeString" | "read_item KBitmap = dmap XBitmap DecodeBitmap4"

fun item_ok :: "xdr_item \<Rightarrow> bool" where
  "item_ok (XOpaque v) = opaque_ok v" | "item_ok (XString v) = string_ok v" | "item_ok (XBitmap v) = bitmap_ok v"
| "item_ok _ = True"

fun read_message :: "xdr_kind list \<Rightarrow> xdr_item list decoder" where
  "read_message [] = dreturn []"
| "read_message (k # ks) = dbind (read_item k) (\<lambda>x. dmap (Cons x) (read_message ks))"

definition write_message :: "xdr_item list \<Rightarrow> octets" where
  "write_message items = concat (map write_item items)"

lemma codec_wrap:
  assumes "codec v e d" and "\<And>x. P x \<Longrightarrow> \<exists>y. x = C y \<and> v y" and "\<And>y. write (C y) = e y"
  shows "codec P write (dmap C d)"
proof
  fix x rest n
  assume "P x"
  then obtain y where x: "x = C y" and y: "v y" using assms(2) by blast
  note c = codec.roundtrip [OF assms(1) y] codec.truncated [OF assms(1) y] codec.aligned [OF assms(1) y]
  show "dmap C d (write x @ rest) = Inr (x, rest)" using c(1) by (simp add: x assms(3) dmap_def)
  show "\<exists>err. dmap C d (take n (write x)) = Inl err" if "n < length (write x)"
  proof -
    have "n < length (e y)" using that by (simp add: x assms(3))
    then obtain err where "d (take n (e y)) = Inl err" using c(2) by blast
    then show ?thesis by (simp add: x assms(3) dmap_def)
  qed
  show "4 dvd length (write x)" using c(3) by (simp add: x assms(3))
qed

lemma item_codec: "codec (\<lambda>x. item_ok x \<and> kind_of x = k) write_item (read_item k)"
proof (cases k)
  case KUint32
  show ?thesis unfolding KUint32 read_item.simps
    by (rule codec_wrap [OF xu32.codec_axioms]) (auto elim: kind_of.elims)
next
  case KUint64
  show ?thesis unfolding KUint64 read_item.simps
    by (rule codec_wrap [OF xu64.codec_axioms]) (auto elim: kind_of.elims)
next
  case KInt32
  show ?thesis unfolding KInt32 read_item.simps
    by (rule codec_wrap [OF xi32.codec_axioms]) (auto elim: kind_of.elims)
next
  case KInt64
  show ?thesis unfolding KInt64 read_item.simps
    by (rule codec_wrap [OF xi64.codec_axioms]) (auto elim: kind_of.elims)
next
  case KBool
  show ?thesis unfolding KBool read_item.simps
    by (rule codec_wrap [OF xbool.codec_axioms]) (auto elim: kind_of.elims)
next
  case KOpaque
  show ?thesis unfolding KOpaque read_item.simps
    by (rule codec_wrap [OF xopaque.codec_axioms]) (auto elim: kind_of.elims)
next
  case KString
  show ?thesis unfolding KString read_item.simps
    by (rule codec_wrap [OF xstring.codec_axioms]) (auto elim: kind_of.elims)
next
  case KBitmap
  show ?thesis unfolding KBitmap read_item.simps
    by (rule codec_wrap [OF xbitmap.codec_axioms]) (auto elim: kind_of.elims)
qed

lemma codec_cong:
  assumes c: "codec v e d" and eq: "\<And>x. v x \<Longrightarrow> e x = e' x"
  shows "codec v e' d"
proof
  fix x rest n
  assume x: "v x"
  show "d (e' x @ rest) = Inr (x, rest)" using codec.roundtrip [OF c x, of rest] by (simp only: eq [OF x])
  show "\<exists>err. d (take n (e' x)) = Inl err" if "n < length (e' x)"
    using codec.truncated [OF c x, of n] that by (simp only: eq [OF x])
  show "4 dvd length (e' x)" using codec.aligned [OF c x] by (simp only: eq [OF x])
qed

definition message_ok :: "xdr_kind list \<Rightarrow> xdr_item list \<Rightarrow> bool" where
  "message_ok kinds items \<longleftrightarrow> list_all item_ok items \<and> map kind_of items = kinds"

lemma message_codec: "codec (message_ok kinds) write_message (read_message kinds)"
proof (induction kinds)
  case Nil
  show ?case by standard (simp_all add: write_message_def message_ok_def)
next
  case (Cons k ks)
  have tail: "codec (\<lambda>xs. message_ok (k # ks) xs \<and> hd xs = a) (\<lambda>xs. write_message (tl xs)) (dmap (Cons a) (read_message ks))" for a
    by (rule codec_wrap [OF Cons.IH]) (auto simp: message_ok_def neq_Nil_conv)
  have "codec (message_ok (k # ks)) (\<lambda>xs. write_item (hd xs) @ write_message (tl xs)) (read_message (k # ks))"
    unfolding read_message.simps
    by (rule codec_then [OF item_codec tail]) (auto simp: message_ok_def)
  then show ?case
    by (rule codec_cong) (auto simp: message_ok_def write_message_def)
qed


lemma strict_wrap:
  assumes s: "strict_codec v e d" and c: "codec P write (dmap C d)" and "\<And>y. v y \<Longrightarrow> P (C y)" and "\<And>y. write (C y) = e y"
  shows "strict_codec P write (dmap C d)"
  unfolding dmap_def by (rule strict_image [OF s c [unfolded dmap_def]]) (simp add: assms(3,4))

lemma item_strict: "strict_codec (\<lambda>x. item_ok x \<and> kind_of x = k) write_item (read_item k)"
proof (cases k)
  case KUint32
  show ?thesis unfolding KUint32 read_item.simps
    by (rule strict_wrap [OF su32.strict_codec_axioms item_codec [of KUint32, unfolded read_item.simps]]) simp_all
next
  case KUint64
  show ?thesis unfolding KUint64 read_item.simps
    by (rule strict_wrap [OF su64.strict_codec_axioms item_codec [of KUint64, unfolded read_item.simps]]) simp_all
next
  case KInt32
  show ?thesis unfolding KInt32 read_item.simps
    by (rule strict_wrap [OF si32.strict_codec_axioms item_codec [of KInt32, unfolded read_item.simps]]) simp_all
next
  case KInt64
  show ?thesis unfolding KInt64 read_item.simps
    by (rule strict_wrap [OF si64.strict_codec_axioms item_codec [of KInt64, unfolded read_item.simps]]) simp_all
next
  case KBool
  show ?thesis unfolding KBool read_item.simps
    by (rule strict_wrap [OF sbool.strict_codec_axioms item_codec [of KBool, unfolded read_item.simps]]) simp_all
next
  case KOpaque
  show ?thesis unfolding KOpaque read_item.simps
    by (rule strict_wrap [OF sopaque.strict_codec_axioms item_codec [of KOpaque, unfolded read_item.simps]]) simp_all
next
  case KString
  show ?thesis unfolding KString read_item.simps
    by (rule strict_wrap [OF sstring.strict_codec_axioms item_codec [of KString, unfolded read_item.simps]]) simp_all
next
  case KBitmap
  show ?thesis unfolding KBitmap read_item.simps
    by (rule strict_wrap [OF sbitmap.strict_codec_axioms item_codec [of KBitmap, unfolded read_item.simps]]) simp_all
qed

lemma message_strict: "strict_codec (message_ok kinds) write_message (read_message kinds)"
proof (induction kinds)
  case Nil
  show ?case by (rule strict_codec.intro [OF message_codec], standard) (auto simp: message_ok_def write_message_def)
next
  case (Cons k ks)
  show ?case unfolding read_message.simps
  proof (rule strict_then [OF item_strict message_codec [of "k # ks", unfolded read_message.simps]])
    fix a r x rest
    assume a: "item_ok a \<and> kind_of a = k" and "dmap (Cons a) (read_message ks) r = Inr (x, rest)"
    then obtain xs where xs: "read_message ks r = Inr (xs, rest)" "x = a # xs" by (auto simp: dmap_def dbind_Inr)
    from strict_codec.sound [OF Cons.IH xs(1)]
    show "message_ok (k # ks) x \<and> (\<exists>p. r = p @ rest \<and> length (write_item a) + length p = length (write_message x))"
      using a by (auto simp: xs(2) message_ok_def write_message_def)
  qed
qed



text \<open>C19: on arbitrary bytes, a message that is read has items of exactly the expected kinds, each
  within its limit (one MiB for opaques and strings, eight words for bitmaps), and takes from the
  stream exactly as many bytes as writing those items does, so what is kept never exceeds what
  was sent.\<close>

theorem decoded_messages_well_typed:
  assumes "read_message kinds bs = Inr (items, rest)"
  shows "map kind_of items = kinds \<and> list_all item_ok items
    \<and> (\<exists>p. bs = p @ rest \<and> length p = length (write_message items))"
  using strict_codec.sound [OF message_strict assms] by (simp add: message_ok_def)

theorem decoded_messages_well_typed_witness:
  "read_message [KBool, KOpaque] [0, 0, 0, 5, 0, 0, 0, 1, 7, 1, 2, 3, 9] = Inr ([XBool True, XOpaque [7]], [9])
    \<and> (\<exists>p :: octets. [0, 0, 0, 5, 0, 0, 0, 1, 7, 1, 2, 3, 9] = p @ [9] \<and> length p = length (write_message [XBool True, XOpaque [7]]))"
proof -
  have r: "read_message [KBool, KOpaque] [0, 0, 0, 5, 0, 0, 0, 1, 7, 1, 2, 3, 9] = Inr ([XBool True, XOpaque [7]], [9])"
    by code_simp
  show ?thesis using decoded_messages_well_typed [OF r] r by blast
qed

end
