(* ===== verification/MD_Types.thy ===== *)
theory MD_Types
  imports ACL_Inherit ACL_Mode "HOL-Library.AList"
begin

text \<open>
  The data of the metadata service (\<open>pkg/metadata\<close>: \<open>file_types.go\<close>, \<open>types.go\<close>,
  \<open>file_helpers.go\<close>, \<open>validation.go\<close>, \<open>auth_identity.go\<close>, \<open>errors/errors.go\<close>): files and their
  attributes, handles, identities, the validation of names and the defaults of a new file.

  A \<open>time.Time\<close> is a natural number with 0 for the zero time; a byte string is a list of characters.
  A \<open>StoreError\<close> is its code (message and path are for the log).  UUIDs are 16 bytes, here a
  \<open>128 word\<close>; printing and parsing them is the work of \<open>github.com/google/uuid\<close>, which is a
  parameter.  Optional pointers are options; a Go slice that is nil and one that is empty are both
  the empty list, as no operation here tells them apart.
\<close>

section \<open>Errors and results\<close>

datatype ErrorCode =
    ErrNotFound | ErrAccessDenied | ErrAuthRequired | ErrPermissionDenied | ErrAlreadyExists
  | ErrNotEmpty | ErrIsDirectory | ErrNotDirectory | ErrInvalidArgument | ErrIOError | ErrNoSpace
  | ErrQuotaExceeded | ErrReadOnly | ErrNotSupported | ErrInvalidHandle | ErrStaleHandle
  | ErrLockedFile | ErrNoSuchLock | ErrPrivilegeRequired | ErrNameTooLong | ErrDeadlock
  | ErrGracePeriod | ErrLockLimitExceeded | ErrConflictingLock | ErrConnectionLimitReached | ErrConflict

text \<open>An operation fails with a store error, with a plain \<open>fmt.Errorf\<close> error, or by a panic of the
  runtime (a nil pointer).\<close>

datatype md_error = StoreError ErrorCode | HandleTooLong | RuntimePanic

type_synonym 'a res = "md_error + 'a"

abbreviation (input) fail :: "ErrorCode \<Rightarrow> 'a res" where "fail c \<equiv> Inl (StoreError c)"

text \<open>\<open>x, err := m; if err != nil \{ return err \}\<close>.\<close>

definition bindR :: "'e + 'a \<Rightarrow> ('a \<Rightarrow> 'e + 'b) \<Rightarrow> 'e + 'b" where
  "bindR m f = (case m of Inl e \<Rightarrow> Inl e | Inr x \<Rightarrow> f x)"

definition unlessR :: "bool \<Rightarrow> 'e \<Rightarrow> 'e + 'a \<Rightarrow> 'e + 'a" where
  "unlessR b e k = (if b then Inl e else k)"

definition IsNotFoundError :: "md_error \<Rightarrow> bool" where
  "IsNotFoundError e = (e = StoreError ErrNotFound)"

lemma bindR_simps [simp]: "bindR (Inl e) f = Inl e" "bindR (Inr x) f = f x"
  by (simp_all add: bindR_def)

lemma bindR_Inr [simp]: "bindR m f = Inr y \<longleftrightarrow> (\<exists>x. m = Inr x \<and> f x = Inr y)"
  by (cases m) auto

lemma unlessR_simps [simp]: "unlessR True e k = Inl e" "unlessR False e k = k"
  by (simp_all add: unlessR_def)

lemma unlessR_Inr [simp]: "unlessR b e k = Inr y \<longleftrightarrow> \<not> b \<and> k = Inr y"
  by (simp add: unlessR_def)

section \<open>Files\<close>

datatype FileType = FileTypeRegular | FileTypeDirectory | FileTypeSymlink | FileTypeBlockDevice
  | FileTypeCharDevice | FileTypeSocket | FileTypeFIFO

type_synonym md_time = nat
type_synonym UUID = "128 word"
type_synonym ContentHash = "256 word"
type_synonym FileHandle = string

record ChunkRef =
  crHash :: ContentHash
  crOffset :: u64
  crSize :: u32

record FileAttr =
  faType :: FileType
  faMode :: u32
  faUID :: u32
  faGID :: u32
  faNlink :: u32
  faSize :: u64
  faAtime :: md_time
  faMtime :: md_time
  faCtime :: md_time
  faCreationTime :: md_time
  faPayloadID :: string
  faLinkTarget :: string
  faRdev :: u64
  faHidden :: bool
  faACL :: "ACL option"
  faEAs :: "(string \<times> string) list"
  faIdempotencyToken :: u64
  faBlocks :: "ChunkRef list"
  faBlocksDirty :: bool
  faObjectID :: ContentHash
  faDeletedAt :: "md_time option"
  faOriginalPath :: string
  faDeletedBy :: string

record File =
  fID :: UUID
  fShareName :: string
  fPath :: string
  fAttr :: FileAttr

abbreviation (input) is_dir :: "FileAttr \<Rightarrow> bool" where "is_dir a \<equiv> faType a = FileTypeDirectory"

record EAMutation =
  eaName :: string
  eaValue :: string
  eaDelete :: bool

record SetAttrs =
  saMode :: "u32 option"
  saModeOrMask :: "u32 option"
  saModeAndNotMask :: "u32 option"
  saUID :: "u32 option"
  saGID :: "u32 option"
  saSize :: "u64 option"
  saAtime :: "md_time option"
  saMtime :: "md_time option"
  saAtimeNow :: bool
  saMtimeNow :: bool
  saCreationTime :: "md_time option"
  saCtime :: "md_time option"
  saHidden :: "bool option"
  saACL :: "ACL option"
  saEAMutations :: "EAMutation list"

text \<open>Extended attributes are matched without regard to case; \<open>efold\<close> stands for the Unicode case
  folding of \<open>strings.EqualFold\<close>.\<close>

definition findEAKey :: "(string \<Rightarrow> string \<Rightarrow> bool) \<Rightarrow> (string \<times> string) list \<Rightarrow> string \<Rightarrow> string option" where
  "findEAKey efold eas name =
     (if map_of eas name \<noteq> None then Some name else find (\<lambda>k. efold k name) (map fst eas))"

definition LookupEA :: "(string \<Rightarrow> string \<Rightarrow> bool) \<Rightarrow> FileAttr \<Rightarrow> string \<Rightarrow> string option" where
  "LookupEA efold a name = (case findEAKey efold (faEAs a) name of None \<Rightarrow> None | Some k \<Rightarrow> map_of (faEAs a) k)"

definition apply_ea :: "(string \<Rightarrow> string \<Rightarrow> bool) \<Rightarrow> EAMutation \<Rightarrow> (string \<times> string) list \<Rightarrow> (string \<times> string) list" where
  "apply_ea efold m eas =
     (case findEAKey efold eas (eaName m) of
        None \<Rightarrow> if eaDelete m then eas else AList.update (eaName m) (eaValue m) eas
      | Some k \<Rightarrow> if eaDelete m then AList.delete k eas else AList.update k (eaValue m) eas)"

definition ApplyEAMutations :: "(string \<Rightarrow> string \<Rightarrow> bool) \<Rightarrow> EAMutation list \<Rightarrow> FileAttr \<Rightarrow> FileAttr" where
  "ApplyEAMutations efold muts a = a\<lparr>faEAs := fold (apply_ea efold) muts (faEAs a)\<rparr>"

definition CopyFileAttr :: "FileAttr \<Rightarrow> FileAttr" where
  "CopyFileAttr a = \<lparr>faType = faType a, faMode = faMode a, faUID = faUID a, faGID = faGID a, faNlink = faNlink a,
     faSize = faSize a, faAtime = faAtime a, faMtime = faMtime a, faCtime = faCtime a,
     faCreationTime = faCreationTime a, faPayloadID = faPayloadID a, faLinkTarget = faLinkTarget a,
     faRdev = faRdev a, faHidden = faHidden a,
     faACL = map_option (\<lambda>acl. \<lparr>aclACEs = aclACEs acl, aclSource = ACLSourceUnknown, aclProtected = False,
       aclAutoInherited = False, aclNullDACL = False, aclSACL = None\<rparr>) (faACL a),
     faEAs = [], faIdempotencyToken = 0, faBlocks = [], faBlocksDirty = False, faObjectID = 0,
     faDeletedAt = None, faOriginalPath = [], faDeletedBy = []\<rparr>"

section \<open>Handles, paths and device numbers\<close>

record uuid_package =
  uuid_String :: "UUID \<Rightarrow> string"
  uuid_Parse :: "string \<Rightarrow> UUID option"

text \<open>What the package documents: a printed UUID parses to itself.\<close>

definition uuid_ok :: "uuid_package \<Rightarrow> bool" where
  "uuid_ok U = (\<forall>x. uuid_Parse U (uuid_String U x) = Some x)"

definition EncodeShareHandle :: "uuid_package \<Rightarrow> string \<Rightarrow> UUID \<Rightarrow> FileHandle res" where
  "EncodeShareHandle U shareName u =
     (let encoded = shareName @ '':'' @ uuid_String U u
      in if length encoded > 64 then Inl HandleTooLong else Inr encoded)"

definition DecodeFileHandle :: "uuid_package \<Rightarrow> FileHandle \<Rightarrow> (string \<times> UUID) res" where
  "DecodeFileHandle U handle =
     (let shareName = takeWhile (\<lambda>c. c \<noteq> CHR '':'') handle in
      unlessR (length shareName = length handle) (StoreError ErrInvalidHandle) (
      unlessR (shareName = []) (StoreError ErrInvalidHandle) (
      case uuid_Parse U (drop (Suc (length shareName)) handle) of
        None \<Rightarrow> fail ErrInvalidHandle
      | Some u \<Rightarrow> Inr (shareName, u))))"

definition buildPath :: "string \<Rightarrow> string \<Rightarrow> string" where
  "buildPath parentPath childName =
     (if parentPath = ''/'' then ''/'' @ childName else parentPath @ ''/'' @ childName)"

definition buildPayloadID :: "uuid_package \<Rightarrow> string \<Rightarrow> UUID \<Rightarrow> string" where
  "buildPayloadID U shareName u = trim_prefix shareName ''/'' @ ''/'' @ uuid_String U u"

definition MakeRdev :: "u32 \<Rightarrow> u32 \<Rightarrow> u64" where
  "MakeRdev major minor = push_bit 20 (ucast major) OR ucast (minor AND 0xFFFFF)"

definition RdevMajor :: "u64 \<Rightarrow> u32" where
  "RdevMajor rdev = ucast (drop_bit 20 rdev)"

definition RdevMinor :: "u64 \<Rightarrow> u32" where
  "RdevMinor rdev = ucast (rdev AND 0xFFFFF)"

definition GetInitialLinkCount :: "FileType \<Rightarrow> u32" where
  "GetInitialLinkCount fileType = (if fileType = FileTypeDirectory then 2 else 1)"

text \<open>\<open>sort.Slice\<close> by offset is not stable; the refs of a file have distinct offsets, where any sort
  gives the same list.\<close>

definition PruneChunkRefsToSize :: "ChunkRef list \<Rightarrow> u64 \<Rightarrow> ChunkRef list" where
  "PruneChunkRefsToSize refs newSize = sort_key crOffset (filter (\<lambda>r. crOffset r < newSize) refs)"

section \<open>Identities\<close>

record Identity =
  idUID :: "u32 option"
  idGID :: "u32 option"
  idGIDs :: "u32 list"
  idSID :: "string option"
  idGroupSIDs :: "string list"
  idUsername :: string
  idDomain :: string

record AuthContext =
  acIdentity :: "Identity option"
  acAuthMethod :: string
  acClientAddr :: string
  acShareReadOnly :: bool
  acWriteAuthorizedByHandle :: bool
  acLockClientID :: string
  acParentLeaseKey :: "u8 list option"
  acHasDeleteAccess :: bool
  acBypassTraverseChecking :: bool

record IdentityMapping =
  imMapAllToAnonymous :: bool
  imMapPrivilegedToAnonymous :: bool
  imAnonymousUID :: "u32 option"
  imAnonymousGID :: "u32 option"
  imAnonymousSID :: "string option"

definition HasGID :: "Identity \<Rightarrow> u32 \<Rightarrow> bool" where
  "HasGID i gid = (gid \<in> set (idGIDs i))"

text \<open>The pattern of the privileged SIDs is the one of the \<open>acl\<close> package.\<close>

definition IsAdministratorSID :: "string \<Rightarrow> bool" where
  "IsAdministratorSID sid = (sid \<noteq> [] \<and> (sid = ''S-1-5-32-544'' \<or> domainAdminSIDPattern sid))"

definition ApplyIdentityMapping :: "Identity \<Rightarrow> IdentityMapping option \<Rightarrow> Identity" where
  "ApplyIdentityMapping i mapping =
     (case mapping of
        None \<Rightarrow> i
      | Some m \<Rightarrow>
          if imMapAllToAnonymous m
          then \<lparr>idUID = imAnonymousUID m, idGID = imAnonymousGID m, idGIDs = [], idSID = imAnonymousSID m,
                idGroupSIDs = [], idUsername = [], idDomain = []\<rparr>
          else if imMapPrivilegedToAnonymous m
          then (let r = (if idUID i = Some 0
                         then i\<lparr>idUID := imAnonymousUID m, idGID := imAnonymousGID m, idGIDs := []\<rparr> else i)
                in case idSID r of
                     Some sid \<Rightarrow> if IsAdministratorSID sid then r\<lparr>idSID := imAnonymousSID m, idGroupSIDs := []\<rparr> else r
                   | None \<Rightarrow> r)
          else i)"

text \<open>The caller's numeric id, where there is one.\<close>

definition callerUID :: "AuthContext \<Rightarrow> u32 option" where
  "callerUID ctx = Option.bind (acIdentity ctx) idUID"

abbreviation (input) isRoot :: "AuthContext \<Rightarrow> bool" where "isRoot ctx \<equiv> callerUID ctx = Some 0"

section \<open>Validation and the defaults of a new file\<close>

abbreviation (input) MaxNameLen :: nat where "MaxNameLen \<equiv> 255"
abbreviation (input) MaxPathLen :: nat where "MaxPathLen \<equiv> 4096"
abbreviation (input) ModeSticky :: u32 where "ModeSticky \<equiv> 0x200"
abbreviation (input) modeSGID :: u32 where "modeSGID \<equiv> 0x400"
abbreviation (input) modeSUID :: u32 where "modeSUID \<equiv> 0x800"
abbreviation (input) modeSUIDSGID :: u32 where "modeSUIDSGID \<equiv> 0xC00"
abbreviation (input) modeReadonlyDOS :: u32 where "modeReadonlyDOS \<equiv> 0x100000"

definition ValidateName :: "string \<Rightarrow> unit res" where
  "ValidateName name =
     unlessR (name = [] \<or> name = ''.'' \<or> name = ''..'' \<or> (\<exists>c \<in> set name. c = CHR ''/'' \<or> c = CHR 0x00))
       (StoreError ErrInvalidArgument)
     (unlessR (length name > MaxNameLen) (StoreError ErrNameTooLong) (Inr ()))"

definition ValidatePath :: "string \<Rightarrow> unit res" where
  "ValidatePath path = unlessR (length path > MaxPathLen) (StoreError ErrNameTooLong) (Inr ())"

definition ValidateSpecialFileType :: "FileType \<Rightarrow> unit res" where
  "ValidateSpecialFileType t =
     (if t \<in> {FileTypeBlockDevice, FileTypeCharDevice, FileTypeSocket, FileTypeFIFO} then Inr ()
      else fail ErrInvalidArgument)"

definition ValidateSymlinkTarget :: "string \<Rightarrow> unit res" where
  "ValidateSymlinkTarget target = unlessR (target = []) (StoreError ErrInvalidArgument) (Inr ())"

definition ValidateMFsymlinkTarget :: "string \<Rightarrow> unit res" where
  "ValidateMFsymlinkTarget target =
     bindR (ValidateSymlinkTarget target) (\<lambda>_.
     unlessR (has_prefix target ''/'') (StoreError ErrInvalidArgument) (
     let cleaned = map (\<lambda>c. if c = CHR 0x5C then CHR ''/'' else c) target
     in unlessR (''..'' \<in> set (split_on CHR ''/'' cleaned)) (StoreError ErrInvalidArgument) (Inr ())))"

definition RequiresRoot :: "AuthContext \<Rightarrow> unit res" where
  "RequiresRoot ctx = unlessR (\<not> isRoot ctx) (StoreError ErrPrivilegeRequired) (Inr ())"

definition DefaultMode :: "FileType \<Rightarrow> u32" where
  "DefaultMode t = (case t of FileTypeDirectory \<Rightarrow> 0x1ED | FileTypeSymlink \<Rightarrow> 0x1FF | _ \<Rightarrow> 0x1A4)"

abbreviation (input) modeMask :: u32 where "modeMask \<equiv> 0x3C0FFF"
abbreviation (input) dosAttributeModeBits :: u32 where "dosAttributeModeBits \<equiv> 0x3F0000"

definition ApplyModeDefault :: "u32 \<Rightarrow> FileType \<Rightarrow> u32" where
  "ApplyModeDefault mode t = (if mode = 0 then DefaultMode t else mode) AND modeMask"

definition ApplyOwnerDefaults :: "FileAttr \<Rightarrow> AuthContext \<Rightarrow> FileAttr" where
  "ApplyOwnerDefaults a ctx =
     (case acIdentity ctx of
        None \<Rightarrow> a
      | Some i \<Rightarrow>
         (case idUID i of
            None \<Rightarrow> a
          | Some uid \<Rightarrow>
              let a1 = (if faUID a = 0 then a\<lparr>faUID := uid\<rparr> else a)
              in case idGID i of Some gid \<Rightarrow> (if faGID a1 = 0 then a1\<lparr>faGID := gid\<rparr> else a1) | None \<Rightarrow> a1))"

definition ApplyCreateDefaults :: "md_time \<Rightarrow> FileAttr \<Rightarrow> string \<Rightarrow> FileAttr" where
  "ApplyCreateDefaults now a linkTarget =
     a\<lparr>faMode := ApplyModeDefault (faMode a) (faType a), faAtime := now, faMtime := now, faCtime := now,
       faCreationTime := now,
       faSize := (if faType a = FileTypeSymlink then of_nat (length linkTarget) else 0)\<rparr>"

definition CheckStickyBitRestriction :: "AuthContext \<Rightarrow> FileAttr \<Rightarrow> FileAttr \<Rightarrow> unit res" where
  "CheckStickyBitRestriction ctx dirAttr fileAttr =
     (let caller = (case callerUID ctx of Some u \<Rightarrow> u | None \<Rightarrow> NOT 0) in
      if faMode dirAttr AND ModeSticky = 0 \<or> caller = 0 \<or> faUID fileAttr = caller \<or> faUID dirAttr = caller
      then Inr () else fail ErrAccessDenied)"

end
