(* ===== verification/MD_Store.thy ===== *)
theory MD_Store
  imports MD_Types
begin

text \<open>
  The in-memory metadata store (\<open>pkg/metadata/store/memory\<close>: \<open>store.go\<close>, \<open>transaction.go\<close>,
  \<open>files.go\<close>) and its usage counters (\<open>store/internal/quota\<close>): the maps of files, parents,
  directory entries and link counts, transactions over them, and the derivation of paths.

  The maps of the store are maps from the handle's bytes; the entries of one directory are an
  association list, since listing and path derivation walk over them.  A transaction changes the maps
  in place and collects the changes of the usage counters; a failing transaction restores the maps
  from a snapshot, so a failed function returns only its error.
\<close>

section \<open>Usage counters\<close>

datatype QuotaScope = QuotaScopeUser | QuotaScopeGroup

type_synonym QuotaKey = "QuotaScope \<times> u32"

text \<open>Counts are \<open>int64\<close>: words, read as signed where the code compares them.\<close>

record UsageStat =
  usBytes :: u64
  usFiles :: u64

abbreviation (input) no_usage :: UsageStat where "no_usage \<equiv> \<lparr>usBytes = 0, usFiles = 0\<rparr>"

type_synonym usage = "QuotaKey \<rightharpoonup> UsageStat"

definition quota_get :: "usage \<Rightarrow> QuotaKey \<Rightarrow> UsageStat" where
  "quota_get c k = (case c k of Some u \<Rightarrow> u | None \<Rightarrow> no_usage)"

definition stat_add :: "u64 \<Rightarrow> u64 \<Rightarrow> UsageStat \<Rightarrow> UsageStat" where
  "stat_add bytes files u = \<lparr>usBytes = usBytes u + bytes, usFiles = usFiles u + files\<rparr>"

text \<open>\<open>Cache.Apply\<close>: both counts are clamped at zero, and a zero row is dropped.\<close>

definition apply_stat :: "UsageStat \<Rightarrow> UsageStat \<Rightarrow> UsageStat option" where
  "apply_stat cur d =
     (let b = usBytes cur + usBytes d; f = usFiles cur + usFiles d;
          b' = (if sint b < 0 then 0 else b); f' = (if sint f < 0 then 0 else f)
      in if b' = 0 \<and> f' = 0 then None else Some \<lparr>usBytes = b', usFiles = f'\<rparr>)"

definition quota_apply :: "usage \<Rightarrow> usage \<Rightarrow> usage" where
  "quota_apply delta c = (\<lambda>k. case delta k of None \<Rightarrow> c k | Some d \<Rightarrow> apply_stat (quota_get c k) d)"

text \<open>\<open>Delta.Add\<close>.\<close>

definition delta_add :: "u32 \<Rightarrow> u32 \<Rightarrow> u64 \<Rightarrow> u64 \<Rightarrow> usage \<Rightarrow> usage" where
  "delta_add uid gid bytes files d =
     (if bytes = 0 \<and> files = 0 then d
      else let d1 = d((QuotaScopeUser, uid) \<mapsto> stat_add bytes files (quota_get d (QuotaScopeUser, uid)))
           in d1((QuotaScopeGroup, gid) \<mapsto> stat_add bytes files (quota_get d1 (QuotaScopeGroup, gid))))"

section \<open>The store\<close>

record ShareOptions =
  soReadOnly :: bool
  soAsync :: bool
  soAllowedClients :: "string list"
  soDeniedClients :: "string list"
  soRequireAuth :: bool
  soAllowedAuthMethods :: "string list"
  soIdentityMapping :: "IdentityMapping option"

definition no_options :: ShareOptions where
  "no_options = \<lparr>soReadOnly = False, soAsync = False, soAllowedClients = [], soDeniedClients = [],
     soRequireAuth = False, soAllowedAuthMethods = [], soIdentityMapping = None\<rparr>"

record Share =
  shName :: string
  shOptions :: ShareOptions

record shareData =
  sdShare :: Share
  sdRootHandle :: FileHandle
  sdSeeded :: bool

record fileData =
  fdAttr :: FileAttr
  fdShareName :: string

record MemStore =
  msShares :: "string \<rightharpoonup> shareData"
  msFiles :: "FileHandle \<rightharpoonup> fileData"
  msParents :: "FileHandle \<rightharpoonup> FileHandle"
  msChildren :: "FileHandle \<rightharpoonup> (string \<times> FileHandle) list"
  msLinkCounts :: "FileHandle \<rightharpoonup> u32"
  msObjectIndex :: "ContentHash \<rightharpoonup> FileHandle"
  msUsedBytes :: u64
  msQuota :: usage

definition NewMemoryMetadataStore :: MemStore where
  "NewMemoryMetadataStore = \<lparr>msShares = Map.empty, msFiles = Map.empty, msParents = Map.empty,
     msChildren = Map.empty, msLinkCounts = Map.empty, msObjectIndex = Map.empty, msUsedBytes = 0,
     msQuota = Map.empty\<rparr>"

text \<open>The entries of a directory; a directory without a map has none.\<close>

definition entries_of :: "MemStore \<Rightarrow> FileHandle \<Rightarrow> (string \<times> FileHandle) list" where
  "entries_of st dir = (case msChildren st dir of Some es \<Rightarrow> es | None \<Rightarrow> [])"

definition child_of :: "MemStore \<Rightarrow> FileHandle \<Rightarrow> string \<Rightarrow> FileHandle option" where
  "child_of st dir name = map_of (entries_of st dir) name"

section \<open>Paths\<close>

definition childNameLocked :: "MemStore \<Rightarrow> FileHandle \<Rightarrow> FileHandle \<Rightarrow> string" where
  "childNameLocked st parent child =
     (case msChildren st parent of
        None \<Rightarrow> []
      | Some es \<Rightarrow> foldl (\<lambda>best (name, h). if h \<noteq> child then best
                                         else if best = [] \<or> name < best then name else best) [] es)"

fun path_loop :: "nat \<Rightarrow> MemStore \<Rightarrow> FileHandle \<Rightarrow> string list \<Rightarrow> string list" where
  "path_loop 0 st current components = components"
| "path_loop (Suc n) st current components =
     (case msParents st current of
        None \<Rightarrow> components
      | Some parent \<Rightarrow>
          let name = childNameLocked st parent current
          in if name = [] then components else path_loop n st parent (name # components))"

definition derivePathLocked :: "MemStore \<Rightarrow> FileHandle \<Rightarrow> string" where
  "derivePathLocked st handle =
     (let components = path_loop 4096 st handle []
      in if components = [] then ''/'' else concat (map (\<lambda>c. CHR ''/'' # c) components))"

section \<open>Reads\<close>

definition buildFileWithNlink :: "uuid_package \<Rightarrow> MemStore \<Rightarrow> FileHandle \<Rightarrow> fileData \<Rightarrow> File res" where
  "buildFileWithNlink U st handle fd =
     (case DecodeFileHandle U handle of
        Inl _ \<Rightarrow> fail ErrInvalidHandle
      | Inr (shareName, u) \<Rightarrow>
          Inr \<lparr>fID = u, fShareName = shareName, fPath = derivePathLocked st handle,
               fAttr = (fdAttr fd)\<lparr>faNlink := (case msLinkCounts st handle of Some n \<Rightarrow> n | None \<Rightarrow> 1)\<rparr>\<rparr>)"

definition store_GetFile :: "uuid_package \<Rightarrow> MemStore \<Rightarrow> FileHandle \<Rightarrow> File res" where
  "store_GetFile U st handle =
     (case msFiles st handle of None \<Rightarrow> fail ErrNotFound | Some fd \<Rightarrow> buildFileWithNlink U st handle fd)"

definition store_GetChild :: "MemStore \<Rightarrow> FileHandle \<Rightarrow> string \<Rightarrow> FileHandle res" where
  "store_GetChild st dirHandle name =
     (case msChildren st dirHandle of
        None \<Rightarrow> fail ErrNotFound
      | Some es \<Rightarrow> (case map_of es name of None \<Rightarrow> fail ErrNotFound | Some h \<Rightarrow> Inr h))"

definition store_GetParent :: "MemStore \<Rightarrow> FileHandle \<Rightarrow> FileHandle res" where
  "store_GetParent st handle = (case msParents st handle of None \<Rightarrow> fail ErrNotFound | Some p \<Rightarrow> Inr p)"

definition store_GetLinkCount :: "MemStore \<Rightarrow> FileHandle \<Rightarrow> u32" where
  "store_GetLinkCount st handle = (case msLinkCounts st handle of None \<Rightarrow> 0 | Some n \<Rightarrow> n)"

definition store_GetRootHandle :: "MemStore \<Rightarrow> string \<Rightarrow> FileHandle res" where
  "store_GetRootHandle st shareName =
     (case msShares st shareName of None \<Rightarrow> fail ErrNotFound | Some sd \<Rightarrow> Inr (sdRootHandle sd))"

definition store_GetShareOptions :: "MemStore \<Rightarrow> string \<Rightarrow> ShareOptions option" where
  "store_GetShareOptions st shareName = map_option (\<lambda>sd. shOptions (sdShare sd)) (msShares st shareName)"

definition store_FindByObjectID :: "MemStore \<Rightarrow> ContentHash \<Rightarrow> ChunkRef list" where
  "store_FindByObjectID st objectID =
     (if objectID = 0 then []
      else case msObjectIndex st objectID of
             None \<Rightarrow> []
           | Some key \<Rightarrow> (case msFiles st key of None \<Rightarrow> [] | Some fd \<Rightarrow> faBlocks (fdAttr fd)))"

record DirEntry =
  deName :: string
  deCookie :: u64
  deHandle :: FileHandle
  deAttr :: "FileAttr option"

definition sortedChildNames :: "(string \<times> FileHandle) list \<Rightarrow> string list" where
  "sortedChildNames es = sort (map fst es)"

text \<open>\<open>sort.SearchStrings\<close> is a binary search for the first name not below the cursor.\<close>

definition childPageStart :: "string list \<Rightarrow> string \<Rightarrow> nat" where
  "childPageStart sortedNames cursor =
     (if cursor = [] then 0
      else let idx = length (takeWhile (\<lambda>n. n < cursor) sortedNames)
           in if idx < length sortedNames \<and> sortedNames ! idx = cursor then Suc idx else idx)"

definition dir_entry :: "MemStore \<Rightarrow> (string \<times> FileHandle) list \<Rightarrow> string \<Rightarrow> DirEntry" where
  "dir_entry st es name =
     (let h = the (map_of es name) in
      \<lparr>deName = name, deCookie = 0, deHandle = h,
       deAttr = map_option (\<lambda>fd. (fdAttr fd)\<lparr>faNlink :=
          (case msLinkCounts st h of Some n \<Rightarrow> n | None \<Rightarrow> if is_dir (fdAttr fd) then 2 else 1)\<rparr>) (msFiles st h)\<rparr>)"

definition store_ListChildren :: "MemStore \<Rightarrow> FileHandle \<Rightarrow> string \<Rightarrow> int \<Rightarrow> DirEntry list \<times> string" where
  "store_ListChildren st dirHandle cursor limit =
     (case msChildren st dirHandle of
        None \<Rightarrow> ([], [])
      | Some es \<Rightarrow>
          let sortedNames = sortedChildNames es;
              startIdx = childPageStart sortedNames cursor;
              lim = nat (if limit \<le> 0 then 1000 else limit);
              entries = map (dir_entry st es) (take lim (drop startIdx sortedNames))
          in (entries, if startIdx + length entries < length sortedNames then deName (last entries) else []))"

section \<open>Transactions\<close>

record memTx =
  txStore :: MemStore
  txPendingDelta :: u64
  txQuota :: usage

type_synonym 'a tx = "memTx \<Rightarrow> ('a \<times> memTx) res"

definition bindT :: "'a tx \<Rightarrow> ('a \<Rightarrow> 'b tx) \<Rightarrow> 'b tx" where
  "bindT m f = (\<lambda>t. case m t of Inl e \<Rightarrow> Inl e | Inr (x, t') \<Rightarrow> f x t')"

definition retT :: "'a \<Rightarrow> 'a tx" where
  "retT x = (\<lambda>t. Inr (x, t))"

definition failT :: "ErrorCode \<Rightarrow> 'a tx" where
  "failT c = (\<lambda>t. fail c)"

definition readT :: "(MemStore \<Rightarrow> 'a res) \<Rightarrow> 'a tx" where
  "readT f = (\<lambda>t. case f (txStore t) of Inl e \<Rightarrow> Inl e | Inr x \<Rightarrow> Inr (x, t))"

definition editT :: "(MemStore \<Rightarrow> MemStore) \<Rightarrow> unit tx" where
  "editT f = (\<lambda>t. Inr ((), t\<lparr>txStore := f (txStore t)\<rparr>))"

text \<open>A committed transaction applies the collected changes of the counters; a failed one leaves the
  store as it was.\<close>

definition WithTransaction :: "'a tx \<Rightarrow> MemStore \<Rightarrow> 'a res \<times> MemStore" where
  "WithTransaction fn st =
     (case fn \<lparr>txStore = st, txPendingDelta = 0, txQuota = Map.empty\<rparr> of
        Inl e \<Rightarrow> (Inl e, st)
      | Inr (x, t) \<Rightarrow>
          let st' = txStore t
          in (Inr x, st'\<lparr>msUsedBytes := msUsedBytes st' + txPendingDelta t,
                         msQuota := quota_apply (txQuota t) (msQuota st')\<rparr>))"

definition put_quota :: "FileAttr option \<Rightarrow> FileAttr \<Rightarrow> usage \<Rightarrow> usage" where
  "put_quota old a q =
     (case old of
        None \<Rightarrow> delta_add (faUID a) (faGID a) (faSize a) 1 q
      | Some o' \<Rightarrow>
          if faUID o' = faUID a \<and> faGID o' = faGID a
          then delta_add (faUID a) (faGID a) (faSize a - faSize o') 0 q
          else delta_add (faUID a) (faGID a) (faSize a) 1
                 (delta_add (faUID o') (faGID o') (- faSize o') (- 1) q))"

text \<open>The effect of \<open>PutFile\<close> on the maps, once the object id is known to be free.\<close>

definition put_maps :: "FileHandle \<Rightarrow> string \<Rightarrow> FileAttr \<Rightarrow> MemStore \<Rightarrow> MemStore" where
  "put_maps key shareName a st =
     (let idx = (case msFiles st key of
                   Some fd \<Rightarrow> if faObjectID (fdAttr fd) \<noteq> 0 \<and> faObjectID (fdAttr fd) \<noteq> faObjectID a
                             then (msObjectIndex st)(faObjectID (fdAttr fd) := None) else msObjectIndex st
                 | None \<Rightarrow> msObjectIndex st)
      in st\<lparr>msObjectIndex := (if faObjectID a \<noteq> 0 then idx(faObjectID a \<mapsto> key) else idx),
            msFiles := (msFiles st)(key \<mapsto> \<lparr>fdAttr = a, fdShareName = shareName\<rparr>),
            msLinkCounts := (case msLinkCounts st key of
                               None \<Rightarrow> (msLinkCounts st)(key \<mapsto> (if is_dir a then 2 else 1))
                             | Some _ \<Rightarrow> msLinkCounts st)\<rparr>)"

definition PutFile :: "uuid_package \<Rightarrow> File \<Rightarrow> unit tx" where
  "PutFile U file t =
     (case EncodeShareHandle U (fShareName file) (fID file) of
        Inl _ \<Rightarrow> fail ErrInvalidHandle
      | Inr key \<Rightarrow>
          let st = txStore t; a = fAttr file;
              old = (case msFiles st key of
                       Some fd \<Rightarrow> if faType (fdAttr fd) = FileTypeRegular then Some (fdAttr fd) else None
                     | None \<Rightarrow> None);
              t1 = (if faType a = FileTypeRegular
                    then t\<lparr>txPendingDelta := txPendingDelta t + (faSize a - (case old of Some o' \<Rightarrow> faSize o' | None \<Rightarrow> 0)),
                           txQuota := put_quota old a (txQuota t)\<rparr>
                    else t)
          in if faObjectID a \<noteq> 0 \<and> (case msObjectIndex st (faObjectID a) of Some k \<Rightarrow> k \<noteq> key | None \<Rightarrow> False)
             then fail ErrConflict
             else Inr ((), t1\<lparr>txStore := put_maps key (fShareName file) a st\<rparr>))"

definition delete_maps :: "FileHandle \<Rightarrow> FileAttr \<Rightarrow> MemStore \<Rightarrow> MemStore" where
  "delete_maps key a st =
     st\<lparr>msObjectIndex := (if faObjectID a \<noteq> 0 \<and> msObjectIndex st (faObjectID a) = Some key
                          then (msObjectIndex st)(faObjectID a := None) else msObjectIndex st),
        msFiles := (msFiles st)(key := None), msParents := (msParents st)(key := None),
        msChildren := (msChildren st)(key := None), msLinkCounts := (msLinkCounts st)(key := None)\<rparr>"

text \<open>The change of the counters when a file goes away.\<close>

definition uncharge :: "FileAttr \<Rightarrow> memTx \<Rightarrow> memTx" where
  "uncharge a t =
     (if faType a = FileTypeRegular
      then t\<lparr>txPendingDelta := (if faSize a > 0 then txPendingDelta t - faSize a else txPendingDelta t),
             txQuota := delta_add (faUID a) (faGID a) (- faSize a) (- 1) (txQuota t)\<rparr>
      else t)"

definition DeleteFile :: "FileHandle \<Rightarrow> unit tx" where
  "DeleteFile key t =
     (case msFiles (txStore t) key of
        None \<Rightarrow> fail ErrNotFound
      | Some fd \<Rightarrow> Inr ((), (uncharge (fdAttr fd) t)\<lparr>txStore := delete_maps key (fdAttr fd) (txStore t)\<rparr>))"

definition set_child :: "FileHandle \<Rightarrow> string \<Rightarrow> FileHandle \<Rightarrow> MemStore \<Rightarrow> MemStore" where
  "set_child dir name h st = st\<lparr>msChildren := (msChildren st)(dir \<mapsto> AList.update name h (entries_of st dir))\<rparr>"

definition SetChild :: "FileHandle \<Rightarrow> string \<Rightarrow> FileHandle \<Rightarrow> unit tx" where
  "SetChild dir name h = editT (set_child dir name h)"

definition delete_child :: "FileHandle \<Rightarrow> string \<Rightarrow> MemStore \<Rightarrow> MemStore" where
  "delete_child dir name st = st\<lparr>msChildren := (msChildren st)(dir \<mapsto> AList.delete name (entries_of st dir))\<rparr>"

definition DeleteChild :: "FileHandle \<Rightarrow> string \<Rightarrow> unit tx" where
  "DeleteChild dir name t =
     (case child_of (txStore t) dir name of
        None \<Rightarrow> fail ErrNotFound
      | Some _ \<Rightarrow> editT (delete_child dir name) t)"

definition SetParent :: "FileHandle \<Rightarrow> FileHandle \<Rightarrow> unit tx" where
  "SetParent h p = editT (\<lambda>st. st\<lparr>msParents := (msParents st)(h \<mapsto> p)\<rparr>)"

definition SetLinkCount :: "FileHandle \<Rightarrow> u32 \<Rightarrow> unit tx" where
  "SetLinkCount h n = editT (\<lambda>st. st\<lparr>msLinkCounts := (msLinkCounts st)(h \<mapsto> n)\<rparr>)"

definition GetLinkCount :: "FileHandle \<Rightarrow> u32 tx" where
  "GetLinkCount h = readT (\<lambda>st. Inr (store_GetLinkCount st h))"

definition GetFileT :: "uuid_package \<Rightarrow> FileHandle \<Rightarrow> File tx" where
  "GetFileT U h = readT (\<lambda>st. store_GetFile U st h)"

definition GetChildT :: "FileHandle \<Rightarrow> string \<Rightarrow> FileHandle tx" where
  "GetChildT dir name = readT (\<lambda>st. store_GetChild st dir name)"

section \<open>Shares\<close>

text \<open>A new UUID is the argument \<open>u\<close>; the root handle of a share is generated at most once.  A handle
  that cannot be encoded is a panic there.\<close>

definition generateFileHandle :: "uuid_package \<Rightarrow> UUID \<Rightarrow> string \<Rightarrow> FileHandle res" where
  "generateFileHandle U u shareName =
     (case EncodeShareHandle U shareName u of Inl _ \<Rightarrow> Inl RuntimePanic | Inr h \<Rightarrow> Inr h)"

definition CreateShareT :: "uuid_package \<Rightarrow> UUID \<Rightarrow> Share \<Rightarrow> unit tx" where
  "CreateShareT U u share t =
     (case msShares (txStore t) (shName share) of
        Some existing \<Rightarrow>
          if \<not> sdSeeded existing then fail ErrAlreadyExists
          else editT (\<lambda>st. st\<lparr>msShares := (msShares st)(shName share \<mapsto>
                 \<lparr>sdShare = share, sdRootHandle = sdRootHandle existing, sdSeeded = False\<rparr>)\<rparr>) t
      | None \<Rightarrow>
          bindR (generateFileHandle U u (shName share)) (\<lambda>root.
            editT (\<lambda>st. st\<lparr>msShares := (msShares st)(shName share \<mapsto>
              \<lparr>sdShare = share, sdRootHandle = root, sdSeeded = False\<rparr>)\<rparr>) t))"

definition UpdateShareOptionsT :: "string \<Rightarrow> ShareOptions \<Rightarrow> unit tx" where
  "UpdateShareOptionsT shareName options t =
     (case msShares (txStore t) shareName of
        None \<Rightarrow> fail ErrNotFound
      | Some sd \<Rightarrow> editT (\<lambda>st. st\<lparr>msShares := (msShares st)(shareName \<mapsto>
                      sd\<lparr>sdShare := (sdShare sd)\<lparr>shOptions := options\<rparr>\<rparr>)\<rparr>) t)"

text \<open>Deleting a share walks over the map of files, in the order \<open>keys\<close> of the runtime.\<close>

fun delete_share_files :: "string \<Rightarrow> FileHandle list \<Rightarrow> memTx \<Rightarrow> memTx" where
  "delete_share_files shareName [] t = t"
| "delete_share_files shareName (key # keys) t =
     delete_share_files shareName keys
       (case msFiles (txStore t) key of
          Some fd \<Rightarrow> if fdShareName fd = shareName
                    then (uncharge (fdAttr fd) t)\<lparr>txStore := delete_maps key (fdAttr fd) (txStore t)\<rparr> else t
        | None \<Rightarrow> t)"

definition DeleteShareT :: "FileHandle list \<Rightarrow> string \<Rightarrow> unit tx" where
  "DeleteShareT keys shareName t =
     (case msShares (txStore t) shareName of
        None \<Rightarrow> fail ErrNotFound
      | Some _ \<Rightarrow> editT (\<lambda>st. st\<lparr>msShares := (msShares st)(shareName := None)\<rparr>) (delete_share_files shareName keys t))"

definition CreateRootDirectoryT :: "uuid_package \<Rightarrow> UUID \<Rightarrow> md_time \<Rightarrow> string \<Rightarrow> FileAttr \<Rightarrow> File tx" where
  "CreateRootDirectoryT U u now shareName attr t =
     unlessR (\<not> is_dir attr) (StoreError ErrInvalidArgument) (
     bindR (case msShares (txStore t) shareName of
              Some sd \<Rightarrow> if sdRootHandle sd \<noteq> [] then Inr (sdRootHandle sd) else generateFileHandle U u shareName
            | None \<Rightarrow> generateFileHandle U u shareName) (\<lambda>root.
     let st = txStore t;
         st1 = (case msShares st shareName of
                  Some _ \<Rightarrow> st
                | None \<Rightarrow> st\<lparr>msShares := (msShares st)(shareName \<mapsto>
                     \<lparr>sdShare = \<lparr>shName = shareName, shOptions = no_options\<rparr>, sdRootHandle = root, sdSeeded = True\<rparr>)\<rparr>);
         built = (\<lambda>a st'. case DecodeFileHandle U root of
                    Inl _ \<Rightarrow> fail ErrIOError
                  | Inr (_, i) \<Rightarrow> Inr (\<lparr>fID = i, fShareName = shareName, fPath = ''/'', fAttr = a\<rparr>, t\<lparr>txStore := st'\<rparr>))
     in case msFiles st1 root of
          Some fd \<Rightarrow> built (fdAttr fd) st1
        | None \<Rightarrow>
            let a = attr\<lparr>faMode := (if faMode attr = 0 then 0x1ED else faMode attr),
                         faAtime := (if faAtime attr = 0 then now else faAtime attr),
                         faMtime := (if faMtime attr = 0 then now else faMtime attr),
                         faCtime := (if faCtime attr = 0 then now else faCtime attr),
                         faCreationTime := (if faCreationTime attr = 0 then now else faCreationTime attr),
                         faNlink := 2\<rparr>
            in built a (st1\<lparr>msFiles := (msFiles st1)(root \<mapsto> \<lparr>fdAttr = a, fdShareName = shareName\<rparr>),
                            msChildren := (msChildren st1)(root \<mapsto> []),
                            msLinkCounts := (msLinkCounts st1)(root \<mapsto> 2)\<rparr>)))"

end
