(* ===== verification/MD_Service.thy ===== *)
theory MD_Service
  imports MD_Store Lock_Breaks
begin

text \<open>
  The state of the metadata service (\<open>pkg/metadata/service.go\<close>) and the trackers it keeps in memory:
  pending writes (\<open>pending_writes.go\<close>), coalesced directory times (\<open>dir_times.go\<close>) and the
  per-identity quotas (\<open>quota_limits.go\<close>, \<open>quota_enforce.go\<close>).

  Several shares may use one store, so a share names a store of a heap.  Trackers are maps from the
  handle's bytes.  The clock is read once per operation, as its argument \<open>now\<close>.  Directory-change
  notices are sent to the notifier of the share and have no effect on the operation; the service
  keeps them as a list.  The recycle bin is off (no trash policy is set) and grace times are not
  written to the control plane.
\<close>

section \<open>State\<close>

record PendingWriteState =
  pwMaxSize :: u64
  pwLastMtime :: md_time
  pwPayloadID :: string
  pwPreWriteAttr :: "FileAttr option"
  pwClearSetuidSetgid :: bool
  pwCachedFile :: "File option"

record dirTimes =
  dtMtime :: md_time
  dtCtime :: md_time
  dtAtime :: md_time
  dtLastFlush :: md_time

record IdentityQuota =
  iqScope :: QuotaScope
  iqID :: u32
  iqLimitBytes :: u64
  iqSoftBytes :: u64
  iqLimitFiles :: u64
  iqSoftFiles :: u64
  iqGraceSeconds :: u64
  iqGraceStartedAt :: md_time

record dir_notice =
  dnShare :: string
  dnParent :: FileHandle
  dnChange :: DirChangeType
  dnOrigin :: string
  dnExcludeKey :: "u8 list option"

record Service =
  svStores :: "string \<rightharpoonup> nat"
  svHeap :: "nat \<Rightarrow> MemStore"
  svPending :: "FileHandle \<rightharpoonup> PendingWriteState"
  svDirTimes :: "FileHandle \<rightharpoonup> dirTimes"
  svDeferredCommit :: bool
  svQuotas :: "string \<Rightarrow> u64"
  svLimits :: "string \<Rightarrow> (QuotaKey \<times> IdentityQuota) list"
  svDynGrace :: "string \<times> QuotaKey \<rightharpoonup> md_time"
  svCookies :: "(u64 \<times> string) list"
  svNotifiers :: "string \<Rightarrow> bool"
  svNotices :: "dir_notice list"

type_synonym 'a outcome = "'a res \<times> Service"

abbreviation (input) set_store :: "nat \<Rightarrow> MemStore \<Rightarrow> Service \<Rightarrow> Service" where
  "set_store r st s \<equiv> s\<lparr>svHeap := (svHeap s)(r := st)\<rparr>"

section \<open>Stores\<close>

definition GetStoreForShare :: "Service \<Rightarrow> string \<Rightarrow> nat res" where
  "GetStoreForShare s shareName =
     (case svStores s shareName of None \<Rightarrow> fail ErrStaleHandle | Some r \<Rightarrow> Inr r)"

definition storeForHandle :: "uuid_package \<Rightarrow> Service \<Rightarrow> FileHandle \<Rightarrow> nat res" where
  "storeForHandle U s handle = bindR (DecodeFileHandle U handle) (\<lambda>(shareName, _). GetStoreForShare s shareName)"

definition shareNameForHandle :: "uuid_package \<Rightarrow> FileHandle \<Rightarrow> string" where
  "shareNameForHandle U handle = (case DecodeFileHandle U handle of Inl _ \<Rightarrow> [] | Inr (shareName, _) \<Rightarrow> shareName)"

text \<open>Run a transaction on one store of the heap.\<close>

definition run_tx :: "nat \<Rightarrow> 'a tx \<Rightarrow> Service \<Rightarrow> 'a outcome" where
  "run_tx r fn s = (let (x, st) = WithTransaction fn (svHeap s r) in (x, set_store r st s))"

definition notifyDirChange :: "string \<Rightarrow> FileHandle \<Rightarrow> DirChangeType \<Rightarrow> AuthContext \<Rightarrow> Service \<Rightarrow> Service" where
  "notifyDirChange shareName parentHandle change ctx s =
     (if \<not> svNotifiers s shareName then s
      else s\<lparr>svNotices := svNotices s @
        [\<lparr>dnShare = shareName, dnParent = parentHandle, dnChange = change,
          dnOrigin = (if acLockClientID ctx = [] then acClientAddr ctx else acLockClientID ctx),
          dnExcludeKey = acParentLeaseKey ctx\<rparr>]\<rparr>)"

section \<open>Pending writes\<close>

record WriteOperation =
  woHandle :: FileHandle
  woNewSize :: u64
  woNewMtime :: md_time
  woPayloadID :: string
  woPreWriteAttr :: FileAttr

definition RecordWrite :: "FileHandle \<Rightarrow> WriteOperation \<Rightarrow> bool \<Rightarrow> Service \<Rightarrow> PendingWriteState \<times> Service" where
  "RecordWrite handle intent clearSetuid s =
     (let state = (case svPending s handle of
        None \<Rightarrow> \<lparr>pwMaxSize = woNewSize intent, pwLastMtime = woNewMtime intent, pwPayloadID = woPayloadID intent,
                pwPreWriteAttr = Some (woPreWriteAttr intent), pwClearSetuidSetgid = clearSetuid, pwCachedFile = None\<rparr>
      | Some p \<Rightarrow>
          p\<lparr>pwMaxSize := (if woNewSize intent > pwMaxSize p then woNewSize intent else pwMaxSize p),
            pwLastMtime := (if pwLastMtime p = 0 then woNewMtime intent else pwLastMtime p),
            pwClearSetuidSetgid := (clearSetuid \<or> pwClearSetuidSetgid p)\<rparr>)
      in (state, s\<lparr>svPending := (svPending s)(handle \<mapsto> state)\<rparr>))"

definition GetPendingSize :: "FileHandle \<Rightarrow> Service \<Rightarrow> u64 option" where
  "GetPendingSize handle s = map_option pwMaxSize (svPending s handle)"

definition GetCachedFile :: "FileHandle \<Rightarrow> Service \<Rightarrow> File option" where
  "GetCachedFile handle s = Option.bind (svPending s handle) pwCachedFile"

definition cache_only :: "File \<Rightarrow> PendingWriteState" where
  "cache_only file = \<lparr>pwMaxSize = 0, pwLastMtime = 0, pwPayloadID = [], pwPreWriteAttr = None,
     pwClearSetuidSetgid = False, pwCachedFile = Some file\<rparr>"

definition SetCachedFile :: "FileHandle \<Rightarrow> File \<Rightarrow> Service \<Rightarrow> Service" where
  "SetCachedFile handle file s =
     s\<lparr>svPending := (svPending s)(handle \<mapsto>
        (case svPending s handle of None \<Rightarrow> cache_only file | Some p \<Rightarrow> p\<lparr>pwCachedFile := Some file\<rparr>))\<rparr>"

definition PopPending :: "FileHandle \<Rightarrow> Service \<Rightarrow> PendingWriteState option \<times> Service" where
  "PopPending handle s = (svPending s handle, s\<lparr>svPending := (svPending s)(handle := None)\<rparr>)"

definition RestorePending :: "FileHandle \<Rightarrow> PendingWriteState \<Rightarrow> Service \<Rightarrow> Service" where
  "RestorePending handle state s =
     s\<lparr>svPending := (svPending s)(handle \<mapsto>
        (case svPending s handle of
           None \<Rightarrow> state
         | Some cur \<Rightarrow>
             cur\<lparr>pwMaxSize := (if pwMaxSize state > pwMaxSize cur then pwMaxSize state else pwMaxSize cur),
                 pwLastMtime := (if pwLastMtime cur = 0 \<and> pwLastMtime state \<noteq> 0 then pwLastMtime state else pwLastMtime cur),
                 pwClearSetuidSetgid := (pwClearSetuidSetgid state \<or> pwClearSetuidSetgid cur),
                 pwPreWriteAttr := (if pwPreWriteAttr cur = None then pwPreWriteAttr state else pwPreWriteAttr cur),
                 pwCachedFile := (if pwCachedFile cur = None then pwCachedFile state else pwCachedFile cur)\<rparr>))\<rparr>"

definition UpdatePendingMtime :: "FileHandle \<Rightarrow> md_time \<Rightarrow> Service \<Rightarrow> bool \<times> Service" where
  "UpdatePendingMtime handle mtime s =
     (case svPending s handle of
        None \<Rightarrow> (False, s)
      | Some p \<Rightarrow> (True, s\<lparr>svPending := (svPending s)(handle \<mapsto> p\<lparr>pwLastMtime := mtime\<rparr>)\<rparr>))"

definition InvalidateCache :: "FileHandle \<Rightarrow> Service \<Rightarrow> Service" where
  "InvalidateCache handle s =
     (case svPending s handle of
        None \<Rightarrow> s
      | Some p \<Rightarrow> s\<lparr>svPending := (svPending s)(handle :=
          (if pwPreWriteAttr p = None \<and> pwMaxSize p = 0 then None else Some (p\<lparr>pwCachedFile := None\<rparr>)))\<rparr>)"

text \<open>The overlay of a file's pending state, as \<open>GetFile\<close> and \<open>GetFileCached\<close> apply it.\<close>

definition overlay_pending :: "PendingWriteState \<Rightarrow> File \<Rightarrow> File" where
  "overlay_pending p file =
     (let a = fAttr file;
          a1 = (if pwMaxSize p > faSize a then a\<lparr>faSize := pwMaxSize p\<rparr> else a);
          a2 = (if pwLastMtime p > faMtime a1 then a1\<lparr>faMtime := pwLastMtime p, faCtime := pwLastMtime p\<rparr> else a1);
          a3 = (if pwClearSetuidSetgid p then a2\<lparr>faMode := faMode a2 AND NOT modeSUIDSGID\<rparr> else a2)
      in file\<lparr>fAttr := a3\<rparr>)"

definition mergePendingWrites :: "FileHandle \<Rightarrow> Service \<Rightarrow> File \<Rightarrow> File" where
  "mergePendingWrites handle s file = (case svPending s handle of None \<Rightarrow> file | Some p \<Rightarrow> overlay_pending p file)"

section \<open>Directory times\<close>

abbreviation (input) dirTimesFlushInterval :: md_time where "dirTimesFlushInterval \<equiv> 2000000000"

definition RecordBump :: "FileHandle \<Rightarrow> md_time \<Rightarrow> Service \<Rightarrow> bool \<times> Service" where
  "RecordBump handle t s =
     (let dt = (case svDirTimes s handle of Some d \<Rightarrow> d | None \<Rightarrow> \<lparr>dtMtime = 0, dtCtime = 0, dtAtime = 0, dtLastFlush = t\<rparr>);
          dt1 = (if t > dtMtime dt then dt\<lparr>dtMtime := t, dtCtime := t, dtAtime := t\<rparr> else dt)
      in (int t - int (dtLastFlush dt1) \<ge> int dirTimesFlushInterval, s\<lparr>svDirTimes := (svDirTimes s)(handle \<mapsto> dt1)\<rparr>))"

definition dirTimes_Clear :: "FileHandle \<Rightarrow> Service \<Rightarrow> Service" where
  "dirTimes_Clear handle s = s\<lparr>svDirTimes := (svDirTimes s)(handle := None)\<rparr>"

definition ClearIfFlushed :: "FileHandle \<Rightarrow> md_time \<Rightarrow> Service \<Rightarrow> Service" where
  "ClearIfFlushed handle flushedTo s =
     (case svDirTimes s handle of
        None \<Rightarrow> s
      | Some dt \<Rightarrow>
          if \<not> dtMtime dt > flushedTo then dirTimes_Clear handle s
          else s\<lparr>svDirTimes := (svDirTimes s)(handle \<mapsto> dt\<lparr>dtLastFlush := flushedTo\<rparr>)\<rparr>)"

text \<open>Whether anything changed is whether the attributes differ.\<close>

definition applyDirTimes :: "dirTimes \<Rightarrow> FileAttr \<Rightarrow> bool \<times> FileAttr" where
  "applyDirTimes dt a =
     (let a1 = (if dtMtime dt > faMtime a then a\<lparr>faMtime := dtMtime dt\<rparr> else a);
          a2 = (if dtCtime dt > faCtime a1 then a1\<lparr>faCtime := dtCtime dt\<rparr> else a1);
          a3 = (if dtAtime dt > faAtime a2 then a2\<lparr>faAtime := dtAtime dt\<rparr> else a2)
      in (dtMtime dt > faMtime a \<or> dtCtime dt > faCtime a \<or> dtAtime dt > faAtime a, a3))"

definition mergeDirTimes :: "FileHandle \<Rightarrow> Service \<Rightarrow> FileAttr \<Rightarrow> FileAttr" where
  "mergeDirTimes handle s a =
     (if \<not> is_dir a then a
      else case svDirTimes s handle of None \<Rightarrow> a | Some dt \<Rightarrow> snd (applyDirTimes dt a))"

definition flush_dir_tx :: "uuid_package \<Rightarrow> FileHandle \<Rightarrow> dirTimes \<Rightarrow> unit tx" where
  "flush_dir_tx U dirHandle dt =
     bindT (GetFileT U dirHandle) (\<lambda>dir.
       let (changed, a) = applyDirTimes dt (fAttr dir)
       in if \<not> is_dir (fAttr dir) \<or> \<not> changed then retT () else PutFile U (dir\<lparr>fAttr := a\<rparr>))"

definition flushDirTimes :: "uuid_package \<Rightarrow> FileHandle \<Rightarrow> Service \<Rightarrow> Service" where
  "flushDirTimes U dirHandle s =
     (case svDirTimes s dirHandle of
        None \<Rightarrow> s
      | Some dt \<Rightarrow>
         (case storeForHandle U s dirHandle of
            Inl _ \<Rightarrow> s
          | Inr r \<Rightarrow>
             (case run_tx r (flush_dir_tx U dirHandle dt) s of
                (Inl _, s1) \<Rightarrow> s1
              | (Inr _, s1) \<Rightarrow> ClearIfFlushed dirHandle (dtMtime dt) s1)))"

definition recordDirTimes :: "uuid_package \<Rightarrow> FileHandle \<Rightarrow> md_time \<Rightarrow> Service \<Rightarrow> Service" where
  "recordDirTimes U dirHandle t s =
     (let (due, s1) = RecordBump dirHandle t s in if due then flushDirTimes U dirHandle s1 else s1)"

section \<open>Reading a file\<close>

definition with_dir_times :: "FileHandle \<Rightarrow> Service \<Rightarrow> File \<Rightarrow> File" where
  "with_dir_times handle s file = file\<lparr>fAttr := mergeDirTimes handle s (fAttr file)\<rparr>"

definition GetFile :: "uuid_package \<Rightarrow> Service \<Rightarrow> FileHandle \<Rightarrow> File res" where
  "GetFile U s handle =
     bindR (storeForHandle U s handle) (\<lambda>r.
     bindR (store_GetFile U (svHeap s r) handle) (\<lambda>file.
     Inr (with_dir_times handle s (mergePendingWrites handle s file))))"

definition GetFileCached :: "uuid_package \<Rightarrow> Service \<Rightarrow> FileHandle \<Rightarrow> File res" where
  "GetFileCached U s handle =
     (case GetCachedFile handle s of
        Some cached \<Rightarrow> Inr (mergePendingWrites handle s cached)
      | None \<Rightarrow> GetFile U s handle)"

definition GetChild :: "uuid_package \<Rightarrow> Service \<Rightarrow> FileHandle \<Rightarrow> string \<Rightarrow> FileHandle res" where
  "GetChild U s dirHandle name =
     bindR (storeForHandle U s dirHandle) (\<lambda>r. store_GetChild (svHeap s r) dirHandle name)"

definition GetRootHandle :: "Service \<Rightarrow> string \<Rightarrow> FileHandle res" where
  "GetRootHandle s shareName = bindR (GetStoreForShare s shareName) (\<lambda>r. store_GetRootHandle (svHeap s r) shareName)"

section \<open>Directory cookies\<close>

text \<open>The cookie manager keeps the last 8192 cookies, most recently used first (\<open>cookies.go\<close>).  A cookie
  is the 64-bit FNV-1a hash of the directory's handle and the name.\<close>

abbreviation (input) defaultCookieCap :: nat where "defaultCookieCap \<equiv> 8192"

definition fnv64a :: "string \<Rightarrow> u64" where
  "fnv64a bytes = foldl (\<lambda>h c. (h XOR of_char c) * 0x100000001b3) 0xcbf29ce484222325 bytes"

definition cookie_for :: "FileHandle \<Rightarrow> string \<Rightarrow> u64" where
  "cookie_for dirHandle name = (let h = fnv64a (dirHandle @ name) in if h = 0 then 1 else h)"

definition GenerateCookie :: "FileHandle \<Rightarrow> string \<Rightarrow> (u64 \<times> string) list \<Rightarrow> u64 \<times> (u64 \<times> string) list" where
  "GenerateCookie dirHandle name cm =
     (if name = [] then (0, cm)
      else
        let cookie = cookie_for dirHandle name
        in (cookie,
            if cookie \<in> fst ` set cm then (cookie, name) # filter (\<lambda>e. fst e \<noteq> cookie) cm
            else (cookie, name) # take (defaultCookieCap - 1) cm))"

definition GetToken :: "u64 \<Rightarrow> (u64 \<times> string) list \<Rightarrow> string \<times> (u64 \<times> string) list" where
  "GetToken cookie cm =
     (if cookie = 0 then ([], cm)
      else case map_of cm cookie of
             None \<Rightarrow> ([], cm)
           | Some token \<Rightarrow> (token, (cookie, token) # filter (\<lambda>e. fst e \<noteq> cookie) cm))"

section \<open>Quotas of users and groups\<close>

abbreviation (input) DefaultUserID :: u32 where "DefaultUserID \<equiv> 0xFFFFFFFF"

definition limit_get :: "Service \<Rightarrow> string \<Rightarrow> QuotaScope \<Rightarrow> u32 \<Rightarrow> IdentityQuota option" where
  "limit_get s share scope i = map_of (svLimits s share) (scope, i)"

definition resolveUser :: "Service \<Rightarrow> string \<Rightarrow> u32 \<Rightarrow> IdentityQuota option" where
  "resolveUser s share uid =
     (case limit_get s share QuotaScopeUser uid of
        Some iq \<Rightarrow> Some iq
      | None \<Rightarrow> limit_get s share QuotaScopeUser DefaultUserID)"

definition SetIdentityQuota :: "string \<Rightarrow> IdentityQuota \<Rightarrow> Service \<Rightarrow> Service" where
  "SetIdentityQuota share iq s =
     s\<lparr>svLimits := (svLimits s)(share := AList.update (iqScope iq, iqID iq) iq (svLimits s share))\<rparr>"

definition RemoveIdentityQuota :: "string \<Rightarrow> QuotaScope \<Rightarrow> u32 \<Rightarrow> Service \<Rightarrow> Service" where
  "RemoveIdentityQuota share scope i s =
     s\<lparr>svLimits := (svLimits s)(share := AList.delete (scope, i) (svLimits s share))\<rparr>"

definition ReplaceIdentityQuotas :: "string \<Rightarrow> IdentityQuota list \<Rightarrow> Service \<Rightarrow> Service" where
  "ReplaceIdentityQuotas share quotas s =
     s\<lparr>svLimits := (svLimits s)(share := foldl (\<lambda>m iq. AList.update (iqScope iq, iqID iq) iq m) [] quotas)\<rparr>"

definition SetQuotaForShare :: "string \<Rightarrow> u64 \<Rightarrow> Service \<Rightarrow> Service" where
  "SetQuotaForShare share quotaBytes s = s\<lparr>svQuotas := (svQuotas s)(share := quotaBytes)\<rparr>"

text \<open>The start of the grace period of one identity, kept with the identity where the default-user
  quota applies and with the quota otherwise (\<open>liveGrace\<close>), and its change (\<open>startGrace\<close>,
  \<open>clearGrace\<close>; the zero time clears it).\<close>

definition liveGrace :: "Service \<Rightarrow> string \<Rightarrow> QuotaScope \<Rightarrow> u32 \<Rightarrow> bool \<Rightarrow> u32 \<Rightarrow> md_time" where
  "liveGrace s share scope usageID isDefault rowID =
     (if isDefault then (case svDynGrace s (share, scope, usageID) of Some t \<Rightarrow> t | None \<Rightarrow> 0)
      else case limit_get s share scope rowID of Some iq \<Rightarrow> iqGraceStartedAt iq | None \<Rightarrow> 0)"

definition setGrace :: "string \<Rightarrow> QuotaScope \<Rightarrow> u32 \<Rightarrow> bool \<Rightarrow> u32 \<Rightarrow> md_time \<Rightarrow> Service \<Rightarrow> Service" where
  "setGrace share scope usageID isDefault rowID t s =
     (if isDefault then s\<lparr>svDynGrace := (svDynGrace s)((share, scope, usageID) := (if t = 0 then None else Some t))\<rparr>
      else case limit_get s share scope rowID of
             None \<Rightarrow> s
           | Some iq \<Rightarrow> s\<lparr>svLimits := (svLimits s)(share :=
               AList.update (scope, rowID) (iq\<lparr>iqGraceStartedAt := t\<rparr>) (svLimits s share))\<rparr>)"

text \<open>One axis of a quota: amounts used and added, soft and hard limit; \<open>int64\<close> read as signed.\<close>

definition over_limit :: "u64 \<Rightarrow> u64 \<Rightarrow> u64 \<Rightarrow> bool" where
  "over_limit used delta hard = (sint delta > 0 \<and> sint hard > 0 \<and> sint (used + delta) > sint hard)"

definition enforceOne :: "md_time \<Rightarrow> string \<Rightarrow> MemStore \<Rightarrow> QuotaScope \<Rightarrow> u32 \<Rightarrow> IdentityQuota \<Rightarrow> u64 \<Rightarrow> u64 \<Rightarrow> Service \<Rightarrow> unit outcome" where
  "enforceOne now share st scope usageID iq byteDelta fileDelta s =
     (let u = quota_get (msQuota st) (scope, usageID);
          isDefault = (scope = QuotaScopeUser \<and> iqID iq = DefaultUserID);
          overSoft = (over_limit (usBytes u) byteDelta (iqSoftBytes iq) \<or> over_limit (usFiles u) fileDelta (iqSoftFiles iq));
          graceStart = liveGrace s share scope usageID isDefault (iqID iq)
      in if over_limit (usBytes u) byteDelta (iqLimitBytes iq) \<or> over_limit (usFiles u) fileDelta (iqLimitFiles iq)
         then (fail ErrQuotaExceeded, s)
         else if \<not> overSoft then (Inr (), setGrace share scope usageID isDefault (iqID iq) 0 s)
         else if sint (iqGraceSeconds iq) \<le> 0 then (Inr (), s)
         else if graceStart = 0 then (Inr (), setGrace share scope usageID isDefault (iqID iq) now s)
         else if int now > int graceStart + sint (iqGraceSeconds iq * 1000000000) then (fail ErrQuotaExceeded, s)
         else (Inr (), s))"

definition checkIdentityQuotas :: "md_time \<Rightarrow> string \<Rightarrow> MemStore \<Rightarrow> u32 \<Rightarrow> u32 \<Rightarrow> u64 \<Rightarrow> u64 \<Rightarrow> Service \<Rightarrow> unit outcome" where
  "checkIdentityQuotas now share st uid gid byteDelta fileDelta s =
     (if (sint byteDelta \<le> 0 \<and> sint fileDelta \<le> 0) \<or> svLimits s share = [] then (Inr (), s)
      else
        let (r1, s1) = (case resolveUser s share uid of
                          None \<Rightarrow> (Inr (), s)
                        | Some iq \<Rightarrow> enforceOne now share st QuotaScopeUser uid iq byteDelta fileDelta s)
        in case r1 of
             Inl e \<Rightarrow> (Inl e, s1)
           | Inr _ \<Rightarrow>
              (case limit_get s1 share QuotaScopeGroup gid of
                 None \<Rightarrow> (Inr (), s1)
               | Some iq \<Rightarrow> enforceOne now share st QuotaScopeGroup gid iq byteDelta fileDelta s1))"

end
