(* ===== verification/MD_Access.thy ===== *)
theory MD_Access
  imports MD_Service
begin

text \<open>
  Permission checks of the metadata service (\<open>pkg/metadata/auth_permissions.go\<close>): the POSIX mode
  bits, the evaluation of an ACL in their place, read-only shares, and the Windows access masks of
  an open.  The ACL itself is evaluated by \<open>Evaluate\<close> and \<open>EvaluateGranted\<close> of the ACL theories.
\<close>

section \<open>Permissions\<close>

abbreviation (input) PermissionRead :: u32 where "PermissionRead \<equiv> 0x01"
abbreviation (input) PermissionWrite :: u32 where "PermissionWrite \<equiv> 0x02"
abbreviation (input) PermissionExecute :: u32 where "PermissionExecute \<equiv> 0x04"
abbreviation (input) PermissionDelete :: u32 where "PermissionDelete \<equiv> 0x08"
abbreviation (input) PermissionListDirectory :: u32 where "PermissionListDirectory \<equiv> 0x10"
abbreviation (input) PermissionTraverse :: u32 where "PermissionTraverse \<equiv> 0x20"
abbreviation (input) PermissionChangePermissions :: u32 where "PermissionChangePermissions \<equiv> 0x40"
abbreviation (input) PermissionChangeOwnership :: u32 where "PermissionChangeOwnership \<equiv> 0x80"
abbreviation (input) writePermissions :: u32 where "writePermissions \<equiv> 0x0A"

definition CalculatePermissionsFromBits :: "u32 \<Rightarrow> u32" where
  "CalculatePermissionsFromBits bits =
     ((if bits AND 4 \<noteq> 0 then PermissionRead OR PermissionListDirectory else 0) OR
      (if bits AND 2 \<noteq> 0 then PermissionWrite OR PermissionDelete else 0)) OR
      (if bits AND 1 \<noteq> 0 then PermissionExecute OR PermissionTraverse else 0)"

definition CheckOtherPermissions :: "u32 \<Rightarrow> u32 \<Rightarrow> u32" where
  "CheckOtherPermissions mode requested = CalculatePermissionsFromBits (mode AND 7) AND requested"

definition who_of :: "Identity \<Rightarrow> string" where
  "who_of i = (if idUsername i \<noteq> [] \<and> idDomain i \<noteq> [] then idUsername i @ ''@'' @ idDomain i
               else if idUsername i \<noteq> [] then idUsername i else [])"

text \<open>The evaluation context of a caller; \<open>buildFileAccessEvalContext\<close> and the head of
  \<open>evaluateACLPermissions\<close> build the same one.\<close>

definition buildFileAccessEvalContext :: "FileAttr \<Rightarrow> Identity option \<Rightarrow> EvaluateContext" where
  "buildFileAccessEvalContext a ident =
     (case ident of
        Some i \<Rightarrow>
         (case idUID i of
            Some uid \<Rightarrow>
              let sid = (case idSID i of Some x \<Rightarrow> x | None \<Rightarrow> [])
              in \<lparr>ctxWho = who_of i, ctxUID = uid, ctxGID = (case idGID i of Some g \<Rightarrow> g | None \<Rightarrow> 0),
                  ctxGIDs = idGIDs i, ctxFileOwnerUID = faUID a, ctxFileOwnerGID = faGID a, ctxSID = sid,
                  ctxGroupSIDs = idGroupSIDs i, ctxTakeOwnership = HasTakeOwnershipPrivilege sid (idGroupSIDs i)\<rparr>
          | None \<Rightarrow>
              \<lparr>ctxWho = [], ctxUID = 0, ctxGID = 0, ctxGIDs = [], ctxFileOwnerUID = AnonymousFileOwnerUID,
               ctxFileOwnerGID = faGID a, ctxSID = [], ctxGroupSIDs = [], ctxTakeOwnership = False\<rparr>)
      | None \<Rightarrow>
          \<lparr>ctxWho = [], ctxUID = 0, ctxGID = 0, ctxGIDs = [], ctxFileOwnerUID = AnonymousFileOwnerUID,
           ctxFileOwnerGID = faGID a, ctxSID = [], ctxGroupSIDs = [], ctxTakeOwnership = False\<rparr>)"

definition permToACLMask :: "(u32 \<times> u32) list" where
  "permToACLMask =
     [(PermissionRead, ACE4_READ_DATA), (PermissionWrite, ACE4_WRITE_DATA OR ACE4_APPEND_DATA),
      (PermissionExecute, ACE4_EXECUTE), (PermissionDelete, ACE4_DELETE),
      (PermissionListDirectory, ACE4_READ_DATA), (PermissionTraverse, ACE4_EXECUTE),
      (PermissionChangePermissions, ACE4_WRITE_ACL), (PermissionChangeOwnership, ACE4_WRITE_OWNER)]"

abbreviation (input) read_only :: "ShareOptions option \<Rightarrow> bool" where
  "read_only opts \<equiv> (case opts of Some o' \<Rightarrow> soReadOnly o' | None \<Rightarrow> False)"

definition evaluateWithACL :: "ACL option \<Rightarrow> EvaluateContext \<Rightarrow> u32 \<Rightarrow> ShareOptions option \<Rightarrow> u32" where
  "evaluateWithACL acl evalCtx requested shareOpts =
     (let g = foldl (\<lambda>g (perm, msk). if requested AND perm \<noteq> 0 \<and> Evaluate acl evalCtx msk then g OR perm else g)
                0 permToACLMask
      in (if read_only shareOpts then g AND NOT writePermissions else g) AND requested)"

definition evaluateACLPermissions :: "FileAttr \<Rightarrow> Identity option \<Rightarrow> ShareOptions option \<Rightarrow> u32 \<Rightarrow> u32" where
  "evaluateACLPermissions a ident shareOpts requested =
     (if Option.bind ident idUID = Some 0
      then (if read_only shareOpts then requested AND NOT writePermissions else requested)
      else evaluateWithACL (faACL a) (buildFileAccessEvalContext a ident) requested shareOpts)"

definition permBits :: "FileAttr \<Rightarrow> Identity \<Rightarrow> u32 \<Rightarrow> u32" where
  "permBits a i uid =
     (if uid = faUID a then drop_bit 6 (faMode a) AND 7
      else if idGID i \<noteq> None \<and> (idGID i = Some (faGID a) \<or> HasGID i (faGID a)) then drop_bit 3 (faMode a) AND 7
      else faMode a AND 7)"

definition calculatePermissions :: "FileAttr \<Rightarrow> Identity option \<Rightarrow> ShareOptions option \<Rightarrow> u32 \<Rightarrow> u32" where
  "calculatePermissions a ident shareOpts requested =
     (if faACL a \<noteq> None then evaluateACLPermissions a ident shareOpts requested
      else case ident of
        None \<Rightarrow> CheckOtherPermissions (faMode a) requested
      | Some i \<Rightarrow>
         (case idUID i of
            None \<Rightarrow> CheckOtherPermissions (faMode a) requested
          | Some uid \<Rightarrow>
              if uid = 0 then (if read_only shareOpts then requested AND NOT writePermissions else requested)
              else
                let bits = permBits a i uid;
                    bits1 = (if faMode a AND modeReadonlyDOS \<noteq> 0 then bits AND NOT 2 else bits);
                    g = CalculatePermissionsFromBits bits1;
                    g1 = (if uid = faUID a then g OR (PermissionChangePermissions OR PermissionChangeOwnership) else g);
                    g2 = (if read_only shareOpts then g1 AND NOT writePermissions else g1)
                in g2 AND requested))"

definition checkFilePermissionsFile :: "uuid_package \<Rightarrow> Service \<Rightarrow> AuthContext \<Rightarrow> FileHandle \<Rightarrow> File \<Rightarrow> u32 \<Rightarrow> u32 res" where
  "checkFilePermissionsFile U s ctx handle file requested =
     bindR (storeForHandle U s handle) (\<lambda>r.
     let shareOpts = store_GetShareOptions (svHeap s r) (fShareName file);
         a = fAttr file
     in if acWriteAuthorizedByHandle ctx \<and> \<not> acShareReadOnly ctx \<and> \<not> read_only shareOpts
           \<and> \<not> HasExplicitDeny (faACL a) \<and> requested AND writePermissions \<noteq> 0
        then Inr (requested AND writePermissions)
        else
          let g = calculatePermissions a (acIdentity ctx) shareOpts requested
          in Inr (if acShareReadOnly ctx then g AND NOT writePermissions else g))"

definition checkFilePermissions :: "uuid_package \<Rightarrow> Service \<Rightarrow> AuthContext \<Rightarrow> FileHandle \<Rightarrow> u32 \<Rightarrow> u32 res" where
  "checkFilePermissions U s ctx handle requested =
     bindR (storeForHandle U s handle) (\<lambda>r.
     bindR (store_GetFile U (svHeap s r) handle) (\<lambda>file.
     checkFilePermissionsFile U s ctx handle file requested))"

definition shareIsReadOnly :: "uuid_package \<Rightarrow> Service \<Rightarrow> FileHandle \<Rightarrow> bool" where
  "shareIsReadOnly U s handle =
     (case storeForHandle U s handle of
        Inl _ \<Rightarrow> False
      | Inr r \<Rightarrow>
         (case store_GetFile U (svHeap s r) handle of
            Inl _ \<Rightarrow> False
          | Inr file \<Rightarrow> read_only (store_GetShareOptions (svHeap s r) (fShareName file))))"

definition shareForbidsWrites :: "uuid_package \<Rightarrow> Service \<Rightarrow> AuthContext \<Rightarrow> FileHandle \<Rightarrow> bool" where
  "shareForbidsWrites U s ctx handle = (acShareReadOnly ctx \<or> shareIsReadOnly U s handle)"

definition permissionResult :: "uuid_package \<Rightarrow> Service \<Rightarrow> FileHandle \<Rightarrow> u32 \<Rightarrow> u32 \<Rightarrow> unit res" where
  "permissionResult U s handle g perm =
     (if g AND perm = 0
      then fail (if perm AND writePermissions \<noteq> 0 \<and> shareIsReadOnly U s handle then ErrReadOnly else ErrAccessDenied)
      else Inr ())"

definition checkPermission :: "uuid_package \<Rightarrow> Service \<Rightarrow> AuthContext \<Rightarrow> FileHandle \<Rightarrow> u32 \<Rightarrow> unit res" where
  "checkPermission U s ctx handle perm =
     bindR (checkFilePermissions U s ctx handle perm) (\<lambda>g. permissionResult U s handle g perm)"

definition checkPermissionFile :: "uuid_package \<Rightarrow> Service \<Rightarrow> AuthContext \<Rightarrow> FileHandle \<Rightarrow> File \<Rightarrow> u32 \<Rightarrow> unit res" where
  "checkPermissionFile U s ctx handle file perm =
     bindR (checkFilePermissionsFile U s ctx handle file perm) (\<lambda>g. permissionResult U s handle g perm)"

abbreviation (input) checkWritePermission :: "uuid_package \<Rightarrow> Service \<Rightarrow> AuthContext \<Rightarrow> FileHandle \<Rightarrow> unit res" where
  "checkWritePermission U s ctx handle \<equiv> checkPermission U s ctx handle PermissionWrite"

definition CheckParentCreateAccessFile :: "uuid_package \<Rightarrow> Service \<Rightarrow> AuthContext \<Rightarrow> FileHandle \<Rightarrow> File \<Rightarrow> bool \<Rightarrow> unit res" where
  "CheckParentCreateAccessFile U s ctx parentHandle file isDirectory =
     bindR (storeForHandle U s parentHandle) (\<lambda>r.
     let a = fAttr file;
         storeReadOnly = read_only (store_GetShareOptions (svHeap s r) (fShareName file))
     in if faACL a = None then checkPermissionFile U s ctx parentHandle file PermissionWrite
        else if storeReadOnly then fail ErrReadOnly
        else if acShareReadOnly ctx then fail ErrAccessDenied
        else if isRoot ctx then Inr ()
        else if Evaluate (faACL a) (buildFileAccessEvalContext a (acIdentity ctx))
                  (if isDirectory then ACE4_APPEND_DATA else ACE4_WRITE_DATA)
        then Inr () else fail ErrAccessDenied)"

definition CheckParentCreateAccess :: "uuid_package \<Rightarrow> Service \<Rightarrow> AuthContext \<Rightarrow> FileHandle \<Rightarrow> bool \<Rightarrow> unit res" where
  "CheckParentCreateAccess U s ctx parentHandle isDirectory =
     bindR (storeForHandle U s parentHandle) (\<lambda>r.
     bindR (store_GetFile U (svHeap s r) parentHandle) (\<lambda>file.
     CheckParentCreateAccessFile U s ctx parentHandle file isDirectory))"

definition checkDeletePermission :: "uuid_package \<Rightarrow> Service \<Rightarrow> AuthContext \<Rightarrow> FileHandle \<Rightarrow> unit res" where
  "checkDeletePermission U s ctx parentHandle =
     (if acHasDeleteAccess ctx \<and> \<not> acShareReadOnly ctx then Inr () else checkWritePermission U s ctx parentHandle)"

section \<open>Access to a share\<close>

record AccessDecision =
  adAllowed :: bool
  adAllowedAuthMethods :: "string list"
  adReadOnly :: bool

text \<open>\<open>matches\<close> is \<open>MatchesIPPattern\<close>, whose address and CIDR parsing is that of the \<open>net\<close> package, and
  \<open>host\<close> strips the port of an address (\<open>net.SplitHostPort\<close>).\<close>

definition CheckShareAccess :: "(string \<Rightarrow> string \<Rightarrow> bool) \<Rightarrow> (string \<Rightarrow> string option) \<Rightarrow> Service \<Rightarrow> string \<Rightarrow> string \<Rightarrow> string \<Rightarrow>
    Identity option \<Rightarrow> (AccessDecision \<times> Identity option) res" where
  "CheckShareAccess matches host s shareName addr authMethod ident =
     bindR (GetStoreForShare s shareName) (\<lambda>r.
     case store_GetShareOptions (svHeap s r) shareName of
       None \<Rightarrow> fail ErrNotFound
     | Some opts \<Rightarrow>
         let clientAddr = (case host addr of Some h \<Rightarrow> h | None \<Rightarrow> addr);
             deny = (\<lambda>ms. Inr (\<lparr>adAllowed = False, adAllowedAuthMethods = ms, adReadOnly = False\<rparr>, None))
         in if soRequireAuth opts \<and> authMethod = ''anonymous'' then deny []
            else if soAllowedAuthMethods opts \<noteq> [] \<and> authMethod \<notin> set (soAllowedAuthMethods opts)
            then deny (soAllowedAuthMethods opts)
            else if list_ex (matches clientAddr) (soDeniedClients opts) then deny []
            else if soAllowedClients opts \<noteq> [] \<and> \<not> list_ex (matches clientAddr) (soAllowedClients opts) then deny []
            else Inr (\<lparr>adAllowed = True, adAllowedAuthMethods = soAllowedAuthMethods opts, adReadOnly = soReadOnly opts\<rparr>,
                      map_option (\<lambda>i. ApplyIdentityMapping i (soIdentityMapping opts)) ident))"

section \<open>Windows access masks\<close>

abbreviation (input) accessMaskMaximumAllowed :: u32 where "accessMaskMaximumAllowed \<equiv> 0x02000000"
abbreviation (input) accessMaskSystemSecurity :: u32 where "accessMaskSystemSecurity \<equiv> 0x01000000"
abbreviation (input) accessMaskPosixGenericAll :: u32 where "accessMaskPosixGenericAll \<equiv> 0x001F01FF"

definition parentGrantsDeleteChild :: "FileAttr option \<Rightarrow> AuthContext option \<Rightarrow> bool" where
  "parentGrantsDeleteChild parent ctx =
     (case parent of
        None \<Rightarrow> False
      | Some p \<Rightarrow>
          faACL p = None \<or> Option.bind ctx callerUID = Some 0
          \<or> Evaluate (faACL p) (buildFileAccessEvalContext p (Option.bind ctx acIdentity)) ACE4_DELETE_CHILD)"

text \<open>The granted mask, and whether access is denied (with the mask that goes with the error).\<close>

definition CheckFileAccessWithParentGeneric :: "FileAttr \<Rightarrow> FileAttr option \<Rightarrow> AuthContext option \<Rightarrow> u32 \<Rightarrow> u32 \<Rightarrow> u32 \<times> ErrorCode option" where
  "CheckFileAccessWithParentGeneric a parent ctx desiredAccess genericDerived0 =
     (let maximumAllowed = (desiredAccess AND accessMaskMaximumAllowed \<noteq> 0);
          specific = desiredAccess AND NOT accessMaskMaximumAllowed;
          explicit = ExpandGenericMask specific;
          genericDerived = genericDerived0 OR GenericDerivedBits specific
      in if Option.bind ctx callerUID = Some 0
         then ((if maximumAllowed then accessMaskPosixGenericAll OR explicit else explicit), None)
         else if explicit AND accessMaskSystemSecurity \<noteq> 0 then (0, Some ErrPrivilegeRequired)
         else if faACL a = None
         then ((if maximumAllowed then accessMaskPosixGenericAll OR explicit else explicit), None)
         else
           let evalCtx = buildFileAccessEvalContext a (Option.bind ctx acIdentity);
               g0 = EvaluateGranted (faACL a) evalCtx explicit;
               g1 = (if explicit AND ACE4_READ_ATTRIBUTES \<noteq> 0 \<and> g0 AND ACE4_READ_ATTRIBUTES = 0
                     then g0 OR ACE4_READ_ATTRIBUTES else g0);
               g2 = (if explicit AND ACE4_DELETE \<noteq> 0 \<and> g1 AND ACE4_DELETE = 0 \<and> parentGrantsDeleteChild parent ctx
                     then g1 OR ACE4_DELETE else g1)
           in if maximumAllowed
              then
                let e0 = EvaluateGranted (faACL a) evalCtx ProbeMaskAll;
                    e1 = (if parentGrantsDeleteChild parent ctx then e0 OR ACE4_DELETE else e0);
                    effective = (e1 OR ACE4_READ_ATTRIBUTES) OR g2;
                    named = explicit AND NOT genericDerived
                in (effective, if named \<noteq> 0 \<and> effective AND named \<noteq> named then Some ErrAccessDenied else None)
              else (g2, if explicit \<noteq> 0 \<and> g2 AND explicit \<noteq> explicit then Some ErrAccessDenied else None))"

definition ComputeMaximalAccess :: "FileAttr \<Rightarrow> AuthContext option \<Rightarrow> u32" where
  "ComputeMaximalAccess a ctx =
     (if faACL a \<noteq> None then
        (if Option.bind ctx callerUID = Some 0 then accessMaskPosixGenericAll
         else ExpandGenericMask
                (EvaluateGranted (faACL a) (buildFileAccessEvalContext a (Option.bind ctx acIdentity)) ProbeMaskAll))
      else if Option.bind ctx callerUID = Some (faUID a) then accessMaskPosixGenericAll
      else
        let member = (case Option.bind ctx acIdentity of
                        None \<Rightarrow> False
                      | Some i \<Rightarrow> idGID i = Some (faGID a) \<or> faGID a \<in> set (idGIDs i));
            bits = (if member then drop_bit 3 (faMode a) else faMode a) AND 7;
            access = ((if bits AND 4 \<noteq> 0 then 0x00120089 else 0) OR (if bits AND 2 \<noteq> 0 then 0x00120116 else 0)) OR
                     (if bits AND 1 \<noteq> 0 then 0x001200A0 else 0)
        in if access = 0 then 0x00120000 else access)"

end
