(* ===== verification/MD_Namespace.thy ===== *)
theory MD_Namespace
  imports MD_Access
begin

text \<open>
  The operations of the metadata service on names (\<open>pkg/metadata\<close>: \<open>file_create.go\<close>,
  \<open>file_remove.go\<close>, \<open>directory.go\<close>, \<open>file_modify.go\<close>): lookup, create, hard link, remove, rename,
  and the listing of a directory.  An operation first validates its arguments against what it reads
  outside a transaction, then changes the store in one transaction; the two parts are separate
  definitions, because other operations may run between them.

  A new UUID is an argument.  The stores are in-memory ones, which have no create cache and no
  relaxed transactions.
\<close>

record DirWcc =
  wccBefore :: FileAttr
  wccAfter :: FileAttr

definition bumped_wcc :: "md_time \<Rightarrow> FileAttr \<Rightarrow> DirWcc" where
  "bumped_wcc now before = \<lparr>wccBefore = CopyFileAttr before,
     wccAfter = CopyFileAttr (before\<lparr>faMtime := now, faCtime := now, faAtime := now\<rparr>)\<rparr>"

section \<open>Lookup\<close>

definition Lookup :: "uuid_package \<Rightarrow> Service \<Rightarrow> AuthContext \<Rightarrow> FileHandle \<Rightarrow> string \<Rightarrow> File res" where
  "Lookup U s ctx dirHandle name =
     bindR (storeForHandle U s dirHandle) (\<lambda>r.
     bindR (store_GetFile U (svHeap s r) dirHandle) (\<lambda>dir0.
     let dir = with_dir_times dirHandle s dir0 in
     unlessR (\<not> is_dir (fAttr dir)) (StoreError ErrNotDirectory) (
     bindR (if acBypassTraverseChecking ctx then Inr () else checkPermission U s ctx dirHandle PermissionExecute) (\<lambda>_.
     if name = ''.'' then Inr dir
     else if name = ''..'' then
       (case store_GetParent (svHeap s r) dirHandle of Inl _ \<Rightarrow> Inr dir | Inr parent \<Rightarrow> GetFile U s parent)
     else bindR (store_GetChild (svHeap s r) dirHandle name) (GetFile U s)))))"

text \<open>The case-insensitive fallback walks over pages of 500 entries; \<open>equalFold\<close> is \<open>strings.EqualFold\<close>
  on valid UTF-8 and equality otherwise.  Every page but the last moves the cursor forward, and the
  walk is bounded by the number of entries.\<close>

fun scan_page :: "uuid_package \<Rightarrow> MemStore \<Rightarrow> (string \<Rightarrow> string \<Rightarrow> bool) \<Rightarrow> string \<Rightarrow> DirEntry list \<Rightarrow> (File \<times> string) option res" where
  "scan_page U st equalFold name [] = Inr None"
| "scan_page U st equalFold name (e # es) =
     (if equalFold (deName e) name
      then (case store_GetFile U st (deHandle e) of
              Inr f \<Rightarrow> Inr (Some (f, deName e))
            | Inl err \<Rightarrow> if IsNotFoundError err then scan_page U st equalFold name es else Inl err)
      else scan_page U st equalFold name es)"

fun scan_dir :: "nat \<Rightarrow> uuid_package \<Rightarrow> MemStore \<Rightarrow> (string \<Rightarrow> string \<Rightarrow> bool) \<Rightarrow> FileHandle \<Rightarrow> string \<Rightarrow> string \<Rightarrow> (File \<times> string) option res" where
  "scan_dir 0 U st equalFold dirHandle name cursor = Inr None"
| "scan_dir (Suc n) U st equalFold dirHandle name cursor =
     (let (entries, nextCursor) = store_ListChildren st dirHandle cursor 500 in
      bindR (scan_page U st equalFold name entries) (\<lambda>found.
      if found \<noteq> None \<or> nextCursor = [] then Inr found
      else scan_dir n U st equalFold dirHandle name nextCursor))"

definition LookupCaseInsensitive :: "uuid_package \<Rightarrow> (string \<Rightarrow> string \<Rightarrow> bool) \<Rightarrow> Service \<Rightarrow> AuthContext \<Rightarrow> FileHandle \<Rightarrow> string \<Rightarrow>
    (File \<times> string) option res" where
  "LookupCaseInsensitive U equalFold s ctx dirHandle name =
     (case Lookup U s ctx dirHandle name of
        Inr f \<Rightarrow> Inr (Some (f, name))
      | Inl err \<Rightarrow>
          if \<not> IsNotFoundError err then Inl err
          else if name = [] \<or> name = ''.'' \<or> name = ''..'' then Inr None
          else bindR (storeForHandle U s dirHandle) (\<lambda>r.
            let st = svHeap s r in
            scan_dir (Suc (length (entries_of st dirHandle))) U st equalFold dirHandle name []))"

definition ReadSymlink :: "uuid_package \<Rightarrow> Service \<Rightarrow> FileHandle \<Rightarrow> (string \<times> File) res" where
  "ReadSymlink U s handle =
     bindR (storeForHandle U s handle) (\<lambda>r.
     bindR (store_GetFile U (svHeap s r) handle) (\<lambda>file.
     unlessR (faType (fAttr file) \<noteq> FileTypeSymlink) (StoreError ErrInvalidArgument) (
     Inr (faLinkTarget (fAttr file), file))))"

section \<open>Create\<close>

text \<open>The attributes of the new file.  A caller without an identity that asks for a set-group-id file
  makes the code dereference a nil pointer.\<close>

definition create_mode :: "AuthContext \<Rightarrow> FileType \<Rightarrow> FileAttr \<Rightarrow> FileAttr \<Rightarrow> FileAttr res" where
  "create_mode ctx fileType parentAttr a =
     (let a1 = (if faMode parentAttr AND modeSGID \<noteq> 0
                then a\<lparr>faGID := faGID parentAttr,
                       faMode := (if fileType = FileTypeDirectory then faMode a OR modeSGID else faMode a AND NOT modeSGID)\<rparr>
                else a)
      in if isRoot ctx then Inr a1
         else
           let a2 = a1\<lparr>faMode := faMode a1 AND NOT modeSUID\<rparr>
           in if fileType \<noteq> FileTypeDirectory \<and> faMode a2 AND modeSGID \<noteq> 0
              then (case acIdentity ctx of
                      None \<Rightarrow> Inl RuntimePanic
                    | Some i \<Rightarrow> Inr (if HasGID i (faGID a2) then a2 else a2\<lparr>faMode := faMode a2 AND NOT modeSGID\<rparr>))
              else Inr a2)"

definition creator_of :: "AuthContext \<Rightarrow> Creator" where
  "creator_of ctx =
     (case acIdentity ctx of
        None \<Rightarrow> \<lparr>crUID = 0, crGID = 0, crSID = []\<rparr>
      | Some i \<Rightarrow> \<lparr>crUID = (case idUID i of Some u \<Rightarrow> u | None \<Rightarrow> 0), crGID = (case idGID i of Some g \<Rightarrow> g | None \<Rightarrow> 0),
                   crSID = (case idSID i of Some x \<Rightarrow> x | None \<Rightarrow> [])\<rparr>)"

definition new_attr :: "uuid_package \<Rightarrow> md_time \<Rightarrow> AuthContext \<Rightarrow> File \<Rightarrow> UUID \<Rightarrow> FileAttr \<Rightarrow> FileType \<Rightarrow> string \<Rightarrow> u32 \<Rightarrow> u32 \<Rightarrow> FileAttr res" where
  "new_attr U now ctx parent u attr fileType linkTarget deviceMajor deviceMinor =
     (let a0 = ApplyOwnerDefaults (ApplyCreateDefaults now (attr\<lparr>faType := fileType, faLinkTarget := linkTarget\<rparr>) linkTarget) ctx in
      bindR (create_mode ctx fileType (fAttr parent) a0) (\<lambda>a.
      Inr (a\<lparr>faPayloadID := (if fileType = FileTypeRegular then buildPayloadID U (fShareName parent) u else faPayloadID a),
             faRdev := (if fileType = FileTypeBlockDevice \<or> fileType = FileTypeCharDevice
                        then MakeRdev deviceMajor deviceMinor else faRdev a),
             faNlink := GetInitialLinkCount fileType,
             faACL := (if faACL (fAttr parent) \<noteq> None
                       then ComputeInheritedACL (faACL (fAttr parent)) (fileType = FileTypeDirectory) (creator_of ctx)
                       else faACL a)\<rparr>)))"

record create_plan =
  cpStore :: nat
  cpParent :: File
  cpHandle :: FileHandle
  cpFile :: File

definition createEntry_prepare :: "uuid_package \<Rightarrow> md_time \<Rightarrow> UUID \<Rightarrow> Service \<Rightarrow> AuthContext \<Rightarrow> FileHandle \<Rightarrow> string \<Rightarrow> FileAttr \<Rightarrow>
    FileType \<Rightarrow> string \<Rightarrow> u32 \<Rightarrow> u32 \<Rightarrow> create_plan res" where
  "createEntry_prepare U now u s ctx parentHandle name attr fileType linkTarget deviceMajor deviceMinor =
     bindR (storeForHandle U s parentHandle) (\<lambda>r.
     bindR (ValidateName name) (\<lambda>_.
     bindR (store_GetFile U (svHeap s r) parentHandle) (\<lambda>parent.
     unlessR (\<not> is_dir (fAttr parent)) (StoreError ErrNotDirectory) (
     bindR (ValidatePath (buildPath (fPath parent) name)) (\<lambda>_.
     bindR (CheckParentCreateAccessFile U s ctx parentHandle parent (fileType = FileTypeDirectory)) (\<lambda>_.
     unlessR (child_of (svHeap s r) parentHandle name \<noteq> None) (StoreError ErrAlreadyExists) (
     bindR (EncodeShareHandle U (fShareName parent) u) (\<lambda>newHandle.
     bindR (DecodeFileHandle U newHandle) (\<lambda>(_, i).
     bindR (new_attr U now ctx parent i attr fileType linkTarget deviceMajor deviceMinor) (\<lambda>a.
     Inr \<lparr>cpStore = r, cpParent = parent, cpHandle = newHandle,
          cpFile = \<lparr>fID = i, fShareName = fShareName parent, fPath = buildPath (fPath parent) name, fAttr = a\<rparr>\<rparr>))))))))))"

definition createEntry_tx :: "uuid_package \<Rightarrow> FileHandle \<Rightarrow> string \<Rightarrow> FileHandle \<Rightarrow> File \<Rightarrow> unit tx" where
  "createEntry_tx U parentHandle name newHandle newFile t =
     (if child_of (txStore t) parentHandle name \<noteq> None then fail ErrAlreadyExists
      else
        bindT (PutFile U newFile) (\<lambda>_.
        bindT (SetLinkCount newHandle (faNlink (fAttr newFile))) (\<lambda>_.
        bindT (SetParent newHandle parentHandle) (\<lambda>_.
        bindT (SetChild parentHandle name newHandle) (\<lambda>_.
        if is_dir (fAttr newFile)
        then bindT (GetLinkCount parentHandle) (\<lambda>n. SetLinkCount parentHandle (n + 1))
        else retT ())))) t)"

definition createEntry_commit :: "uuid_package \<Rightarrow> md_time \<Rightarrow> FileHandle \<Rightarrow> string \<Rightarrow> create_plan \<Rightarrow> Service \<Rightarrow> (File \<times> DirWcc) outcome" where
  "createEntry_commit U now parentHandle name p s =
     (let before = mergeDirTimes parentHandle s (fAttr (cpParent p)) in
      case run_tx (cpStore p) (createEntry_tx U parentHandle name (cpHandle p) (cpFile p)) s of
        (Inl e, s1) \<Rightarrow> (Inl e, s1)
      | (Inr _, s1) \<Rightarrow>
          (Inr (cpFile p, bumped_wcc now before), recordDirTimes U parentHandle now s1))"

definition createEntry :: "uuid_package \<Rightarrow> md_time \<Rightarrow> UUID \<Rightarrow> AuthContext \<Rightarrow> FileHandle \<Rightarrow> string \<Rightarrow> FileAttr \<Rightarrow>
    FileType \<Rightarrow> string \<Rightarrow> u32 \<Rightarrow> u32 \<Rightarrow> Service \<Rightarrow> (File \<times> DirWcc) outcome" where
  "createEntry U now u ctx parentHandle name attr fileType linkTarget deviceMajor deviceMinor s =
     (case createEntry_prepare U now u s ctx parentHandle name attr fileType linkTarget deviceMajor deviceMinor of
        Inl e \<Rightarrow> (Inl e, s)
      | Inr p \<Rightarrow>
          let a = fAttr (cpFile p);
              (q, s1) = (if fileType = FileTypeRegular
                         then checkIdentityQuotas now (fShareName (cpParent p)) (svHeap s (cpStore p)) (faUID a) (faGID a) (faSize a) 1 s
                         else (Inr (), s))
          in case q of Inl e \<Rightarrow> (Inl e, s1) | Inr _ \<Rightarrow> createEntry_commit U now parentHandle name p s1)"

text \<open>A successful creation is announced to the watchers of the parent.\<close>

definition announce :: "uuid_package \<Rightarrow> FileHandle \<Rightarrow> DirChangeType \<Rightarrow> AuthContext \<Rightarrow> 'a outcome \<Rightarrow> 'a outcome" where
  "announce U parentHandle change ctx o' =
     (case o' of (Inl e, s) \<Rightarrow> (Inl e, s)
      | (Inr x, s) \<Rightarrow> (Inr x, notifyDirChange (shareNameForHandle U parentHandle) parentHandle change ctx s))"

definition CreateFile :: "uuid_package \<Rightarrow> md_time \<Rightarrow> UUID \<Rightarrow> AuthContext \<Rightarrow> FileHandle \<Rightarrow> string \<Rightarrow> FileAttr \<Rightarrow> Service \<Rightarrow> (File \<times> DirWcc) outcome" where
  "CreateFile U now u ctx parentHandle name attr s =
     announce U parentHandle DirChangeAddEntry ctx
       (createEntry U now u ctx parentHandle name attr FileTypeRegular [] 0 0 s)"

definition CreateDirectory :: "uuid_package \<Rightarrow> md_time \<Rightarrow> UUID \<Rightarrow> AuthContext \<Rightarrow> FileHandle \<Rightarrow> string \<Rightarrow> FileAttr \<Rightarrow> Service \<Rightarrow> (File \<times> DirWcc) outcome" where
  "CreateDirectory U now u ctx parentHandle name attr s =
     announce U parentHandle DirChangeAddEntry ctx
       (createEntry U now u ctx parentHandle name attr FileTypeDirectory [] 0 0 s)"

definition CreateSymlink :: "uuid_package \<Rightarrow> md_time \<Rightarrow> UUID \<Rightarrow> AuthContext \<Rightarrow> FileHandle \<Rightarrow> string \<Rightarrow> string \<Rightarrow> FileAttr \<Rightarrow> Service \<Rightarrow> (File \<times> DirWcc) outcome" where
  "CreateSymlink U now u ctx parentHandle name target attr s =
     (case ValidateSymlinkTarget target of
        Inl e \<Rightarrow> (Inl e, s)
      | Inr _ \<Rightarrow> announce U parentHandle DirChangeAddEntry ctx
                   (createEntry U now u ctx parentHandle name attr FileTypeSymlink target 0 0 s))"

definition CreateSpecialFile :: "uuid_package \<Rightarrow> md_time \<Rightarrow> UUID \<Rightarrow> AuthContext \<Rightarrow> FileHandle \<Rightarrow> string \<Rightarrow> FileType \<Rightarrow> FileAttr \<Rightarrow> u32 \<Rightarrow> u32 \<Rightarrow>
    Service \<Rightarrow> (File \<times> DirWcc) outcome" where
  "CreateSpecialFile U now u ctx parentHandle name fileType attr deviceMajor deviceMinor s =
     (case bindR (ValidateSpecialFileType fileType) (\<lambda>_.
             if fileType = FileTypeBlockDevice \<or> fileType = FileTypeCharDevice then RequiresRoot ctx else Inr ()) of
        Inl e \<Rightarrow> (Inl e, s)
      | Inr _ \<Rightarrow> announce U parentHandle DirChangeAddEntry ctx
                   (createEntry U now u ctx parentHandle name attr fileType [] deviceMajor deviceMinor s))"

section \<open>Hard links\<close>

record link_plan =
  lpStore :: nat
  lpDir :: File
  lpTarget :: File

definition CreateHardLink_prepare :: "uuid_package \<Rightarrow> Service \<Rightarrow> AuthContext \<Rightarrow> FileHandle \<Rightarrow> string \<Rightarrow> FileHandle \<Rightarrow> link_plan res" where
  "CreateHardLink_prepare U s ctx dirHandle name targetHandle =
     bindR (storeForHandle U s dirHandle) (\<lambda>r.
     bindR (ValidateName name) (\<lambda>_.
     bindR (store_GetFile U (svHeap s r) dirHandle) (\<lambda>dir.
     unlessR (\<not> is_dir (fAttr dir)) (StoreError ErrNotDirectory) (
     bindR (ValidatePath (buildPath (fPath dir) name)) (\<lambda>_.
     bindR (checkWritePermission U s ctx dirHandle) (\<lambda>_.
     bindR (store_GetFile U (svHeap s r) targetHandle) (\<lambda>target.
     unlessR (is_dir (fAttr target)) (StoreError ErrIsDirectory) (
     unlessR (child_of (svHeap s r) dirHandle name \<noteq> None) (StoreError ErrAlreadyExists) (
     Inr \<lparr>lpStore = r, lpDir = dir, lpTarget = target\<rparr>)))))))))"

text \<open>A directory that was removed meanwhile is written back as it was read before.\<close>

definition reread :: "uuid_package \<Rightarrow> FileHandle \<Rightarrow> File \<Rightarrow> File tx" where
  "reread U handle old t = (case store_GetFile U (txStore t) handle of Inr f \<Rightarrow> Inr (f, t) | Inl _ \<Rightarrow> Inr (old, t))"

definition CreateHardLink_tx :: "uuid_package \<Rightarrow> md_time \<Rightarrow> FileHandle \<Rightarrow> string \<Rightarrow> FileHandle \<Rightarrow> File \<Rightarrow> File \<Rightarrow> DirWcc tx" where
  "CreateHardLink_tx U now dirHandle name targetHandle dir0 target =
     bindT (reread U dirHandle dir0) (\<lambda>dir t.
     if child_of (txStore t) dirHandle name \<noteq> None then fail ErrAlreadyExists
     else
       bindT (SetChild dirHandle name targetHandle) (\<lambda>_.
       bindT (GetLinkCount targetHandle) (\<lambda>n.
       bindT (SetLinkCount targetHandle (n + 1)) (\<lambda>_.
       bindT (PutFile U (target\<lparr>fAttr := (fAttr target)\<lparr>faCtime := now\<rparr>\<rparr>)) (\<lambda>_.
       let dir1 = dir\<lparr>fAttr := (fAttr dir)\<lparr>faMtime := now, faCtime := now\<rparr>\<rparr> in
       bindT (PutFile U dir1) (\<lambda>_.
       retT \<lparr>wccBefore = CopyFileAttr (fAttr dir), wccAfter = CopyFileAttr (fAttr dir1)\<rparr>))))) t)"

definition CreateHardLink :: "uuid_package \<Rightarrow> md_time \<Rightarrow> AuthContext \<Rightarrow> FileHandle \<Rightarrow> string \<Rightarrow> FileHandle \<Rightarrow> Service \<Rightarrow> DirWcc outcome" where
  "CreateHardLink U now ctx dirHandle name targetHandle s =
     (case CreateHardLink_prepare U s ctx dirHandle name targetHandle of
        Inl e \<Rightarrow> (Inl e, s)
      | Inr p \<Rightarrow> announce U dirHandle DirChangeAddEntry ctx
          (run_tx (lpStore p) (CreateHardLink_tx U now dirHandle name targetHandle (lpDir p) (lpTarget p)) s))"

section \<open>Remove\<close>

record remove_plan =
  rpStore :: nat
  rpParent :: File
  rpHandle :: FileHandle
  rpFile :: File

definition RemoveFile_prepare :: "uuid_package \<Rightarrow> Service \<Rightarrow> AuthContext \<Rightarrow> FileHandle \<Rightarrow> string \<Rightarrow> remove_plan res" where
  "RemoveFile_prepare U s ctx parentHandle name =
     bindR (storeForHandle U s parentHandle) (\<lambda>r.
     bindR (ValidateName name) (\<lambda>_.
     bindR (store_GetFile U (svHeap s r) parentHandle) (\<lambda>parent.
     unlessR (\<not> is_dir (fAttr parent)) (StoreError ErrNotDirectory) (
     bindR (store_GetChild (svHeap s r) parentHandle name) (\<lambda>fileHandle.
     bindR (store_GetFile U (svHeap s r) fileHandle) (\<lambda>file.
     unlessR (is_dir (fAttr file)) (StoreError ErrIsDirectory) (
     bindR (checkDeletePermission U s ctx parentHandle) (\<lambda>_.
     bindR (CheckStickyBitRestriction ctx (fAttr parent) (fAttr file)) (\<lambda>_.
     Inr \<lparr>rpStore = r, rpParent = parent, rpHandle = fileHandle, rpFile = file\<rparr>)))))))))"

text \<open>The transaction answers the file that goes back to the caller and whether its last name went
  away.  The caller deletes the content of a file whose payload id is still set.\<close>

definition RemoveFile_tx :: "uuid_package \<Rightarrow> md_time \<Rightarrow> FileHandle \<Rightarrow> string \<Rightarrow> FileHandle \<Rightarrow> File \<Rightarrow> (File \<times> bool) tx" where
  "RemoveFile_tx U now parentHandle name fileHandle file =
     bindT (GetLinkCount fileHandle) (\<lambda>linkCount.
     let a = fAttr file;
         lastLink = (linkCount \<le> 1);
         newCount = (if lastLink then 0 else linkCount - 1);
         returned = file\<lparr>fAttr := a\<lparr>faPayloadID := (if lastLink then faPayloadID a else []), faNlink := newCount, faCtime := now\<rparr>\<rparr>;
         stored = file\<lparr>fAttr := (if lastLink then a\<lparr>faCtime := now, faNlink := 0\<rparr> else a\<lparr>faCtime := now\<rparr>)\<rparr>
     in bindT (SetLinkCount fileHandle newCount) (\<lambda>_.
        bindT (PutFile U stored) (\<lambda>_.
        bindT (DeleteChild parentHandle name) (\<lambda>_.
        retT (returned, lastLink)))))"

definition RemoveFile_commit :: "uuid_package \<Rightarrow> md_time \<Rightarrow> FileHandle \<Rightarrow> string \<Rightarrow> remove_plan \<Rightarrow> Service \<Rightarrow> (File \<times> DirWcc) outcome" where
  "RemoveFile_commit U now parentHandle name p s =
     (let before = mergeDirTimes parentHandle s (fAttr (rpParent p)) in
      case run_tx (rpStore p) (RemoveFile_tx U now parentHandle name (rpHandle p) (rpFile p)) s of
        (Inl e, s1) \<Rightarrow> (Inl e, s1)
      | (Inr (returned, lastLink), s1) \<Rightarrow>
          (Inr (returned, bumped_wcc now before),
           recordDirTimes U parentHandle now (if lastLink then snd (PopPending (rpHandle p) s1) else s1)))"

definition RemoveFile :: "uuid_package \<Rightarrow> md_time \<Rightarrow> AuthContext \<Rightarrow> FileHandle \<Rightarrow> string \<Rightarrow> Service \<Rightarrow> (File \<times> DirWcc) outcome" where
  "RemoveFile U now ctx parentHandle name s =
     (case RemoveFile_prepare U s ctx parentHandle name of
        Inl e \<Rightarrow> (Inl e, s)
      | Inr p \<Rightarrow> announce U parentHandle DirChangeRemoveEntry ctx (RemoveFile_commit U now parentHandle name p s))"

definition RemoveDirectory_prepare :: "uuid_package \<Rightarrow> Service \<Rightarrow> AuthContext \<Rightarrow> FileHandle \<Rightarrow> string \<Rightarrow> remove_plan res" where
  "RemoveDirectory_prepare U s ctx parentHandle name =
     bindR (storeForHandle U s parentHandle) (\<lambda>r.
     bindR (ValidateName name) (\<lambda>_.
     bindR (store_GetFile U (svHeap s r) parentHandle) (\<lambda>parent.
     unlessR (\<not> is_dir (fAttr parent)) (StoreError ErrNotDirectory) (
     bindR (store_GetChild (svHeap s r) parentHandle name) (\<lambda>dirHandle.
     bindR (store_GetFile U (svHeap s r) dirHandle) (\<lambda>dir.
     unlessR (\<not> is_dir (fAttr dir)) (StoreError ErrNotDirectory) (
     bindR (checkDeletePermission U s ctx parentHandle) (\<lambda>_.
     bindR (CheckStickyBitRestriction ctx (fAttr parent) (fAttr dir)) (\<lambda>_.
     unlessR (fst (store_ListChildren (svHeap s r) dirHandle [] 1) \<noteq> []) (StoreError ErrNotEmpty) (
     Inr \<lparr>rpStore = r, rpParent = parent, rpHandle = dirHandle, rpFile = dir\<rparr>))))))))))"

definition RemoveDirectory_tx :: "uuid_package \<Rightarrow> FileHandle \<Rightarrow> string \<Rightarrow> FileHandle \<Rightarrow> File \<Rightarrow> File tx" where
  "RemoveDirectory_tx U parentHandle name dirHandle parent0 =
     bindT (reread U parentHandle parent0) (\<lambda>parent.
     bindT (DeleteFile dirHandle) (\<lambda>_.
     bindT (DeleteChild parentHandle name) (\<lambda>_.
     bindT (GetLinkCount parentHandle) (\<lambda>n.
     bindT (if n > 0 then SetLinkCount parentHandle (n - 1) else retT ()) (\<lambda>_.
     retT parent)))))"

definition RemoveDirectory_commit :: "uuid_package \<Rightarrow> md_time \<Rightarrow> FileHandle \<Rightarrow> string \<Rightarrow> remove_plan \<Rightarrow> Service \<Rightarrow> DirWcc outcome" where
  "RemoveDirectory_commit U now parentHandle name p s =
     (case run_tx (rpStore p) (RemoveDirectory_tx U parentHandle name (rpHandle p) (rpParent p)) s of
        (Inl e, s1) \<Rightarrow> (Inl e, s1)
      | (Inr parent, s1) \<Rightarrow>
          (Inr (bumped_wcc now (mergeDirTimes parentHandle s (fAttr parent))),
           dirTimes_Clear (rpHandle p) (recordDirTimes U parentHandle now s1)))"

definition RemoveDirectory :: "uuid_package \<Rightarrow> md_time \<Rightarrow> AuthContext \<Rightarrow> FileHandle \<Rightarrow> string \<Rightarrow> Service \<Rightarrow> DirWcc outcome" where
  "RemoveDirectory U now ctx parentHandle name s =
     (case RemoveDirectory_prepare U s ctx parentHandle name of
        Inl e \<Rightarrow> (Inl e, s)
      | Inr p \<Rightarrow> announce U parentHandle DirChangeRemoveEntry ctx (RemoveDirectory_commit U now parentHandle name p s))"

section \<open>Rename\<close>

record move_plan =
  mpStore :: nat
  mpSrcDir :: File
  mpDstDir :: File
  mpSrcHandle :: FileHandle
  mpSrc :: File
  mpDst :: "(FileHandle \<times> File) option"

text \<open>What is replaced must be of the same kind, and a replaced directory empty.\<close>

definition Move_target :: "uuid_package \<Rightarrow> MemStore \<Rightarrow> AuthContext \<Rightarrow> File \<Rightarrow> File \<Rightarrow> FileHandle \<Rightarrow> string \<Rightarrow> (FileHandle \<times> File) option res" where
  "Move_target U st ctx dstDir src toDir toName =
     (case child_of st toDir toName of
        None \<Rightarrow> Inr None
      | Some dstHandle \<Rightarrow>
          bindR (store_GetFile U st dstHandle) (\<lambda>dst.
          bindR (CheckStickyBitRestriction ctx (fAttr dstDir) (fAttr dst)) (\<lambda>_.
          if is_dir (fAttr src) then
            unlessR (\<not> is_dir (fAttr dst)) (StoreError ErrNotDirectory) (
            unlessR (fst (store_ListChildren st dstHandle [] 1) \<noteq> []) (StoreError ErrNotEmpty) (
            Inr (Some (dstHandle, dst))))
          else unlessR (is_dir (fAttr dst)) (StoreError ErrIsDirectory) (Inr (Some (dstHandle, dst))))))"

definition Move_prepare :: "uuid_package \<Rightarrow> Service \<Rightarrow> AuthContext \<Rightarrow> FileHandle \<Rightarrow> string \<Rightarrow> FileHandle \<Rightarrow> string \<Rightarrow> move_plan option res" where
  "Move_prepare U s ctx fromDir fromName toDir toName =
     bindR (storeForHandle U s fromDir) (\<lambda>r.
     let st = svHeap s r in
     bindR (ValidateName fromName) (\<lambda>_.
     bindR (ValidateName toName) (\<lambda>_.
     if fromDir = toDir \<and> fromName = toName then Inr None
     else
     bindR (store_GetFile U st fromDir) (\<lambda>srcDir.
     unlessR (\<not> is_dir (fAttr srcDir)) (StoreError ErrNotDirectory) (
     bindR (store_GetFile U st toDir) (\<lambda>dstDir.
     unlessR (\<not> is_dir (fAttr dstDir)) (StoreError ErrNotDirectory) (
     bindR (ValidatePath (buildPath (fPath dstDir) toName)) (\<lambda>_.
     bindR (checkWritePermission U s ctx fromDir) (\<lambda>_.
     bindR (checkWritePermission U s ctx toDir) (\<lambda>_.
     bindR (store_GetChild st fromDir fromName) (\<lambda>srcHandle.
     bindR (store_GetFile U st srcHandle) (\<lambda>src.
     bindR (CheckStickyBitRestriction ctx (fAttr srcDir) (fAttr src)) (\<lambda>_.
     let caller = (case callerUID ctx of Some u \<Rightarrow> u | None \<Rightarrow> NOT 0) in
     unlessR (is_dir (fAttr src) \<and> fromDir \<noteq> toDir \<and> faMode (fAttr srcDir) AND ModeSticky \<noteq> 0
              \<and> caller \<noteq> 0 \<and> faUID (fAttr src) \<noteq> caller) (StoreError ErrAccessDenied) (
     bindR (Move_target U st ctx dstDir src toDir toName) (\<lambda>dst.
     Inr (Some \<lparr>mpStore = r, mpSrcDir = srcDir, mpDstDir = dstDir, mpSrcHandle = srcHandle, mpSrc = src, mpDst = dst\<rparr>))))))))))))))))"

definition Move_replace_tx :: "uuid_package \<Rightarrow> md_time \<Rightarrow> FileHandle \<Rightarrow> string \<Rightarrow> (FileHandle \<times> File) option \<Rightarrow> unit tx" where
  "Move_replace_tx U now toDir toName dst =
     (case dst of
        None \<Rightarrow> retT ()
      | Some (dstHandle, dstFile) \<Rightarrow>
          bindT (if is_dir (fAttr dstFile) then DeleteFile dstHandle
                 else
                   bindT (GetLinkCount dstHandle) (\<lambda>n.
                   bindT (SetLinkCount dstHandle (if n > 1 then n - 1 else 0)) (\<lambda>_.
                   PutFile U (dstFile\<lparr>fAttr := (fAttr dstFile)\<lparr>faCtime := now\<rparr>\<rparr>)))) (\<lambda>_.
          DeleteChild toDir toName))"

text \<open>A move to another directory sets the parent, and a moved directory takes its link of the parent along.\<close>

definition Move_relink_tx :: "FileHandle \<Rightarrow> FileHandle \<Rightarrow> FileHandle \<Rightarrow> bool \<Rightarrow> unit tx" where
  "Move_relink_tx fromDir toDir srcHandle srcIsDir =
     (if fromDir = toDir then retT ()
      else
        bindT (SetParent srcHandle toDir) (\<lambda>_.
        if \<not> srcIsDir then retT ()
        else
          bindT (GetLinkCount fromDir) (\<lambda>n.
          bindT (if n > 0 then SetLinkCount fromDir (n - 1) else retT ()) (\<lambda>_.
          bindT (GetLinkCount toDir) (\<lambda>m. SetLinkCount toDir (m + 1))))))"

definition Move_tx :: "uuid_package \<Rightarrow> md_time \<Rightarrow> FileHandle \<Rightarrow> string \<Rightarrow> FileHandle \<Rightarrow> string \<Rightarrow> move_plan \<Rightarrow> (File \<times> File) tx" where
  "Move_tx U now fromDir fromName toDir toName p =
     bindT (reread U fromDir (mpSrcDir p)) (\<lambda>srcDir.
     bindT (if fromDir = toDir then retT (mpDstDir p) else reread U toDir (mpDstDir p)) (\<lambda>dstDir.
     bindT (Move_replace_tx U now toDir toName (mpDst p)) (\<lambda>_.
     bindT (DeleteChild fromDir fromName) (\<lambda>_.
     bindT (SetChild toDir toName (mpSrcHandle p)) (\<lambda>_.
     bindT (Move_relink_tx fromDir toDir (mpSrcHandle p) (is_dir (fAttr (mpSrc p)))) (\<lambda>_.
     bindT (PutFile U ((mpSrc p)\<lparr>fAttr := (fAttr (mpSrc p))\<lparr>faCtime := now\<rparr>\<rparr>)) (\<lambda>_.
     retT (srcDir, dstDir))))))))"

text \<open>Renaming sets the modification and change times of the directories, but not the access time.\<close>

definition renamed_wcc :: "md_time \<Rightarrow> FileAttr \<Rightarrow> DirWcc" where
  "renamed_wcc now before = \<lparr>wccBefore = CopyFileAttr before,
     wccAfter = CopyFileAttr (before\<lparr>faMtime := now, faCtime := now\<rparr>)\<rparr>"

definition Move_commit :: "uuid_package \<Rightarrow> md_time \<Rightarrow> AuthContext \<Rightarrow> FileHandle \<Rightarrow> string \<Rightarrow> FileHandle \<Rightarrow> string \<Rightarrow> move_plan \<Rightarrow> Service \<Rightarrow>
    (DirWcc \<times> DirWcc) option outcome" where
  "Move_commit U now ctx fromDir fromName toDir toName p s =
     (case run_tx (mpStore p) (Move_tx U now fromDir fromName toDir toName p) s of
        (Inl e, s1) \<Rightarrow> (Inl e, s1)
      | (Inr (srcDir, dstDir), s1) \<Rightarrow>
          let src = renamed_wcc now (mergeDirTimes fromDir s (fAttr srcDir));
              dst = (if fromDir = toDir then src else renamed_wcc now (mergeDirTimes toDir s (fAttr dstDir)));
              s2 = recordDirTimes U fromDir now s1;
              s3 = (if fromDir = toDir then s2 else recordDirTimes U toDir now s2);
              s4 = notifyDirChange (shareNameForHandle U fromDir) fromDir DirChangeRenameEntry ctx s3;
              s5 = (if fromDir = toDir then s4
                    else notifyDirChange (shareNameForHandle U toDir) toDir DirChangeAddEntry ctx s4)
          in (Inr (Some (src, dst)), s5))"

definition Move :: "uuid_package \<Rightarrow> md_time \<Rightarrow> AuthContext \<Rightarrow> FileHandle \<Rightarrow> string \<Rightarrow> FileHandle \<Rightarrow> string \<Rightarrow> Service \<Rightarrow>
    (DirWcc \<times> DirWcc) option outcome" where
  "Move U now ctx fromDir fromName toDir toName s =
     (case Move_prepare U s ctx fromDir fromName toDir toName of
        Inl e \<Rightarrow> (Inl e, s)
      | Inr None \<Rightarrow> (Inr None, s)
      | Inr (Some p) \<Rightarrow> Move_commit U now ctx fromDir fromName toDir toName p s)"

definition MarkFileAsOrphaned :: "uuid_package \<Rightarrow> md_time \<Rightarrow> FileHandle \<Rightarrow> Service \<Rightarrow> unit outcome" where
  "MarkFileAsOrphaned U now handle s =
     (case bindR (storeForHandle U s handle) (\<lambda>r. bindR (store_GetFile U (svHeap s r) handle) (\<lambda>file. Inr (r, file))) of
        Inl e \<Rightarrow> (Inl e, s)
      | Inr (r, file) \<Rightarrow>
          if is_dir (fAttr file) then (Inr (), s)
          else
            let s1 = snd (run_tx r (SetLinkCount handle 0) s)
            in run_tx r (PutFile U (file\<lparr>fAttr := (fAttr file)\<lparr>faNlink := 0, faCtime := now\<rparr>\<rparr>)) s1)"

section \<open>Listing a directory\<close>

record ReadDirPage =
  rdEntries :: "DirEntry list"
  rdNextCookie :: u64
  rdHasMore :: bool
  rdDirMtime :: md_time

fun add_cookies :: "Service \<Rightarrow> FileHandle \<Rightarrow> DirEntry list \<Rightarrow> (u64 \<times> string) list \<Rightarrow> DirEntry list \<times> (u64 \<times> string) list" where
  "add_cookies s dirHandle [] cm = ([], cm)"
| "add_cookies s dirHandle (e # es) cm =
     (let (cookie, cm1) = GenerateCookie dirHandle (deName e) cm;
          (es1, cm2) = add_cookies s dirHandle es cm1
      in (e\<lparr>deCookie := cookie, deAttr := map_option (mergeDirTimes (deHandle e) s) (deAttr e)\<rparr> # es1, cm2))"

definition ReadDirectory_check :: "uuid_package \<Rightarrow> Service \<Rightarrow> AuthContext \<Rightarrow> FileHandle \<Rightarrow> (nat \<times> FileAttr) res" where
  "ReadDirectory_check U s ctx dirHandle =
     bindR (storeForHandle U s dirHandle) (\<lambda>r.
     bindR (store_GetFile U (svHeap s r) dirHandle) (\<lambda>dir.
     let a = mergeDirTimes dirHandle s (fAttr dir) in
     unlessR (\<not> is_dir a) (StoreError ErrNotDirectory) (
     bindR (checkFilePermissions U s ctx dirHandle (PermissionRead OR PermissionTraverse)) (\<lambda>g.
     unlessR (g AND PermissionRead = 0 \<or> g AND PermissionTraverse = 0) (StoreError ErrAccessDenied) (
     Inr (r, a))))))"

definition page_limit :: "u32 \<Rightarrow> int" where
  "page_limit maxBytes = (if maxBytes > 0 then max (int (unat maxBytes div 200)) 10 else 1000)"

definition ReadDirectory :: "uuid_package \<Rightarrow> AuthContext \<Rightarrow> FileHandle \<Rightarrow> u64 \<Rightarrow> u32 \<Rightarrow> Service \<Rightarrow> ReadDirPage outcome" where
  "ReadDirectory U ctx dirHandle cookie maxBytes s =
     (case ReadDirectory_check U s ctx dirHandle of
        Inl e \<Rightarrow> (Inl e, s)
      | Inr (r, a) \<Rightarrow>
          let (token, cm0) = GetToken cookie (svCookies s);
              (entries, nextToken) = store_ListChildren (svHeap s r) dirHandle token (page_limit maxBytes);
              (entries1, cm1) = add_cookies s dirHandle entries cm0;
              (nextCookie, cm2) = (if nextToken \<noteq> [] then GenerateCookie dirHandle nextToken cm1 else (0, cm1))
          in (Inr \<lparr>rdEntries = entries1, rdNextCookie = nextCookie, rdHasMore = (nextToken \<noteq> []), rdDirMtime = faMtime a\<rparr>,
              s\<lparr>svCookies := cm2\<rparr>))"

end
