(* ===== verification/MD_IO.thy ===== *)
theory MD_IO
  imports MD_Namespace
begin

text \<open>
  Changing attributes and the two-phase write (\<open>pkg/metadata\<close>: \<open>SetFileAttributes\<close> of
  \<open>file_modify.go\<close>, and \<open>io.go\<close>).  A write is prepared (checked, nothing changed), its content is
  written elsewhere, and it is committed: at once, or by recording it in the pending state that a
  later flush applies to the store.

  \<open>objectID\<close> stands for \<open>block.ComputeObjectID\<close>, a BLAKE3 hash of the chunk list, and \<open>efold\<close> for the
  case folding of \<open>strings.EqualFold\<close>.
\<close>

section \<open>Changing attributes\<close>

definition onlySettingTimesToNow :: "SetAttrs \<Rightarrow> bool" where
  "onlySettingTimesToNow at =
     (saMode at = None \<and> saUID at = None \<and> saGID at = None \<and> saSize at = None \<and> (saAtimeNow at \<or> saMtimeNow at))"

definition onlySettingSize :: "SetAttrs \<Rightarrow> bool" where
  "onlySettingSize at =
     (saMode at = None \<and> saUID at = None \<and> saGID at = None \<and> saSize at \<noteq> None \<and> \<not> saAtimeNow at \<and> \<not> saMtimeNow at)"

definition onlyClearingSuidSgid :: "FileAttr \<Rightarrow> SetAttrs \<Rightarrow> bool" where
  "onlyClearingSuidSgid a at =
     (saUID at = None \<and> saGID at = None \<and> saSize at = None
      \<and> saMode at = Some (faMode a AND NOT modeSUIDSGID) \<and> faMode a AND modeSUIDSGID \<noteq> 0)"

definition isOwner :: "AuthContext \<Rightarrow> FileAttr \<Rightarrow> bool" where
  "isOwner ctx a = (callerUID ctx = Some (faUID a))"

definition setattr_authorize :: "uuid_package \<Rightarrow> Service \<Rightarrow> AuthContext \<Rightarrow> FileHandle \<Rightarrow> FileAttr \<Rightarrow> SetAttrs \<Rightarrow> unit res" where
  "setattr_authorize U s ctx handle a at =
     unlessR (shareForbidsWrites U s ctx handle) (StoreError ErrReadOnly) (
     if isOwner ctx a \<or> isRoot ctx then Inr ()
     else if onlySettingTimesToNow at \<or> onlySettingSize at \<or> onlyClearingSuidSgid a at
     then checkWritePermission U s ctx handle
     else fail ErrPermissionDenied)"

definition setattr_mode :: "AuthContext \<Rightarrow> SetAttrs \<Rightarrow> FileAttr \<Rightarrow> FileAttr" where
  "setattr_mode ctx at a =
     (let a1 = (case saMode at of
                  None \<Rightarrow> a
                | Some m \<Rightarrow>
                    let m1 = (if isRoot ctx then m
                              else
                                let m' = (if m AND modeSUID \<noteq> 0 \<and> \<not> isOwner ctx a then m AND NOT modeSUID else m)
                                in if m' AND modeSGID \<noteq> 0 \<and>
                                      (\<not> isOwner ctx a \<or> (case acIdentity ctx of Some i \<Rightarrow> \<not> HasGID i (faGID a) | None \<Rightarrow> True))
                                   then m' AND NOT modeSGID else m')
                    in a\<lparr>faMode := m1, faACL := (if faACL a \<noteq> None then AdjustACLForMode (faACL a) m1 else None)\<rparr>);
          a2 = (case saModeOrMask at of None \<Rightarrow> a1 | Some m \<Rightarrow> a1\<lparr>faMode := faMode a1 OR (m AND dosAttributeModeBits)\<rparr>)
      in case saModeAndNotMask at of None \<Rightarrow> a2 | Some m \<Rightarrow> a2\<lparr>faMode := faMode a2 AND NOT (m AND dosAttributeModeBits)\<rparr>)"

text \<open>Owner and group.  A caller that is not root reaches the group check only with an identity.\<close>

definition setattr_owner :: "AuthContext \<Rightarrow> SetAttrs \<Rightarrow> FileAttr \<Rightarrow> FileAttr res" where
  "setattr_owner ctx at a =
     (let uid = (case saUID at of Some u \<Rightarrow> u | None \<Rightarrow> faUID a);
          gid = (case saGID at of Some g \<Rightarrow> g | None \<Rightarrow> faGID a);
          changed = (uid \<noteq> faUID a \<or> gid \<noteq> faGID a)
      in unlessR (uid \<noteq> faUID a \<and> \<not> isRoot ctx) (StoreError ErrPermissionDenied) (
         bindR (if saGID at = None \<or> isRoot ctx then Inr ()
                else case acIdentity ctx of
                       None \<Rightarrow> Inl RuntimePanic
                     | Some i \<Rightarrow> unlessR (idGID i \<noteq> Some gid \<and> \<not> HasGID i gid) (StoreError ErrPermissionDenied) (Inr ())) (\<lambda>_.
         Inr (a\<lparr>faUID := uid, faGID := gid,
                faMode := (if changed \<and> faType a \<noteq> FileTypeDirectory \<and> faType a \<noteq> FileTypeSymlink
                           then faMode a AND NOT modeSUIDSGID else faMode a)\<rparr>))))"

definition setattr_size :: "(ChunkRef list \<Rightarrow> ContentHash) \<Rightarrow> md_time \<Rightarrow> AuthContext \<Rightarrow> u64 \<Rightarrow> FileAttr \<Rightarrow> FileAttr" where
  "setattr_size objectID now ctx newSize a =
     (let a1 = (if newSize < faSize a \<and> faBlocks a \<noteq> []
                then
                  let blocks = PruneChunkRefsToSize (faBlocks a) newSize
                  in a\<lparr>faBlocks := blocks, faBlocksDirty := True,
                       faObjectID := (if faObjectID a = 0 then 0 else if blocks = [] then 0 else objectID blocks)\<rparr>
                else a)
      in a1\<lparr>faSize := newSize, faMtime := now, faCtime := now,
            faMode := (if faType a1 = FileTypeRegular \<and> \<not> isRoot ctx then faMode a1 AND NOT modeSUIDSGID else faMode a1)\<rparr>)"

definition setattr_times :: "md_time \<Rightarrow> SetAttrs \<Rightarrow> FileAttr \<Rightarrow> FileAttr" where
  "setattr_times now at a =
     a\<lparr>faAtime := (if saAtimeNow at then now else case saAtime at of Some t \<Rightarrow> t | None \<Rightarrow> faAtime a),
       faMtime := (if saMtimeNow at then now else case saMtime at of Some t \<Rightarrow> t | None \<Rightarrow> faMtime a),
       faCreationTime := (case saCreationTime at of Some t \<Rightarrow> t | None \<Rightarrow> faCreationTime a),
       faCtime := (case saCtime at of Some t \<Rightarrow> t | None \<Rightarrow> faCtime a)\<rparr>"

text \<open>Whether anything is to be written back.\<close>

definition setattr_modified :: "FileAttr \<Rightarrow> SetAttrs \<Rightarrow> bool" where
  "setattr_modified a at =
     (saMode at \<noteq> None \<or> saModeOrMask at \<noteq> None \<or> saModeAndNotMask at \<noteq> None
      \<or> (case saUID at of Some u \<Rightarrow> u \<noteq> faUID a | None \<Rightarrow> False) \<or> (case saGID at of Some g \<Rightarrow> g \<noteq> faGID a | None \<Rightarrow> False)
      \<or> saSize at \<noteq> None \<or> saAtime at \<noteq> None \<or> saMtime at \<noteq> None \<or> saAtimeNow at \<or> saMtimeNow at
      \<or> saCreationTime at \<noteq> None \<or> saCtime at \<noteq> None \<or> saACL at \<noteq> None \<or> saHidden at \<noteq> None \<or> saEAMutations at \<noteq> [])"

definition setattr_apply :: "uuid_package \<Rightarrow> (ChunkRef list \<Rightarrow> ContentHash) \<Rightarrow> (string \<Rightarrow> string \<Rightarrow> bool) \<Rightarrow> md_time \<Rightarrow> Service \<Rightarrow> AuthContext \<Rightarrow>
    FileHandle \<Rightarrow> SetAttrs \<Rightarrow> FileAttr \<Rightarrow> FileAttr res" where
  "setattr_apply U objectID efold now s ctx handle at a =
     bindR (setattr_owner ctx at (setattr_mode ctx at a)) (\<lambda>a1.
     bindR (case saSize at of
              None \<Rightarrow> Inr a1
            | Some n \<Rightarrow> bindR (checkWritePermission U s ctx handle) (\<lambda>_. Inr (setattr_size objectID now ctx n a1))) (\<lambda>a2.
     let a3 = setattr_times now at a2 in
     bindR (case saACL at of
              None \<Rightarrow> Inr a3
            | Some acl \<Rightarrow> unlessR (ValidateACL (Some acl) \<noteq> None) (StoreError ErrInvalidArgument) (Inr (a3\<lparr>faACL := Some acl\<rparr>))) (\<lambda>a4.
     let a5 = (case saHidden at of None \<Rightarrow> a4 | Some h \<Rightarrow> a4\<lparr>faHidden := h\<rparr>) in
     bindR (if saEAMutations at = [] \<or> isOwner ctx a \<or> isRoot ctx then Inr () else checkWritePermission U s ctx handle) (\<lambda>_.
     let a6 = (if saEAMutations at = [] then a5 else ApplyEAMutations efold (saEAMutations at) a5) in
     Inr (if setattr_modified a at \<and> saCtime at = None then a6\<lparr>faCtime := now\<rparr> else a6)))))"

definition SetFileAttributes_prepare :: "uuid_package \<Rightarrow> (ChunkRef list \<Rightarrow> ContentHash) \<Rightarrow> (string \<Rightarrow> string \<Rightarrow> bool) \<Rightarrow> md_time \<Rightarrow> AuthContext \<Rightarrow>
    FileHandle \<Rightarrow> SetAttrs \<Rightarrow> Service \<Rightarrow> (nat \<times> File \<times> FileAttr) res" where
  "SetFileAttributes_prepare U objectID efold now ctx handle at s =
     bindR (storeForHandle U s handle) (\<lambda>r.
     bindR (store_GetFile U (svHeap s r) handle) (\<lambda>file0.
     let file = with_dir_times handle s file0 in
     bindR (setattr_authorize U s ctx handle (fAttr file) at) (\<lambda>_.
     bindR (setattr_apply U objectID efold now s ctx handle at (fAttr file)) (\<lambda>a.
     Inr (r, file, a)))))"

definition SetFileAttributes :: "uuid_package \<Rightarrow> (ChunkRef list \<Rightarrow> ContentHash) \<Rightarrow> (string \<Rightarrow> string \<Rightarrow> bool) \<Rightarrow> md_time \<Rightarrow> AuthContext \<Rightarrow>
    FileHandle \<Rightarrow> SetAttrs \<Rightarrow> Service \<Rightarrow> DirWcc outcome" where
  "SetFileAttributes U objectID efold now ctx handle at s =
     (case SetFileAttributes_prepare U objectID efold now ctx handle at s of
        Inl e \<Rightarrow> (Inl e, s)
      | Inr (r, file, a) \<Rightarrow>
          let dirTimeSet = (is_dir (fAttr file) \<and> (saMtime at \<noteq> None \<or> saAtime at \<noteq> None \<or> saMtimeNow at \<or> saAtimeNow at));
              wcc = \<lparr>wccBefore = CopyFileAttr (fAttr file), wccAfter = CopyFileAttr a\<rparr>;
              finish = (\<lambda>s'. (Inr wcc, if dirTimeSet then dirTimes_Clear handle s' else s'))
          in if \<not> setattr_modified (fAttr file) at then finish s
             else case run_tx r (PutFile U (file\<lparr>fAttr := a\<rparr>)) s of
                    (Inl e, s1) \<Rightarrow> (Inl e, s1)
                  | (Inr _, s1) \<Rightarrow>
                      finish (if saSize at \<noteq> None then snd (PopPending handle s1) else InvalidateCache handle s1))"

section \<open>Writes\<close>

definition PrepareWrite_type :: "FileAttr \<Rightarrow> unit res" where
  "PrepareWrite_type a =
     (if faType a = FileTypeRegular then Inr ()
      else if is_dir a then fail ErrIsDirectory else fail ErrInvalidArgument)"

text \<open>The byte quota of the share: a growing write must fit.\<close>

definition share_quota_ok :: "u64 \<Rightarrow> u64 \<Rightarrow> u64 \<Rightarrow> u64 \<Rightarrow> bool" where
  "share_quota_ok quotaBytes used oldSize newSize =
     (\<not> (sint quotaBytes > 0 \<and> newSize > oldSize \<and> sint (used + (newSize - oldSize)) > sint quotaBytes))"

definition PrepareWrite :: "uuid_package \<Rightarrow> md_time \<Rightarrow> AuthContext \<Rightarrow> FileHandle \<Rightarrow> u64 \<Rightarrow> Service \<Rightarrow> WriteOperation outcome" where
  "PrepareWrite U now ctx handle newSize s =
     (case bindR (DecodeFileHandle U handle) (\<lambda>(shareName, _). bindR (GetStoreForShare s shareName) (\<lambda>r. Inr (shareName, r))) of
        Inl e \<Rightarrow> (Inl e, s)
      | Inr (shareName, r) \<Rightarrow>
          let st = svHeap s r; cached = GetCachedFile handle s in
          case (case cached of Some f \<Rightarrow> Inr f | None \<Rightarrow> store_GetFile U st handle) of
            Inl e \<Rightarrow> (Inl e, s)
          | Inr file \<Rightarrow>
              let a = fAttr file;
                  s1 = (if cached = None \<and> faType a = FileTypeRegular then SetCachedFile handle file s else s)
              in case bindR (PrepareWrite_type a) (\<lambda>_.
                        unlessR (\<not> share_quota_ok (svQuotas s1 shareName) (msUsedBytes st) (faSize a) newSize)
                          (StoreError ErrNoSpace) (Inr ())) of
                   Inl e \<Rightarrow> (Inl e, s1)
                 | Inr _ \<Rightarrow>
                    (case (if newSize > faSize a
                           then checkIdentityQuotas now shareName st (faUID a) (faGID a) (newSize - faSize a) 0 s1
                           else (Inr (), s1)) of
                       (Inl e, s2) \<Rightarrow> (Inl e, s2)
                     | (Inr _, s2) \<Rightarrow>
                        (case (if cached = None then checkPermissionFile U s2 ctx handle file PermissionWrite
                               else checkWritePermission U s2 ctx handle) of
                           Inl e \<Rightarrow> (Inl e, s2)
                         | Inr _ \<Rightarrow>
                             (Inr \<lparr>woHandle = handle, woNewSize = newSize,
                                   woNewMtime = (case svPending s2 handle of
                                                   Some p \<Rightarrow> if pwLastMtime p \<noteq> 0 then pwLastMtime p else now
                                                 | None \<Rightarrow> now),
                                   woPayloadID = faPayloadID a, woPreWriteAttr = CopyFileAttr a\<rparr>, s2))))"

definition clear_suid_tx :: "uuid_package \<Rightarrow> FileHandle \<Rightarrow> md_time \<Rightarrow> unit tx" where
  "clear_suid_tx U handle mtime =
     bindT (GetFileT U handle) (\<lambda>file.
       PutFile U (file\<lparr>fAttr := (fAttr file)\<lparr>faMode := faMode (fAttr file) AND NOT modeSUIDSGID, faCtime := mtime\<rparr>\<rparr>))"

text \<open>Every outcome of the mode-clearing transaction is logged and otherwise ignored.\<close>

definition deferredCommitWrite :: "uuid_package \<Rightarrow> AuthContext \<Rightarrow> WriteOperation \<Rightarrow> Service \<Rightarrow> File outcome" where
  "deferredCommitWrite U ctx intent s =
     (let handle = woHandle intent;
          clearSetuid = (callerUID ctx \<noteq> None \<and> callerUID ctx \<noteq> Some 0);
          (intent1, s1) =
            (if clearSetuid \<and> faMode (woPreWriteAttr intent) AND modeSUIDSGID \<noteq> 0
             then (case storeForHandle U s handle of
                     Inl _ \<Rightarrow> (intent, s)
                   | Inr r \<Rightarrow>
                       (intent\<lparr>woPreWriteAttr := (woPreWriteAttr intent)\<lparr>faMode := faMode (woPreWriteAttr intent) AND NOT modeSUIDSGID\<rparr>\<rparr>,
                        InvalidateCache handle (snd (run_tx r (clear_suid_tx U handle (woNewMtime intent)) s))))
             else (intent, s));
          (state, s2) = RecordWrite handle intent1 clearSetuid s1;
          a = woPreWriteAttr intent1;
          a1 = a\<lparr>faSize := pwMaxSize state, faMtime := pwLastMtime state, faCtime := pwLastMtime state,
                 faMode := (if pwClearSetuidSetgid state then faMode a AND NOT modeSUIDSGID else faMode a)\<rparr>;
          (shareName, i) = (case DecodeFileHandle U handle of Inl _ \<Rightarrow> ([], 0) | Inr x \<Rightarrow> x)
      in (Inr \<lparr>fID = i, fShareName = shareName, fPath = [], fAttr = a1\<rparr>, s2))"

text \<open>The attributes after a write that is committed at once.\<close>

definition commit_attr :: "md_time \<Rightarrow> AuthContext \<Rightarrow> u64 \<Rightarrow> FileAttr \<Rightarrow> FileAttr" where
  "commit_attr now ctx newSize a =
     a\<lparr>faSize := (if newSize > faSize a then newSize else faSize a), faMtime := now, faCtime := now,
       faMode := (if callerUID ctx \<noteq> None \<and> callerUID ctx \<noteq> Some 0 then faMode a AND NOT modeSUIDSGID else faMode a)\<rparr>"

definition commit_tx :: "uuid_package \<Rightarrow> md_time \<Rightarrow> AuthContext \<Rightarrow> WriteOperation \<Rightarrow> File tx" where
  "commit_tx U now ctx intent =
     bindT (GetFileT U (woHandle intent)) (\<lambda>file.
     if faType (fAttr file) \<noteq> FileTypeRegular then failT ErrIsDirectory
     else
       let file1 = file\<lparr>fAttr := commit_attr now ctx (woNewSize intent) (fAttr file)\<rparr>
       in bindT (PutFile U file1) (\<lambda>_. retT file1))"

definition immediateCommitWrite :: "uuid_package \<Rightarrow> md_time \<Rightarrow> AuthContext \<Rightarrow> WriteOperation \<Rightarrow> Service \<Rightarrow> File outcome" where
  "immediateCommitWrite U now ctx intent s =
     (case storeForHandle U s (woHandle intent) of
        Inl e \<Rightarrow> (Inl e, s)
      | Inr r \<Rightarrow> run_tx r (commit_tx U now ctx intent) s)"

definition CommitWrite :: "uuid_package \<Rightarrow> md_time \<Rightarrow> AuthContext \<Rightarrow> WriteOperation \<Rightarrow> Service \<Rightarrow> File outcome" where
  "CommitWrite U now ctx intent s =
     (if svDeferredCommit s then deferredCommitWrite U ctx intent s else immediateCommitWrite U now ctx intent s)"

text \<open>The attributes after a flush of the pending state.\<close>

definition flush_attr :: "PendingWriteState \<Rightarrow> FileAttr \<Rightarrow> FileAttr" where
  "flush_attr state a =
     (let a1 = (if pwMaxSize state > faSize a then a\<lparr>faSize := pwMaxSize state\<rparr> else a);
          a2 = (if pwLastMtime state \<noteq> 0 then a1\<lparr>faMtime := pwLastMtime state, faCtime := pwLastMtime state\<rparr> else a1)
      in if pwClearSetuidSetgid state then a2\<lparr>faMode := faMode a2 AND NOT modeSUIDSGID\<rparr> else a2)"

definition flush_tx :: "uuid_package \<Rightarrow> FileHandle \<Rightarrow> PendingWriteState \<Rightarrow> unit tx" where
  "flush_tx U handle state =
     bindT (GetFileT U handle) (\<lambda>file. PutFile U (file\<lparr>fAttr := flush_attr state (fAttr file)\<rparr>))"

definition flushPendingWrite :: "uuid_package \<Rightarrow> FileHandle \<Rightarrow> PendingWriteState \<Rightarrow> Service \<Rightarrow> unit outcome" where
  "flushPendingWrite U handle state s =
     (case storeForHandle U s handle of Inl e \<Rightarrow> (Inl e, s) | Inr r \<Rightarrow> run_tx r (flush_tx U handle state) s)"

definition recache :: "FileHandle \<Rightarrow> PendingWriteState \<Rightarrow> Service \<Rightarrow> Service" where
  "recache handle state s = (case pwCachedFile state of None \<Rightarrow> s | Some f \<Rightarrow> SetCachedFile handle f s)"

text \<open>The answer is whether there was anything to flush, and an error.\<close>

definition FlushPendingWriteForFile :: "uuid_package \<Rightarrow> FileHandle \<Rightarrow> Service \<Rightarrow> (bool \<times> md_error option) \<times> Service" where
  "FlushPendingWriteForFile U handle s =
     (case PopPending handle s of
        (None, s1) \<Rightarrow> ((False, None), s1)
      | (Some state, s1) \<Rightarrow>
          if \<not> (pwMaxSize state > 0 \<or> pwLastMtime state \<noteq> 0 \<or> pwClearSetuidSetgid state)
          then ((False, None), recache handle state s1)
          else
           (case flushPendingWrite U handle state s1 of
              (Inl e, s2) \<Rightarrow> ((True, Some e), RestorePending handle state s2)
            | (Inr _, s2) \<Rightarrow> ((True, None), recache handle state s2)))"

text \<open>At shutdown every pending state is taken off the tracker and flushed, in the order \<open>handles\<close> of the
  runtime's walk over the map.\<close>

fun flush_all :: "uuid_package \<Rightarrow> (FileHandle \<times> PendingWriteState) list \<Rightarrow> nat \<Rightarrow> md_error option \<Rightarrow> Service \<Rightarrow> (nat \<times> md_error option) \<times> Service" where
  "flush_all U [] n err s = ((n, err), s)"
| "flush_all U ((h, state) # rest) n err s =
     (case flushPendingWrite U h state s of
        (Inl e, s1) \<Rightarrow> flush_all U rest n (Some e) s1
      | (Inr _, s1) \<Rightarrow> flush_all U rest (Suc n) err s1)"

definition FlushAllPendingWritesForShutdown :: "uuid_package \<Rightarrow> FileHandle list \<Rightarrow> Service \<Rightarrow> (nat \<times> md_error option) \<times> Service" where
  "FlushAllPendingWritesForShutdown U handles s =
     flush_all U (List.map_filter (\<lambda>h. map_option (Pair h) (svPending s h)) handles) 0 None (s\<lparr>svPending := Map.empty\<rparr>)"

definition PrewarmWriteCache :: "FileHandle \<Rightarrow> File \<Rightarrow> Service \<Rightarrow> Service" where
  "PrewarmWriteCache handle file s =
     (if faType (fAttr file) \<noteq> FileTypeRegular then s else SetCachedFile handle file s)"

definition PrepareRead :: "uuid_package \<Rightarrow> Service \<Rightarrow> AuthContext \<Rightarrow> FileHandle \<Rightarrow> FileAttr res" where
  "PrepareRead U s ctx handle =
     bindR (storeForHandle U s handle) (\<lambda>_.
     bindR (GetFile U s handle) (\<lambda>file.
     bindR (PrepareWrite_type (fAttr file)) (\<lambda>_.
     bindR (checkPermission U s ctx handle PermissionRead) (\<lambda>_.
     Inr (fAttr file)))))"

end
