(* ===== verification/MD_Tx.thy ===== *)
theory MD_Tx
  imports MD_IO
begin

text \<open>
  Reasoning about transactions of the metadata store: what a successful step of a transaction says,
  the round trip of handles, and what a committed or failed transaction does to its store.
\<close>

section \<open>Handles\<close>

lemma takeWhile_share:
  "CHR '':'' \<notin> set sh \<Longrightarrow> takeWhile (\<lambda>c. c \<noteq> CHR '':'') (sh @ CHR '':'' # rest) = sh"
  by (induction sh) auto

lemma decode_encode:
  assumes "uuid_ok U" "EncodeShareHandle U sh u = Inr h" "sh \<noteq> []" "CHR '':'' \<notin> set sh"
  shows "DecodeFileHandle U h = Inr (sh, u)"
proof -
  have h: "h = sh @ CHR '':'' # uuid_String U u"
    using assms(2) by (auto simp: EncodeShareHandle_def Let_def split: if_splits)
  show ?thesis
    using assms(1,3,4) unfolding DecodeFileHandle_def h
    by (simp add: takeWhile_share uuid_ok_def)
qed

lemma decode_share:
  assumes "DecodeFileHandle U h = Inr (sh, u)"
  shows "sh \<noteq> []" "CHR '':'' \<notin> set sh"
proof -
  have "sh = takeWhile (\<lambda>c. c \<noteq> CHR '':'') h" "sh \<noteq> []"
    using assms by (auto simp: DecodeFileHandle_def Let_def split: option.splits)
  then show "sh \<noteq> []" "CHR '':'' \<notin> set sh"
    by (auto dest: set_takeWhileD)
qed

text \<open>The handles of the store are those the service makes: they decode to what they encode.\<close>

definition canonical :: "uuid_package \<Rightarrow> FileHandle \<Rightarrow> bool" where
  "canonical U h = (\<exists>sh u. DecodeFileHandle U h = Inr (sh, u) \<and> EncodeShareHandle U sh u = Inr h)"

section \<open>Steps of a transaction\<close>

named_theorems tx_rules "what a successful transaction step says"

lemma bindT_Inr [tx_rules]:
  "bindT m f t = Inr (y, t'') \<longleftrightarrow> (\<exists>x t'. m t = Inr (x, t') \<and> f x t' = Inr (y, t''))"
  by (auto simp: bindT_def split: sum.splits)

lemma retT_Inr [tx_rules]: "retT x t = Inr (y, t') \<longleftrightarrow> y = x \<and> t' = t"
  by (auto simp: retT_def)

lemma failT_Inr [tx_rules]: "failT c t = Inr z \<longleftrightarrow> False"
  by (simp add: failT_def)

lemma readT_Inr [tx_rules]: "readT f t = Inr (x, t') \<longleftrightarrow> f (txStore t) = Inr x \<and> t' = t"
  by (auto simp: readT_def split: sum.splits)

lemma editT_Inr [tx_rules]: "editT f t = Inr (x, t') \<longleftrightarrow> t' = t\<lparr>txStore := f (txStore t)\<rparr>"
  by (auto simp: editT_def)

lemma SetLinkCount_Inr [tx_rules]:
  "SetLinkCount h n t = Inr (x, t') \<longleftrightarrow>
     t' = t\<lparr>txStore := (txStore t)\<lparr>msLinkCounts := (msLinkCounts (txStore t))(h \<mapsto> n)\<rparr>\<rparr>"
  by (simp add: SetLinkCount_def tx_rules)

lemma GetLinkCount_Inr [tx_rules]: "GetLinkCount h t = Inr (n, t') \<longleftrightarrow> n = store_GetLinkCount (txStore t) h \<and> t' = t"
  by (auto simp: GetLinkCount_def tx_rules)

lemma SetParent_Inr [tx_rules]:
  "SetParent h p t = Inr (x, t') \<longleftrightarrow>
     t' = t\<lparr>txStore := (txStore t)\<lparr>msParents := (msParents (txStore t))(h \<mapsto> p)\<rparr>\<rparr>"
  by (simp add: SetParent_def tx_rules)

lemma SetChild_Inr [tx_rules]: "SetChild d n h t = Inr (x, t') \<longleftrightarrow> t' = t\<lparr>txStore := set_child d n h (txStore t)\<rparr>"
  by (simp add: SetChild_def tx_rules)

lemma DeleteChild_Inr [tx_rules]:
  "DeleteChild d n t = Inr (x, t') \<longleftrightarrow>
     child_of (txStore t) d n \<noteq> None \<and> t' = t\<lparr>txStore := delete_child d n (txStore t)\<rparr>"
  by (auto simp: DeleteChild_def tx_rules split: option.splits)

lemma GetFileT_Inr [tx_rules]: "GetFileT U h t = Inr (f, t') \<longleftrightarrow> store_GetFile U (txStore t) h = Inr f \<and> t' = t"
  by (auto simp: GetFileT_def tx_rules)

lemma reread_Inr [tx_rules]:
  "reread U h old t = Inr (f, t') \<longleftrightarrow>
     f = (case store_GetFile U (txStore t) h of Inr x \<Rightarrow> x | Inl _ \<Rightarrow> old) \<and> t' = t"
  by (auto simp: reread_def split: sum.splits)

text \<open>A file that was read from the store encodes back to its handle.\<close>

lemma store_GetFile_Inr:
  assumes "store_GetFile U st h = Inr f"
  obtains fd sh u where "msFiles st h = Some fd" "DecodeFileHandle U h = Inr (sh, u)" "fShareName f = sh" "fID f = u"
    "fPath f = derivePathLocked st h"
    "fAttr f = (fdAttr fd)\<lparr>faNlink := (case msLinkCounts st h of Some n \<Rightarrow> n | None \<Rightarrow> 1)\<rparr>"
  using assms by (auto simp: store_GetFile_def buildFileWithNlink_def split: option.splits sum.splits prod.splits)

lemma store_GetFile_encode:
  assumes "store_GetFile U st h = Inr f" "canonical U h"
  shows "EncodeShareHandle U (fShareName f) (fID f) = Inr h"
  using assms by (elim store_GetFile_Inr) (auto simp: canonical_def)

lemma store_GetFile_exists: "store_GetFile U st h = Inr f \<Longrightarrow> msFiles st h \<noteq> None"
  by (auto elim: store_GetFile_Inr)

lemma store_GetFile_type:
  "store_GetFile U st h = Inr f \<Longrightarrow> msFiles st h = Some fd \<Longrightarrow> faType (fAttr f) = faType (fdAttr fd)"
  by (auto elim: store_GetFile_Inr)

lemma store_GetChild_Inr [simp]: "store_GetChild st d n = Inr h \<longleftrightarrow> child_of st d n = Some h"
  by (auto simp: store_GetChild_def child_of_def entries_of_def split: option.splits)

lemma PutFile_Inr:
  assumes "PutFile U file t = Inr (x, t')"
  obtains key where "EncodeShareHandle U (fShareName file) (fID file) = Inr key"
    "txStore t' = put_maps key (fShareName file) (fAttr file) (txStore t)"
    "faObjectID (fAttr file) = 0 \<or> msObjectIndex (txStore t) (faObjectID (fAttr file)) \<in> {None, Some key}"
  using assms by (auto simp: PutFile_def Let_def split: sum.splits if_splits option.splits)

section \<open>Committing\<close>

lemma WithTransaction_cases:
  obtains (failed) e where "WithTransaction fn st = (Inl e, st)"
  | (committed) x t where "fn \<lparr>txStore = st, txPendingDelta = 0, txQuota = Map.empty\<rparr> = Inr (x, t)"
      "WithTransaction fn st = (Inr x, (txStore t)\<lparr>msUsedBytes := msUsedBytes (txStore t) + txPendingDelta t,
         msQuota := quota_apply (txQuota t) (msQuota (txStore t))\<rparr>)"
proof (cases "fn \<lparr>txStore = st, txPendingDelta = 0, txQuota = Map.empty\<rparr>")
  case (Inl e)
  then show ?thesis using failed [of e] by (simp add: WithTransaction_def)
next
  case (Inr r)
  obtain x t where r: "r = (x, t)" by (cases r)
  show ?thesis using committed [of x t] Inr by (simp add: WithTransaction_def r Let_def)
qed

abbreviation (input) begin_tx :: "MemStore \<Rightarrow> memTx" where
  "begin_tx st \<equiv> \<lparr>txStore = st, txPendingDelta = 0, txQuota = Map.empty\<rparr>"

abbreviation (input) commit_of :: "memTx \<Rightarrow> MemStore" where
  "commit_of t \<equiv> (txStore t)\<lparr>msUsedBytes := msUsedBytes (txStore t) + txPendingDelta t,
                             msQuota := quota_apply (txQuota t) (msQuota (txStore t))\<rparr>"

lemma WithTransaction_Inr:
  "WithTransaction fn st = (Inr x, st') \<longleftrightarrow> (\<exists>t. fn (begin_tx st) = Inr (x, t) \<and> st' = commit_of t)"
  by (auto simp: WithTransaction_def Let_def split: sum.splits)

lemma WithTransaction_Inl: "WithTransaction fn st = (Inl e, st') \<Longrightarrow> st' = st"
  by (auto simp: WithTransaction_def Let_def split: sum.splits)

lemma run_tx_Inr:
  "run_tx r fn s = (Inr x, s') \<longleftrightarrow>
     (\<exists>t. fn (begin_tx (svHeap s r)) = Inr (x, t) \<and> s' = set_store r (commit_of t) s)"
  by (auto simp: run_tx_def WithTransaction_def Let_def split: sum.splits)

lemma run_tx_Inl: "run_tx r fn s = (Inl e, s') \<Longrightarrow> s' = s"
  by (auto simp: run_tx_def dest: WithTransaction_Inl split: prod.splits)

end
