(* ===== verification/MD_Steps.thy ===== *)
theory MD_Steps
  imports MD_Tx
begin

text \<open>
  What the operations of the service do to the stores.  The transitions of one store are collected in
  a step relation, whose rules are the transactions of the operations under what the operations have
  checked; every operation of the service then amounts to at most one such step of one store,
  followed by flushes of directory times.
\<close>

section \<open>Transitions of a store\<close>

text \<open>A handle that no map of the store knows.\<close>

definition fresh_handle :: "MemStore \<Rightarrow> FileHandle \<Rightarrow> bool" where
  "fresh_handle st h \<longleftrightarrow> msFiles st h = None \<and> msParents st h = None \<and> msChildren st h = None \<and> msLinkCounts st h = None"

inductive dir_edit :: "uuid_package \<Rightarrow> MemStore \<Rightarrow> MemStore \<Rightarrow> bool" for U where
  "store_GetFile U st h = Inr file \<Longrightarrow> is_dir (fAttr file) \<Longrightarrow> is_dir a \<Longrightarrow>
   WithTransaction (PutFile U (file\<lparr>fAttr := a\<rparr>)) st = (Inr x, st') \<Longrightarrow> dir_edit U st st'"

definition move_plan_ok :: "uuid_package \<Rightarrow> MemStore \<Rightarrow> FileHandle \<Rightarrow> string \<Rightarrow> FileHandle \<Rightarrow> string \<Rightarrow> move_plan \<Rightarrow> bool" where
  "move_plan_ok U st fromDir fromName toDir toName p \<longleftrightarrow>
     (fromDir, fromName) \<noteq> (toDir, toName) \<and> ValidateName toName = Inr ()
     \<and> store_GetFile U st fromDir = Inr (mpSrcDir p) \<and> is_dir (fAttr (mpSrcDir p))
     \<and> store_GetFile U st toDir = Inr (mpDstDir p) \<and> is_dir (fAttr (mpDstDir p))
     \<and> child_of st fromDir fromName = Some (mpSrcHandle p) \<and> store_GetFile U st (mpSrcHandle p) = Inr (mpSrc p)
     \<and> (case mpDst p of
          None \<Rightarrow> child_of st toDir toName = None
        | Some (dh, df) \<Rightarrow> child_of st toDir toName = Some dh \<and> store_GetFile U st dh = Inr df
            \<and> is_dir (fAttr (mpSrc p)) = is_dir (fAttr df) \<and> (is_dir (fAttr df) \<longrightarrow> entries_of st dh = []))"

inductive store_step :: "uuid_package \<Rightarrow> MemStore \<Rightarrow> MemStore \<Rightarrow> bool" for U where
  edit: "store_GetFile U st h = Inr file \<Longrightarrow> faType a = faType (fAttr file) \<Longrightarrow>
    WithTransaction (PutFile U (file\<lparr>fAttr := a\<rparr>)) st = (Inr x, st') \<Longrightarrow> store_step U st st'"
| create: "store_GetFile U st d = Inr parent \<Longrightarrow> is_dir (fAttr parent) \<Longrightarrow> ValidateName name = Inr () \<Longrightarrow>
    EncodeShareHandle U (fShareName file) (fID file) = Inr h \<Longrightarrow> canonical U h \<Longrightarrow> fresh_handle st h \<Longrightarrow>
    faNlink (fAttr file) = GetInitialLinkCount (faType (fAttr file)) \<Longrightarrow>
    WithTransaction (createEntry_tx U d name h file) st = (Inr x, st') \<Longrightarrow> store_step U st st'"
| link: "store_GetFile U st d = Inr dir \<Longrightarrow> is_dir (fAttr dir) \<Longrightarrow> ValidateName name = Inr () \<Longrightarrow>
    store_GetFile U st h = Inr target \<Longrightarrow> \<not> is_dir (fAttr target) \<Longrightarrow>
    WithTransaction (CreateHardLink_tx U now d name h dir target) st = (Inr wcc, st') \<Longrightarrow> store_step U st st'"
| unlink: "store_GetFile U st d = Inr parent \<Longrightarrow> child_of st d name = Some h \<Longrightarrow>
    store_GetFile U st h = Inr file \<Longrightarrow> \<not> is_dir (fAttr file) \<Longrightarrow>
    WithTransaction (RemoveFile_tx U now d name h file) st = (Inr res, st') \<Longrightarrow> store_step U st st'"
| rmdir: "store_GetFile U st d = Inr parent \<Longrightarrow> child_of st d name = Some h \<Longrightarrow>
    store_GetFile U st h = Inr dir \<Longrightarrow> is_dir (fAttr dir) \<Longrightarrow> entries_of st h = [] \<Longrightarrow>
    WithTransaction (RemoveDirectory_tx U d name h parent) st = (Inr p, st') \<Longrightarrow> store_step U st st'"
| config: "store_step U st (st\<lparr>msShares := shares\<rparr>)"
| mkroot: "fresh_handle st h \<Longrightarrow> canonical U h \<Longrightarrow> is_dir a \<Longrightarrow> faObjectID a = 0 \<Longrightarrow>
    store_step U st (st\<lparr>msShares := shares, msFiles := (msFiles st)(h \<mapsto> \<lparr>fdAttr = a, fdShareName = sh\<rparr>),
      msChildren := (msChildren st)(h \<mapsto> []), msLinkCounts := (msLinkCounts st)(h \<mapsto> 2)\<rparr>)"
| rename: "move_plan_ok U st fromDir fromName toDir toName p \<Longrightarrow>
    WithTransaction (Move_tx U now fromDir fromName toDir toName p) st = (Inr res, st') \<Longrightarrow> store_step U st st'"

inductive effect :: "uuid_package \<Rightarrow> MemStore \<Rightarrow> MemStore \<Rightarrow> bool" for U where
  same: "effect U st st"
| step: "store_step U st st' \<Longrightarrow> effect U st st'"
| flush: "effect U st st' \<Longrightarrow> dir_edit U st' st'' \<Longrightarrow> effect U st st''"

text \<open>All stores of a service move together: one at most takes a step.\<close>

definition effects :: "uuid_package \<Rightarrow> Service \<Rightarrow> Service \<Rightarrow> bool" where
  "effects U s s' \<longleftrightarrow> (\<forall>r. effect U (svHeap s r) (svHeap s' r))"

lemma effects_same_heap: "svHeap s' = svHeap s \<Longrightarrow> effects U s s'"
  by (simp add: effects_def effect.same)

lemma effects_heap_cong: "effects U s s' \<Longrightarrow> svHeap s'' = svHeap s' \<Longrightarrow> effects U s s''"
  by (simp add: effects_def)

lemma effects_step:
  "store_step U (svHeap s r) st' \<Longrightarrow> svHeap s' = (svHeap s)(r := st') \<Longrightarrow> effects U s s'"
  by (simp add: effects_def effect.same effect.step)

lemma run_tx_effects:
  assumes tx: "run_tx r fn s1 = (y, s2)" and heap: "svHeap s1 = svHeap s"
    and step: "\<And>z t. fn (begin_tx (svHeap s r)) = Inr (z, t) \<Longrightarrow> store_step U (svHeap s r) (commit_of t)"
  shows "effects U s s2"
proof (cases y)
  case (Inl e)
  then show ?thesis using tx heap by (auto dest: run_tx_Inl intro: effects_same_heap)
next
  case (Inr z)
  then show ?thesis using tx heap by (auto simp: run_tx_Inr dest!: step intro: effects_step)
qed

section \<open>Directory times\<close>

lemma dirTimes_Clear_heap [simp]: "svHeap (dirTimes_Clear h s) = svHeap s"
  by (simp add: dirTimes_Clear_def)

lemma ClearIfFlushed_heap [simp]: "svHeap (ClearIfFlushed h t s) = svHeap s"
  by (simp add: ClearIfFlushed_def split: option.splits)

lemma applyDirTimes_type [simp]: "faType (snd (applyDirTimes dt a)) = faType a"
  by (simp add: applyDirTimes_def Let_def)

lemma mergeDirTimes_type [simp]: "faType (mergeDirTimes h s a) = faType a"
  by (simp add: mergeDirTimes_def split: option.splits)

lemma flushDirTimes_effects:
  assumes "effects U s s1"
  shows "effects U s (flushDirTimes U d s1)"
proof (cases "\<exists>dt r x s2. svDirTimes s1 d = Some dt \<and> storeForHandle U s1 d = Inr r \<and>
    run_tx r (flush_dir_tx U d dt) s1 = (Inr x, s2) \<and> svHeap s2 \<noteq> svHeap s1")
  case False
  then have "svHeap (flushDirTimes U d s1) = svHeap s1"
    by (auto simp: flushDirTimes_def dest: run_tx_Inl split: option.splits sum.splits prod.splits)
  then show ?thesis using assms by (simp add: effects_def)
next
  case True
  then obtain dt r x s2 where dt: "svDirTimes s1 d = Some dt" and r: "storeForHandle U s1 d = Inr r"
    and tx: "run_tx r (flush_dir_tx U d dt) s1 = (Inr x, s2)" and ne: "svHeap s2 \<noteq> svHeap s1" by auto
  obtain t where t: "flush_dir_tx U d dt (begin_tx (svHeap s1 r)) = Inr (x, t)"
    and s2: "s2 = set_store r (commit_of t) s1"
    using tx by (auto simp: run_tx_Inr)
  obtain dir where dir: "store_GetFile U (svHeap s1 r) d = Inr dir"
    using t by (auto simp: flush_dir_tx_def tx_rules)
  have put: "is_dir (fAttr dir) \<and>
      PutFile U (dir\<lparr>fAttr := snd (applyDirTimes dt (fAttr dir))\<rparr>) (begin_tx (svHeap s1 r)) = Inr (x, t)"
  proof (rule ccontr)
    assume "\<not> ?thesis"
    then have "t = begin_tx (svHeap s1 r)"
      using t dir by (auto simp: flush_dir_tx_def tx_rules split: prod.splits if_splits)
    then show False using ne s2 by (simp add: quota_apply_def)
  qed
  have "dir_edit U (svHeap s1 r) (commit_of t)"
    by (rule dir_edit.intros [OF dir, where a = "snd (applyDirTimes dt (fAttr dir))" and x = x])
      (use put in \<open>simp_all add: WithTransaction_Inr\<close>)
  moreover have "svHeap (flushDirTimes U d s1) = (svHeap s1)(r := commit_of t)"
    using dt r tx s2 by (simp add: flushDirTimes_def)
  ultimately show ?thesis
    using assms by (auto simp: effects_def intro: effect.flush)
qed

lemma recordDirTimes_effects:
  assumes "effects U s s1"
  shows "effects U s (recordDirTimes U d now s1)"
proof -
  obtain due s2 where rb: "RecordBump d now s1 = (due, s2)" by (cases "RecordBump d now s1")
  then have "svHeap s2 = svHeap s1" by (auto simp: RecordBump_def Let_def)
  then have "effects U s s2" using assms by (simp add: effects_def)
  then show ?thesis by (simp add: recordDirTimes_def rb flushDirTimes_effects)
qed

section \<open>Create, link, remove, rename\<close>

lemma setGrace_heap [simp]: "svHeap (setGrace sh sc i d rid t s) = svHeap s"
  by (simp add: setGrace_def split: option.splits)

lemma enforceOne_heap: "enforceOne now sh st sc i iq b f s = (x, s') \<Longrightarrow> svHeap s' = svHeap s"
  by (auto simp: enforceOne_def Let_def split: if_splits)

lemma checkIdentityQuotas_heap: "checkIdentityQuotas now sh st uid gid b f s = (x, s') \<Longrightarrow> svHeap s' = svHeap s"
  by (auto simp: checkIdentityQuotas_def Let_def dest!: enforceOne_heap split: if_splits option.splits sum.splits prod.splits)

lemma announce_heap: "svHeap (snd (announce U d ct ctx o')) = svHeap (snd o')"
  by (simp add: announce_def notifyDirChange_def split: prod.splits sum.splits)

lemma PopPending_heap [simp]: "svHeap (snd (PopPending h s)) = svHeap s"
  by (simp add: PopPending_def)

text \<open>A new UUID: no store has seen a handle made of it.\<close>

definition fresh_id :: "uuid_package \<Rightarrow> Service \<Rightarrow> UUID \<Rightarrow> bool" where
  "fresh_id U s u \<longleftrightarrow> (\<forall>r sh h. EncodeShareHandle U sh u = Inr h \<longrightarrow> fresh_handle (svHeap s r) h)"

lemma create_mode_type: "create_mode ctx ft p a = Inr a' \<Longrightarrow> faType a' = faType a"
  by (auto simp: create_mode_def Let_def split: if_splits option.splits)

lemma new_attr_type:
  assumes "new_attr U now ctx p u attr ft lt ma mi = Inr a"
  shows "faType a = ft" "faNlink a = GetInitialLinkCount ft"
proof -
  have own: "faType (ApplyOwnerDefaults b ctx) = faType b" for b
    by (simp add: ApplyOwnerDefaults_def Let_def split: option.splits)
  show "faType a = ft"
    using assms by (auto simp: new_attr_def Let_def own ApplyCreateDefaults_def dest: create_mode_type)
  show "faNlink a = GetInitialLinkCount ft"
    using assms by (auto simp: new_attr_def Let_def)
qed

lemma store_GetFile_share:
  assumes "store_GetFile U st h = Inr f"
  shows "fShareName f \<noteq> []" "CHR '':'' \<notin> set (fShareName f)"
  using assms by (auto elim!: store_GetFile_Inr dest: decode_share)

lemma createEntry_prepare_plan:
  assumes ok: "uuid_ok U" and fr: "fresh_id U s u"
    and p: "createEntry_prepare U now u s ctx d name attr ft lt ma mi = Inr p"
  shows "store_GetFile U (svHeap s (cpStore p)) d = Inr (cpParent p)" "is_dir (fAttr (cpParent p))"
    "ValidateName name = Inr ()" "EncodeShareHandle U (fShareName (cpFile p)) (fID (cpFile p)) = Inr (cpHandle p)"
    "canonical U (cpHandle p)" "fresh_handle (svHeap s (cpStore p)) (cpHandle p)"
    "faType (fAttr (cpFile p)) = ft" "faNlink (fAttr (cpFile p)) = GetInitialLinkCount ft"
proof -
  obtain r parent h sh i a where g: "store_GetFile U (svHeap s r) d = Inr parent" "is_dir (fAttr parent)"
      "ValidateName name = Inr ()" "EncodeShareHandle U (fShareName parent) u = Inr h"
      "DecodeFileHandle U h = Inr (sh, i)" "new_attr U now ctx parent i attr ft lt ma mi = Inr a"
    and pp: "p = \<lparr>cpStore = r, cpParent = parent, cpHandle = h,
          cpFile = \<lparr>fID = i, fShareName = fShareName parent, fPath = buildPath (fPath parent) name, fAttr = a\<rparr>\<rparr>"
    using p by (auto simp: createEntry_prepare_def)
  have "DecodeFileHandle U h = Inr (fShareName parent, u)"
    using decode_encode [OF ok g(4)] store_GetFile_share [OF g(1)] by simp
  then show "canonical U (cpHandle p)" "EncodeShareHandle U (fShareName (cpFile p)) (fID (cpFile p)) = Inr (cpHandle p)"
    using g by (auto simp: pp canonical_def)
  show "fresh_handle (svHeap s (cpStore p)) (cpHandle p)"
    using fr g(4) by (auto simp: pp fresh_id_def)
  show "store_GetFile U (svHeap s (cpStore p)) d = Inr (cpParent p)" "is_dir (fAttr (cpParent p))"
    "ValidateName name = Inr ()" "faType (fAttr (cpFile p)) = ft" "faNlink (fAttr (cpFile p)) = GetInitialLinkCount ft"
    using new_attr_type [OF g(6)] g by (simp_all add: pp)
qed

lemma createEntry_effects:
  assumes ok: "uuid_ok U" and fr: "fresh_id U s u"
    and op: "createEntry U now u ctx d name attr ft lt ma mi s = (x, s')"
  shows "effects U s s'"
proof (cases "createEntry_prepare U now u s ctx d name attr ft lt ma mi")
  case (Inl e)
  then show ?thesis using op by (simp add: createEntry_def effects_same_heap)
next
  case (Inr p)
  let ?a = "fAttr (cpFile p)"
  obtain q s1 where q: "(if ft = FileTypeRegular
      then checkIdentityQuotas now (fShareName (cpParent p)) (svHeap s (cpStore p)) (faUID ?a) (faGID ?a) (faSize ?a) 1 s
      else (Inr (), s)) = (q, s1)" by fastforce
  then have heap: "svHeap s1 = svHeap s" by (auto dest: checkIdentityQuotas_heap split: if_splits)
  show ?thesis
  proof (cases q)
    case (Inl e)
    then show ?thesis using op Inr q heap by (simp add: createEntry_def Let_def effects_same_heap)
  next
    case (Inr u')
    then have commit: "createEntry_commit U now d name p s1 = (x, s')"
      using op \<open>createEntry_prepare _ _ _ _ _ _ _ _ _ _ _ _ = Inr p\<close> q by (simp add: createEntry_def Let_def)
    obtain y s2 where tx: "run_tx (cpStore p) (createEntry_tx U d name (cpHandle p) (cpFile p)) s1 = (y, s2)" by fastforce
    note plan = createEntry_prepare_plan [OF ok fr \<open>createEntry_prepare _ _ _ _ _ _ _ _ _ _ _ _ = Inr p\<close>]
    have "effects U s s2"
      by (rule run_tx_effects [OF tx heap])
        (use plan(7,8) in \<open>auto intro!: store_step.create [OF plan(1-6)] simp: WithTransaction_Inr\<close>)
    moreover have "s' = s2 \<or> s' = recordDirTimes U d now s2"
      using commit tx by (auto simp: createEntry_commit_def Let_def split: sum.splits)
    ultimately show ?thesis by (auto intro: recordDirTimes_effects)
  qed
qed

text \<open>The rest of the operations on names, each by what its checks have established.\<close>

lemma announce_effects:
  assumes "announce U d ct ctx o' = (x, s')" "effects U s (snd o')"
  shows "effects U s s'"
  using assms announce_heap [of U d ct ctx o'] by (simp add: effects_def)

lemma CreateHardLink_effects:
  assumes op: "CreateHardLink U now ctx d name h s = (x, s')"
  shows "effects U s s'"
proof (cases "CreateHardLink_prepare U s ctx d name h")
  case (Inl e)
  then show ?thesis using op by (simp add: CreateHardLink_def effects_same_heap)
next
  case (Inr p)
  then have plan: "store_GetFile U (svHeap s (lpStore p)) d = Inr (lpDir p)" "is_dir (fAttr (lpDir p))"
    "ValidateName name = Inr ()" "store_GetFile U (svHeap s (lpStore p)) h = Inr (lpTarget p)" "\<not> is_dir (fAttr (lpTarget p))"
    by (auto simp: CreateHardLink_prepare_def)
  obtain y s2 where tx: "run_tx (lpStore p) (CreateHardLink_tx U now d name h (lpDir p) (lpTarget p)) s = (y, s2)" by fastforce
  have "effects U s s2"
    by (rule run_tx_effects [OF tx refl]) (auto intro!: store_step.link [OF plan] simp: WithTransaction_Inr)
  then show ?thesis using op Inr tx announce_effects [of U d DirChangeAddEntry ctx "(y, s2)"]
    by (simp add: CreateHardLink_def)
qed

lemma RemoveFile_effects:
  assumes op: "RemoveFile U now ctx d name s = (x, s')"
  shows "effects U s s'"
proof (cases "RemoveFile_prepare U s ctx d name")
  case (Inl e)
  then show ?thesis using op by (simp add: RemoveFile_def effects_same_heap)
next
  case (Inr p)
  then have plan: "store_GetFile U (svHeap s (rpStore p)) d = Inr (rpParent p)"
    "child_of (svHeap s (rpStore p)) d name = Some (rpHandle p)"
    "store_GetFile U (svHeap s (rpStore p)) (rpHandle p) = Inr (rpFile p)" "\<not> is_dir (fAttr (rpFile p))"
    by (auto simp: RemoveFile_prepare_def)
  obtain y s2 where tx: "run_tx (rpStore p) (RemoveFile_tx U now d name (rpHandle p) (rpFile p)) s = (y, s2)" by fastforce
  have eff: "effects U s s2"
    by (rule run_tx_effects [OF tx refl]) (auto intro!: store_step.unlink [OF plan] simp: WithTransaction_Inr)
  obtain z s3 where c: "RemoveFile_commit U now d name p s = (z, s3)" by fastforce
  have "s3 = s2 \<or> s3 = recordDirTimes U d now s2 \<or> s3 = recordDirTimes U d now (snd (PopPending (rpHandle p) s2))"
    using c tx by (auto simp: RemoveFile_commit_def Let_def split: sum.splits prod.splits if_splits)
  moreover have "effects U s (snd (PopPending (rpHandle p) s2))"
    by (rule effects_heap_cong [OF eff]) simp
  ultimately have "effects U s s3" using eff by (auto intro: recordDirTimes_effects)
  then show ?thesis using op Inr c announce_effects [of U d DirChangeRemoveEntry ctx "(z, s3)"]
    by (simp add: RemoveFile_def)
qed

lemma sort_eq_Nil [simp]: "sort xs = [] \<longleftrightarrow> xs = []"
  by (metis length_0_conv length_sort)

lemma ListChildren_one_empty: "fst (store_ListChildren st h [] 1) = [] \<longleftrightarrow> entries_of st h = []"
  by (auto simp: store_ListChildren_def entries_of_def sortedChildNames_def childPageStart_def Let_def split: option.splits)

lemma RemoveDirectory_effects:
  assumes op: "RemoveDirectory U now ctx d name s = (x, s')"
  shows "effects U s s'"
proof (cases "RemoveDirectory_prepare U s ctx d name")
  case (Inl e)
  then show ?thesis using op by (simp add: RemoveDirectory_def effects_same_heap)
next
  case (Inr p)
  then have plan: "store_GetFile U (svHeap s (rpStore p)) d = Inr (rpParent p)"
    "child_of (svHeap s (rpStore p)) d name = Some (rpHandle p)"
    "store_GetFile U (svHeap s (rpStore p)) (rpHandle p) = Inr (rpFile p)" "is_dir (fAttr (rpFile p))"
    "entries_of (svHeap s (rpStore p)) (rpHandle p) = []"
    by (auto simp: RemoveDirectory_prepare_def ListChildren_one_empty)
  obtain y s2 where tx: "run_tx (rpStore p) (RemoveDirectory_tx U d name (rpHandle p) (rpParent p)) s = (y, s2)" by fastforce
  have eff: "effects U s s2"
    by (rule run_tx_effects [OF tx refl]) (auto intro!: store_step.rmdir [OF plan] simp: WithTransaction_Inr)
  obtain z s3 where c: "RemoveDirectory_commit U now d name p s = (z, s3)" by fastforce
  have "s3 = s2 \<or> s3 = dirTimes_Clear (rpHandle p) (recordDirTimes U d now s2)"
    using c tx by (auto simp: RemoveDirectory_commit_def split: sum.splits)
  then have "effects U s s3"
    using eff recordDirTimes_effects [OF eff, of d now] by (auto intro: effects_heap_cong)
  then show ?thesis using op Inr c announce_effects [of U d DirChangeRemoveEntry ctx "(z, s3)"]
    by (simp add: RemoveDirectory_def)
qed

lemma Move_prepare_plan:
  assumes "Move_prepare U s ctx fromDir fromName toDir toName = Inr (Some p)"
  shows "move_plan_ok U (svHeap s (mpStore p)) fromDir fromName toDir toName p"
  using assms
  by (auto simp: Move_prepare_def Move_target_def move_plan_ok_def Let_def ListChildren_one_empty split: if_splits option.splits)

lemma notifyDirChange_heap [simp]: "svHeap (notifyDirChange sh d ct ctx s) = svHeap s"
  by (simp add: notifyDirChange_def)

lemma Move_effects:
  assumes op: "Move U now ctx fromDir fromName toDir toName s = (x, s')"
  shows "effects U s s'"
proof (cases "Move_prepare U s ctx fromDir fromName toDir toName")
  case (Inl e)
  then show ?thesis using op by (simp add: Move_def effects_same_heap)
next
  case (Inr po)
  show ?thesis
  proof (cases po)
    case None
    then show ?thesis using op Inr by (simp add: Move_def effects_same_heap)
  next
    case (Some p)
    note plan = Move_prepare_plan [OF Inr [unfolded Some]]
    obtain y s2 where tx: "run_tx (mpStore p) (Move_tx U now fromDir fromName toDir toName p) s = (y, s2)" by fastforce
    have eff: "effects U s s2"
      by (rule run_tx_effects [OF tx refl]) (auto intro!: store_step.rename [OF plan] simp: WithTransaction_Inr)
    have "svHeap s' = svHeap s2 \<or> svHeap s' = svHeap (recordDirTimes U fromDir now s2)
        \<or> svHeap s' = svHeap (recordDirTimes U toDir now (recordDirTimes U fromDir now s2))"
      using op Inr Some tx by (auto simp: Move_def Move_commit_def Let_def split: sum.splits prod.splits if_splits)
    then show ?thesis
      using eff recordDirTimes_effects [OF eff, of fromDir now]
        recordDirTimes_effects [OF recordDirTimes_effects [OF eff, of fromDir now], of toDir now]
      by (auto intro: effects_heap_cong)
  qed
qed

section \<open>Attributes and writes\<close>

lemma setattr_type:
  assumes "setattr_apply U objectID efold now s ctx h at a = Inr a'"
  shows "faType a' = faType a"
proof -
  have "faType (setattr_mode ctx at b) = faType b" for b
    by (simp add: setattr_mode_def Let_def split: option.splits)
  moreover have "setattr_owner ctx at b = Inr c \<Longrightarrow> faType c = faType b" for b c
    by (auto simp: setattr_owner_def Let_def)
  moreover have "faType (setattr_size objectID now ctx n b) = faType b" for n b
    by (simp add: setattr_size_def Let_def)
  moreover have "faType (setattr_times now at b) = faType b" for b
    by (simp add: setattr_times_def)
  moreover have "faType (ApplyEAMutations efold m b) = faType b" for m b
    by (simp add: ApplyEAMutations_def)
  ultimately have keep: "faType (setattr_mode ctx at b) = faType b" "setattr_owner ctx at b = Inr c \<Longrightarrow> faType c = faType b"
      "faType (setattr_size objectID now ctx n b) = faType b" "faType (setattr_times now at b) = faType b"
      "faType (ApplyEAMutations efold m b) = faType b" for b c n m by blast+
  obtain a1 where a1: "setattr_owner ctx at (setattr_mode ctx at a) = Inr a1"
    using assms by (auto simp: setattr_apply_def)
  have "faType a' = faType a1"
    using assms unfolding setattr_apply_def a1 bindR_simps
    by (auto simp: keep Let_def split: option.splits if_splits)
  then show ?thesis using keep(2) [OF a1] by (simp add: keep)
qed

lemma edit_tx_effects:
  assumes tx: "run_tx r fn s1 = (y, s2)" and heap: "svHeap s1 = svHeap s"
    and put: "\<And>z t. fn (begin_tx (svHeap s r)) = Inr (z, t) \<Longrightarrow>
      \<exists>h file a x. store_GetFile U (svHeap s r) h = Inr file \<and> faType a = faType (fAttr file)
        \<and> PutFile U (file\<lparr>fAttr := a\<rparr>) (begin_tx (svHeap s r)) = Inr (x, t)"
  shows "effects U s s2"
proof (rule run_tx_effects [OF tx heap])
  fix z t
  assume "fn (begin_tx (svHeap s r)) = Inr (z, t)"
  from put [OF this] obtain h f a x where "store_GetFile U (svHeap s r) h = Inr f" "faType a = faType (fAttr f)"
    "PutFile U (f\<lparr>fAttr := a\<rparr>) (begin_tx (svHeap s r)) = Inr (x, t)" by blast
  then show "store_step U (svHeap s r) (commit_of t)"
    by (intro store_step.edit [of U _ h f a x]) (auto simp: WithTransaction_Inr)
qed

lemma get_put_effects:
  assumes tx: "run_tx r (bindT (GetFileT U h) (\<lambda>f. PutFile U (f\<lparr>fAttr := g f\<rparr>))) s1 = (y, s2)"
    and heap: "svHeap s1 = svHeap s" and ty: "\<And>f. faType (g f) = faType (fAttr f)"
  shows "effects U s s2"
proof (rule edit_tx_effects [OF tx heap])
  fix z t
  assume "bindT (GetFileT U h) (\<lambda>f. PutFile U (f\<lparr>fAttr := g f\<rparr>)) (begin_tx (svHeap s r)) = Inr (z, t)"
  then obtain f where "store_GetFile U (svHeap s r) h = Inr f"
    "PutFile U (f\<lparr>fAttr := g f\<rparr>) (begin_tx (svHeap s r)) = Inr (z, t)"
    by (auto simp: tx_rules)
  with ty show "\<exists>h f a x. store_GetFile U (svHeap s r) h = Inr f \<and> faType a = faType (fAttr f)
      \<and> PutFile U (f\<lparr>fAttr := a\<rparr>) (begin_tx (svHeap s r)) = Inr (x, t)" by blast
qed

lemma InvalidateCache_heap [simp]: "svHeap (InvalidateCache h s) = svHeap s"
  by (simp add: InvalidateCache_def split: option.splits)

lemma SetFileAttributes_effects:
  assumes op: "SetFileAttributes U objectID efold now ctx h at s = (x, s')"
  shows "effects U s s'"
proof (cases "SetFileAttributes_prepare U objectID efold now ctx h at s")
  case (Inl e)
  then show ?thesis using op by (simp add: SetFileAttributes_def effects_same_heap)
next
  case (Inr w)
  obtain r f a where w: "w = (r, f, a)" by (cases w) auto
  obtain f0 where g: "store_GetFile U (svHeap s r) h = Inr f0" "f = with_dir_times h s f0"
      "setattr_apply U objectID efold now s ctx h at (fAttr f) = Inr a"
    using Inr by (auto simp: SetFileAttributes_prepare_def w Let_def)
  have ty: "faType a = faType (fAttr f0)" using setattr_type [OF g(3)] g(2) by (simp add: with_dir_times_def)
  have eq: "f\<lparr>fAttr := a\<rparr> = f0\<lparr>fAttr := a\<rparr>" using g(2) by (simp add: with_dir_times_def)
  obtain y s2 where tx: "run_tx r (PutFile U (f\<lparr>fAttr := a\<rparr>)) s = (y, s2)" by fastforce
  have eff: "effects U s s2"
    by (rule edit_tx_effects [OF tx refl]) (use g(1) ty eq in \<open>auto intro!: exI [of _ h]\<close>)
  have "svHeap s' = svHeap s \<or> svHeap s' = svHeap s2"
    using op Inr w tx by (auto simp: SetFileAttributes_def Let_def split: if_splits sum.splits)
  then show ?thesis using eff by (auto intro: effects_heap_cong effects_same_heap)
qed

lemma SetCachedFile_heap [simp]: "svHeap (SetCachedFile h f s) = svHeap s"
  by (simp add: SetCachedFile_def)

lemma PrepareWrite_heap: "PrepareWrite U now ctx h n s = (x, s') \<Longrightarrow> svHeap s' = svHeap s"
  by (auto simp: PrepareWrite_def Let_def dest!: checkIdentityQuotas_heap split: sum.splits prod.splits if_splits)

lemma RecordWrite_heap: "RecordWrite h i c s = (p, s') \<Longrightarrow> svHeap s' = svHeap s"
  by (auto simp: RecordWrite_def Let_def)

lemma deferredCommitWrite_effects:
  assumes op: "deferredCommitWrite U ctx intent s = (x, s')"
  shows "effects U s s'"
proof -
  let ?h = "woHandle intent"
  define clr where "clr r = snd (run_tx r (clear_suid_tx U ?h (woNewMtime intent)) s)" for r
  have "svHeap s' = svHeap s \<or> (\<exists>r. svHeap s' = svHeap (clr r))"
    using op unfolding deferredCommitWrite_def Let_def clr_def
    by (cases "storeForHandle U s ?h"; auto dest!: RecordWrite_heap split: prod.splits if_splits)
  moreover have "effects U s (clr r)" for r
    unfolding clr_def clear_suid_tx_def by (rule get_put_effects [OF prod.collapse [symmetric] refl]) simp
  ultimately show ?thesis by (auto intro: effects_heap_cong effects_same_heap)
qed

lemma CommitWrite_effects:
  assumes op: "CommitWrite U now ctx intent s = (x, s')"
  shows "effects U s s'"
proof (cases "svDeferredCommit s")
  case True
  then show ?thesis using op by (simp add: CommitWrite_def deferredCommitWrite_effects)
next
  case False
  then consider "s' = s" | r where "run_tx r (commit_tx U now ctx intent) s = (x, s')"
    using op by (auto simp: CommitWrite_def immediateCommitWrite_def split: sum.splits)
  then show ?thesis
  proof cases
    case 2
    show ?thesis
    proof (rule edit_tx_effects [OF 2 refl])
      fix z t
      assume "commit_tx U now ctx intent (begin_tx (svHeap s r)) = Inr (z, t)"
      then obtain f x where f: "store_GetFile U (svHeap s r) (woHandle intent) = Inr f"
        "PutFile U (f\<lparr>fAttr := commit_attr now ctx (woNewSize intent) (fAttr f)\<rparr>) (begin_tx (svHeap s r)) = Inr (x, t)"
        by (auto simp: commit_tx_def Let_def tx_rules split: if_splits)
      have "faType (commit_attr now ctx (woNewSize intent) (fAttr f)) = faType (fAttr f)"
        by (simp add: commit_attr_def)
      with f show "\<exists>h f a x. store_GetFile U (svHeap s r) h = Inr f \<and> faType a = faType (fAttr f)
          \<and> PutFile U (f\<lparr>fAttr := a\<rparr>) (begin_tx (svHeap s r)) = Inr (x, t)" by blast
    qed
  qed (simp add: effects_same_heap)
qed

lemma flushPendingWrite_effects:
  assumes op: "flushPendingWrite U h p s = (x, s')"
  shows "effects U s s'"
proof -
  consider "s' = s" | r where "run_tx r (flush_tx U h p) s = (x, s')"
    using op by (auto simp: flushPendingWrite_def split: sum.splits)
  then show ?thesis
  proof cases
    case 2
    then show ?thesis
      unfolding flush_tx_def by (rule get_put_effects [OF _ refl]) (simp add: flush_attr_def Let_def)
  qed (simp add: effects_same_heap)
qed

lemma recache_heap [simp]: "svHeap (recache h p s) = svHeap s"
  by (simp add: recache_def split: option.splits)

lemma RestorePending_heap [simp]: "svHeap (RestorePending h p s) = svHeap s"
  by (simp add: RestorePending_def)

lemma FlushPendingWriteForFile_effects:
  assumes op: "FlushPendingWriteForFile U h s = (x, s')"
  shows "effects U s s'"
proof -
  define s1 where "s1 = snd (PopPending h s)"
  have heap: "svHeap s1 = svHeap s" by (simp add: s1_def)
  have pop: "PopPending h s = (svPending s h, s1)" by (simp add: s1_def PopPending_def)
  show ?thesis
  proof (cases "svPending s h")
    case None
    then show ?thesis using op pop heap by (simp add: FlushPendingWriteForFile_def effects_same_heap)
  next
    case (Some p)
    obtain y s2 where f: "flushPendingWrite U h p s1 = (y, s2)" by fastforce
    have "effects U s s2" using flushPendingWrite_effects [OF f] heap by (simp add: effects_def)
    moreover have "svHeap s' = svHeap s1 \<or> svHeap s' = svHeap s2"
      using op pop Some f by (cases y) (auto simp: FlushPendingWriteForFile_def split: if_splits)
    ultimately show ?thesis using heap by (auto intro: effects_heap_cong effects_same_heap)
  qed
qed

lemma ReadDirectory_heap: "ReadDirectory U ctx d c m s = (x, s') \<Longrightarrow> svHeap s' = svHeap s"
  by (auto simp: ReadDirectory_def Let_def split: sum.splits prod.splits)

section \<open>Shares\<close>

lemma quota_apply_empty [simp]: "quota_apply Map.empty c = c"
  by (simp add: quota_apply_def)

lemma CreateRootDirectory_effects:
  assumes ok: "uuid_ok U" and fr: "fresh_id U s u" and new: "msShares (svHeap s r) sh = None"
    and name: "sh \<noteq> []" "CHR '':'' \<notin> set sh" and obj: "faObjectID attr = 0"
    and op: "run_tx r (CreateRootDirectoryT U u now sh attr) s = (x, s')"
  shows "effects U s s'"
proof (rule run_tx_effects [OF op refl])
  fix z t
  assume "CreateRootDirectoryT U u now sh attr (begin_tx (svHeap s r)) = Inr (z, t)"
  then obtain h where dir: "is_dir attr" and h: "EncodeShareHandle U sh u = Inr h"
    and rest: "CreateRootDirectoryT U u now sh attr (begin_tx (svHeap s r)) = Inr (z, t)"
    using new by (auto simp: CreateRootDirectoryT_def generateFileHandle_def split: sum.splits)
  have dec: "DecodeFileHandle U h = Inr (sh, u)" by (rule decode_encode [OF ok h name])
  then have can: "canonical U h" using h by (auto simp: canonical_def)
  have fresh: "fresh_handle (svHeap s r) h" using fr h by (auto simp: fresh_id_def)
  then have none: "msFiles (svHeap s r) h = None" by (simp add: fresh_handle_def)
  define a where "a = attr\<lparr>faMode := (if faMode attr = 0 then 0x1ED else faMode attr),
     faAtime := (if faAtime attr = 0 then now else faAtime attr),
     faMtime := (if faMtime attr = 0 then now else faMtime attr),
     faCtime := (if faCtime attr = 0 then now else faCtime attr),
     faCreationTime := (if faCreationTime attr = 0 then now else faCreationTime attr), faNlink := 2\<rparr>"
  have "store_step U (svHeap s r) ((svHeap s r)\<lparr>msShares := msShares (txStore t),
      msFiles := (msFiles (svHeap s r))(h \<mapsto> \<lparr>fdAttr = a, fdShareName = sh\<rparr>),
      msChildren := (msChildren (svHeap s r))(h \<mapsto> []), msLinkCounts := (msLinkCounts (svHeap s r))(h \<mapsto> 2)\<rparr>)"
    by (rule store_step.mkroot [OF fresh can]) (use dir obj in \<open>simp_all add: a_def\<close>)
  moreover have "commit_of t = (svHeap s r)\<lparr>msShares := msShares (txStore t),
      msFiles := (msFiles (svHeap s r))(h \<mapsto> \<lparr>fdAttr = a, fdShareName = sh\<rparr>),
      msChildren := (msChildren (svHeap s r))(h \<mapsto> []), msLinkCounts := (msLinkCounts (svHeap s r))(h \<mapsto> 2)\<rparr>"
    using rest new h dec none dir
    by (auto simp: CreateRootDirectoryT_def generateFileHandle_def Let_def a_def)
  ultimately show "store_step U (svHeap s r) (commit_of t)" by simp
qed

lemma config_tx_effects:
  assumes op: "run_tx r fn s = (x, s')"
    and cfg: "\<And>z t. fn (begin_tx (svHeap s r)) = Inr (z, t) \<Longrightarrow>
      \<exists>shares. t = begin_tx ((svHeap s r)\<lparr>msShares := shares\<rparr>)"
  shows "effects U s s'"
proof (rule run_tx_effects [OF op refl])
  fix z t
  assume "fn (begin_tx (svHeap s r)) = Inr (z, t)"
  from cfg [OF this] obtain shares where "t = begin_tx ((svHeap s r)\<lparr>msShares := shares\<rparr>)" ..
  then show "store_step U (svHeap s r) (commit_of t)" by (simp add: store_step.config)
qed

lemma CreateShare_effects:
  assumes "msShares (svHeap s r) (shName share) \<noteq> None" "run_tx r (CreateShareT U u share) s = (x, s')"
  shows "effects U s s'"
  by (rule config_tx_effects [OF assms(2)])
    (use assms(1) in \<open>auto simp: CreateShareT_def tx_rules split: option.splits if_splits\<close>)

lemma UpdateShareOptions_effects:
  assumes "run_tx r (UpdateShareOptionsT sh opts) s = (x, s')"
  shows "effects U s s'"
  by (rule config_tx_effects [OF assms]) (auto simp: UpdateShareOptionsT_def tx_rules split: option.splits)

section \<open>Runs of the service\<close>

text \<open>The operations of the service, one after the other, with any arguments.  A new file gets a new
  UUID; a share is first given its root directory, and its name is not empty and has no colon.\<close>

inductive md_step :: "uuid_package \<Rightarrow> Service \<Rightarrow> Service \<Rightarrow> bool" for U where
  s_new_share: "fresh_id U s u \<Longrightarrow> msShares (svHeap s r) sh = None \<Longrightarrow> sh \<noteq> [] \<Longrightarrow> CHR '':'' \<notin> set sh \<Longrightarrow>
    faObjectID attr = 0 \<Longrightarrow> run_tx r (CreateRootDirectoryT U u now sh attr) s = (x1, s') \<Longrightarrow> md_step U s s'"
| s_create_share: "msShares (svHeap s r) (shName share) \<noteq> None \<Longrightarrow> run_tx r (CreateShareT U u share) s = (x2, s') \<Longrightarrow> md_step U s s'"
| s_options: "run_tx r (UpdateShareOptionsT sh opts) s = (x2, s') \<Longrightarrow> md_step U s s'"
| s_register: "md_step U s (s\<lparr>svStores := (svStores s)(sh := ref)\<rparr>)"
| s_create_file: "fresh_id U s u \<Longrightarrow> CreateFile U now u ctx d name attr s = (x3, s') \<Longrightarrow> md_step U s s'"
| s_create_dir: "fresh_id U s u \<Longrightarrow> CreateDirectory U now u ctx d name attr s = (x3, s') \<Longrightarrow> md_step U s s'"
| s_create_symlink: "fresh_id U s u \<Longrightarrow> CreateSymlink U now u ctx d name target attr s = (x3, s') \<Longrightarrow> md_step U s s'"
| s_create_special: "fresh_id U s u \<Longrightarrow> CreateSpecialFile U now u ctx d name ft attr ma mi s = (x3, s') \<Longrightarrow> md_step U s s'"
| s_link: "CreateHardLink U now ctx d name h s = (x4, s') \<Longrightarrow> md_step U s s'"
| s_remove: "RemoveFile U now ctx d name s = (x3, s') \<Longrightarrow> md_step U s s'"
| s_rmdir: "RemoveDirectory U now ctx d name s = (x4, s') \<Longrightarrow> md_step U s s'"
| s_move: "Move U now ctx d name d' name' s = (x5, s') \<Longrightarrow> md_step U s s'"
| s_setattr: "SetFileAttributes U objectID efold now ctx h at s = (x4, s') \<Longrightarrow> md_step U s s'"
| s_prepare: "PrepareWrite U now ctx h n s = (x6, s') \<Longrightarrow> md_step U s s'"
| s_commit: "CommitWrite U now ctx intent s = (x7, s') \<Longrightarrow> md_step U s s'"
| s_flush: "FlushPendingWriteForFile U h s = (x8, s') \<Longrightarrow> md_step U s s'"
| s_readdir: "ReadDirectory U ctx d cookie m s = (x9, s') \<Longrightarrow> md_step U s s'"
| s_prewarm: "md_step U s (PrewarmWriteCache h f s)"
| s_mtime: "UpdatePendingMtime h t s = (b, s') \<Longrightarrow> md_step U s s'"
| s_quota: "md_step U s (SetQuotaForShare sh q s)"
| s_set_limit: "md_step U s (SetIdentityQuota sh iq s)"
| s_remove_limit: "md_step U s (RemoveIdentityQuota sh scope i s)"
| s_replace_limits: "md_step U s (ReplaceIdentityQuotas sh qs s)"
| s_deferred: "md_step U s (s\<lparr>svDeferredCommit := flag\<rparr>)"
| s_notifier: "md_step U s (s\<lparr>svNotifiers := (svNotifiers s)(sh := flag)\<rparr>)"

lemma create_effects:
  assumes "uuid_ok U" "fresh_id U s u"
    "announce U d ct ctx (createEntry U now u ctx d name attr ft lt ma mi s) = (x, s')"
  shows "effects U s s'"
  by (rule announce_effects [OF assms(3)], rule createEntry_effects [OF assms(1,2) prod.collapse [symmetric]])

lemma md_step_effects:
  assumes ok: "uuid_ok U" and step: "md_step U s s'"
  shows "effects U s s'"
  using step
proof cases
  case s_new_share
  then show ?thesis by (intro CreateRootDirectory_effects [OF ok])
next
  case s_create_file
  then show ?thesis unfolding CreateFile_def by (rule create_effects [OF ok])
next
  case s_create_dir
  then show ?thesis unfolding CreateDirectory_def by (rule create_effects [OF ok])
next
  case s_create_symlink
  then show ?thesis
    by (simp add: CreateSymlink_def split: sum.splits) (auto intro: effects_same_heap create_effects [OF ok])
next
  case s_create_special
  then show ?thesis
    by (simp add: CreateSpecialFile_def split: sum.splits) (auto intro: effects_same_heap create_effects [OF ok])
next
  case s_prepare
  then show ?thesis by (intro effects_same_heap PrepareWrite_heap)
next
  case s_readdir
  then show ?thesis by (intro effects_same_heap ReadDirectory_heap)
next
  case s_prewarm
  then show ?thesis by (intro effects_same_heap) (simp add: PrewarmWriteCache_def)
next
  case s_mtime
  then show ?thesis by (intro effects_same_heap) (auto simp: UpdatePendingMtime_def split: option.splits)
next
  case s_create_share
  then show ?thesis by (rule CreateShare_effects)
next
  case s_options
  then show ?thesis by (rule UpdateShareOptions_effects)
next
  case s_link
  then show ?thesis by (rule CreateHardLink_effects)
next
  case s_remove
  then show ?thesis by (rule RemoveFile_effects)
next
  case s_rmdir
  then show ?thesis by (rule RemoveDirectory_effects)
next
  case s_move
  then show ?thesis by (rule Move_effects)
next
  case s_setattr
  then show ?thesis by (rule SetFileAttributes_effects)
next
  case s_commit
  then show ?thesis by (rule CommitWrite_effects)
next
  case s_flush
  then show ?thesis by (rule FlushPendingWriteForFile_effects)
qed (simp_all add: effects_same_heap SetQuotaForShare_def SetIdentityQuota_def RemoveIdentityQuota_def
    ReplaceIdentityQuotas_def)

end
