(* ===== verification/MD_Invariant.thy ===== *)
theory MD_Invariant
  imports MD_Steps
begin

text \<open>
  Invariants of a store that every primitive step of a transaction keeps.  The locale takes what the
  primitives promise; every transaction, every operation of the service and the changes of directory times
  then keep the invariant.
\<close>

definition keeps :: "(MemStore \<Rightarrow> bool) \<Rightarrow> 'a tx \<Rightarrow> bool" where
  "keeps I m \<longleftrightarrow> (\<forall>t x t'. m t = Inr (x, t') \<longrightarrow> I (txStore t) \<longrightarrow> I (txStore t'))"

named_theorems keeps_intros "transactions that keep an invariant"

lemma keeps_bindT [keeps_intros]: "keeps I m \<Longrightarrow> (\<And>x. keeps I (f x)) \<Longrightarrow> keeps I (bindT m f)"
  unfolding keeps_def bindT_Inr by blast

lemma keeps_retT [keeps_intros]: "keeps I (retT x)" "keeps I (failT c)"
  by (simp_all add: keeps_def tx_rules)

lemma keeps_reads [keeps_intros]: "keeps I (GetLinkCount h)" "keeps I (GetFileT U h)" "keeps I (reread U h f)"
  by (simp_all add: keeps_def tx_rules)

lemma keeps_if [keeps_intros]: "keeps I m \<Longrightarrow> keeps I m' \<Longrightarrow> keeps I (if b then m else m')"
  by simp

text \<open>A name that is taken makes the transactions that add one fail before anything is changed.\<close>

lemma keeps_guard: "keeps I m \<Longrightarrow> keeps I (\<lambda>t. if b t then Inl e else m t)"
  by (simp add: keeps_def)

lemma keeps_editT: "(\<And>st. I st \<Longrightarrow> I (f st)) \<Longrightarrow> keeps I (editT f)"
  by (simp add: keeps_def tx_rules)

locale store_invariant =
  fixes I :: "MemStore \<Rightarrow> bool"
  assumes put_ok: "keeps I (PutFile U file)"
    and delete_ok: "keeps I (DeleteFile h)"
    and child_ok: "I st \<Longrightarrow> I (set_child d n h st)" "I st \<Longrightarrow> I (delete_child d n st)"
    and links_ok: "I st \<Longrightarrow> I (st\<lparr>msLinkCounts := l\<rparr>)" "I st \<Longrightarrow> I (st\<lparr>msParents := p\<rparr>)"
    and counters_ok: "I st \<Longrightarrow> I (st\<lparr>msUsedBytes := b, msQuota := q\<rparr>)"
    and shares_ok: "I st \<Longrightarrow> I (st\<lparr>msShares := sh\<rparr>)"
    and root_ok: "I st \<Longrightarrow> fresh_handle st h \<Longrightarrow> is_dir a \<Longrightarrow> faObjectID a = 0 \<Longrightarrow>
      I (st\<lparr>msShares := sh, msFiles := (msFiles st)(h \<mapsto> \<lparr>fdAttr = a, fdShareName = nm\<rparr>),
            msChildren := (msChildren st)(h \<mapsto> []), msLinkCounts := (msLinkCounts st)(h \<mapsto> 2)\<rparr>)"
begin

lemma keeps_edits: "keeps I (SetLinkCount h n)" "keeps I (SetParent h p)" "keeps I (SetChild d nm h)" "keeps I (DeleteChild d nm)"
  by (auto simp: SetLinkCount_def SetParent_def SetChild_def links_ok child_ok intro!: keeps_editT)
    (auto simp: keeps_def tx_rules child_ok)

lemmas keeps_primitives = keeps_intros keeps_edits put_ok delete_ok

lemma keeps_createEntry: "keeps I (createEntry_tx U d name h f)"
  unfolding createEntry_tx_def [abs_def] by (intro keeps_guard keeps_primitives)

lemma keeps_CreateHardLink: "keeps I (CreateHardLink_tx U now d name h dir f)"
  unfolding CreateHardLink_tx_def Let_def by (intro keeps_bindT keeps_guard keeps_primitives)

lemma keeps_removal: "keeps I (RemoveFile_tx U now d name h f)" "keeps I (RemoveDirectory_tx U d name h g)"
  unfolding RemoveFile_tx_def RemoveDirectory_tx_def Let_def by (intro keeps_primitives)+

lemma keeps_Move: "keeps I (Move_tx U now fd fn td tn p)"
proof -
  have "keeps I (Move_replace_tx U now td tn dst)" for dst
    unfolding Move_replace_tx_def by (cases dst) (auto split: prod.splits intro!: keeps_primitives)
  moreover have "keeps I (Move_relink_tx fd td h b)" for h b
    unfolding Move_relink_tx_def by (intro keeps_primitives)
  ultimately show ?thesis unfolding Move_tx_def by (intro keeps_primitives)
qed

lemmas keeps_transactions = keeps_createEntry keeps_CreateHardLink keeps_removal keeps_Move put_ok

lemma keeps_commit:
  assumes "keeps I fn" "WithTransaction fn st = (Inr x, st')" "I st"
  shows "I st'"
proof -
  obtain t where t: "fn (begin_tx st) = Inr (x, t)" "st' = commit_of t"
    using assms(2) by (auto simp: WithTransaction_Inr)
  then have "I (txStore t)" using assms(1,3) unfolding keeps_def by fastforce
  then show ?thesis using t(2) counters_ok by simp
qed

lemma keeps_store_step: "store_step U st st' \<Longrightarrow> I st \<Longrightarrow> I st'"
proof (induction rule: store_step.induct)
  case (mkroot st h a sh shares)
  then show ?case using root_ok by blast
next
  case (config st shares)
  then show ?case by (rule shares_ok)
qed (erule keeps_commit [rotated], assumption, rule keeps_transactions)+

lemma keeps_dir_edit: "dir_edit U st st' \<Longrightarrow> I st \<Longrightarrow> I st'"
  by (erule dir_edit.cases) (auto intro: keeps_commit [OF put_ok])

lemma keeps_effect: "effect U st st' \<Longrightarrow> I st \<Longrightarrow> I st'"
  by (induction rule: effect.induct) (auto intro: keeps_store_step keeps_dir_edit)

text \<open>Every operation of the service keeps the invariant in every store.\<close>

lemma keeps_md_step:
  assumes "uuid_ok U" "md_step U s s'" "\<And>r. I (svHeap s r)"
  shows "I (svHeap s' r)"
  using md_step_effects [OF assms(1,2)] assms(3) keeps_effect unfolding effects_def by blast

end

end
