(* ===== verification/MD_Demo.thy ===== *)
theory MD_Demo
  imports MD_Tx
begin

text \<open>
  A small concrete service that the witnesses of the metadata theories evaluate: one share \<open>s\<close> with its
  root directory, and a file \<open>a\<close> that root creates in it.  UUIDs are printed as decimal numbers.
\<close>

definition demo_uuid :: uuid_package where
  "demo_uuid = \<lparr>uuid_String = (\<lambda>u. show_nat (unat u)), uuid_Parse = (\<lambda>s. map_option of_nat (parse_uint 128 s))\<rparr>"

lemma demo_uuid_ok: "uuid_ok demo_uuid"
  by (auto simp: uuid_ok_def demo_uuid_def parse_show_nat unat_less_2p [where 'a=128, simplified])

definition blank_attr :: FileAttr where
  "blank_attr = \<lparr>faType = FileTypeDirectory, faMode = 0, faUID = 0, faGID = 0, faNlink = 0, faSize = 0, faAtime = 0,
     faMtime = 0, faCtime = 0, faCreationTime = 0, faPayloadID = [], faLinkTarget = [], faRdev = 0, faHidden = False,
     faACL = None, faEAs = [], faIdempotencyToken = 0, faBlocks = [], faBlocksDirty = False, faObjectID = 0,
     faDeletedAt = None, faOriginalPath = [], faDeletedBy = []\<rparr>"

definition demo_root :: AuthContext where
  "demo_root = \<lparr>acIdentity = Some \<lparr>idUID = Some 0, idGID = Some 0, idGIDs = [], idSID = None, idGroupSIDs = [],
       idUsername = ''root'', idDomain = []\<rparr>,
     acAuthMethod = ''unix'', acClientAddr = ''c'', acShareReadOnly = False, acWriteAuthorizedByHandle = False,
     acLockClientID = [], acParentLeaseKey = None, acHasDeleteAccess = False, acBypassTraverseChecking = False\<rparr>"

definition demo_service :: Service where
  "demo_service = \<lparr>svStores = [''s'' \<mapsto> 0], svHeap = (\<lambda>_. NewMemoryMetadataStore), svPending = Map.empty,
     svDirTimes = Map.empty, svDeferredCommit = True, svQuotas = (\<lambda>_. 0), svLimits = (\<lambda>_. []),
     svDynGrace = Map.empty, svCookies = [], svNotifiers = (\<lambda>_. False), svNotices = []\<rparr>"

text \<open>With the root directory.\<close>

definition demo_dir_attr :: FileAttr where
  "demo_dir_attr = blank_attr\<lparr>faMode := 0x1ED, faAtime := 1, faMtime := 1, faCtime := 1, faCreationTime := 1, faNlink := 2\<rparr>"

definition demo_store1 :: MemStore where
  "demo_store1 = NewMemoryMetadataStore\<lparr>
     msShares := [''s'' \<mapsto> \<lparr>sdShare = \<lparr>shName = ''s'', shOptions = no_options\<rparr>, sdRootHandle = ''s:1'', sdSeeded = True\<rparr>],
     msFiles := [''s:1'' \<mapsto> \<lparr>fdAttr = demo_dir_attr, fdShareName = ''s''\<rparr>],
     msChildren := [''s:1'' \<mapsto> []], msLinkCounts := [''s:1'' \<mapsto> 2]\<rparr>"

definition demo_s1 :: Service where
  "demo_s1 = demo_service\<lparr>svHeap := (\<lambda>_. NewMemoryMetadataStore)(0 := demo_store1)\<rparr>"

text \<open>With the file.\<close>

definition demo_file_attr :: FileAttr where
  "demo_file_attr = blank_attr\<lparr>faType := FileTypeRegular, faMode := 0x1A4, faAtime := 2, faMtime := 2, faCtime := 2,
     faCreationTime := 2, faNlink := 1, faPayloadID := ''s/2''\<rparr>"

definition demo_file :: File where
  "demo_file = \<lparr>fID = 2, fShareName = ''s'', fPath = ''/a'', fAttr = demo_file_attr\<rparr>"

definition demo_store2 :: MemStore where
  "demo_store2 = demo_store1\<lparr>
     msFiles := (msFiles demo_store1)(''s:2'' \<mapsto> \<lparr>fdAttr = demo_file_attr, fdShareName = ''s''\<rparr>),
     msParents := [''s:2'' \<mapsto> ''s:1''],
     msChildren := [''s:1'' \<mapsto> [(''a'', ''s:2'')]],
     msLinkCounts := (msLinkCounts demo_store1)(''s:2'' \<mapsto> 1),
     msQuota := [(QuotaScopeUser, 0) \<mapsto> \<lparr>usBytes = 0, usFiles = 1\<rparr>, (QuotaScopeGroup, 0) \<mapsto> \<lparr>usBytes = 0, usFiles = 1\<rparr>]\<rparr>"

definition demo_s2 :: Service where
  "demo_s2 = demo_s1\<lparr>svHeap := (\<lambda>_. NewMemoryMetadataStore)(0 := demo_store2),
     svDirTimes := [''s:1'' \<mapsto> \<lparr>dtMtime = 2, dtCtime = 2, dtAtime = 2, dtLastFlush = 2\<rparr>]\<rparr>"

section \<open>Evaluation\<close>

lemma demo_numbers [simp]: "show_nat 1 = ''1''" "show_nat 2 = ''2''" "show_nat 3 = ''3''" "show_nat (Suc 0) = ''1''"
  by code_simp+

lemma demo_decode [simp]:
  "DecodeFileHandle demo_uuid ''s:1'' = Inr (''s'', 1)" "DecodeFileHandle demo_uuid ''s:2'' = Inr (''s'', 2)"
  "DecodeFileHandle demo_uuid ''s:3'' = Inr (''s'', 3)"
  by (simp_all add: DecodeFileHandle_def Let_def demo_uuid_def parse_uint_def is_digit_def digits_val_def digit_val_def)

lemma demo_encode [simp]:
  "EncodeShareHandle demo_uuid ''s'' 1 = Inr ''s:1''" "EncodeShareHandle demo_uuid ''s'' 2 = Inr ''s:2''"
  "EncodeShareHandle demo_uuid ''s'' 3 = Inr ''s:3''"
  by (simp_all add: EncodeShareHandle_def Let_def demo_uuid_def)

lemma path_loop_root [simp]: "msParents st h = None \<Longrightarrow> path_loop n st h c = c"
  by (cases n) simp_all

lemma derivePath_root: "msParents st h = None \<Longrightarrow> derivePathLocked st h = ''/''"
  by (simp add: derivePathLocked_def)

lemma demo_new_share:
  "run_tx 0 (CreateRootDirectoryT demo_uuid 1 1 ''s'' blank_attr) demo_service =
     (Inr \<lparr>fID = 1, fShareName = ''s'', fPath = ''/'', fAttr = demo_dir_attr\<rparr>, demo_s1)"
  by (simp add: run_tx_def WithTransaction_def CreateRootDirectoryT_def Let_def demo_service_def demo_s1_def
      NewMemoryMetadataStore_def demo_store1_def demo_dir_attr_def generateFileHandle_def blank_attr_def quota_apply_def)

lemmas demo_defs = demo_s1_def demo_s2_def demo_service_def demo_store1_def demo_store2_def NewMemoryMetadataStore_def
  demo_dir_attr_def demo_file_attr_def demo_file_def blank_attr_def demo_root_def no_options_def

lemmas access_defs = checkPermissionFile_def checkFilePermissionsFile_def checkPermission_def checkFilePermissions_def
  store_GetShareOptions_def calculatePermissions_def permissionResult_def CheckParentCreateAccessFile_def callerUID_def

lemmas reading_defs = storeForHandle_def GetStoreForShare_def store_GetFile_def buildFileWithNlink_def derivePath_root
  child_of_def entries_of_def

lemma demo_root_file [simp]:
  "store_GetFile demo_uuid demo_store1 ''s:1'' =
     Inr \<lparr>fID = 1, fShareName = ''s'', fPath = ''/'', fAttr = demo_dir_attr\<rparr>"
  by (simp add: reading_defs demo_store1_def NewMemoryMetadataStore_def demo_dir_attr_def)

lemma demo_create_plan:
  "createEntry_prepare demo_uuid 2 2 demo_s1 demo_root ''s:1'' ''a'' blank_attr FileTypeRegular [] 0 0 =
     Inr \<lparr>cpStore = 0, cpParent = \<lparr>fID = 1, fShareName = ''s'', fPath = ''/'', fAttr = demo_dir_attr\<rparr>,
          cpHandle = ''s:2'', cpFile = demo_file\<rparr>"
  by (simp add: createEntry_prepare_def reading_defs demo_defs access_defs ValidateName_def ValidatePath_def buildPath_def
      Let_def new_attr_def ApplyCreateDefaults_def ApplyOwnerDefaults_def ApplyModeDefault_def DefaultMode_def
      create_mode_def buildPayloadID_def GetInitialLinkCount_def trim_prefix_def has_prefix_def)
    (simp add: demo_uuid_def)

lemma demo_create_tx:
  "run_tx 0 (createEntry_tx demo_uuid ''s:1'' ''a'' ''s:2'' demo_file) demo_s1 =
     (Inr (), demo_s1\<lparr>svHeap := (\<lambda>_. NewMemoryMetadataStore)(0 := demo_store2)\<rparr>)"
  by (simp add: run_tx_def WithTransaction_def createEntry_tx_def PutFile_def SetLinkCount_def SetParent_def SetChild_def
      set_child_def editT_def bindT_def retT_def put_maps_def put_quota_def child_of_def entries_of_def Let_def demo_defs)
    (auto simp: fun_eq_iff quota_apply_def delta_add_def apply_stat_def stat_add_def quota_get_def)

lemma demo_create:
  "CreateFile demo_uuid 2 2 demo_root ''s:1'' ''a'' blank_attr demo_s1 =
     (Inr (demo_file, bumped_wcc 2 demo_dir_attr), demo_s2)"
proof -
  have quota: "checkIdentityQuotas 2 ''s'' demo_store1 0 0 0 1 demo_s1 = (Inr (), demo_s1)"
    by (simp add: checkIdentityQuotas_def enforceOne_def limit_get_def resolveUser_def demo_s1_def demo_service_def)
  have parts: "svHeap demo_s1 0 = demo_store1" "faUID (fAttr demo_file) = 0" "faGID (fAttr demo_file) = 0"
    "faSize (fAttr demo_file) = 0" "svDirTimes demo_s1 = Map.empty"
    by (simp_all add: demo_s1_def demo_service_def demo_file_def demo_file_attr_def blank_attr_def)
  show ?thesis
    by (simp add: CreateFile_def createEntry_def demo_create_plan parts quota createEntry_commit_def demo_create_tx
        announce_def mergeDirTimes_def recordDirTimes_def RecordBump_def notifyDirChange_def Let_def)
      (simp add: demo_s2_def demo_s1_def demo_service_def)
qed

end
