(* ===== verification/MD_Usage.thy ===== *)
theory MD_Usage
  imports MD_Invariant MD_Demo
begin

text \<open>
  The usage counters of the store.  Transactions collect differences, which a commit adds to running
  counters; here they are shown to be the sums over the regular files that are stored, per store, per
  user and per group, and the index of object ids is shown to be the exact inverse of the object ids
  of the files.
\<close>

section \<open>Sums over a map\<close>

definition map_sum :: "('v \<Rightarrow> 'b::ab_group_add) \<Rightarrow> ('k \<rightharpoonup> 'v) \<Rightarrow> 'b" where
  "map_sum f m = (\<Sum>k\<in>dom m. f (the (m k)))"

abbreviation (input) old_term :: "('v \<Rightarrow> 'b::ab_group_add) \<Rightarrow> 'v option \<Rightarrow> 'b" where
  "old_term f v \<equiv> (case v of Some w \<Rightarrow> f w | None \<Rightarrow> 0)"

lemma map_sum_remove:
  assumes "finite (dom m)"
  shows "map_sum f m = old_term f (m k) + (\<Sum>j\<in>dom m - {k}. f (the (m j)))"
proof (cases "m k")
  case None
  then show ?thesis by (simp add: map_sum_def domIff)
next
  case (Some v)
  then have "k \<in> dom m" by auto
  from sum.remove [OF assms this, of "\<lambda>j. f (the (m j))"] Some show ?thesis by (simp add: map_sum_def)
qed

lemma map_sum_upd:
  assumes "finite (dom m)"
  shows "map_sum f (m(k \<mapsto> v)) = map_sum f m - old_term f (m k) + f v"
proof -
  have "(\<Sum>j\<in>dom (m(k \<mapsto> v)) - {k}. f (the ((m(k \<mapsto> v)) j))) = (\<Sum>j\<in>dom m - {k}. f (the (m j)))"
    by (rule sum.cong) auto
  then show ?thesis
    using map_sum_remove [OF assms, of f k] map_sum_remove [of "m(k \<mapsto> v)" f k] assms by simp
qed

lemma map_sum_del:
  assumes "finite (dom m)"
  shows "map_sum f (m(k := None)) = map_sum f m - old_term f (m k)"
proof -
  have "(\<Sum>j\<in>dom (m(k := None)) - {k}. f (the ((m(k := None)) j))) = (\<Sum>j\<in>dom m - {k}. f (the (m j)))"
    by (rule sum.cong) auto
  then show ?thesis
    using map_sum_remove [OF assms, of f k] map_sum_remove [of "m(k := None)" f k] assms by simp
qed

section \<open>What the counters should be\<close>

text \<open>Whether a file is charged to the user or group of a key.\<close>

fun owes :: "QuotaKey \<Rightarrow> FileAttr \<Rightarrow> bool" where
  "owes (QuotaScopeUser, i) a = (faUID a = i)"
| "owes (QuotaScopeGroup, i) a = (faGID a = i)"

definition file_bytes :: "fileData \<Rightarrow> u64" where
  "file_bytes fd = (if faType (fdAttr fd) = FileTypeRegular then faSize (fdAttr fd) else 0)"

definition key_bytes :: "QuotaKey \<Rightarrow> fileData \<Rightarrow> u64" where
  "key_bytes k fd = (if owes k (fdAttr fd) then file_bytes fd else 0)"

definition key_files :: "QuotaKey \<Rightarrow> fileData \<Rightarrow> u64" where
  "key_files k fd = (if owes k (fdAttr fd) \<and> faType (fdAttr fd) = FileTypeRegular then 1 else 0)"

definition used_of :: "(FileHandle \<rightharpoonup> fileData) \<Rightarrow> u64" where
  "used_of files = map_sum file_bytes files"

definition usage_of :: "(FileHandle \<rightharpoonup> fileData) \<Rightarrow> QuotaKey \<Rightarrow> UsageStat" where
  "usage_of files k = \<lparr>usBytes = map_sum (key_bytes k) files, usFiles = map_sum (key_files k) files\<rparr>"

definition counters_exact :: "MemStore \<Rightarrow> bool" where
  "counters_exact st \<longleftrightarrow> finite (dom (msFiles st)) \<and> msUsedBytes st = used_of (msFiles st)
     \<and> (\<forall>k. quota_get (msQuota st) k = usage_of (msFiles st) k)"

text \<open>The counts fit the signed counters of the code, and no link count is at its maximum.\<close>

definition total_bytes :: "(FileHandle \<rightharpoonup> fileData) \<Rightarrow> nat" where
  "total_bytes files = (\<Sum>h\<in>dom files. unat (file_bytes (the (files h))))"

definition fits :: "MemStore \<Rightarrow> bool" where
  "fits st \<longleftrightarrow> total_bytes (msFiles st) < 2 ^ 63 \<and> card (dom (msFiles st)) < 2 ^ 63
     \<and> (\<forall>h. msLinkCounts st h \<noteq> Some (- 1))"

section \<open>Differences\<close>

lemma quota_get_delta_add:
  "usBytes (quota_get (delta_add (faUID a) (faGID a) b f d) k) = usBytes (quota_get d k) + (if owes k a then b else 0)"
  "usFiles (quota_get (delta_add (faUID a) (faGID a) b f d) k) = usFiles (quota_get d k) + (if owes k a then f else 0)"
  by (cases "(k, a)" rule: owes.cases; auto simp: delta_add_def quota_get_def stat_add_def Let_def)+

text \<open>The differences a transaction has collected so far are the changes of the sums.\<close>

definition charged :: "MemStore \<Rightarrow> memTx \<Rightarrow> bool" where
  "charged st0 t \<longleftrightarrow> finite (dom (msFiles (txStore t)))
     \<and> txPendingDelta t = used_of (msFiles (txStore t)) - used_of (msFiles st0)
     \<and> (\<forall>k. usBytes (quota_get (txQuota t) k) = usBytes (usage_of (msFiles (txStore t)) k) - usBytes (usage_of (msFiles st0) k)
           \<and> usFiles (quota_get (txQuota t) k) = usFiles (usage_of (msFiles (txStore t)) k) - usFiles (usage_of (msFiles st0) k))
     \<and> msUsedBytes (txStore t) = msUsedBytes st0 \<and> msQuota (txStore t) = msQuota st0"

lemma charged_get:
  assumes "charged st0 t"
  shows "usBytes (quota_get (txQuota t) k) = usBytes (usage_of (msFiles (txStore t)) k) - usBytes (usage_of (msFiles st0) k)"
    "usFiles (quota_get (txQuota t) k) = usFiles (usage_of (msFiles (txStore t)) k) - usFiles (usage_of (msFiles st0) k)"
  using assms unfolding charged_def by blast+

lemma charged_begin: "finite (dom (msFiles st)) \<Longrightarrow> charged st (begin_tx st)"
  by (simp add: charged_def quota_get_def)

lemma charged_same_files:
  "charged st0 t \<Longrightarrow> msFiles st' = msFiles (txStore t) \<Longrightarrow> msUsedBytes st' = msUsedBytes (txStore t) \<Longrightarrow>
   msQuota st' = msQuota (txStore t) \<Longrightarrow> charged st0 (t\<lparr>txStore := st'\<rparr>)"
  by (simp add: charged_def)

text \<open>The regular file a \<open>PutFile\<close> replaces.\<close>

definition old_regular :: "MemStore \<Rightarrow> FileHandle \<Rightarrow> FileAttr option" where
  "old_regular st key =
     (case msFiles st key of
        Some fd \<Rightarrow> if faType (fdAttr fd) = FileTypeRegular then Some (fdAttr fd) else None
      | None \<Rightarrow> None)"

lemma PutFile_acct:
  assumes "PutFile U f t = Inr (x, t')" "EncodeShareHandle U (fShareName f) (fID f) = Inr key"
  shows "txStore t' = put_maps key (fShareName f) (fAttr f) (txStore t)"
    "txPendingDelta t' = (if faType (fAttr f) = FileTypeRegular
       then txPendingDelta t + (faSize (fAttr f) - (case old_regular (txStore t) key of Some o' \<Rightarrow> faSize o' | None \<Rightarrow> 0))
       else txPendingDelta t)"
    "txQuota t' = (if faType (fAttr f) = FileTypeRegular then put_quota (old_regular (txStore t) key) (fAttr f) (txQuota t)
       else txQuota t)"
  using assms unfolding PutFile_def old_regular_def Let_def
  by (cases "faType (fAttr f) = FileTypeRegular"; auto split: if_splits)+

lemma put_quota_get:
  "usBytes (quota_get (put_quota old a q) k) =
     usBytes (quota_get q k) + (if owes k a then faSize a else 0)
     - (case old of Some o' \<Rightarrow> if owes k o' then faSize o' else 0 | None \<Rightarrow> 0)"
  "usFiles (quota_get (put_quota old a q) k) =
     usFiles (quota_get q k) + (if owes k a then 1 else 0)
     - (case old of Some o' \<Rightarrow> if owes k o' then 1 else 0 | None \<Rightarrow> 0)"
proof -
  have same: "owes k b = owes k a" if "faUID b = faUID a" "faGID b = faGID a" for b
    using that by (cases "(k, a)" rule: owes.cases) auto
  show "usBytes (quota_get (put_quota old a q) k) =
      usBytes (quota_get q k) + (if owes k a then faSize a else 0)
      - (case old of Some o' \<Rightarrow> if owes k o' then faSize o' else 0 | None \<Rightarrow> 0)"
  proof (cases old)
    case (Some b)
    then show ?thesis using same [of b] by (auto simp: put_quota_def quota_get_delta_add)
  qed (simp add: put_quota_def quota_get_delta_add)
  show "usFiles (quota_get (put_quota old a q) k) =
      usFiles (quota_get q k) + (if owes k a then 1 else 0)
      - (case old of Some o' \<Rightarrow> if owes k o' then 1 else 0 | None \<Rightarrow> 0)"
  proof (cases old)
    case (Some b)
    then show ?thesis using same [of b] by (auto simp: put_quota_def quota_get_delta_add)
  qed (simp add: put_quota_def quota_get_delta_add)
qed

lemma put_maps_counters [simp]:
  "msFiles (put_maps key sh a st) = (msFiles st)(key \<mapsto> \<lparr>fdAttr = a, fdShareName = sh\<rparr>)"
  "msUsedBytes (put_maps key sh a st) = msUsedBytes st" "msQuota (put_maps key sh a st) = msQuota st"
  by (simp_all add: put_maps_def Let_def)

lemma charged_PutFile:
  assumes t: "charged st0 t" and put: "PutFile U f t = Inr (x, t')"
    and key: "EncodeShareHandle U (fShareName f) (fID f) = Inr key"
    and same: "\<And>fd. msFiles (txStore t) key = Some fd \<Longrightarrow> faType (fdAttr fd) = faType (fAttr f)"
  shows "charged st0 t'"
proof -
  have fin: "finite (dom (msFiles (txStore t)))" using t by (simp add: charged_def)
  note acct = PutFile_acct [OF put key]
  let ?o = "msFiles (txStore t) key" and ?a = "fAttr f"
  have old: "old_regular (txStore t) key = (if faType ?a = FileTypeRegular then map_option fdAttr ?o else None)"
    using same by (auto simp: old_regular_def split: option.splits)
  have used: "used_of (msFiles (txStore t')) = used_of (msFiles (txStore t)) - old_term file_bytes ?o
      + file_bytes \<lparr>fdAttr = ?a, fdShareName = fShareName f\<rparr>"
    by (simp add: acct(1) used_of_def map_sum_upd [OF fin])
  have usage: "usBytes (usage_of (msFiles (txStore t')) k) = usBytes (usage_of (msFiles (txStore t)) k)
        - old_term (key_bytes k) ?o + key_bytes k \<lparr>fdAttr = ?a, fdShareName = fShareName f\<rparr>"
      "usFiles (usage_of (msFiles (txStore t')) k) = usFiles (usage_of (msFiles (txStore t)) k)
        - old_term (key_files k) ?o + key_files k \<lparr>fdAttr = ?a, fdShareName = fShareName f\<rparr>" for k
    by (simp_all add: acct(1) usage_of_def map_sum_upd [OF fin])
  have delta: "txPendingDelta t' = used_of (msFiles (txStore t')) - used_of (msFiles st0)"
    using t same by (auto simp: charged_def acct(2) used old file_bytes_def split: option.splits)
  have quota: "usBytes (quota_get (txQuota t') k) = usBytes (usage_of (msFiles (txStore t')) k) - usBytes (usage_of (msFiles st0) k)"
      "usFiles (quota_get (txQuota t') k) = usFiles (usage_of (msFiles (txStore t')) k) - usFiles (usage_of (msFiles st0) k)" for k
    using charged_get [OF t, of k] same
    by (auto simp: acct(3) usage old put_quota_get key_bytes_def key_files_def file_bytes_def split: option.splits)
  show ?thesis
    using t fin delta quota by (simp add: charged_def acct(1))
qed

lemma charged_DeleteFile:
  assumes t: "charged st0 t" and del: "DeleteFile key t = Inr (x, t')"
  shows "charged st0 t'"
proof -
  obtain fd where fd: "msFiles (txStore t) key = Some fd"
    and t': "t' = (uncharge (fdAttr fd) t)\<lparr>txStore := delete_maps key (fdAttr fd) (txStore t)\<rparr>"
    using del by (auto simp: DeleteFile_def split: option.splits)
  have fin: "finite (dom (msFiles (txStore t)))" using t by (simp add: charged_def)
  note sums = map_sum_del [OF fin]
  have "charged st0 ((uncharge (fdAttr fd) t)\<lparr>txStore := delete_maps key (fdAttr fd) (txStore t)\<rparr>)"
    using t fd word_gt_0 [of "faSize (fdAttr fd)"]
    by (auto simp: charged_def uncharge_def delete_maps_def used_of_def usage_of_def sums
        file_bytes_def key_bytes_def key_files_def quota_get_delta_add)
  then show ?thesis by (simp add: t')
qed

section \<open>Transactions of the operations\<close>

text \<open>The steps of a transaction that touch neither files nor counters.\<close>

definition same_acct :: "memTx \<Rightarrow> memTx \<Rightarrow> bool" where
  "same_acct t t' \<longleftrightarrow> txPendingDelta t' = txPendingDelta t \<and> txQuota t' = txQuota t
     \<and> msFiles (txStore t') = msFiles (txStore t) \<and> msUsedBytes (txStore t') = msUsedBytes (txStore t)
     \<and> msQuota (txStore t') = msQuota (txStore t)"

lemma charged_cong: "charged st0 t \<Longrightarrow> same_acct t t' \<Longrightarrow> charged st0 t'"
  by (simp add: charged_def same_acct_def)

definition keys_canonical :: "uuid_package \<Rightarrow> MemStore \<Rightarrow> bool" where
  "keys_canonical U st \<longleftrightarrow> (\<forall>h. msFiles st h \<noteq> None \<longrightarrow> canonical U h)"

lemma GetFile_key:
  assumes "keys_canonical U st" "store_GetFile U st h = Inr f"
  shows "EncodeShareHandle U (fShareName f) (fID f) = Inr h"
  using store_GetFile_encode [OF assms(2)] assms store_GetFile_exists [OF assms(2)] by (simp add: keys_canonical_def)

lemma charged_put_read:
  assumes t: "charged st0 t" and k: "keys_canonical U st" "store_GetFile U st h = Inr f"
    and put: "PutFile U (f\<lparr>fAttr := a\<rparr>) t = Inr (x, t')" and ty: "faType a = faType (fAttr f)"
    and kept: "\<And>fd fd'. msFiles st h = Some fd \<Longrightarrow> msFiles (txStore t) h = Some fd' \<Longrightarrow> faType (fdAttr fd') = faType (fdAttr fd)"
  shows "charged st0 t'"
proof (rule charged_PutFile [OF t put])
  show "EncodeShareHandle U (fShareName (f\<lparr>fAttr := a\<rparr>)) (fID (f\<lparr>fAttr := a\<rparr>)) = Inr h"
    using GetFile_key [OF k] by simp
  obtain fd0 where fd0: "msFiles st h = Some fd0" using store_GetFile_exists [OF k(2)] by auto
  fix fd
  assume "msFiles (txStore t) h = Some fd"
  from kept [OF fd0 this] store_GetFile_type [OF k(2) fd0] ty
  show "faType (fdAttr fd) = faType (fAttr (f\<lparr>fAttr := a\<rparr>))" by simp
qed

lemma put_read_files:
  assumes k: "keys_canonical U st" "store_GetFile U st h = Inr f" and put: "PutFile U (f\<lparr>fAttr := a\<rparr>) t = Inr (x, t')"
  shows "msFiles (txStore t') = (msFiles (txStore t))(h \<mapsto> \<lparr>fdAttr = a, fdShareName = fShareName f\<rparr>)"
  using PutFile_acct(1) [OF put] GetFile_key [OF k] by simp

lemma createEntry_tx_charged:
  assumes "finite (dom (msFiles st))" "EncodeShareHandle U (fShareName f) (fID f) = Inr h" "msFiles st h = None"
    and tx: "createEntry_tx U d name h f (begin_tx st) = Inr (x, t)"
  shows "charged st t"
proof -
  obtain y t1 where put: "PutFile U f (begin_tx st) = Inr (y, t1)" and same: "same_acct t1 t"
    using tx by (auto simp: createEntry_tx_def tx_rules same_acct_def set_child_def split: if_splits)
  have "charged st t1"
    by (rule charged_PutFile [OF charged_begin [OF assms(1)] put assms(2)]) (use assms(3) in simp)
  then show ?thesis using same by (rule charged_cong)
qed

text \<open>The store once the new name and the link count of a hard link are set.\<close>

definition linked :: "MemStore \<Rightarrow> FileHandle \<Rightarrow> string \<Rightarrow> FileHandle \<Rightarrow> MemStore" where
  "linked st d name h = (set_child d name h st)\<lparr>msLinkCounts := (msLinkCounts st)(h \<mapsto> store_GetLinkCount st h + 1)\<rparr>"

lemma linked_files [simp]:
  "msFiles (linked st d name h) = msFiles st" "msUsedBytes (linked st d name h) = msUsedBytes st"
  "msQuota (linked st d name h) = msQuota st"
  by (simp_all add: linked_def set_child_def)

lemma CreateHardLink_tx_parts:
  assumes "CreateHardLink_tx U now d name h dir f (begin_tx st) = Inr (x, t)" "store_GetFile U st d = Inr dir"
  shows "\<exists>y t2 z. child_of st d name = None
    \<and> PutFile U (f\<lparr>fAttr := (fAttr f)\<lparr>faCtime := now\<rparr>\<rparr>) (begin_tx (linked st d name h)) = Inr (y, t2)
    \<and> PutFile U (dir\<lparr>fAttr := (fAttr dir)\<lparr>faMtime := now, faCtime := now\<rparr>\<rparr>) t2 = Inr (z, t)"
  using assms
  by (auto simp: CreateHardLink_tx_def tx_rules set_child_def store_GetLinkCount_def Let_def linked_def split: if_splits)

lemma CreateHardLink_tx_charged:
  assumes fin: "finite (dom (msFiles st))" and k: "keys_canonical U st"
    and d: "store_GetFile U st d = Inr dir" and h: "store_GetFile U st h = Inr f"
    and tx: "CreateHardLink_tx U now d name h dir f (begin_tx st) = Inr (x, t)"
  shows "charged st t"
proof -
  define t1 where "t1 = begin_tx (linked st d name h)"
  obtain y t2 z where p1: "PutFile U (f\<lparr>fAttr := (fAttr f)\<lparr>faCtime := now\<rparr>\<rparr>) t1 = Inr (y, t2)"
    and p2: "PutFile U (dir\<lparr>fAttr := (fAttr dir)\<lparr>faMtime := now, faCtime := now\<rparr>\<rparr>) t2 = Inr (z, t)"
    using CreateHardLink_tx_parts [OF tx d] unfolding t1_def by metis
  have same: "same_acct (begin_tx st) t1" by (simp add: same_acct_def t1_def)
  have c1: "charged st t1" by (rule charged_cong [OF charged_begin [OF fin] same])
  have c2: "charged st t2" by (rule charged_put_read [OF c1 k h p1]) (simp_all add: t1_def)
  show ?thesis
  proof (rule charged_put_read [OF c2 k d p2])
    fix fd fd'
    assume "msFiles st d = Some fd" "msFiles (txStore t2) d = Some fd'"
    then show "faType (fdAttr fd') = faType (fdAttr fd)"
      using put_read_files [OF k h p1] store_GetFile_type [OF h]
      by (auto simp: t1_def split: if_splits)
  qed simp
qed

lemma RemoveFile_tx_charged:
  assumes fin: "finite (dom (msFiles st))" and k: "keys_canonical U st" and h: "store_GetFile U st h = Inr f"
    and tx: "RemoveFile_tx U now d name h f (begin_tx st) = Inr (x, t)"
  shows "charged st t"
proof -
  let ?n = "store_GetLinkCount st h"
  define t1 where "t1 = (begin_tx st)\<lparr>txStore := st\<lparr>msLinkCounts := (msLinkCounts st)(h \<mapsto> (if ?n \<le> 1 then 0 else ?n - 1))\<rparr>\<rparr>"
  define a where "a = (if ?n \<le> 1 then (fAttr f)\<lparr>faCtime := now, faNlink := 0\<rparr> else (fAttr f)\<lparr>faCtime := now\<rparr>)"
  obtain y t2 where p1: "PutFile U (f\<lparr>fAttr := a\<rparr>) t1 = Inr (y, t2)" and same2: "same_acct t2 t"
    using tx by (auto simp: RemoveFile_tx_def tx_rules Let_def delete_child_def same_acct_def t1_def a_def)
  have same: "same_acct (begin_tx st) t1" by (simp add: same_acct_def t1_def)
  have c1: "charged st t1" by (rule charged_cong [OF charged_begin [OF fin] same])
  have "charged st t2" by (rule charged_put_read [OF c1 k h p1]) (simp_all add: t1_def a_def)
  then show ?thesis using same2 by (rule charged_cong)
qed

lemma RemoveDirectory_tx_charged:
  assumes fin: "finite (dom (msFiles st))"
    and tx: "RemoveDirectory_tx U d name h parent (begin_tx st) = Inr (x, t)"
  shows "charged st t"
proof -
  obtain y t1 where del: "DeleteFile h (begin_tx st) = Inr (y, t1)" and same: "same_acct t1 t"
    using tx by (auto simp: RemoveDirectory_tx_def tx_rules delete_child_def same_acct_def split: if_splits)
  show ?thesis using charged_DeleteFile [OF charged_begin [OF fin] del] same by (rule charged_cong)
qed

lemma Move_replace_tx_charged:
  assumes fin: "finite (dom (msFiles st))" and k: "keys_canonical U st"
    and dst: "\<And>dh df. dst = Some (dh, df) \<Longrightarrow> store_GetFile U st dh = Inr df"
    and tx: "Move_replace_tx U now toDir toName dst (begin_tx st) = Inr (x, t)"
  shows "charged st t \<and> (\<forall>h fd fd'. msFiles st h = Some fd \<longrightarrow> msFiles (txStore t) h = Some fd' \<longrightarrow>
    faType (fdAttr fd') = faType (fdAttr fd))"
proof (cases dst)
  case None
  then show ?thesis using tx charged_begin [OF fin] by (auto simp: Move_replace_tx_def tx_rules)
next
  case (Some dd)
  obtain dh df where dd: "dd = (dh, df)" by (cases dd)
  note g = dst [OF Some [unfolded dd]]
  show ?thesis
  proof (cases "is_dir (fAttr df)")
    case True
    obtain y t1 where del: "DeleteFile dh (begin_tx st) = Inr (y, t1)" and same: "same_acct t1 t"
      using tx True by (auto simp: Move_replace_tx_def Some dd tx_rules delete_child_def same_acct_def)
    have "msFiles (txStore t) = (msFiles st)(dh := None)"
      using del same by (auto simp: DeleteFile_def same_acct_def delete_maps_def split: option.splits)
    then show ?thesis
      using charged_cong [OF charged_DeleteFile [OF charged_begin [OF fin] del] same] by simp
  next
    case False
    define t1 where "t1 = (begin_tx st)\<lparr>txStore := st\<lparr>msLinkCounts := (msLinkCounts st)(dh \<mapsto>
        (if store_GetLinkCount st dh > 1 then store_GetLinkCount st dh - 1 else 0))\<rparr>\<rparr>"
    define a where "a = (fAttr df)\<lparr>faCtime := now\<rparr>"
    obtain y t2 where put: "PutFile U (df\<lparr>fAttr := a\<rparr>) t1 = Inr (y, t2)" and same2: "same_acct t2 t"
      using tx False by (auto simp: Move_replace_tx_def Some dd tx_rules delete_child_def same_acct_def t1_def a_def)
    have same: "same_acct (begin_tx st) t1" by (simp add: same_acct_def t1_def)
    have c1: "charged st t1" by (rule charged_cong [OF charged_begin [OF fin] same])
    have "charged st t2" by (rule charged_put_read [OF c1 k g put]) (simp_all add: t1_def a_def)
    moreover have "msFiles (txStore t) = (msFiles st)(dh \<mapsto> \<lparr>fdAttr = a, fdShareName = fShareName df\<rparr>)"
      using put_read_files [OF k g put] same2 by (simp add: same_acct_def t1_def)
    ultimately show ?thesis
      using charged_cong [OF _ same2] store_GetFile_type [OF g] by (auto simp: a_def)
  qed
qed

lemma Move_tx_charged:
  assumes fin: "finite (dom (msFiles st))" and k: "keys_canonical U st"
    and plan: "move_plan_ok U st fromDir fromName toDir toName p"
    and tx: "Move_tx U now fromDir fromName toDir toName p (begin_tx st) = Inr (x, t)"
  shows "charged st t"
proof -
  let ?dir = "is_dir (fAttr (mpSrc p))"
  obtain y t1 z1 t2 z2 t3 z3 t4 z where rep: "Move_replace_tx U now toDir toName (mpDst p) (begin_tx st) = Inr (y, t1)"
    and ops: "DeleteChild fromDir fromName t1 = Inr (z1, t2)" "SetChild toDir toName (mpSrcHandle p) t2 = Inr (z2, t3)"
      "Move_relink_tx fromDir toDir (mpSrcHandle p) ?dir t3 = Inr (z3, t4)"
    and put: "PutFile U ((mpSrc p)\<lparr>fAttr := (fAttr (mpSrc p))\<lparr>faCtime := now\<rparr>\<rparr>) t4 = Inr (z, t)"
    using tx by (auto simp: Move_tx_def bindT_Inr retT_Inr reread_Inr split: if_splits)
  have "same_acct t1 t2" "same_acct t2 t3" "same_acct t3 t4"
    using ops by (auto simp: tx_rules same_acct_def delete_child_def set_child_def Move_relink_tx_def split: if_splits)
  then have same: "same_acct t1 t4" by (simp add: same_acct_def)
  have c: "charged st t1 \<and> (\<forall>h fd fd'. msFiles st h = Some fd \<longrightarrow> msFiles (txStore t1) h = Some fd' \<longrightarrow>
      faType (fdAttr fd') = faType (fdAttr fd))"
    by (rule Move_replace_tx_charged [OF fin k _ rep]) (use plan in \<open>simp add: move_plan_ok_def\<close>)
  have src: "store_GetFile U st (mpSrcHandle p) = Inr (mpSrc p)" using plan by (simp add: move_plan_ok_def)
  have c2: "charged st t4" using c same charged_cong by blast
  show ?thesis
    by (rule charged_put_read [OF c2 k src put]) (use c same in \<open>auto simp: same_acct_def\<close>)
qed

section \<open>Counters of a committed transaction\<close>

lemma map_sum_of_nat:
  assumes "finite (dom m)"
  shows "map_sum f m = (of_nat (\<Sum>h\<in>dom m. unat (f (the (m h)))) :: 'a::len word)"
  by (simp add: map_sum_def)

lemma sint_of_nat_small: "n < 2 ^ 63 \<Longrightarrow> sint (of_nat n :: u64) = int n"
  by (simp add: signed_of_nat signed_take_bit_int_eq_self)

lemma usage_signed:
  assumes fin: "finite (dom files)" and bytes: "total_bytes files < 2 ^ 63" and num: "card (dom files) < 2 ^ 63"
  shows "0 \<le> sint (usBytes (usage_of files k))" "0 \<le> sint (usFiles (usage_of files k))"
proof -
  have "(\<Sum>h\<in>dom files. unat (key_bytes k (the (files h)))) \<le> total_bytes files"
    unfolding total_bytes_def by (rule sum_mono) (simp add: key_bytes_def)
  then show "0 \<le> sint (usBytes (usage_of files k))"
    using bytes sint_of_nat_small [of "\<Sum>h\<in>dom files. unat (key_bytes k (the (files h)))"]
    by (simp add: usage_of_def map_sum_of_nat [OF fin] sum_nonneg)
  have "(\<Sum>h\<in>dom files. unat (key_files k (the (files h)))) \<le> (\<Sum>h\<in>dom files. 1)"
    by (rule sum_mono) (simp add: key_files_def)
  then show "0 \<le> sint (usFiles (usage_of files k))"
    using num sint_of_nat_small [of "\<Sum>h\<in>dom files. unat (key_files k (the (files h)))"]
    by (simp add: usage_of_def map_sum_of_nat [OF fin] sum_nonneg)
qed

lemma quota_get_apply:
  assumes "0 \<le> sint (usBytes (quota_get c k) + usBytes (quota_get d k))"
    "0 \<le> sint (usFiles (quota_get c k) + usFiles (quota_get d k))"
  shows "quota_get (quota_apply d c) k =
    \<lparr>usBytes = usBytes (quota_get c k) + usBytes (quota_get d k), usFiles = usFiles (quota_get c k) + usFiles (quota_get d k)\<rparr>"
proof (cases "d k")
  case None
  then show ?thesis by (simp add: quota_get_def quota_apply_def)
next
  case (Some u)
  then have "quota_get d k = u" by (simp add: quota_get_def)
  then show ?thesis
    using assms Some by (auto simp: quota_apply_def apply_stat_def Let_def quota_get_def [of "\<lambda>k. _ k"])
qed

lemma counters_commit:
  assumes ex: "counters_exact st" and ch: "charged st t" and fit: "fits (txStore t)"
  shows "counters_exact (commit_of t)"
proof -
  let ?f = "msFiles (txStore t)"
  have fin: "finite (dom ?f)" and delta: "txPendingDelta t = used_of ?f - used_of (msFiles st)"
    and keep: "msUsedBytes (txStore t) = msUsedBytes st" "msQuota (txStore t) = msQuota st"
    using ch by (simp_all add: charged_def)
  have sum: "usBytes (quota_get (msQuota st) k) + usBytes (quota_get (txQuota t) k) = usBytes (usage_of ?f k)"
    "usFiles (quota_get (msQuota st) k) + usFiles (quota_get (txQuota t) k) = usFiles (usage_of ?f k)" for k
  proof -
    have "quota_get (msQuota st) k = usage_of (msFiles st) k" using ex unfolding counters_exact_def by blast
    then show "usBytes (quota_get (msQuota st) k) + usBytes (quota_get (txQuota t) k) = usBytes (usage_of ?f k)"
      "usFiles (quota_get (msQuota st) k) + usFiles (quota_get (txQuota t) k) = usFiles (usage_of ?f k)"
      using charged_get [OF ch, of k] by simp_all
  qed
  have "quota_get (quota_apply (txQuota t) (msQuota st)) k = usage_of ?f k" for k
    using quota_get_apply [of "msQuota st" k "txQuota t"] usage_signed [OF fin, of k] fit sum [of k]
    by (simp add: fits_def)
  moreover have "msUsedBytes st + txPendingDelta t = used_of ?f" using ex delta by (simp add: counters_exact_def)
  ultimately show ?thesis using fin keep by (simp add: counters_exact_def)
qed

section \<open>The index of object ids\<close>

definition object_of :: "MemStore \<Rightarrow> FileHandle \<Rightarrow> ContentHash" where
  "object_of st key = (case msFiles st key of Some fd \<Rightarrow> faObjectID (fdAttr fd) | None \<Rightarrow> 0)"

definition objects_exact :: "MemStore \<Rightarrow> bool" where
  "objects_exact st \<longleftrightarrow> (\<forall>oid key. msObjectIndex st oid = Some key \<longleftrightarrow> oid \<noteq> 0 \<and> object_of st key = oid)"

lemma index_update:
  assumes ex: "\<forall>i k. idx i = Some k \<longleftrightarrow> i \<noteq> 0 \<and> ob k = i" and free: "new = 0 \<or> idx new \<in> {None, Some key}"
    and idx1: "idx1 = (if ob key \<noteq> 0 \<and> ob key \<noteq> new then idx(ob key := None) else idx)"
  shows "(if new \<noteq> 0 then idx1(new \<mapsto> key) else idx1) i = Some k \<longleftrightarrow> i \<noteq> 0 \<and> (ob(key := new)) k = i"
proof -
  have ex': "idx j = Some l \<longleftrightarrow> j \<noteq> 0 \<and> ob l = j" for j l using ex by blast
  have uniq: "l = key" if "ob l = ob key" "ob key \<noteq> 0" for l
    using that ex' [of "ob key" l] ex' [of "ob key" key] by simp
  have owner: "l = key" if "ob l = new" "new \<noteq> 0" for l
    using that free ex' [of new l] by auto
  have only: "ob l \<noteq> new" if "new \<noteq> 0" "l \<noteq> key" for l using owner that by blast
  consider (eq) "i = new" "new \<noteq> 0" | (gone) "i = ob key" "i \<noteq> new" "i \<noteq> 0" | (zero) "i = 0"
    | (other) "i \<noteq> new" "i \<noteq> ob key" "i \<noteq> 0" by blast
  then show ?thesis
  proof cases
    case eq
    then show ?thesis using only [of k] by auto
  next
    case gone
    then show ?thesis using uniq [of k] ex' [of i k] by (auto simp: idx1)
  next
    case zero
    then show ?thesis using ex' [of 0 k] by (auto simp: idx1)
  next
    case other
    then show ?thesis using ex' [of i k] by (auto simp: idx1)
  qed
qed

lemma put_maps_objects:
  assumes ex: "objects_exact st" and free: "faObjectID a = 0 \<or> msObjectIndex st (faObjectID a) \<in> {None, Some key}"
  shows "objects_exact (put_maps key sh a st)"
proof -
  let ?st' = "put_maps key sh a st"
  have ob: "object_of ?st' = (object_of st)(key := faObjectID a)"
    by (auto simp: object_of_def)
  have idx: "msObjectIndex ?st' = (let idx1 = (if object_of st key \<noteq> 0 \<and> object_of st key \<noteq> faObjectID a
        then (msObjectIndex st)(object_of st key := None) else msObjectIndex st)
      in if faObjectID a \<noteq> 0 then idx1(faObjectID a \<mapsto> key) else idx1)"
    by (auto simp: put_maps_def Let_def object_of_def split: option.splits)
  show ?thesis
    unfolding objects_exact_def ob idx Let_def
    using index_update [OF ex [unfolded objects_exact_def] free refl] by blast
qed

lemma keeps_PutFile_objects: "keeps objects_exact (PutFile U f)"
  unfolding keeps_def by (auto elim!: PutFile_Inr simp: put_maps_objects)

lemma keeps_DeleteFile_objects: "keeps objects_exact (DeleteFile h)"
  unfolding keeps_def
proof (intro allI impI)
  fix t x t'
  assume del: "DeleteFile h t = Inr (x, t')" and ex: "objects_exact (txStore t)"
  obtain fd where fd: "msFiles (txStore t) h = Some fd" "txStore t' = delete_maps h (fdAttr fd) (txStore t)"
    using del by (auto simp: DeleteFile_def split: option.splits)
  let ?idx = "msObjectIndex (txStore t)" and ?ob = "object_of (txStore t)"
  have ex': "\<forall>i k. ?idx i = Some k \<longleftrightarrow> i \<noteq> 0 \<and> ?ob k = i" using ex by (simp add: objects_exact_def)
  have h: "?ob h = faObjectID (fdAttr fd)" using fd(1) by (simp add: object_of_def)
  have "object_of (txStore t') = ?ob(h := 0)"
    using fd(2) by (auto simp: object_of_def delete_maps_def)
  moreover have "msObjectIndex (txStore t') = (if ?ob h \<noteq> 0 then ?idx(?ob h := None) else ?idx)"
    using fd(2) ex' h by (simp add: delete_maps_def)
  ultimately show "objects_exact (txStore t')"
    using index_update [OF ex', of 0 h, OF _ refl] by (simp add: objects_exact_def)
qed

interpretation objects: store_invariant objects_exact
proof
  show "keeps objects_exact (PutFile U f)" for U f by (rule keeps_PutFile_objects)
  show "keeps objects_exact (DeleteFile h)" for h by (rule keeps_DeleteFile_objects)
  fix st h sh nm and a :: FileAttr
  assume "objects_exact st" "fresh_handle st h" "faObjectID a = 0"
  moreover have "object_of (st\<lparr>msShares := sh, msFiles := (msFiles st)(h \<mapsto> \<lparr>fdAttr = a, fdShareName = nm\<rparr>),
      msChildren := c, msLinkCounts := l\<rparr>) = object_of st" for c l
    using calculation(2,3) by (auto simp: object_of_def fresh_handle_def)
  ultimately show "objects_exact (st\<lparr>msShares := sh, msFiles := (msFiles st)(h \<mapsto> \<lparr>fdAttr = a, fdShareName = nm\<rparr>),
      msChildren := (msChildren st)(h \<mapsto> []), msLinkCounts := (msLinkCounts st)(h \<mapsto> 2)\<rparr>)"
    by (simp add: objects_exact_def)
qed (simp_all add: objects_exact_def object_of_def set_child_def delete_child_def)

section \<open>Every operation keeps the counters\<close>

lemma files_keys: "keys_canonical U st \<Longrightarrow> dom (msFiles st') \<subseteq> dom (msFiles st) \<Longrightarrow> keys_canonical U st'"
  unfolding keys_canonical_def by (meson domIff subsetD)

lemma put_read_dom:
  assumes "keys_canonical U st" "store_GetFile U st h = Inr f" "PutFile U (f\<lparr>fAttr := a\<rparr>) t = Inr (x, t')"
    "dom (msFiles (txStore t)) \<subseteq> dom (msFiles st)"
  shows "dom (msFiles (txStore t')) \<subseteq> dom (msFiles st)"
  using put_read_files [OF assms(1-3)] store_GetFile_exists [OF assms(2)] assms(4) by auto

lemma CreateHardLink_tx_dom:
  assumes k: "keys_canonical U st" and d: "store_GetFile U st d = Inr dir" and h: "store_GetFile U st h = Inr f"
    and tx: "CreateHardLink_tx U now d name h dir f (begin_tx st) = Inr (x, t)"
  shows "dom (msFiles (txStore t)) \<subseteq> dom (msFiles st)"
proof -
  obtain y t2 z where p1: "PutFile U (f\<lparr>fAttr := (fAttr f)\<lparr>faCtime := now\<rparr>\<rparr>) (begin_tx (linked st d name h)) = Inr (y, t2)"
    and p2: "PutFile U (dir\<lparr>fAttr := (fAttr dir)\<lparr>faMtime := now, faCtime := now\<rparr>\<rparr>) t2 = Inr (z, t)"
    using CreateHardLink_tx_parts [OF tx d] by metis
  show ?thesis using put_read_dom [OF k h p1] put_read_dom [OF k d p2] by simp
qed

lemma Move_tx_dom:
  assumes k: "keys_canonical U st" and plan: "move_plan_ok U st fromDir fromName toDir toName p"
    and tx: "Move_tx U now fromDir fromName toDir toName p (begin_tx st) = Inr (x, t)"
  shows "dom (msFiles (txStore t)) \<subseteq> dom (msFiles st)"
proof -
  let ?dir = "is_dir (fAttr (mpSrc p))"
  obtain y t1 z1 t2 z2 t3 z3 t4 z where rep: "Move_replace_tx U now toDir toName (mpDst p) (begin_tx st) = Inr (y, t1)"
    and ops: "DeleteChild fromDir fromName t1 = Inr (z1, t2)" "SetChild toDir toName (mpSrcHandle p) t2 = Inr (z2, t3)"
      "Move_relink_tx fromDir toDir (mpSrcHandle p) ?dir t3 = Inr (z3, t4)"
    and put: "PutFile U ((mpSrc p)\<lparr>fAttr := (fAttr (mpSrc p))\<lparr>faCtime := now\<rparr>\<rparr>) t4 = Inr (z, t)"
    using tx by (auto simp: Move_tx_def bindT_Inr retT_Inr reread_Inr split: if_splits)
  have same: "msFiles (txStore t4) = msFiles (txStore t1)"
    using ops by (auto simp: tx_rules delete_child_def set_child_def Move_relink_tx_def split: if_splits)
  have "dom (msFiles (txStore t1)) \<subseteq> dom (msFiles st)"
  proof (cases "mpDst p")
    case None
    then show ?thesis using rep by (auto simp: Move_replace_tx_def tx_rules)
  next
    case (Some dd)
    obtain dh df where dd: "dd = (dh, df)" by (cases dd)
    have g: "store_GetFile U st dh = Inr df" using plan Some dd by (simp add: move_plan_ok_def)
    have "msFiles (txStore t1) h = None" if "msFiles st h = None" for h
      using rep that GetFile_key [OF k g] store_GetFile_exists [OF g]
      by (auto simp: Move_replace_tx_def Some dd tx_rules delete_child_def DeleteFile_def delete_maps_def
          elim!: PutFile_Inr split: if_splits option.splits)
    then show ?thesis by (metis domIff subsetI)
  qed
  moreover have "store_GetFile U st (mpSrcHandle p) = Inr (mpSrc p)" using plan by (simp add: move_plan_ok_def)
  ultimately show ?thesis using put_read_dom [OF k _ put] same by simp
qed

lemma store_step_keys:
  assumes "store_step U st st'" "keys_canonical U st"
  shows "keys_canonical U st'"
  using assms
proof (induction rule: store_step.induct)
  case (edit st h f a x st')
  then obtain t where "PutFile U (f\<lparr>fAttr := a\<rparr>) (begin_tx st) = Inr (x, t)" "st' = commit_of t"
    by (auto simp: WithTransaction_Inr)
  then show ?case using put_read_dom [OF edit.prems edit.hyps(1)] files_keys [OF edit.prems] by simp
next
  case (create st d parent name f h x st')
  then obtain t where t: "createEntry_tx U d name h f (begin_tx st) = Inr (x, t)" "st' = commit_of t"
    by (auto simp: WithTransaction_Inr)
  have "msFiles (txStore t) = (msFiles st)(h \<mapsto> \<lparr>fdAttr = fAttr f, fdShareName = fShareName f\<rparr>)"
    using t(1) create.hyps(4)
    by (auto simp: createEntry_tx_def tx_rules set_child_def elim!: PutFile_Inr split: if_splits)
  then show ?case using t(2) create.prems create.hyps(5) by (simp add: keys_canonical_def)
next
  case (link st d dir name h target now wcc st')
  then obtain t where "CreateHardLink_tx U now d name h dir target (begin_tx st) = Inr (wcc, t)" "st' = commit_of t"
    by (auto simp: WithTransaction_Inr)
  then show ?case
    using CreateHardLink_tx_dom [OF link.prems link.hyps(1,4)] files_keys [OF link.prems] by simp
next
  case (unlink st d parent name h f now res st')
  then obtain t where t: "RemoveFile_tx U now d name h f (begin_tx st) = Inr (res, t)" "st' = commit_of t"
    by (auto simp: WithTransaction_Inr)
  then show ?case
    using GetFile_key [OF unlink.prems unlink.hyps(3)] unlink.prems store_GetFile_exists [OF unlink.hyps(3)]
    by (auto simp: RemoveFile_tx_def tx_rules Let_def delete_child_def keys_canonical_def elim!: PutFile_Inr split: if_splits)
next
  case (rmdir st d parent name h dir p st')
  then obtain t where "RemoveDirectory_tx U d name h parent (begin_tx st) = Inr (p, t)" "st' = commit_of t"
    by (auto simp: WithTransaction_Inr)
  then show ?case using rmdir.prems
    by (auto simp: RemoveDirectory_tx_def tx_rules delete_child_def DeleteFile_def delete_maps_def keys_canonical_def
        split: option.splits if_splits)
next
  case (rename st fromDir fromName toDir toName p now res st')
  then obtain t where "Move_tx U now fromDir fromName toDir toName p (begin_tx st) = Inr (res, t)" "st' = commit_of t"
    by (auto simp: WithTransaction_Inr)
  then show ?case using Move_tx_dom [OF rename.prems rename.hyps(1)] files_keys [OF rename.prems] by simp
qed (auto simp: keys_canonical_def)

lemma store_step_counters:
  assumes "store_step U st st'" "keys_canonical U st" "counters_exact st" "fits st'"
  shows "counters_exact st'"
  using assms
proof (induction rule: store_step.induct)
  case (edit st h f a x st')
  then obtain t where t: "PutFile U (f\<lparr>fAttr := a\<rparr>) (begin_tx st) = Inr (x, t)" "st' = commit_of t"
    by (auto simp: WithTransaction_Inr)
  have fin: "finite (dom (msFiles st))" using edit.prems by (simp add: counters_exact_def)
  have "charged st t"
    by (rule charged_put_read [OF charged_begin [OF fin] edit.prems(1) edit.hyps(1) t(1) edit.hyps(2)]) simp
  then show ?case using counters_commit edit.prems t(2) by (simp add: fits_def)
next
  case (create st d parent name f h x st')
  then obtain t where t: "createEntry_tx U d name h f (begin_tx st) = Inr (x, t)" "st' = commit_of t"
    by (auto simp: WithTransaction_Inr)
  have "charged st t"
    by (rule createEntry_tx_charged [OF _ create.hyps(4) _ t(1)])
      (use create in \<open>simp_all add: counters_exact_def fresh_handle_def\<close>)
  then show ?case using counters_commit create.prems t(2) by (simp add: fits_def)
next
  case (link st d dir name h target now wcc st')
  then obtain t where t: "CreateHardLink_tx U now d name h dir target (begin_tx st) = Inr (wcc, t)" "st' = commit_of t"
    by (auto simp: WithTransaction_Inr)
  have "charged st t"
    by (rule CreateHardLink_tx_charged [OF _ link.prems(1) link.hyps(1,4) t(1)]) (use link in \<open>simp add: counters_exact_def\<close>)
  then show ?case using counters_commit link.prems t(2) by (simp add: fits_def)
next
  case (unlink st d parent name h f now res st')
  then obtain t where t: "RemoveFile_tx U now d name h f (begin_tx st) = Inr (res, t)" "st' = commit_of t"
    by (auto simp: WithTransaction_Inr)
  have "charged st t"
    by (rule RemoveFile_tx_charged [OF _ unlink.prems(1) unlink.hyps(3) t(1)]) (use unlink in \<open>simp add: counters_exact_def\<close>)
  then show ?case using counters_commit unlink.prems t(2) by (simp add: fits_def)
next
  case (rmdir st d parent name h dir p st')
  then obtain t where t: "RemoveDirectory_tx U d name h parent (begin_tx st) = Inr (p, t)" "st' = commit_of t"
    by (auto simp: WithTransaction_Inr)
  have "charged st t"
    by (rule RemoveDirectory_tx_charged [OF _ t(1)]) (use rmdir in \<open>simp add: counters_exact_def\<close>)
  then show ?case using counters_commit rmdir.prems t(2) by (simp add: fits_def)
next
  case (rename st fromDir fromName toDir toName p now res st')
  then obtain t where t: "Move_tx U now fromDir fromName toDir toName p (begin_tx st) = Inr (res, t)" "st' = commit_of t"
    by (auto simp: WithTransaction_Inr)
  have "charged st t"
    by (rule Move_tx_charged [OF _ rename.prems(1) rename.hyps(1) t(1)]) (use rename in \<open>simp add: counters_exact_def\<close>)
  then show ?case using counters_commit rename.prems t(2) by (simp add: fits_def)
next
  case (mkroot st h a shares sh)
  then have fin: "finite (dom (msFiles st))" and none: "msFiles st h = None"
    by (simp_all add: counters_exact_def fresh_handle_def)
  then show ?case
    using mkroot by (simp add: counters_exact_def used_of_def usage_of_def map_sum_upd file_bytes_def key_bytes_def key_files_def)
qed (simp add: counters_exact_def)

section \<open>Runs\<close>

lemma dir_edit_step: "dir_edit U st st' \<Longrightarrow> store_step U st st'"
  by (auto elim!: dir_edit.cases intro: store_step.edit)

lemma dir_edit_fits:
  assumes edit: "dir_edit U st st'" and k: "keys_canonical U st" and fit: "fits st'"
  shows "fits st"
  using edit
proof cases
  case (1 h f a x)
  obtain t where t: "PutFile U (f\<lparr>fAttr := a\<rparr>) (begin_tx st) = Inr (x, t)" "st' = commit_of t"
    using 1 by (auto simp: WithTransaction_Inr)
  obtain fd where fd: "msFiles st h = Some fd" using store_GetFile_exists [OF 1(1)] by auto
  have isd: "is_dir (fdAttr fd)" using store_GetFile_type [OF 1(1) fd] 1(2) by simp
  have files: "msFiles st' = (msFiles st)(h \<mapsto> \<lparr>fdAttr = a, fdShareName = fShareName f\<rparr>)"
    using put_read_files [OF k 1(1) t(1)] t(2) by simp
  then have dom: "dom (msFiles st') = dom (msFiles st)" using fd by auto
  have "total_bytes (msFiles st') = total_bytes (msFiles st)"
    unfolding total_bytes_def dom by (rule sum.cong) (use files fd isd 1(3) in \<open>auto simp: file_bytes_def\<close>)
  moreover have "msLinkCounts st g = Some n \<Longrightarrow> msLinkCounts st' g = Some n" for g n
    using PutFile_acct(1) [OF t(1)] GetFile_key [OF k 1(1)] t(2)
    by (auto simp: put_maps_def Let_def split: option.splits)
  ultimately show ?thesis using fit dom unfolding fits_def by metis
qed

lemma effect_keys: "effect U st st' \<Longrightarrow> keys_canonical U st \<Longrightarrow> keys_canonical U st'"
  by (induction rule: effect.induct) (auto intro: store_step_keys dir_edit_step)

lemma effect_inv:
  assumes "effect U st st'" "keys_canonical U st" "counters_exact st" "objects_exact st" "fits st'"
  shows "counters_exact st' \<and> objects_exact st'"
  using assms
proof (induction rule: effect.induct)
  case (flush st st' st'')
  have k: "keys_canonical U st'" using effect_keys flush by blast
  have "fits st'" using dir_edit_fits [OF flush.hyps(2) k] flush.prems by simp
  then show ?case
    using flush k store_step_counters [OF dir_edit_step [OF flush.hyps(2)] k] objects.keeps_store_step [OF dir_edit_step [OF flush.hyps(2)]]
    by blast
qed (auto intro: store_step_counters objects.keeps_store_step)

definition fits_all :: "Service \<Rightarrow> bool" where
  "fits_all s \<longleftrightarrow> (\<forall>r. fits (svHeap s r))"

text \<open>A service whose stores are empty, and a run of operations in which all counts fit.\<close>

definition new_service :: "Service \<Rightarrow> bool" where
  "new_service s \<longleftrightarrow> (\<forall>r. svHeap s r = NewMemoryMetadataStore)"

inductive md_run :: "uuid_package \<Rightarrow> Service \<Rightarrow> Service \<Rightarrow> bool" for U s0 where
  run_start: "md_run U s0 s0"
| run_step: "md_run U s0 s \<Longrightarrow> md_step U s s' \<Longrightarrow> fits_all s' \<Longrightarrow> md_run U s0 s'"

lemma md_run_inv:
  assumes ok: "uuid_ok U" and new: "new_service s0" and run: "md_run U s0 s"
  shows "keys_canonical U (svHeap s r) \<and> counters_exact (svHeap s r) \<and> objects_exact (svHeap s r)"
  using run
proof (induction arbitrary: r)
  case run_start
  then show ?case
    using new by (simp add: new_service_def NewMemoryMetadataStore_def keys_canonical_def counters_exact_def
        used_of_def usage_of_def map_sum_def quota_get_def objects_exact_def object_of_def)
next
  case (run_step s s')
  have eff: "effect U (svHeap s r) (svHeap s' r)"
    using md_step_effects [OF ok run_step.hyps(2)] by (simp add: effects_def)
  show ?case
    using effect_keys [OF eff] effect_inv [OF eff] run_step by (simp add: fits_all_def)
qed

lemma md_run_fits: "md_run U s0 s \<Longrightarrow> new_service s0 \<Longrightarrow> fits_all s"
  by (induction rule: md_run.induct)
    (auto simp: fits_all_def new_service_def NewMemoryMetadataStore_def fits_def total_bytes_def)

text \<open>The regular files of a store, and those charged to a user or group.\<close>

definition regular_files :: "MemStore \<Rightarrow> FileHandle set" where
  "regular_files st = {h. \<exists>fd. msFiles st h = Some fd \<and> faType (fdAttr fd) = FileTypeRegular}"

definition charged_files :: "MemStore \<Rightarrow> QuotaKey \<Rightarrow> FileHandle set" where
  "charged_files st k = {h \<in> regular_files st. owes k (fdAttr (the (msFiles st h)))}"

definition bytes_in :: "MemStore \<Rightarrow> FileHandle set \<Rightarrow> nat" where
  "bytes_in st H = (\<Sum>h\<in>H. unat (faSize (fdAttr (the (msFiles st h)))))"

lemma sum_files:
  assumes fin: "finite (dom (msFiles st))" and fit: "fits st"
  shows "sint (used_of (msFiles st)) = int (bytes_in st (regular_files st))"
    "sint (usBytes (usage_of (msFiles st) k)) = int (bytes_in st (charged_files st k))"
    "sint (usFiles (usage_of (msFiles st) k)) = int (card (charged_files st k))"
proof -
  let ?f = "msFiles st"
  have sub: "regular_files st \<subseteq> dom ?f" "charged_files st k \<subseteq> dom ?f"
    by (auto simp: regular_files_def charged_files_def)
  have tot: "(\<Sum>h\<in>dom ?f. unat (file_bytes (the (?f h)))) = bytes_in st (regular_files st)"
    unfolding bytes_in_def by (rule sum.mono_neutral_cong_right [OF fin sub(1)])
      (auto simp: file_bytes_def regular_files_def)
  have key: "(\<Sum>h\<in>dom ?f. unat (key_bytes k (the (?f h)))) = bytes_in st (charged_files st k)"
    unfolding bytes_in_def by (rule sum.mono_neutral_cong_right [OF fin sub(2)])
      (auto simp: key_bytes_def file_bytes_def charged_files_def regular_files_def)
  have num: "(\<Sum>h\<in>dom ?f. unat (key_files k (the (?f h)))) = card (charged_files st k)"
    unfolding card_eq_sum by (rule sum.mono_neutral_cong_right [OF fin sub(2)])
      (auto simp: key_files_def charged_files_def regular_files_def)
  have le: "bytes_in st (regular_files st) < 2 ^ 63" "bytes_in st (charged_files st k) < 2 ^ 63" "card (charged_files st k) < 2 ^ 63"
  proof -
    show "bytes_in st (regular_files st) < 2 ^ 63" using fit tot by (simp add: fits_def total_bytes_def)
    moreover have "bytes_in st (charged_files st k) \<le> bytes_in st (regular_files st)"
      unfolding bytes_in_def by (rule sum_mono2) (auto simp: charged_files_def intro: finite_subset [OF sub(1) fin])
    ultimately show "bytes_in st (charged_files st k) < 2 ^ 63" by simp
    show "card (charged_files st k) < 2 ^ 63" using card_mono [OF fin sub(2)] fit by (simp add: fits_def)
  qed
  show "sint (used_of ?f) = int (bytes_in st (regular_files st))"
    using sint_of_nat_small [OF le(1)] tot unfolding used_of_def map_sum_of_nat [OF fin] by simp
  show "sint (usBytes (usage_of ?f k)) = int (bytes_in st (charged_files st k))"
    using sint_of_nat_small [OF le(2)] key unfolding usage_of_def map_sum_of_nat [OF fin] by simp
  show "sint (usFiles (usage_of ?f k)) = int (card (charged_files st k))"
    using sint_of_nat_small [OF le(3)] num unfolding usage_of_def map_sum_of_nat [OF fin] by simp
qed

text \<open>C7: whatever the service has been asked to do, in whatever order and with whatever outcome, the
  used-bytes counter of a store is the sum of the sizes of its regular files, the counters of every
  user and group are the sum and the number of the regular files they own, and the index of object
  ids maps an id to a file exactly when that file carries the id, as long as the counts fit their
  machine integers.\<close>

theorem usage_counters_exact:
  assumes "uuid_ok U" "new_service s0" "md_run U s0 s"
  shows "sint (msUsedBytes (svHeap s r)) = int (bytes_in (svHeap s r) (regular_files (svHeap s r)))
    \<and> sint (usBytes (quota_get (msQuota (svHeap s r)) k)) = int (bytes_in (svHeap s r) (charged_files (svHeap s r) k))
    \<and> sint (usFiles (quota_get (msQuota (svHeap s r)) k)) = int (card (charged_files (svHeap s r) k))
    \<and> (msObjectIndex (svHeap s r) oid = Some h \<longleftrightarrow> oid \<noteq> 0 \<and> object_of (svHeap s r) h = oid)"
proof -
  have inv: "counters_exact (svHeap s r)" "objects_exact (svHeap s r)" using md_run_inv [OF assms] by blast+
  have fit: "fits (svHeap s r)" using md_run_fits [OF assms(3,2)] by (simp add: fits_all_def)
  have q: "quota_get (msQuota (svHeap s r)) k = usage_of (msFiles (svHeap s r)) k"
    using inv(1) unfolding counters_exact_def by blast
  show ?thesis
    using sum_files(1) [OF _ fit] sum_files(2,3) [OF _ fit, of k] inv q unfolding counters_exact_def objects_exact_def by simp
qed

lemma demo_fresh: "fresh_id demo_uuid demo_service 1" "fresh_id demo_uuid demo_s1 2"
  by (auto simp: fresh_id_def fresh_handle_def demo_service_def demo_s1_def demo_store1_def NewMemoryMetadataStore_def
      EncodeShareHandle_def demo_uuid_def Let_def split: if_splits)

lemma demo_fits: "fits_all demo_s1" "fits_all demo_s2"
  by (auto simp: fits_all_def fits_def total_bytes_def file_bytes_def demo_defs)

lemma demo_service_run: "md_run demo_uuid demo_service demo_s2"
proof (rule run_step)
  show "md_run demo_uuid demo_service demo_s1"
    by (rule run_step [OF run_start s_new_share [OF demo_fresh(1) _ _ _ _ demo_new_share]])
      (simp_all add: demo_fits demo_service_def NewMemoryMetadataStore_def blank_attr_def)
  show "md_step demo_uuid demo_s1 demo_s2" by (rule s_create_file [OF demo_fresh(2) demo_create])
qed (rule demo_fits)

theorem usage_counters_exact_witness:
  "uuid_ok demo_uuid \<and> new_service demo_service \<and> md_run demo_uuid demo_service demo_s2 \<and>
   sint (usFiles (quota_get (msQuota (svHeap demo_s2 0)) (QuotaScopeUser, 0))) =
     int (card (charged_files (svHeap demo_s2 0) (QuotaScopeUser, 0)))"
proof -
  have "new_service demo_service" by (simp add: new_service_def demo_service_def)
  then show ?thesis
    using usage_counters_exact [OF demo_uuid_ok _ demo_service_run, of 0 "(QuotaScopeUser, 0)"] demo_uuid_ok demo_service_run by blast
qed

end
