(* ===== verification/Spec2Isabelle.thy ===== *)
theory Spec2Isabelle
  imports ACL_Inherit ACL_Mode Lock_Sweep Lock_Protocol Deadlock Grace GSS_Window SMB_Credits NFS4_Opens XDR_Messages MD_Usage
begin

text \<open>
  \<^bold>\<open>Verification of the metadata, access-control, locking and protocol-state core of DittoFS.\<close>

  DittoFS serves one namespace over NFS (v3 with NLM, v4) and SMB2/3.  The metadata service of
  \<open>pkg/metadata\<close> keeps files, directories, links and usage counters in a store per share.  It decides
  permissions with the access control lists of \<open>pkg/metadata/acl\<close>, and beside it the lock manager of
  \<open>pkg/metadata/lock\<close> arbitrates SMB byte-range locks, NLM and NFSv4 locks, leases and delegations on the
  same files.  In front of them each adapter guards its connections and protocol state: RPCSEC_GSS requests pass a
  sequence window, NFSv4.1 requests a slot table, NFSv4 opens the state manager, SMB2 requests a message-id window
  and credit accounting, and a blocking SMB lock passes a deadlock check before it waits.  This library models
  these parts and proves what their callers rely on.

  \<^bold>\<open>Conventions.\<close>  A Go struct is a record with prefixed fields, an enumeration a datatype
  or a word constant, an integer of width \<open>w\<close> a \<open>w word\<close> wherever overflow or bit
  operations matter.  A method takes its receiver as an argument and returns it updated.  Errors are
  values of an option or sum type, and each early return is a branch; a nil dereference is the error
  \<open>RuntimePanic\<close> where a caller can reach it.  Maps are
  HOL maps, or association lists where the code iterates over them.  Mutexes make each operation
  atomic, so concurrency is the interleaving of operations, as a list of calls or a step relation.
  Identifiers from the UUID library are arguments (a name or a supply of names), its printing and parsing the
  parameter \<open>uuid_package\<close> with the law \<open>uuid_ok\<close>: parsing reads back what printing
  wrote.  Clocks are arguments.

  \<^bold>\<open>Access control\<close> (\<open>pkg/metadata/acl\<close>).
  \<^item> \<open>ACL_Types\<close>: \<open>types.go\<close>, \<open>flags.go\<close>, \<open>generic.go\<close>,
    \<open>validate.go\<close>.  Validation accepts exactly the lists within the count and size limits;
    generic rights and flag layouts are translated without loss.
  \<^item> \<open>ACL_Evaluate\<close>: \<open>evaluate.go\<close>.  The mutable-mask loop equals first match
    wins, bit by bit, with the owner's implicit rights; the one-pass computation of all granted bits
    equals probing each.
  \<^item> \<open>ACL_Inherit\<close>: \<open>inherit.go\<close>.  The inheritance loop equals a rule per parent
    entry; its results are well formed; propagation is idempotent below an auto-inherited parent.
  \<^item> \<open>ACL_Mode\<close>: \<open>mode.go\<close>, \<open>synthesize.go\<close>, \<open>probe.go\<close>,
    \<open>share_grant.go\<close>.  Mode to list to mode is the identity; chmod sets what it should;
    a share root grants exactly what the share's grants add up to.

  \<^bold>\<open>Locks\<close> (\<open>pkg/metadata/lock\<close>, \<open>pkg/metadata/store/memory/locks.go\<close>).
  \<^item> \<open>Lock_Types\<close>: \<open>types.go\<close>, \<open>oplock.go\<close> and the byte-range predicates of
    \<open>manager.go\<close> on 64-bit words; overlap is sharing a byte; staged lease breaks converge.
  \<^item> \<open>Lock_Store\<close>: \<open>store.go\<close> and the in-memory store; round trip and last write wins.
  \<^item> \<open>Lock_Ranges\<close>: splitting and merging of ranges keep exactly the bytes they should.
  \<^item> \<open>Lock_Index\<close>: reference-counted reverse indexes (\<open>indexes.go\<close>), with the locale
    \<open>ref_index\<close> for what a sweep needs of them, interpreted on the manager's indexes.
  \<^item> \<open>Lock_Manager\<close>: the manager's state and byte-range operations, persistence calls included.
  \<^item> \<open>Lock_Safety\<close>: I/O checks and previews are exact; unlock releases exactly its range.
  \<^item> \<open>Lock_Sweep\<close>: the indexes agree with the tables in every reachable state, so the
    indexed client sweep removes what a full scan would.
  \<^item> \<open>Lock_Breaks\<close>, \<open>Lock_Leases\<close>: lease and delegation breaks of \<open>manager.go\<close>
    and the requests, upgrades, acknowledgments and releases of \<open>leases.go\<close>; a notification is the value
    handed to its callback, a wait a step that is resumed.  \<open>Lock_Rights\<close> and \<open>Lock_Coherence\<close>
    show what each operation keeps of the caching rights.
  \<^item> \<open>Lock_Protocol\<close>: all operations as one step relation; in every reachable state a byte held
    exclusively has one owner, across protocols, and a lease that may cache writes is alone on its file.
  \<^item> \<open>Deadlock\<close>: the wait-for graph of \<open>deadlock.go\<close> and its use by
    \<open>lock_async.go\<close>; the search is reachability and atomic parking never closes a cycle.
  \<^item> \<open>Grace\<close>: \<open>grace.go\<close> with its timers as events; one callback per period.

  \<^bold>\<open>Connections and protocol state.\<close>
  \<^item> \<open>Replay_Guard\<close>: bitmaps, and the locale \<open>replay_guard\<close>: from what one step
    takes, no run takes a number twice.  It is interpreted on the code's models.
  \<^item> \<open>GSS_Window\<close>: \<open>internal/adapter/nfs/rpc/gss/sequence.go\<close>; the window equals a
    reference that remembers everything, and is a replay guard.
  \<^item> \<open>SMB_Window\<close>: \<open>internal/adapter/smb/session/sequence_window.go\<close>; the window
    refines a set of ids with unbounded counters, and is a replay guard.
  \<^item> \<open>SMB_Credits\<close>: \<open>credits.go\<close>, \<open>credit_validation.go\<close>,
    \<open>manager.go\<close>, \<open>session.go\<close> of the same package and the credit gate of
    \<open>internal/adapter/smb/response.go\<close>; charges are validated exactly, grants stay within the
    configuration, session ids are not reused, and a client whose requests were answered can always
    send another.
  \<^item> \<open>Slot_Table\<close>: \<open>internal/adapter/nfs/v4/state/slot_table.go\<close> and its use by SEQUENCE;
    each slot runs its requests once and in order, and replays the cached reply.
  \<^item> \<open>NFS4_State\<close>, \<open>NFS4_Opens\<close>, \<open>NFS4_Grace\<close>: \<open>manager.go\<close>,
    \<open>openowner.go\<close>, \<open>stateid.go\<close>, \<open>lease.go\<close>, \<open>grace.go\<close> of the same
    package; share reservations hold in every reachable state, and the grace period admits exactly whom it should.
  \<^item> \<open>XDR_Core\<close>, \<open>XDR_Messages\<close>: \<open>internal/adapter/nfs/xdr/core\<close> and the attribute
    bitmaps; encoding and decoding round-trip, and decoding arbitrary bytes stays within its limits.

  \<^bold>\<open>Metadata\<close> (\<open>pkg/metadata\<close>).
  \<^item> \<open>MD_Types\<close>: files, attributes, identities, handles, and the checks of \<open>validation.go\<close>.
  \<^item> \<open>MD_Store\<close>: the in-memory store (\<open>store/memory/store.go\<close>, \<open>transaction.go\<close>,
    \<open>files.go\<close>) as a record of its maps; a transaction is a function that returns an error or the new
    state with its pending usage deltas, and \<open>WithTransaction\<close> commits or rolls back.
  \<^item> \<open>MD_Service\<close>: \<open>service.go\<close> with the trackers for pending writes and directory times,
    cookies and quotas.  Stores live on a heap, since several shares may use one.
  \<^item> \<open>MD_Access\<close>: \<open>auth_permissions.go\<close>, on top of the access control lists.
  \<^item> \<open>MD_Namespace\<close>: \<open>file_create.go\<close>, \<open>file_remove.go\<close>, \<open>directory.go\<close>
    and the lookups and \<open>Move\<close> of \<open>file_modify.go\<close>, each as the checks before its transaction, the
    transaction, and what follows it.
  \<^item> \<open>MD_IO\<close>: \<open>SetFileAttributes\<close> and \<open>io.go\<close>.
  \<^item> \<open>MD_Tx\<close>, \<open>MD_Steps\<close>: the effect of every operation on a store as a sequence of a few
    kinds of step, and the operations as one step relation.
  \<^item> \<open>MD_Usage\<close>: the usage counters and the content index equal a scan of the files in every reachable
    state.  \<open>MD_Demo\<close> is a concrete service for the witnesses.

  \<open>Ditto_Prelude\<close> holds the word widths, bit-mask lemmas and the string functions of the Go
  standard library the code uses.

  \<^bold>\<open>Bounds.\<close>  Recursion is structural or has a measure (the wait-for search: owners not yet
  visited); the walk to the root that derives a path stops after 4096 steps, as the code's does.
  Statements about the SMB2 window range over runs of up to
  \<open>2 ^ 40\<close> calls; each call hands out at most \<open>2 ^ 16\<close> ids, so the 64-bit ids do not run
  out within a run.  The RPCSEC_GSS statements assume a window of at most \<open>2 ^ 32 - 64\<close>
  numbers, above which the code's bitmap size wraps.  Double precision arithmetic of the adaptive grant
  strategy is rational arithmetic rounded to 53 bits; conversions out of range keep the low bits.
  Statements about usage counters range over runs in which a store never holds \<open>2 ^ 63\<close> bytes or files and
  no link count reaches the largest 32-bit number, since the code's counters are signed 64-bit and 32-bit integers;
  new files get identifiers that are not in use.

  \<^bold>\<open>Where the code departs from its intent\<close>, lemmas in the last section of the theories
  exhibit it on a concrete input.

  \<^bold>\<open>Not modelled.\<close>  Lock limits and connection tracking, the NFS and SMB request handlers, NFSv4
  callbacks and session creation, the recycle bin, extended-attribute streams, share registration and deletion of
  a share within a run, metadata stores on databases, the block engine, cryptography, and the control plane.
  Within an operation of the metadata service the checks before the transaction and the transaction are one step,
  so races between the two are outside the model.  Logging, metrics and error texts carry no decision and are
  left out throughout.
\<close>

end
